(* ===== verification/Prelude.thy ===== *)
theory Prelude
  imports Main "HOL-Library.Word"
begin

text \<open>
  The vocabulary every component of the model shares: the C integer types, the
  truncating casts, runs of a tick-driven state machine over a list of inputs, and
  the contract (locale \<open>tick_fsm\<close>) that every such machine of the firmware meets.
  The lemmas on words are the ones the component proofs need again and again:
  wrap-safe elapsed time, saturating counters and down counters.
\<close>

unbundle bit_operations_syntax

section \<open>C integer types\<close>

type_synonym u8 = "8 word"
type_synonym u16 = "16 word"
type_synonym u32 = "32 word"

named_theorems fsm_defs \<open>the definitions of the step functions\<close>
named_theorems fsm_consts \<open>named constants of the C headers\<close>

text \<open>A C comparison or a normalising \<open>x ? 1u : 0u\<close> as a byte.\<close>

definition b2u :: "bool \<Rightarrow> u8" where
  "b2u b = (if b then 1 else 0)"

lemma b2u_simps [simp]:
  "b2u True = 1" "b2u False = 0"
  "(b2u b = 0) = (\<not> b)" "(b2u b = 1) = b" "(0 = b2u b) = (\<not> b)"
  by (auto simp: b2u_def)

text \<open>The two bytes of a 16-bit value as the code packs them: high byte first.\<close>

definition be16 :: "u8 \<Rightarrow> u8 \<Rightarrow> u16" where
  "be16 h l = push_bit 8 (ucast h) OR ucast l"

definition hi8 :: "u16 \<Rightarrow> u8" where
  "hi8 v = ucast (drop_bit 8 v)"

definition lo8 :: "u16 \<Rightarrow> u8" where
  "lo8 v = ucast v"

lemma bit_be16:
  "bit (be16 h l) n = (if n < 8 then bit l n else n < 16 \<and> bit h (n - 8))"
  by (auto simp: be16_def bit_or_iff bit_push_bit_iff bit_ucast_iff
      dest: bit_imp_le_length)

lemma hi8_be16 [simp]: "hi8 (be16 h l) = h"
  by (rule bit_word_eqI) (auto simp: hi8_def bit_ucast_iff bit_drop_bit_eq bit_be16)

lemma lo8_be16 [simp]: "lo8 (be16 h l) = l"
  by (rule bit_word_eqI) (auto simp: lo8_def bit_ucast_iff bit_be16)

lemma be16_hi_lo [simp]: "be16 (hi8 v) (lo8 v) = v"
  by (rule bit_word_eqI)
    (auto simp: bit_be16 hi8_def lo8_def bit_ucast_iff bit_drop_bit_eq)

text \<open>Casts: widening keeps the value, narrowing takes it modulo the width.\<close>

lemma unat_ucast_mod: "unat (ucast x :: 'b::len word) = unat x mod 2 ^ LENGTH('b)"
  for x :: "'a::len word"
  by (simp add: unsigned_ucast_eq take_bit_eq_mod)

lemma unat_bounds: "unat (a :: u8) < 256" "unat (b :: u16) < 65536" "unat (c :: u32) < 4294967296"
  by (rule order_less_le_trans [OF unsigned_less], simp)+

lemma unat_ucast_widen:
  "unat (ucast (a :: u8) :: u16) = unat a"
  "unat (ucast (a :: u8) :: u32) = unat a"
  "unat (ucast (b :: u16) :: u32) = unat b"
  using unat_bounds(1) [of a] unat_bounds(2) [of b] by (simp_all add: unat_ucast_mod)

lemma unat_ucast_narrow:
  "unat (ucast (c :: u32) :: u16) = unat c mod 65536"
  "unat (ucast (b :: u16) :: u8) = unat b mod 256"
  "unat (ucast (c :: u32) :: u8) = unat c mod 256"
  by (simp_all add: unat_ucast_mod)

lemmas unat_casts = unat_ucast_widen unat_ucast_narrow

lemma unat_mult_small:
  fixes a b :: "'a::len word"
  assumes "unat a * unat b < 2 ^ LENGTH('a)"
  shows "unat (a * b) = unat a * unat b"
  using assms by (simp add: unat_word_ariths)

section \<open>Counters\<close>

text \<open>\<open>if (x < 0xFFFFu) { x++; }\<close>, the saturating tick counter.\<close>

definition sat_inc :: "u16 \<Rightarrow> u16" where
  "sat_inc x = (if x < 0xFFFF then x + 1 else x)"

lemma word_inc_unat:
  fixes x y :: "'a::len word"
  assumes "x < y"
  shows "unat (x + 1) = Suc (unat x)"
proof -
  have "unat x < unat y" using assms by (simp add: word_less_nat_alt)
  moreover have "unat y < 2 ^ LENGTH('a)" by (rule unsigned_less)
  ultimately have "Suc (unat x) < 2 ^ LENGTH('a)" by linarith
  then show ?thesis by (simp add: unat_word_ariths)
qed

lemma unat_sat_inc: "unat (sat_inc x) = min 65535 (Suc (unat x))"
proof (cases "x < 0xFFFF")
  case True
  then have "unat x < 65535" by (simp add: word_less_nat_alt)
  then show ?thesis
    using word_inc_unat [OF True] by (simp add: sat_inc_def True)
next
  case False
  then have "65535 \<le> unat x" by (simp add: word_less_nat_alt)
  moreover have "unat x < 65536" using unsigned_less [of x] by simp
  ultimately show ?thesis using False by (simp add: sat_inc_def)
qed

text \<open>A deadline of m ticks on a saturating counter.\<close>

lemma sat_inc_ge:
  assumes "0 < m" "m \<le> 65535"
  shows "of_nat m \<le> sat_inc e \<longleftrightarrow> m - 1 \<le> unat e"
proof -
  have "unat (of_nat m :: u16) = m" using assms by (simp add: unat_of_nat)
  then have "of_nat m \<le> sat_inc e \<longleftrightarrow> m \<le> min 65535 (Suc (unat e))"
    by (simp only: word_le_nat_alt unat_sat_inc)
  also have "\<dots> \<longleftrightarrow> m - 1 \<le> unat e" using assms by auto
  finally show ?thesis .
qed

text \<open>\<open>if (t > 0u) { t--; }\<close>, the tick-down timer.\<close>

definition tick_down :: "u16 \<Rightarrow> u16" where
  "tick_down t = (if 0 < t then t - 1 else t)"

lemma unat_tick_down [simp]: "unat (tick_down t) = unat t - 1"
proof (cases "0 < t")
  case True
  then have "1 \<le> t" by (simp add: word_less_nat_alt word_le_nat_alt Suc_le_eq)
  then show ?thesis using True by (simp add: tick_down_def unat_sub)
next
  case False
  then show ?thesis by (simp add: tick_down_def word_less_nat_alt)
qed

lemma tick_down_eq_0: "tick_down t = 0 \<longleftrightarrow> unat t \<le> 1"
proof -
  have "tick_down t = 0 \<longleftrightarrow> unat (tick_down t) = 0" by (rule unat_eq_0 [symmetric])
  also have "\<dots> \<longleftrightarrow> unat t \<le> 1" by (simp only: unat_tick_down) linarith
  finally show ?thesis .
qed

section \<open>Wrap-safe elapsed time\<close>

text \<open>
  Every deadline of the firmware compares \<open>(uint32_t)(now - stamp)\<close> with a limit.
  The difference is right even when the millisecond counter has wrapped between the
  stamp and now, as long as less than \<open>2 ^ 32\<close> ms passed.
\<close>

definition elapsed :: "u32 \<Rightarrow> u32 \<Rightarrow> u32" where
  "elapsed now stamp = now - stamp"

lemma elapsed_self [simp]: "elapsed t t = 0"
  by (simp add: elapsed_def)

lemma elapsed_add: "elapsed (t + d) t = d"
  by (simp add: elapsed_def)

lemma unat_elapsed_nat: "k < 2 ^ 32 \<Longrightarrow> unat (elapsed (t + of_nat k) t) = k"
  by (simp add: elapsed_add unat_of_nat)

section \<open>Runs of a tick-driven machine\<close>

text \<open>
  A machine step takes the input of one tick and the static variables of its file and
  returns the new variables with the output structure.
\<close>

fun fsm_run :: "('i \<Rightarrow> 's \<Rightarrow> 's \<times> 'o) \<Rightarrow> 's \<Rightarrow> 'i list \<Rightarrow> 's \<times> 'o list" where
  "fsm_run step s [] = (s, [])"
| "fsm_run step s (i # is) =
     (let (s', out) = step i s; (s'', outs) = fsm_run step s' is in (s'', out # outs))"

lemma fsm_run_Cons:
  "fst (fsm_run step s (i # is)) = fst (fsm_run step (fst (step i s)) is)"
  "snd (fsm_run step s (i # is)) =
     snd (step i s) # snd (fsm_run step (fst (step i s)) is)"
  by (simp_all add: case_prod_unfold Let_def)

lemma fsm_run_append:
  "fst (fsm_run step s (xs @ ys)) = fst (fsm_run step (fst (fsm_run step s xs)) ys)"
  "snd (fsm_run step s (xs @ ys)) =
     snd (fsm_run step s xs) @ snd (fsm_run step (fst (fsm_run step s xs)) ys)"
  by (induction xs arbitrary: s) (simp_all add: case_prod_unfold Let_def)

lemma length_fsm_run [simp]: "length (snd (fsm_run step s is)) = length is"
  by (induction "is" arbitrary: s) (simp_all add: case_prod_unfold Let_def)

text \<open>
  The contract of a machine: an invariant of its static variables that boot
  establishes and every tick keeps, whatever the input.
\<close>

locale tick_fsm =
  fixes init :: 's
    and step :: "'i \<Rightarrow> 's \<Rightarrow> 's \<times> 'o"
    and inv :: "'s \<Rightarrow> bool"
  assumes inv_init: "inv init"
    and inv_step: "inv s \<Longrightarrow> inv (fst (step i s))"
begin

lemma inv_run: "inv s \<Longrightarrow> inv (fst (fsm_run step s is))"
  by (induction "is" arbitrary: s) (simp_all add: case_prod_unfold Let_def inv_step)

lemma inv_boot_run: "inv (fst (fsm_run step init is))"
  by (rule inv_run) (rule inv_init)

end

text \<open>
  The extended contract: every output a reachable state produces satisfies a
  promise that relates it to the new state.
\<close>

locale tick_fsm_out = tick_fsm init step inv
  for init :: 's and step :: "'i \<Rightarrow> 's \<Rightarrow> 's \<times> 'o" and inv :: "'s \<Rightarrow> bool" +
  fixes good :: "'s \<Rightarrow> 'o \<Rightarrow> bool"
  assumes good_step: "inv s \<Longrightarrow> good (fst (step i s)) (snd (step i s))"
begin

lemma good_run_last:
  "inv s \<Longrightarrow> is \<noteq> [] \<Longrightarrow>
     good (fst (fsm_run step s is)) (last (snd (fsm_run step s is)))"
proof (induction "is" arbitrary: s)
  case Nil
  then show ?case by simp
next
  case (Cons i "is")
  show ?case
  proof (cases "is = []")
    case True
    with Cons.prems show ?thesis by (simp add: case_prod_unfold Let_def good_step)
  next
    case False
    then have "snd (fsm_run step (fst (step i s)) is) \<noteq> []"
      by (metis length_fsm_run length_0_conv)
    with False Cons show ?thesis
      by (simp add: fsm_run_Cons inv_step del: fsm_run.simps)
  qed
qed

end

text \<open>
  Where every output of a machine also determines a level (a relay, a beam, a
  power stage) by its edges, that level is the fold of the edges.
\<close>

fun level_after :: "('o \<Rightarrow> bool) \<Rightarrow> ('o \<Rightarrow> bool) \<Rightarrow> bool \<Rightarrow> 'o list \<Rightarrow> bool" where
  "level_after on off l [] = l"
| "level_after on off l (e # es) =
     level_after on off (if on e then True else if off e then False else l) es"

locale edge_level = tick_fsm init step inv
  for init :: 's and step :: "'i \<Rightarrow> 's \<Rightarrow> 's \<times> 'o" and inv :: "'s \<Rightarrow> bool" +
  fixes on off :: "'o \<Rightarrow> bool" and active :: "'s \<Rightarrow> bool"
  assumes active_init: "\<not> active init"
    and active_step:
      "inv s \<Longrightarrow> active (fst (step i s)) =
         (if on (snd (step i s)) then True
          else if off (snd (step i s)) then False else active s)"
begin

lemma level_run:
  "inv s \<Longrightarrow> level_after on off (active s) (snd (fsm_run step s is)) =
     active (fst (fsm_run step s is))"
proof (induction "is" arbitrary: s)
  case Nil
  then show ?case by simp
next
  case (Cons i "is")
  from Cons.prems have "inv (fst (step i s))" by (rule inv_step)
  from Cons.IH [OF this] show ?case
    by (simp only: fsm_run_Cons level_after.simps active_step [OF Cons.prems, of i])
qed

lemma level_boot_run:
  "level_after on off False (snd (fsm_run step init is)) =
     active (fst (fsm_run step init is))"
  using level_run [OF inv_init, of "is"] active_init by simp

end

section \<open>Timed phases\<close>

text \<open>
  A phase of a machine that a down count of ticks ends: while more than one tick is
  left the machine waits and shows the same output, at the last one it leaves. Inputs
  are constrained only by \<open>ok\<close>. The run of a whole phase follows once for all.
\<close>

locale tick_phase =
  fixes step :: "'i \<Rightarrow> 's \<Rightarrow> 's \<times> 'o"
    and obs :: "'o \<Rightarrow> 'b"
    and ok :: "'i \<Rightarrow> bool"
    and left :: "'s \<Rightarrow> nat \<Rightarrow> bool"
    and wait_obs leave_obs :: 'b
    and after :: "'s \<Rightarrow> bool"
  assumes wait:
      "left s t \<Longrightarrow> ok i \<Longrightarrow> 1 < t \<Longrightarrow>
         left (fst (step i s)) (t - 1) \<and> obs (snd (step i s)) = wait_obs"
    and leave:
      "left s t \<Longrightarrow> ok i \<Longrightarrow> t \<le> 1 \<Longrightarrow>
         after (fst (step i s)) \<and> obs (snd (step i s)) = leave_obs"
begin

lemma wait_run:
  assumes "left s (k + t)" "0 < t" "\<forall>i \<in> set is. ok i" "length is = k"
  shows "map obs (snd (fsm_run step s is)) = replicate k wait_obs \<and>
    left (fst (fsm_run step s is)) t"
  using assms
proof (induction "is" arbitrary: s k)
  case Nil
  then show ?case by simp
next
  case (Cons i "is")
  then obtain m where k: "k = Suc m" by (cases k) auto
  from wait [of s "k + t" i] Cons.prems k
  have "left (fst (step i s)) (m + t)" "obs (snd (step i s)) = wait_obs" by simp_all
  with Cons.IH [of "fst (step i s)" m] Cons.prems k
  show ?case by (simp add: fsm_run_Cons del: fsm_run.simps(2))
qed

lemma phase_run:
  assumes "left s t" "\<forall>i \<in> set is. ok i" "length is = max 1 t"
  shows "map obs (snd (fsm_run step s is)) = replicate (max 1 t - 1) wait_obs @ [leave_obs] \<and>
    after (fst (fsm_run step s is))"
proof -
  from assms(3) have "is \<noteq> []" by auto
  then obtain js j where js: "is = js @ [j]" by (meson rev_exhaust)
  have len: "length js = t - 1" using assms(3) js by (simp add: max_def split: if_splits)
  have waited: "map obs (snd (fsm_run step s js)) = replicate (t - 1) wait_obs \<and>
    left (fst (fsm_run step s js)) (min 1 t)"
  proof (cases "t = 0")
    case True
    then show ?thesis using assms(1) len by simp
  next
    case False
    then show ?thesis
      using wait_run [of s "t - 1" 1 js] assms(1,2) len js by (simp add: min_def)
  qed
  have "max 1 t - 1 = t - 1" by simp
  with waited leave [of "fst (fsm_run step s js)" "min 1 t" j] assms(2)
  show ?thesis by (simp add: js fsm_run_append fsm_run_Cons del: fsm_run.simps(2))
qed

end

end
