(* ===== verification/Weld_Fsm.thy ===== *)
theory Weld_Fsm
  imports Prelude
begin

text \<open>
  The press weld cycle, \<open>fw/src/app_weld_fsm.c\<close> and its header: the pneumatic
  cylinder goes down (CYL1), the ultrasonic welds (WELD), the part is held (HOLD) and
  the cylinder goes up (CYL2). One step is one 10 ms tick. The file-static variables
  are the record \<open>weld_st\<close>; the input and output structures keep their C fields.
  All flags are bytes, as in the code: a test is a comparison with 0.
\<close>

section \<open>Data\<close>

abbreviation (input) WELD_READY :: u8 where "WELD_READY \<equiv> 0"
abbreviation (input) WELD_CYL1 :: u8 where "WELD_CYL1 \<equiv> 1"
abbreviation (input) WELD_WELD :: u8 where "WELD_WELD \<equiv> 2"
abbreviation (input) WELD_HOLD :: u8 where "WELD_HOLD \<equiv> 3"
abbreviation (input) WELD_CYL2 :: u8 where "WELD_CYL2 \<equiv> 4"
abbreviation (input) WELD_COMP_FULL :: u16 where "WELD_COMP_FULL \<equiv> 7"
abbreviation (input) WELD_TICKS_PER_SEC :: u32 where "WELD_TICKS_PER_SEC \<equiv> 100"

record weld_in =
  wi_start :: u8
  wi_run_mode :: u8
  wi_limit_delay_time1 :: u16
  wi_limit_delay_time2 :: u16
  wi_limit_delay_time3 :: u16
  wi_output_power :: u8
  wi_energy_ctrl :: u8
  wi_curr_energy :: u32
  wi_limit_energy :: u32
  wi_limit_out_time :: u16
  wi_multi_ctrl :: u8
  wi_limit_mo_out1 :: u8
  wi_limit_mo_out2 :: u8
  wi_limit_mo_time1 :: u16
  wi_limit_mo_time2 :: u16
  wi_abort :: u8
  wi_limit_trigger_time2 :: u16
  wi_limit_trigger_time3 :: u16
  wi_dn_edge :: u8
  wi_up_edge :: u8

record weld_out =
  wo_run_status :: u8
  wo_sol_dn :: u8
  wo_weld_start :: u8
  wo_weld_stop :: u8
  wo_amplitude :: u8
  wo_cycle_done :: u8
  wo_weld_fault :: u8
  wo_amp_change :: u8

record weld_st =
  w_run_status :: u8
  w_f_status_start :: u8
  w_temp_time :: u16
  w_comp_time :: u16
  w_sol_dn :: u8
  w_multi_stage :: u8
  w_multi_elapsed :: u16
  w_latched_multi :: u8
  w_latched_energy :: u8
  w_run_mode :: u8
  w_dn_pressed :: u8
  w_up_pressed :: u8

definition weld_fsm_init :: weld_st where
  "weld_fsm_init = \<lparr>
     w_run_status = WELD_READY, w_f_status_start = 0, w_temp_time = 0,
     w_comp_time = WELD_COMP_FULL, w_sol_dn = 0, w_multi_stage = 0,
     w_multi_elapsed = 0, w_latched_multi = 0, w_latched_energy = 0,
     w_run_mode = 0, w_dn_pressed = 0, w_up_pressed = 0\<rparr>"

definition weld_fsm_status :: "weld_st \<Rightarrow> u8" where
  "weld_fsm_status s = w_run_status s"

text \<open>\<open>memset(out, 0, sizeof(*out))\<close>.\<close>

definition weld_out_zero :: weld_out where
  "weld_out_zero = \<lparr>wo_run_status = 0, wo_sol_dn = 0, wo_weld_start = 0, wo_weld_stop = 0,
     wo_amplitude = 0, wo_cycle_done = 0, wo_weld_fault = 0, wo_amp_change = 0\<rparr>"

section \<open>Operations\<close>

definition weld_backstop_ticks :: "u16 \<Rightarrow> u16" where
  "weld_backstop_ticks limit_out_time_sec =
     (let t = (if limit_out_time_sec = 0 then 1 else limit_out_time_sec)
      in ucast (ucast t * WELD_TICKS_PER_SEC))"

text \<open>
  The amplitude is computed in 32 bits and truncated at each cast, as the C integer
  promotions have it.
\<close>

definition weld_amplitude :: "u8 \<Rightarrow> u16 \<Rightarrow> u8" where
  "weld_amplitude output_power comp_time =
     (let amp = (ucast ((ucast (ucast (ucast output_power - (50 :: u32)) :: u16) * (255 :: u32))
                 div 100) :: u16)
      in if comp_time < WELD_COMP_FULL
         then (let reduction = (ucast ((7 - ucast comp_time :: u32) * 10) :: u16)
               in ucast (if reduction \<le> amp then amp - reduction else 0))
         else ucast amp)"

definition weld_mo_amplitude :: "u8 \<Rightarrow> u8" where
  "weld_mo_amplitude mo_out =
     (if mo_out < 50 then 0
      else ucast ((ucast (ucast (ucast mo_out - (50 :: u32)) :: u16) * (255 :: u32)) div 100))"

definition enter_weld :: "weld_in \<Rightarrow> u16 \<Rightarrow> weld_st \<Rightarrow> weld_st" where
  "enter_weld i weld_time s =
     (let s = s\<lparr>w_f_status_start := 0, w_run_status := WELD_WELD,
                w_latched_multi := wi_multi_ctrl i, w_latched_energy := wi_energy_ctrl i,
                w_multi_stage := 0, w_multi_elapsed := 0,
                w_comp_time := (if weld_time > 6 then WELD_COMP_FULL else weld_time)\<rparr>
      in if w_latched_energy s \<noteq> 0
         then s\<lparr>w_temp_time := weld_backstop_ticks (wi_limit_out_time i)\<rparr>
         else s\<lparr>w_temp_time := (if weld_time > 6 then weld_time else WELD_COMP_FULL)\<rparr>)"

definition hold_time :: "weld_in \<Rightarrow> weld_st \<Rightarrow> u16" where
  "hold_time i s =
     (if w_run_mode s \<noteq> 0 then wi_limit_trigger_time3 i else wi_limit_delay_time3 i)"

definition weld_abort_body :: "weld_st \<Rightarrow> weld_out \<Rightarrow> weld_st \<times> weld_out" where
  "weld_abort_body s out =
     (let out = (if w_run_status s = WELD_WELD then out\<lparr>wo_weld_stop := 1\<rparr> else out);
          s = s\<lparr>w_sol_dn := 0, w_run_status := WELD_READY, w_f_status_start := 0,
                w_temp_time := 0, w_multi_stage := 0, w_multi_elapsed := 0,
                w_latched_multi := 0, w_latched_energy := 0, w_run_mode := 0,
                w_dn_pressed := 0, w_up_pressed := 0\<rparr>
      in (s, out\<lparr>wo_run_status := w_run_status s, wo_sol_dn := w_sol_dn s\<rparr>))"

definition weld_step_cyl1 :: "weld_in \<Rightarrow> weld_st \<Rightarrow> weld_st" where
  "weld_step_cyl1 i s =
     (if w_f_status_start s = 0 then s\<lparr>w_f_status_start := 1, w_sol_dn := 1\<rparr>
      else if w_run_mode s \<noteq> 0 then
        (if w_dn_pressed s \<noteq> 0
         then enter_weld i (wi_limit_trigger_time2 i) (s\<lparr>w_dn_pressed := 0\<rparr>)
         else s)
      else if w_temp_time s = 0 then enter_weld i (wi_limit_delay_time2 i) s
      else s)"

text \<open>The exit to HOLD that the three ways out of WELD share line by line.\<close>

definition weld_to_hold :: "weld_in \<Rightarrow> weld_st \<Rightarrow> weld_st" where
  "weld_to_hold i s =
     s\<lparr>w_f_status_start := 0, w_run_status := WELD_HOLD, w_temp_time := hold_time i s\<rparr>"

definition weld_step_weld :: "weld_in \<Rightarrow> weld_st \<Rightarrow> weld_out \<Rightarrow> weld_st \<times> weld_out" where
  "weld_step_weld i s out =
     (if w_f_status_start s = 0 then
        (let s = s\<lparr>w_f_status_start := 1\<rparr>;
             (s, out) =
               (if w_latched_multi s \<noteq> 0
                then (s\<lparr>w_multi_stage := 0, w_multi_elapsed := 1\<rparr>,
                      out\<lparr>wo_amplitude := weld_mo_amplitude (wi_limit_mo_out1 i)\<rparr>)
                else (s, out\<lparr>wo_amplitude := weld_amplitude (wi_output_power i) (w_comp_time s)\<rparr>))
         in (s, out\<lparr>wo_weld_start := 1\<rparr>))
      else if w_latched_multi s \<noteq> 0 then
        (let s = s\<lparr>w_multi_elapsed := sat_inc (w_multi_elapsed s)\<rparr>;
             (s, out) =
               (if w_multi_stage s = 0 \<and> wi_limit_mo_time1 i \<le> w_multi_elapsed s
                then (s\<lparr>w_multi_stage := 1\<rparr>,
                      out\<lparr>wo_amplitude := weld_mo_amplitude (wi_limit_mo_out2 i),
                          wo_amp_change := 1\<rparr>)
                else (s, out))
         in if wi_limit_mo_time2 i \<le> w_multi_elapsed s
            then (weld_to_hold i s, out\<lparr>wo_weld_stop := 1\<rparr>)
            else (s, out))
      else if w_latched_energy s \<noteq> 0 then
        (if wi_limit_energy i \<noteq> 0 \<and> wi_limit_energy i \<le> wi_curr_energy i
         then (weld_to_hold i s, out\<lparr>wo_weld_stop := 1\<rparr>)
         else if w_temp_time s = 0
         then (s\<lparr>w_sol_dn := 0, w_f_status_start := 0, w_run_status := WELD_READY,
                 w_latched_multi := 0, w_latched_energy := 0\<rparr>,
               out\<lparr>wo_weld_stop := 1, wo_weld_fault := 1\<rparr>)
         else (s, out))
      else if w_temp_time s = 0
      then (weld_to_hold i s, out\<lparr>wo_weld_stop := 1\<rparr>)
      else (s, out))"

definition weld_step_hold :: "weld_in \<Rightarrow> weld_st \<Rightarrow> weld_st" where
  "weld_step_hold i s =
     (if w_f_status_start s = 0 then s\<lparr>w_f_status_start := 1\<rparr>
      else if w_temp_time s = 0 then
        (let s = s\<lparr>w_f_status_start := 0, w_run_status := WELD_CYL2,
                   w_temp_time := wi_limit_delay_time1 i\<rparr>
         in if w_run_mode s \<noteq> 0 then s\<lparr>w_up_pressed := 1\<rparr> else s)
      else s)"

definition weld_step_cyl2 :: "weld_st \<Rightarrow> weld_out \<Rightarrow> weld_st \<times> weld_out" where
  "weld_step_cyl2 s out =
     (if w_f_status_start s = 0 then (s\<lparr>w_f_status_start := 1, w_sol_dn := 0\<rparr>, out)
      else if w_run_mode s \<noteq> 0 then
        (if w_up_pressed s \<noteq> 0
         then (s\<lparr>w_up_pressed := 0, w_f_status_start := 0, w_run_status := WELD_READY,
                 w_latched_multi := 0, w_latched_energy := 0\<rparr>,
               out\<lparr>wo_cycle_done := 1\<rparr>)
         else (s, out))
      else if w_temp_time s = 0
      then (s\<lparr>w_f_status_start := 0, w_run_status := WELD_READY,
              w_latched_multi := 0, w_latched_energy := 0\<rparr>,
            out\<lparr>wo_cycle_done := 1\<rparr>)
      else (s, out))"

definition weld_step_ready :: "weld_in \<Rightarrow> weld_st \<Rightarrow> weld_st" where
  "weld_step_ready i s =
     (if wi_start i \<noteq> 0
      then s\<lparr>w_run_status := WELD_CYL1, w_run_mode := wi_run_mode i,
             w_temp_time := wi_limit_delay_time1 i, w_f_status_start := 0, w_dn_pressed := 0\<rparr>
      else s)"

text \<open>The prologue of a tick: the sensor edges are latched and the timer counts down.\<close>

definition weld_latch_edges :: "weld_in \<Rightarrow> weld_st \<Rightarrow> weld_st" where
  "weld_latch_edges i s =
     (let s = (if wi_dn_edge i \<noteq> 0 then s\<lparr>w_dn_pressed := 1\<rparr> else s);
          s = (if wi_up_edge i \<noteq> 0 then s\<lparr>w_up_pressed := 1\<rparr> else s)
      in s\<lparr>w_temp_time := tick_down (w_temp_time s)\<rparr>)"

definition weld_dispatch :: "weld_in \<Rightarrow> weld_st \<Rightarrow> weld_out \<Rightarrow> weld_st \<times> weld_out" where
  "weld_dispatch i s out =
     (if w_run_status s = WELD_READY then (weld_step_ready i s, out)
      else if w_run_status s = WELD_CYL1 then (weld_step_cyl1 i s, out)
      else if w_run_status s = WELD_WELD then weld_step_weld i s out
      else if w_run_status s = WELD_HOLD then (weld_step_hold i s, out)
      else if w_run_status s = WELD_CYL2 then weld_step_cyl2 s out
      else (s\<lparr>w_run_status := WELD_READY, w_sol_dn := 0, w_latched_multi := 0,
              w_latched_energy := 0\<rparr>, out))"

definition weld_fsm_step :: "weld_in \<Rightarrow> weld_st \<Rightarrow> weld_st \<times> weld_out" where
  "weld_fsm_step i s =
     (if wi_abort i \<noteq> 0 \<and> w_run_status s \<noteq> WELD_READY
      then weld_abort_body s weld_out_zero
      else (let (s, out) = weld_dispatch i (weld_latch_edges i s) weld_out_zero
            in (s, out\<lparr>wo_run_status := w_run_status s, wo_sol_dn := w_sol_dn s\<rparr>)))"

lemmas weld_defs [fsm_defs] =
  weld_fsm_step_def weld_dispatch_def weld_latch_edges_def weld_step_ready_def
  weld_step_cyl1_def weld_step_weld_def weld_step_hold_def weld_step_cyl2_def
  weld_abort_body_def enter_weld_def weld_to_hold_def hold_time_def weld_out_zero_def

section \<open>The invariant of the static variables\<close>

text \<open>Where in the cycle the cylinder is commanded down.\<close>

definition press_down :: "weld_st \<Rightarrow> bool" where
  "press_down s \<longleftrightarrow>
     (w_run_status s = WELD_CYL1 \<and> w_f_status_start s \<noteq> 0) \<or>
     w_run_status s = WELD_WELD \<or> w_run_status s = WELD_HOLD \<or>
     (w_run_status s = WELD_CYL2 \<and> w_f_status_start s = 0)"

definition weld_inv :: "weld_st \<Rightarrow> bool" where
  "weld_inv s \<longleftrightarrow>
     w_run_status s \<in> {WELD_READY, WELD_CYL1, WELD_WELD, WELD_HOLD, WELD_CYL2} \<and>
     w_sol_dn s = b2u (press_down s) \<and>
     (w_run_status s = WELD_READY \<longrightarrow>
        w_f_status_start s = 0 \<and> w_latched_multi s = 0 \<and> w_latched_energy s = 0)"

text \<open>The ultrasonic is on from the first WELD tick until the tick that leaves WELD.\<close>

definition weld_us_on :: "weld_st \<Rightarrow> bool" where
  "weld_us_on s \<longleftrightarrow> w_run_status s = WELD_WELD \<and> w_f_status_start s \<noteq> 0"

lemma weld_inv_init: "weld_inv weld_fsm_init"
  by (simp add: weld_inv_def weld_fsm_init_def press_down_def)

lemma weld_latch_edges_simps [simp]:
  "w_run_status (weld_latch_edges i s) = w_run_status s"
  "w_f_status_start (weld_latch_edges i s) = w_f_status_start s"
  "w_sol_dn (weld_latch_edges i s) = w_sol_dn s"
  "w_latched_multi (weld_latch_edges i s) = w_latched_multi s"
  "w_latched_energy (weld_latch_edges i s) = w_latched_energy s"
  "w_multi_stage (weld_latch_edges i s) = w_multi_stage s"
  "w_multi_elapsed (weld_latch_edges i s) = w_multi_elapsed s"
  "w_comp_time (weld_latch_edges i s) = w_comp_time s"
  "w_run_mode (weld_latch_edges i s) = w_run_mode s"
  "w_temp_time (weld_latch_edges i s) = tick_down (w_temp_time s)"
  by (simp_all add: weld_latch_edges_def Let_def)

lemma weld_inv_latch_edges: "weld_inv s \<Longrightarrow> weld_inv (weld_latch_edges i s)"
  by (simp add: weld_inv_def press_down_def)

lemma enter_weld_simps [simp]:
  "w_run_status (enter_weld i t s) = WELD_WELD"
  "w_f_status_start (enter_weld i t s) = 0"
  "w_sol_dn (enter_weld i t s) = w_sol_dn s"
  "w_run_mode (enter_weld i t s) = w_run_mode s"
  "w_latched_multi (enter_weld i t s) = wi_multi_ctrl i"
  "w_latched_energy (enter_weld i t s) = wi_energy_ctrl i"
  "w_multi_elapsed (enter_weld i t s) = 0"
  "w_multi_stage (enter_weld i t s) = 0"
  by (simp_all add: enter_weld_def Let_def)

text \<open>One lemma per branch of the switch: it keeps the invariant.\<close>

lemma weld_inv_cyl1:
  "weld_inv s \<Longrightarrow> w_run_status s = WELD_CYL1 \<Longrightarrow> weld_inv (weld_step_cyl1 i s)"
  by (simp add: weld_inv_def press_down_def weld_step_cyl1_def)

lemma weld_inv_weld:
  "weld_inv s \<Longrightarrow> w_run_status s = WELD_WELD \<Longrightarrow> weld_inv (fst (weld_step_weld i s out))"
  by (simp add: weld_inv_def press_down_def weld_step_weld_def weld_to_hold_def Let_def)

lemma weld_inv_hold:
  "weld_inv s \<Longrightarrow> w_run_status s = WELD_HOLD \<Longrightarrow> weld_inv (weld_step_hold i s)"
  by (simp add: weld_inv_def press_down_def weld_step_hold_def Let_def)

lemma weld_inv_cyl2:
  "weld_inv s \<Longrightarrow> w_run_status s = WELD_CYL2 \<Longrightarrow> weld_inv (fst (weld_step_cyl2 s out))"
  by (simp add: weld_inv_def press_down_def weld_step_cyl2_def)

lemma weld_inv_ready:
  "weld_inv s \<Longrightarrow> w_run_status s = WELD_READY \<Longrightarrow> weld_inv (weld_step_ready i s)"
  by (simp add: weld_inv_def press_down_def weld_step_ready_def)

lemma weld_inv_abort: "weld_inv (fst (weld_abort_body s out))"
  by (simp add: weld_inv_def press_down_def weld_abort_body_def Let_def)

lemma weld_inv_dispatch:
  assumes "weld_inv s"
  shows "weld_inv (fst (weld_dispatch i s out))"
proof -
  from assms have "w_run_status s \<in> {WELD_READY, WELD_CYL1, WELD_WELD, WELD_HOLD, WELD_CYL2}"
    by (simp add: weld_inv_def)
  then show ?thesis
    using assms
    by (auto simp: weld_dispatch_def weld_inv_ready weld_inv_cyl1 weld_inv_weld
        weld_inv_hold weld_inv_cyl2)
qed

lemma weld_fsm_step_state:
  "fst (weld_fsm_step i s) =
     (if wi_abort i \<noteq> 0 \<and> w_run_status s \<noteq> WELD_READY
      then fst (weld_abort_body s weld_out_zero)
      else fst (weld_dispatch i (weld_latch_edges i s) weld_out_zero))"
  by (simp add: weld_fsm_step_def case_prod_unfold Let_def)

lemma weld_inv_step: "weld_inv s \<Longrightarrow> weld_inv (fst (weld_fsm_step i s))"
  by (simp add: weld_fsm_step_state weld_inv_abort weld_inv_dispatch weld_inv_latch_edges)

text \<open>What a step reports of its state, and the edges of the ultrasonic.\<close>

lemma weld_step_reports:
  "wo_run_status (snd (weld_fsm_step i s)) = w_run_status (fst (weld_fsm_step i s))"
  "wo_sol_dn (snd (weld_fsm_step i s)) = w_sol_dn (fst (weld_fsm_step i s))"
  by (simp_all add: weld_fsm_step_def weld_abort_body_def case_prod_unfold Let_def)

lemma weld_us_edges:
  assumes "weld_inv s"
  shows "weld_us_on (fst (weld_fsm_step i s)) =
     (if wo_weld_start (snd (weld_fsm_step i s)) \<noteq> 0 then True
      else if wo_weld_stop (snd (weld_fsm_step i s)) \<noteq> 0 then False
      else weld_us_on s)"
proof -
  from assms have "w_run_status s \<in> {WELD_READY, WELD_CYL1, WELD_WELD, WELD_HOLD, WELD_CYL2}"
    by (simp add: weld_inv_def)
  then show ?thesis
    by (elim insertE emptyE)
      (simp_all add: weld_us_on_def weld_fsm_step_def weld_dispatch_def weld_abort_body_def
        weld_step_ready_def weld_step_cyl1_def weld_step_weld_def weld_step_hold_def
        weld_step_cyl2_def weld_to_hold_def weld_out_zero_def Let_def)
qed

interpretation weld: tick_fsm weld_fsm_init weld_fsm_step weld_inv
  by unfold_locales (simp_all add: weld_inv_init weld_inv_step)

interpretation weld_us: edge_level weld_fsm_init weld_fsm_step weld_inv
  "\<lambda>out. wo_weld_start out \<noteq> 0" "\<lambda>out. wo_weld_stop out \<noteq> 0" weld_us_on
proof unfold_locales
  show "\<not> weld_us_on weld_fsm_init" by (simp add: weld_us_on_def weld_fsm_init_def)
next
  fix s i
  assume "weld_inv s"
  then show "weld_us_on (fst (weld_fsm_step i s)) =
     (if wo_weld_start (snd (weld_fsm_step i s)) \<noteq> 0 then True
      else if wo_weld_stop (snd (weld_fsm_step i s)) \<noteq> 0 then False
      else weld_us_on s)"
    by (rule weld_us_edges)
qed

section \<open>Timing of a DELAY cycle\<close>

text \<open>
  The visible part of an output: state, the two ultrasonic edges, the cycle count edge
  and the fault edge. A DELAY input asks for no abort and for time-ended welding; the
  sensor edges, the power and all other fields are free.
\<close>

definition weld_obs :: "weld_out \<Rightarrow> u8 \<times> u8 \<times> u8 \<times> u8 \<times> u8" where
  "weld_obs out =
     (wo_run_status out, wo_weld_start out, wo_weld_stop out, wo_cycle_done out,
      wo_weld_fault out)"

definition delay_in :: "u16 \<Rightarrow> u16 \<Rightarrow> u16 \<Rightarrow> weld_in \<Rightarrow> bool" where
  "delay_in d1 d2 d3 i \<longleftrightarrow>
     wi_abort i = 0 \<and> wi_run_mode i = 0 \<and> wi_multi_ctrl i = 0 \<and> wi_energy_ctrl i = 0 \<and>
     wi_limit_delay_time1 i = d1 \<and> wi_limit_delay_time2 i = d2 \<and> wi_limit_delay_time3 i = d3"

text \<open>A state of a DELAY cycle: phase, first-entry flag, ticks left on the timer.\<close>

definition weld_at :: "weld_st \<Rightarrow> u8 \<Rightarrow> bool \<Rightarrow> nat \<Rightarrow> bool" where
  "weld_at s c f t \<longleftrightarrow>
     w_run_status s = c \<and> (w_f_status_start s \<noteq> 0) = f \<and> unat (w_temp_time s) = t \<and>
     w_run_mode s = 0 \<and> w_latched_multi s = 0 \<and> w_latched_energy s = 0"

text \<open>The weld time: short welds are stretched to \<open>WELD_COMP_FULL\<close> ticks.\<close>

definition weld_ticks :: "u16 \<Rightarrow> nat" where
  "weld_ticks d2 = max 7 (unat d2)"

definition phases :: "u8 set" where
  "phases = {WELD_CYL1, WELD_WELD, WELD_HOLD, WELD_CYL2}"

definition next_phase :: "u8 \<Rightarrow> u8" where
  "next_phase c = (if c = WELD_CYL2 then WELD_READY else c + 1)"

text \<open>Timer value armed when a phase ends, first output of a phase and its last one.\<close>

definition armed_ticks :: "u16 \<Rightarrow> u16 \<Rightarrow> u16 \<Rightarrow> u8 \<Rightarrow> nat" where
  "armed_ticks d1 d2 d3 c =
     (if c = WELD_CYL1 then weld_ticks d2 else if c = WELD_WELD then unat d3
      else if c = WELD_HOLD then unat d1 else 0)"

definition entry_obs :: "u8 \<Rightarrow> u8 \<times> u8 \<times> u8 \<times> u8 \<times> u8" where
  "entry_obs c = (c, b2u (c = WELD_WELD), 0, 0, 0)"

definition exit_obs :: "u8 \<Rightarrow> u8 \<times> u8 \<times> u8 \<times> u8 \<times> u8" where
  "exit_obs c = (next_phase c, 0, b2u (c = WELD_WELD), b2u (c = WELD_CYL2), 0)"

lemma weld_ticks_word:
  "unat (if (6 :: u16) < d2 then d2 else 7) = weld_ticks d2"
  by (auto simp: weld_ticks_def word_less_nat_alt)

lemmas weld_phase_defs =
  weld_fsm_step_def weld_dispatch_def weld_step_cyl1_def weld_step_weld_def
  weld_step_hold_def weld_step_cyl2_def weld_to_hold_def hold_time_def enter_weld_def
  weld_out_zero_def weld_obs_def delay_in_def phases_def entry_obs_def exit_obs_def
  next_phase_def armed_ticks_def

lemma weld_first_tick:
  assumes "weld_at s c False t" "c \<in> phases" "delay_in d1 d2 d3 i"
  shows "weld_at (fst (weld_fsm_step i s)) c True (t - 1)"
    and "weld_obs (snd (weld_fsm_step i s)) = entry_obs c"
  using assms by (auto simp: weld_at_def weld_phase_defs Let_def)

lemma weld_wait_tick:
  assumes "weld_at s c True t" "c \<in> phases" "delay_in d1 d2 d3 i" "1 < t"
  shows "weld_at (fst (weld_fsm_step i s)) c True (t - 1)"
    and "weld_obs (snd (weld_fsm_step i s)) = (c, 0, 0, 0, 0)"
  using assms by (auto simp: weld_at_def weld_phase_defs Let_def tick_down_eq_0)

lemma weld_leave_tick:
  assumes "weld_at s c True t" "c \<in> phases" "delay_in d1 d2 d3 i" "t \<le> 1"
  shows "weld_obs (snd (weld_fsm_step i s)) = exit_obs c"
    and "c \<noteq> WELD_CYL2 \<Longrightarrow>
      weld_at (fst (weld_fsm_step i s)) (next_phase c) False (armed_ticks d1 d2 d3 c)"
    and "w_run_status (fst (weld_fsm_step i s)) = next_phase c"
  using assms
  by (auto simp: weld_at_def weld_phase_defs Let_def tick_down_eq_0 weld_ticks_word
      simp del: split_paired_All split_paired_Ex split: if_splits)

text \<open>Waiting out a phase: the timer's ticks, then the exit output.\<close>

interpretation weld_phase: tick_phase weld_fsm_step weld_obs "delay_in d1 d2 d3"
  "\<lambda>s t. c \<in> phases \<and> weld_at s c True t" "(c, 0, 0, 0, 0)" "exit_obs c"
  "\<lambda>s. w_run_status s = next_phase c \<and>
     (c \<noteq> WELD_CYL2 \<longrightarrow> weld_at s (next_phase c) False (armed_ticks d1 d2 d3 c))"
  for c d1 d2 d3
  by unfold_locales (auto simp: weld_wait_tick weld_leave_tick simp del: One_nat_def)

text \<open>One phase from its entry: \<open>max 2 t\<close> ticks for a timer armed with t.\<close>

definition phase_trace :: "u8 \<Rightarrow> nat \<Rightarrow> (u8 \<times> u8 \<times> u8 \<times> u8 \<times> u8) list" where
  "phase_trace c t = entry_obs c # replicate (max 2 t - 2) (c, 0, 0, 0, 0) @ [exit_obs c]"

lemma length_phase_trace [simp]: "length (phase_trace c t) = max 2 t"
  by (simp add: phase_trace_def)

lemma weld_phase_run:
  assumes "weld_at s c False t" "c \<in> phases" "\<forall>i \<in> set is. delay_in d1 d2 d3 i"
    and "length is = max 2 t"
  shows "map weld_obs (snd (fsm_run weld_fsm_step s is)) = phase_trace c t \<and>
    (c \<noteq> WELD_CYL2 \<longrightarrow> weld_at (fst (fsm_run weld_fsm_step s is))
      (next_phase c) False (armed_ticks d1 d2 d3 c)) \<and>
    w_run_status (fst (fsm_run weld_fsm_step s is)) = next_phase c"
proof (cases "is")
  case Nil
  then show ?thesis using assms by simp
next
  case (Cons i js)
  have i: "delay_in d1 d2 d3 i" and js: "\<forall>i \<in> set js. delay_in d1 d2 d3 i"
    using assms(3) Cons by simp_all
  have len: "length js = max 1 (t - 1)" using assms(4) Cons by (auto simp: max_def split: if_splits)
  have "max 1 (t - 1) - 1 = max 2 t - 2" by (simp add: max_def) arith
  with weld_first_tick [OF assms(1,2) i]
    weld_phase.phase_run [OF _ js len, of c] assms(2)
  show ?thesis
    by (simp add: Cons fsm_run_Cons phase_trace_def del: fsm_run.simps(2))
qed

lemma weld_cycle_run:
  assumes "weld_at s WELD_CYL1 False (unat d1)" "\<forall>i \<in> set is. delay_in d1 d2 d3 i"
    and "length is = max 2 (unat d1) + weld_ticks d2 + max 2 (unat d3) + max 2 (unat d1)"
  shows "map weld_obs (snd (fsm_run weld_fsm_step s is)) =
      phase_trace WELD_CYL1 (unat d1) @ phase_trace WELD_WELD (weld_ticks d2) @
      phase_trace WELD_HOLD (unat d3) @ phase_trace WELD_CYL2 (unat d1) \<and>
    w_run_status (fst (fsm_run weld_fsm_step s is)) = WELD_READY"
proof -
  let ?a = "max 2 (unat d1)" and ?c = "max 2 (unat d3)"
  define i1 where "i1 = take ?a is"
  define r1 where "r1 = drop ?a is"
  define i2 where "i2 = take (weld_ticks d2) r1"
  define r2 where "r2 = drop (weld_ticks d2) r1"
  define i3 where "i3 = take ?c r2"
  define i4 where "i4 = drop ?c r2"
  have "is = i1 @ r1" "r1 = i2 @ r2" "r2 = i3 @ i4"
    by (simp_all only: i1_def i2_def i3_def i4_def r1_def r2_def append_take_drop_id)
  then have split: "is = i1 @ i2 @ i3 @ i4" by simp
  have w2: "max 2 (weld_ticks d2) = weld_ticks d2" by (simp add: weld_ticks_def)
  have len: "length i1 = ?a" "length i2 = max 2 (weld_ticks d2)" "length i3 = ?c" "length i4 = ?a"
    using assms(3) by (simp_all add: i1_def i2_def i3_def i4_def r1_def r2_def w2)
  have ins: "\<forall>i \<in> set i1. delay_in d1 d2 d3 i" "\<forall>i \<in> set i2. delay_in d1 d2 d3 i"
    "\<forall>i \<in> set i3. delay_in d1 d2 d3 i" "\<forall>i \<in> set i4. delay_in d1 d2 d3 i"
    using assms(2) by (simp_all add: split)
  define s1 where "s1 = fst (fsm_run weld_fsm_step s i1)"
  define s2 where "s2 = fst (fsm_run weld_fsm_step s1 i2)"
  define s3 where "s3 = fst (fsm_run weld_fsm_step s2 i3)"
  note p1 = weld_phase_run [OF assms(1) _ ins(1) len(1), folded s1_def]
  from p1 have s1: "weld_at s1 WELD_WELD False (weld_ticks d2)"
    by (simp add: phases_def next_phase_def armed_ticks_def)
  note p2 = weld_phase_run [OF s1 _ ins(2) len(2), folded s2_def]
  from p2 have s2: "weld_at s2 WELD_HOLD False (unat d3)"
    by (simp add: phases_def next_phase_def armed_ticks_def)
  note p3 = weld_phase_run [OF s2 _ ins(3) len(3), folded s3_def]
  from p3 have s3: "weld_at s3 WELD_CYL2 False (unat d1)"
    by (simp add: phases_def next_phase_def armed_ticks_def)
  note p4 = weld_phase_run [OF s3 _ ins(4) len(4)]
  from p1 p2 p3 p4 show ?thesis
    by (simp add: split fsm_run_append s1_def s2_def s3_def phases_def next_phase_def)
qed

section \<open>The energy backstop\<close>

lemma unat_weld_backstop:
  assumes "unat lot \<le> 655"
  shows "unat (weld_backstop_ticks lot) = 100 * max 1 (unat lot)"
proof -
  have le: "unat (if lot = 0 then 1 else lot) = max 1 (unat lot)"
    by (cases "lot = 0") (simp_all add: unat_gt_0 Suc_leI max_absorb2)
  have "100 * max 1 (unat lot) < 65536" using assms by simp
  then show ?thesis
    by (simp add: weld_backstop_ticks_def Let_def unat_casts unat_word_ariths le)
qed

text \<open>An energy weld whose target is not reached, with no abort.\<close>

definition starved_in :: "weld_in \<Rightarrow> bool" where
  "starved_in i \<longleftrightarrow>
     wi_abort i = 0 \<and> \<not> (wi_limit_energy i \<noteq> 0 \<and> wi_limit_energy i \<le> wi_curr_energy i)"

definition energy_weld :: "weld_st \<Rightarrow> bool \<Rightarrow> nat \<Rightarrow> bool" where
  "energy_weld s f t \<longleftrightarrow>
     w_run_status s = WELD_WELD \<and> (w_f_status_start s \<noteq> 0) = f \<and>
     w_latched_multi s = 0 \<and> w_latched_energy s \<noteq> 0 \<and> unat (w_temp_time s) = t"

lemma energy_first_tick:
  assumes "energy_weld s False t" "starved_in i"
  shows "energy_weld (fst (weld_fsm_step i s)) True (t - 1)"
    and "weld_obs (snd (weld_fsm_step i s)) = (WELD_WELD, 1, 0, 0, 0)"
  using assms by (auto simp: energy_weld_def starved_in_def weld_phase_defs Let_def)

lemma energy_wait_tick:
  assumes "energy_weld s True t" "starved_in i" "1 < t"
  shows "energy_weld (fst (weld_fsm_step i s)) True (t - 1)"
    and "weld_obs (snd (weld_fsm_step i s)) = (WELD_WELD, 0, 0, 0, 0)"
  using assms
  by (auto simp: energy_weld_def starved_in_def weld_phase_defs Let_def tick_down_eq_0)

lemma energy_fault_tick:
  assumes "energy_weld s True t" "starved_in i" "t \<le> 1"
  shows "weld_obs (snd (weld_fsm_step i s)) = (WELD_READY, 0, 1, 0, 1)"
    and "w_sol_dn (fst (weld_fsm_step i s)) = 0"
  using assms
  by (auto simp: energy_weld_def starved_in_def weld_phase_defs Let_def tick_down_eq_0)

interpretation energy_phase: tick_phase weld_fsm_step weld_obs starved_in
  "\<lambda>s t. energy_weld s True t" "(WELD_WELD, 0, 0, 0, 0)" "(WELD_READY, 0, 1, 0, 1)"
  "\<lambda>s. w_sol_dn s = 0"
  by unfold_locales (auto simp: energy_wait_tick energy_fault_tick simp del: One_nat_def)

section \<open>Abort\<close>

definition weld_parked :: "weld_st \<Rightarrow> bool" where
  "weld_parked s \<longleftrightarrow> weld_inv s \<and> w_sol_dn s = 0"

lemma weld_abort_tick:
  assumes "weld_inv s" "wi_abort i \<noteq> 0"
  shows "w_sol_dn (fst (weld_fsm_step i s)) = 0"
    and "wo_sol_dn (snd (weld_fsm_step i s)) = 0"
    and "wo_weld_start (snd (weld_fsm_step i s)) = 0"
    and "wo_cycle_done (snd (weld_fsm_step i s)) = 0"
    and "w_run_status s \<noteq> WELD_READY \<Longrightarrow> w_run_status (fst (weld_fsm_step i s)) = WELD_READY"
  using assms
  by (auto simp: weld_inv_def press_down_def weld_fsm_step_def weld_dispatch_def
      weld_abort_body_def weld_step_ready_def weld_out_zero_def Let_def)

lemma weld_abort_run:
  assumes "weld_inv s" "\<forall>i \<in> set is. wi_abort i \<noteq> 0"
  shows "\<forall>out \<in> set (snd (fsm_run weld_fsm_step s is)).
    wo_sol_dn out = 0 \<and> wo_weld_start out = 0 \<and> wo_cycle_done out = 0"
  using assms
proof (induction "is" arbitrary: s)
  case Nil
  then show ?case by simp
next
  case (Cons i "is")
  then have i: "wi_abort i \<noteq> 0" by simp
  have "weld_inv (fst (weld_fsm_step i s))" using Cons.prems(1) by (rule weld_inv_step)
  with Cons.IH Cons.prems(2) weld_abort_tick [OF Cons.prems(1) i]
  show ?case by (simp add: fsm_run_Cons del: fsm_run.simps(2))
qed

section \<open>Amplitude\<close>

text \<open>The percentage scale to the DAC, over the naturals.\<close>

definition dac_of_percent :: "nat \<Rightarrow> nat" where
  "dac_of_percent p = (p - 50) * 255 div 100"

lemma dac_of_percent_bound: "p \<le> 100 \<Longrightarrow> dac_of_percent p \<le> 127"
  by (simp add: dac_of_percent_def)

lemma dac_of_percent_mono: "p \<le> q \<Longrightarrow> dac_of_percent p \<le> dac_of_percent q"
  by (auto simp: dac_of_percent_def intro!: div_le_mono mult_le_mono)

lemma unat_power_minus_50:
  assumes "50 \<le> unat (p :: u8)"
  shows "unat (ucast (ucast p - (50 :: u32)) :: u16) = unat p - 50"
proof -
  have "(50 :: u32) \<le> ucast p"
    using assms by (simp add: word_le_nat_alt unat_casts)
  then have "unat (ucast p - (50 :: u32)) = unat p - 50"
    by (simp add: unat_sub unat_casts)
  then show ?thesis using unat_bounds(1) [of p] by (simp add: unat_casts)
qed

lemma unat_dac:
  assumes "50 \<le> unat (p :: u8)"
  shows "unat ((ucast (ucast (ucast p - (50 :: u32)) :: u16) * (255 :: u32)) div 100) =
    dac_of_percent (unat p)"
proof -
  define w where "w = (ucast (ucast p - (50 :: u32)) :: u16)"
  have w: "unat w = unat p - 50" unfolding w_def by (rule unat_power_minus_50 [OF assms])
  have "(unat p - 50) * 255 < 2 ^ 32" using unat_bounds(1) [of p] by simp
  then have "unat (ucast w * (255 :: u32)) = (unat p - 50) * 255"
    by (simp add: unat_word_ariths unat_casts w)
  then show ?thesis
    unfolding w_def [symmetric] by (simp only: unat_div dac_of_percent_def) simp
qed

lemma unat_weld_mo_amplitude:
  assumes "unat p \<le> 100"
  shows "unat (weld_mo_amplitude p) = (if unat p < 50 then 0 else dac_of_percent (unat p))"
proof (cases "unat p < 50")
  case True
  then show ?thesis by (simp add: weld_mo_amplitude_def word_less_nat_alt)
next
  case False
  then have "50 \<le> unat p" by simp
  with False dac_of_percent_bound [OF assms] show ?thesis
    by (simp add: weld_mo_amplitude_def word_less_nat_alt unat_casts unat_dac)
qed

lemma unat_comp_reduction:
  assumes "unat (c :: u16) < 7"
  shows "unat (ucast ((7 - ucast c :: u32) * 10) :: u16) = (7 - unat c) * 10"
proof -
  have le: "(ucast c :: u32) \<le> 7" using assms by (simp add: word_le_nat_alt unat_casts)
  define d where "d = (7 - ucast c :: u32)"
  from le have "unat d = 7 - unat c" by (simp add: d_def unat_sub unat_casts)
  then show ?thesis
    unfolding d_def [symmetric] by (simp add: unat_casts unat_word_ariths)
qed

lemma unat_weld_amplitude:
  assumes "50 \<le> unat p" "unat p \<le> 100"
  shows "unat (weld_amplitude p c) = dac_of_percent (unat p) - (7 - unat c) * 10"
proof -
  let ?amp = "ucast ((ucast (ucast (ucast p - (50 :: u32)) :: u16) * (255 :: u32)) div 100) :: u16"
  let ?red = "ucast ((7 - ucast c :: u32) * 10) :: u16"
  have amp: "unat ?amp = dac_of_percent (unat p)"
    using dac_of_percent_bound [OF assms(2)] by (simp add: unat_casts unat_dac [OF assms(1)])
  show ?thesis
  proof (cases "unat c < 7")
    case True
    note red = unat_comp_reduction [OF True]
    have "?red \<le> ?amp \<longleftrightarrow> (7 - unat c) * 10 \<le> dac_of_percent (unat p)"
      by (simp only: word_le_nat_alt amp red)
    moreover have "?red \<le> ?amp \<Longrightarrow> unat (?amp - ?red) = dac_of_percent (unat p) - (7 - unat c) * 10"
      by (simp only: unat_sub amp red)
    ultimately show ?thesis
      using True dac_of_percent_bound [OF assms(2)]
      by (auto simp: weld_amplitude_def Let_def word_less_nat_alt unat_casts)
  next
    case False
    then show ?thesis
      using dac_of_percent_bound [OF assms(2)]
      by (simp add: weld_amplitude_def Let_def word_less_nat_alt unat_casts amp [unfolded unat_casts])
  qed
qed

section \<open>Properties\<close>

text \<open>The all-zero input structure, \<open>weld_in_t in = {0}\<close>.\<close>

definition weld_in_zero :: weld_in where
  "weld_in_zero = \<lparr>wi_start = 0, wi_run_mode = 0, wi_limit_delay_time1 = 0,
     wi_limit_delay_time2 = 0, wi_limit_delay_time3 = 0, wi_output_power = 0,
     wi_energy_ctrl = 0, wi_curr_energy = 0, wi_limit_energy = 0, wi_limit_out_time = 0,
     wi_multi_ctrl = 0, wi_limit_mo_out1 = 0, wi_limit_mo_out2 = 0, wi_limit_mo_time1 = 0,
     wi_limit_mo_time2 = 0, wi_abort = 0, wi_limit_trigger_time2 = 0,
     wi_limit_trigger_time3 = 0, wi_dn_edge = 0, wi_up_edge = 0\<rparr>"

text \<open>
  C13: after boot and any sequence of 10 ms ticks, the state is one of the five of the
  cycle (the fail-safe default branch is dead code), the solenoid is commanded down
  exactly between the first CYL1 tick and the first CYL2 tick, and the READY state has
  the solenoid released and the mode latches of the last cycle cleared.
\<close>

theorem weld_boot_invariant:
  fixes "is" :: "weld_in list"
  defines "s \<equiv> fst (fsm_run weld_fsm_step weld_fsm_init is)"
  shows "w_run_status s \<in> {0, 1, 2, 3, 4} \<and> w_sol_dn s = b2u (press_down s) \<and>
    (if w_run_status s = 0
     then w_sol_dn s = 0 \<and> w_latched_multi s = 0 \<and> w_latched_energy s = 0 else True)"
  using weld.inv_boot_run [of "is"] by (simp add: s_def weld_inv_def press_down_def)

text \<open>
  the ultrasonic edges the machine emits are consistent: over any run from boot,
  the level obtained by folding the weld\_start and weld\_stop edges is on exactly when
  the machine is in WELD past its first tick. So no weld is left running after its
  cycle, by any path (normal exit, energy reached, backstop, abort).
\<close>

theorem weld_us_level_refines_state:
  "level_after (\<lambda>out. wo_weld_start out \<noteq> 0) (\<lambda>out. wo_weld_stop out \<noteq> 0) False
     (snd (fsm_run weld_fsm_step weld_fsm_init is)) =
   weld_us_on (fst (fsm_run weld_fsm_step weld_fsm_init is))"
  by (rule weld_us.level_boot_run)

text \<open>
  C15: a DELAY cycle has exactly the programmed shape. From READY, a start tick followed
  by ticks whose inputs keep the programmed times d1, d2, d3 (all else free, but no abort)
  gives one CYL1 phase of max 2 d1 ticks, one WELD phase of max 7 d2 ticks that starts the
  ultrasonic on its first tick and stops it on leaving, one HOLD phase of max 2 d3 ticks,
  one CYL2 phase of max 2 d1 ticks, and exactly one cycle count, with the return to READY.
\<close>

theorem weld_delay_cycle_trace:
  assumes "weld_inv s" "w_run_status s = 0" "delay_in d1 d2 d3 i" "wi_start i \<noteq> 0"
    and "\<forall>j \<in> set is. delay_in d1 d2 d3 j"
    and "length is = 2 * max 2 (unat d1) + max 7 (unat d2) + max 2 (unat d3)"
  shows "map weld_obs (snd (fsm_run weld_fsm_step s (i # is))) =
      (1, 0, 0, 0, 0) #
      phase_trace 1 (unat d1) @ phase_trace 2 (max 7 (unat d2)) @
      phase_trace 3 (unat d3) @ phase_trace 4 (unat d1) \<and>
    w_run_status (fst (fsm_run weld_fsm_step s (i # is))) = 0"
proof -
  let ?s = "fst (weld_fsm_step i s)"
  have st: "weld_at ?s WELD_CYL1 False (unat d1)"
    and ob: "weld_obs (snd (weld_fsm_step i s)) = (1, 0, 0, 0, 0)"
    using assms(1-4)
    by (auto simp: weld_inv_def weld_at_def weld_phase_defs weld_step_ready_def Let_def)
  have len: "length is = max 2 (unat d1) + weld_ticks d2 + max 2 (unat d3) + max 2 (unat d1)"
    using assms(6) by (simp add: weld_ticks_def)
  note cyc = weld_cycle_run [OF st assms(5) len]
  from cyc ob show ?thesis
    by (simp add: fsm_run_Cons weld_ticks_def del: fsm_run.simps(2))
qed

theorem weld_delay_cycle_trace_witness:
  "map weld_obs (snd (fsm_run weld_fsm_step weld_fsm_init
     (weld_in_zero\<lparr>wi_start := 1, wi_limit_delay_time1 := 3\<rparr> #
      replicate 15 (weld_in_zero\<lparr>wi_start := 1, wi_limit_delay_time1 := 3\<rparr>)))) =
   (1, 0, 0, 0, 0) # phase_trace 1 3 @ phase_trace 2 7 @ phase_trace 3 0 @ phase_trace 4 3"
proof -
  let ?i = "weld_in_zero\<lparr>wi_start := 1, wi_limit_delay_time1 := 3\<rparr>"
  have "weld_inv weld_fsm_init" by (rule weld_inv_init)
  moreover have "w_run_status weld_fsm_init = 0" by (simp add: weld_fsm_init_def)
  moreover have "delay_in 3 0 0 ?i" "wi_start ?i \<noteq> 0" by (simp_all add: delay_in_def weld_in_zero_def)
  ultimately show ?thesis
    using weld_delay_cycle_trace [of weld_fsm_init 3 0 0 ?i "replicate 15 ?i"] by simp
qed

text \<open>
  an energy weld cannot run on. From the moment WELD is entered with energy
  control latched, if no tick reaches the energy target (a zero target never does) and
  nothing aborts, the ultrasonic stays on for exactly 100 ticks per second of
  limit\_out\_time (a stored 0 counts as 1 s) and the next output is the stop edge with
  the fault edge, the solenoid released and no cycle counted.
\<close>

theorem weld_energy_backstop_fault:
  assumes "w_run_status s = 2" "w_f_status_start s = 0"
    and "w_latched_multi s = 0" "w_latched_energy s \<noteq> 0"
    and "w_temp_time s = weld_backstop_ticks lot" "unat lot \<le> 655"
    and "\<forall>i \<in> set is. starved_in i" "length is = 100 * max 1 (unat lot)"
  shows "map weld_obs (snd (fsm_run weld_fsm_step s is)) =
      (2, 1, 0, 0, 0) # replicate (100 * max 1 (unat lot) - 2) (2, 0, 0, 0, 0) @ [(0, 0, 1, 0, 1)] \<and>
    w_sol_dn (fst (fsm_run weld_fsm_step s is)) = 0"
proof (cases "is")
  case Nil
  then show ?thesis using assms(8) by simp
next
  case (Cons i js)
  let ?t = "100 * max 1 (unat lot)"
  have t: "2 \<le> ?t" by (simp add: max_def)
  have st: "energy_weld s False ?t"
    using assms(1-5) by (simp add: energy_weld_def unat_weld_backstop [OF assms(6)])
  have i: "starved_in i" and js: "\<forall>i \<in> set js. starved_in i" using assms(7) Cons by simp_all
  have "length js = ?t - 1" using assms(8) Cons by simp
  moreover have "max 1 (?t - 1) = ?t - 1" using t by linarith
  moreover have "?t - 1 - 1 = ?t - 2" using t by linarith
  ultimately show ?thesis
    using energy_phase.phase_run [OF energy_first_tick(1) [OF st i] js] energy_first_tick(2) [OF st i]
    by (simp add: Cons fsm_run_Cons del: fsm_run.simps(2))
qed

theorem weld_energy_backstop_fault_witness:
  "last (map weld_obs (snd (fsm_run weld_fsm_step
     (enter_weld (weld_in_zero\<lparr>wi_energy_ctrl := 1\<rparr>) 50 weld_fsm_init)
     (replicate 100 weld_in_zero)))) = (0, 0, 1, 0, 1)"
proof -
  let ?s = "enter_weld (weld_in_zero\<lparr>wi_energy_ctrl := 1\<rparr>) 50 weld_fsm_init"
  have "w_temp_time ?s = weld_backstop_ticks 0" "w_latched_multi ?s = 0" "w_latched_energy ?s \<noteq> 0"
    by (simp_all add: enter_weld_def weld_in_zero_def Let_def)
  moreover have "starved_in weld_in_zero" by (simp add: starved_in_def weld_in_zero_def)
  ultimately show ?thesis
    using weld_energy_backstop_fault [of ?s 0 "replicate 100 weld_in_zero"] by simp
qed

text \<open>
  C14: abort is a level that holds the press up. From any state of the invariant, while
  every tick carries abort, no output commands the solenoid down, starts the ultrasonic
  or counts a cycle, and the very first tick leaves the cycle for READY and, if it was
  welding, emits the stop edge.
\<close>

theorem weld_abort_keeps_press_up:
  assumes "weld_inv s" "wi_abort i \<noteq> 0" "\<forall>j \<in> set is. wi_abort j \<noteq> 0"
  shows "(\<forall>out \<in> set (snd (fsm_run weld_fsm_step s (i # is))).
      wo_sol_dn out = 0 \<and> wo_weld_start out = 0 \<and> wo_cycle_done out = 0) \<and>
    (w_run_status s \<noteq> 0 \<longrightarrow>
      w_run_status (fst (weld_fsm_step i s)) = 0 \<and>
      wo_weld_stop (snd (weld_fsm_step i s)) = b2u (w_run_status s = 2))"
  using weld_abort_run [OF assms(1), of "i # is"] assms(2,3) weld_abort_tick(5) [OF assms(1,2)]
  by (simp add: weld_fsm_step_def weld_abort_body_def weld_out_zero_def Let_def
      del: fsm_run.simps(2))

theorem weld_abort_keeps_press_up_witness:
  "w_run_status (fst (weld_fsm_step (weld_in_zero\<lparr>wi_abort := 1\<rparr>)
     (weld_fsm_init\<lparr>w_run_status := 2, w_sol_dn := 1\<rparr>))) = 0"
proof -
  have "weld_inv (weld_fsm_init\<lparr>w_run_status := 2, w_sol_dn := 1\<rparr>)"
    by (simp add: weld_inv_def weld_fsm_init_def press_down_def)
  from weld_abort_keeps_press_up [OF this, of "weld_in_zero\<lparr>wi_abort := 1\<rparr>" "[]"]
  show ?thesis by (simp add: weld_fsm_init_def)
qed

text \<open>
  the weld amplitude is exact and in range. For an output power of 50 to 100 % the
  byte arithmetic with its truncating casts computes (p - 50) * 255 / 100 less ten per
  missing compensation tick, stopping at 0, and never exceeds the 127 of the DAC.
\<close>

theorem weld_amplitude_exact:
  assumes "50 \<le> unat p" "unat p \<le> 100"
  shows "unat (weld_amplitude p c) = (unat p - 50) * 255 div 100 - (7 - unat c) * 10 \<and>
    unat (weld_amplitude p c) \<le> 127"
  using unat_weld_amplitude [OF assms, of c] dac_of_percent_bound [OF assms(2)]
  by (simp add: dac_of_percent_def) linarith

theorem weld_amplitude_exact_witness: "unat (weld_amplitude 80 5) = 56"
  using weld_amplitude_exact [of 80 5] by simp

end
