(* ===== verification/Weld_Trigger_Fsm.thy ===== *)
theory Weld_Trigger_Fsm
  imports Weld_Fsm
begin

text \<open>
  The two-hand start, its re-arming, the hand-release abort of the press-down phase and the
  press sensors, \<open>fw/src/app_weld_trigger_fsm.c\<close>. All inputs are active low.
\<close>

section \<open>Data and operations\<close>

record weld_trig_in =
  wti_key1 :: u8
  wti_key2 :: u8
  wti_sens_up :: u8
  wti_sens_dn :: u8
  wti_f_safty :: u8
  wti_weld_state :: u8

record weld_trig_out =
  wto_start_pulse :: u8
  wto_safety_abort_pulse :: u8
  wto_dn_edge :: u8
  wto_up_edge :: u8

record weld_trig_st =
  wt_in_cycle :: u8
  wt_dn_bak :: u8
  wt_up_bak :: u8

definition weld_trigger_fsm_init :: weld_trig_st where
  "weld_trigger_fsm_init = \<lparr>wt_in_cycle = 0, wt_dn_bak = 1, wt_up_bak = 1\<rparr>"

definition weld_trigger_fsm_cycle_started :: "weld_trig_st \<Rightarrow> weld_trig_st" where
  "weld_trigger_fsm_cycle_started s = s\<lparr>wt_in_cycle := 1\<rparr>"

definition weld_trigger_fsm_step :: "weld_trig_in \<Rightarrow> weld_trig_st \<Rightarrow> weld_trig_st \<times> weld_trig_out" where
  "weld_trigger_fsm_step i s =
     (let start = b2u (wti_key1 i = 0 \<and> wti_key2 i = 0 \<and> wt_in_cycle s = 0);
          s = (if wti_key1 i = 1 \<and> wti_key2 i = 1 \<and> wti_weld_state i = WELD_READY
               then s\<lparr>wt_in_cycle := 0\<rparr> else s);
          abort = b2u (wti_f_safty i \<noteq> 0 \<and> wti_weld_state i = WELD_CYL1 \<and>
                       (wti_key1 i = 1 \<or> wti_key2 i = 1));
          dn = b2u (wti_sens_dn i = 0 \<and> wt_dn_bak s = 1);
          up = b2u (wti_sens_up i = 0 \<and> wt_up_bak s = 1);
          s = s\<lparr>wt_dn_bak := wti_sens_dn i, wt_up_bak := wti_sens_up i\<rparr>
      in (s, \<lparr>wto_start_pulse = start, wto_safety_abort_pulse = abort,
              wto_dn_edge = dn, wto_up_edge = up\<rparr>))"

text \<open>
  What the glue does with the pulse: the cycle is started, and the trigger told so, only
  when the rest of the machine allows it.
\<close>

definition trig_tick :: "weld_trig_in \<times> bool \<Rightarrow> weld_trig_st \<Rightarrow> weld_trig_st \<times> bool" where
  "trig_tick ib s =
     (let (s, out) = weld_trigger_fsm_step (fst ib) s
      in if wto_start_pulse out \<noteq> 0 \<and> snd ib
         then (weld_trigger_fsm_cycle_started s, True) else (s, False))"

definition both_released_ready :: "weld_trig_in \<Rightarrow> bool" where
  "both_released_ready i \<longleftrightarrow> wti_key1 i = 1 \<and> wti_key2 i = 1 \<and> wti_weld_state i = WELD_READY"

lemma trig_tick_armed:
  assumes "wt_in_cycle s \<noteq> 0"
  shows "snd (trig_tick ib s) = False"
    and "wt_in_cycle (fst (trig_tick ib s)) =
      (if both_released_ready (fst ib) then 0 else wt_in_cycle s)"
  using assms
  by (simp_all add: trig_tick_def weld_trigger_fsm_step_def both_released_ready_def Let_def)

lemma trig_armed_run:
  "wt_in_cycle s \<noteq> 0 \<Longrightarrow> \<forall>ib \<in> set ibs. \<not> both_released_ready (fst ib) \<Longrightarrow>
     snd (fsm_run trig_tick s ibs) = replicate (length ibs) False \<and>
     wt_in_cycle (fst (fsm_run trig_tick s ibs)) \<noteq> 0"
  by (induction ibs arbitrary: s) (simp_all add: fsm_run_Cons trig_tick_armed del: fsm_run.simps(2))

lemma trig_tick_started:
  "snd (trig_tick ib s) \<Longrightarrow>
     wt_in_cycle (fst (trig_tick ib s)) \<noteq> 0 \<and> wti_key1 (fst ib) = 0 \<and> wti_key2 (fst ib) = 0"
  by (simp add: trig_tick_def weld_trigger_fsm_step_def weld_trigger_fsm_cycle_started_def Let_def
      split: if_splits)

section \<open>Properties\<close>

text \<open>
  no tie-down repeat. After a tick that started a cycle (both keys were pressed in that
  tick), no later tick starts another one until a tick at which both keys are released and
  the weld machine is READY has occurred: a key that is taped down cannot repeat the cycle.
\<close>

theorem no_repeat_without_release:
  assumes "snd (trig_tick ib s)" "\<forall>jb \<in> set ibs. \<not> both_released_ready (fst jb)"
  shows "wti_key1 (fst ib) = 0 \<and> wti_key2 (fst ib) = 0 \<and>
    True \<notin> set (snd (fsm_run trig_tick (fst (trig_tick ib s)) ibs))"
  using trig_tick_started [OF assms(1)] trig_armed_run [OF _ assms(2)]
  by (auto simp del: fsm_run.simps)

theorem no_repeat_without_release_witness:
  "(0 :: u8) = 0 \<and> (0 :: u8) = 0 \<and>
   True \<notin> set (snd (fsm_run trig_tick
      (fst (trig_tick (\<lparr>wti_key1 = 0, wti_key2 = 0, wti_sens_up = 1, wti_sens_dn = 1,
         wti_f_safty = 0, wti_weld_state = 0\<rparr>, True) weld_trigger_fsm_init))
      [(\<lparr>wti_key1 = 0, wti_key2 = 1, wti_sens_up = 1, wti_sens_dn = 1,
         wti_f_safty = 0, wti_weld_state = 0\<rparr>, True)]))"
  using no_repeat_without_release
    [of "(\<lparr>wti_key1 = 0, wti_key2 = 0, wti_sens_up = 1, wti_sens_dn = 1,
         wti_f_safty = 0, wti_weld_state = 0\<rparr>, True)" weld_trigger_fsm_init
       "[(\<lparr>wti_key1 = 0, wti_key2 = 1, wti_sens_up = 1, wti_sens_dn = 1,
         wti_f_safty = 0, wti_weld_state = 0\<rparr>, True)]"]
  by (simp add: trig_tick_def weld_trigger_fsm_step_def weld_trigger_fsm_init_def
      both_released_ready_def Let_def)

end
