(* ===== verification/Seek_Reset_Fsm.thy ===== *)
theory Seek_Reset_Fsm
  imports Prelude
begin

text \<open>
  The resonance RESET and SEEK commands, \<open>fw/src/app_seek_reset_fsm.c\<close>: a RESET
  holds its line for 600 ms and chains into a SEEK of 600 ms, a direct SEEK is one
  600 ms pulse. One step is one 10 ms tick.
\<close>

section \<open>Data\<close>

abbreviation (input) SR_IDLE :: u8 where "SR_IDLE \<equiv> 0"
abbreviation (input) SR_RESET :: u8 where "SR_RESET \<equiv> 1"
abbreviation (input) SR_SEEK :: u8 where "SR_SEEK \<equiv> 2"
abbreviation (input) SR_CMD_NONE :: u8 where "SR_CMD_NONE \<equiv> 0"
abbreviation (input) SR_CMD_RESET :: u8 where "SR_CMD_RESET \<equiv> 1"
abbreviation (input) SR_CMD_SEEK :: u8 where "SR_CMD_SEEK \<equiv> 2"
abbreviation (input) SR_TICKS :: u16 where "SR_TICKS \<equiv> 60"

record seek_reset_in =
  sri_cmd :: u8
  sri_run_active :: u8

record seek_reset_out =
  sro_state :: u8
  sro_reset_signal :: u8
  sro_seek_signal :: u8
  sro_reset_icon :: u8
  sro_reset_icon_off :: u8
  sro_seek_icon :: u8
  sro_seek_icon_off :: u8

record seek_reset_st =
  sr_state :: u8
  sr_elapsed :: u16

definition seek_reset_fsm_init :: seek_reset_st where
  "seek_reset_fsm_init = \<lparr>sr_state = SR_IDLE, sr_elapsed = 0\<rparr>"

definition seek_reset_fsm_state :: "seek_reset_st \<Rightarrow> u8" where
  "seek_reset_fsm_state s = sr_state s"

definition sr_out_zero :: seek_reset_out where
  "sr_out_zero = \<lparr>sro_state = 0, sro_reset_signal = 0, sro_seek_signal = 0,
     sro_reset_icon = 0, sro_reset_icon_off = 0, sro_seek_icon = 0, sro_seek_icon_off = 0\<rparr>"

section \<open>Operations\<close>

definition sr_step_reset :: "seek_reset_st \<Rightarrow> seek_reset_out \<Rightarrow> seek_reset_st \<times> seek_reset_out" where
  "sr_step_reset s out =
     (let s = s\<lparr>sr_elapsed := sat_inc (sr_elapsed s)\<rparr>
      in if SR_TICKS \<le> sr_elapsed s
         then (s\<lparr>sr_state := SR_SEEK, sr_elapsed := 0\<rparr>,
               out\<lparr>sro_reset_icon_off := 1, sro_seek_signal := 1, sro_seek_icon := 1\<rparr>)
         else (s, out\<lparr>sro_reset_signal := 1\<rparr>))"

definition sr_step_seek :: "seek_reset_st \<Rightarrow> seek_reset_out \<Rightarrow> seek_reset_st \<times> seek_reset_out" where
  "sr_step_seek s out =
     (let s = s\<lparr>sr_elapsed := sat_inc (sr_elapsed s)\<rparr>
      in if SR_TICKS \<le> sr_elapsed s
         then (s\<lparr>sr_state := SR_IDLE, sr_elapsed := 0\<rparr>, out\<lparr>sro_seek_icon_off := 1\<rparr>)
         else (s, out\<lparr>sro_seek_signal := 1\<rparr>))"

definition sr_step_idle ::
  "seek_reset_in \<Rightarrow> seek_reset_st \<Rightarrow> seek_reset_out \<Rightarrow> seek_reset_st \<times> seek_reset_out" where
  "sr_step_idle i s out =
     (if sri_run_active i \<noteq> 0 then (s, out)
      else if sri_cmd i = SR_CMD_RESET
      then (s\<lparr>sr_state := SR_RESET, sr_elapsed := 0\<rparr>,
            out\<lparr>sro_reset_signal := 1, sro_reset_icon := 1\<rparr>)
      else if sri_cmd i = SR_CMD_SEEK
      then (s\<lparr>sr_state := SR_SEEK, sr_elapsed := 0\<rparr>,
            out\<lparr>sro_seek_signal := 1, sro_seek_icon := 1\<rparr>)
      else (s, out))"

definition seek_reset_fsm_step :: "seek_reset_in \<Rightarrow> seek_reset_st \<Rightarrow> seek_reset_st \<times> seek_reset_out" where
  "seek_reset_fsm_step i s =
     (let (s, out) =
        (if sr_state s = SR_IDLE then sr_step_idle i s sr_out_zero
         else if sr_state s = SR_RESET then sr_step_reset s sr_out_zero
         else if sr_state s = SR_SEEK then sr_step_seek s sr_out_zero
         else (s\<lparr>sr_state := SR_IDLE\<rparr>, sr_out_zero))
      in (s, out\<lparr>sro_state := sr_state s\<rparr>))"

lemmas sr_defs [fsm_defs] =
  seek_reset_fsm_step_def sr_step_idle_def sr_step_reset_def sr_step_seek_def sr_out_zero_def

section \<open>The invariant and the two signal lines\<close>

definition sr_inv :: "seek_reset_st \<Rightarrow> bool" where
  "sr_inv s \<longleftrightarrow>
     sr_state s \<in> {SR_IDLE, SR_RESET, SR_SEEK} \<and> unat (sr_elapsed s) < 60"

lemmas sat_inc_ge60 = sat_inc_ge [of 60, simplified]

lemma sr_inv_init: "sr_inv seek_reset_fsm_init"
  by (simp add: sr_inv_def seek_reset_fsm_init_def)

lemma sr_inv_step: "sr_inv s \<Longrightarrow> sr_inv (fst (seek_reset_fsm_step i s))"
  by (auto simp: sr_inv_def sr_defs Let_def unat_sat_inc sat_inc_ge60)

interpretation sr: tick_fsm seek_reset_fsm_init seek_reset_fsm_step sr_inv
  by unfold_locales (simp_all add: sr_inv_init sr_inv_step)

interpretation sr_reset_line: edge_level seek_reset_fsm_init seek_reset_fsm_step sr_inv
  "\<lambda>out. sro_reset_icon out \<noteq> 0" "\<lambda>out. sro_reset_icon_off out \<noteq> 0"
  "\<lambda>s. sr_state s = SR_RESET"
  by unfold_locales
    (auto simp: sr_inv_def sr_defs Let_def seek_reset_fsm_init_def)

interpretation sr_seek_line: edge_level seek_reset_fsm_init seek_reset_fsm_step sr_inv
  "\<lambda>out. sro_seek_icon out \<noteq> 0" "\<lambda>out. sro_seek_icon_off out \<noteq> 0"
  "\<lambda>s. sr_state s = SR_SEEK"
  by unfold_locales
    (auto simp: sr_inv_def sr_defs Let_def seek_reset_fsm_init_def)

interpretation sr_out: tick_fsm_out seek_reset_fsm_init seek_reset_fsm_step sr_inv
  "\<lambda>s out. sro_state out = sr_state s \<and>
     sro_reset_signal out = b2u (sr_state s = SR_RESET) \<and>
     sro_seek_signal out = b2u (sr_state s = SR_SEEK)"
  by unfold_locales (auto simp: sr_inv_def sr_defs Let_def)

section \<open>Timing of the chain\<close>

definition sr_obs :: "seek_reset_out \<Rightarrow> u8 \<times> u8 \<times> u8" where
  "sr_obs out = (sro_state out, sro_reset_signal out, sro_seek_signal out)"

text \<open>What is left of a pulse, in ticks, whatever the commands of the meantime.\<close>

lemma sr_elapsed_step:
  assumes "unat e = 60 - t" "0 < t" "t \<le> 60"
  shows "60 \<le> sat_inc e \<longleftrightarrow> t \<le> 1" and "t > 1 \<Longrightarrow> unat (sat_inc e) = 60 - (t - 1)"
  using assms by (auto simp: sat_inc_ge60 unat_sat_inc)

interpretation sr_reset_phase: tick_phase seek_reset_fsm_step sr_obs "\<lambda>_. True"
  "\<lambda>s t. sr_state s = SR_RESET \<and> 0 < t \<and> t \<le> 60 \<and> unat (sr_elapsed s) = 60 - t"
  "(SR_RESET, 1, 0)" "(SR_SEEK, 0, 1)"
  "\<lambda>s. sr_state s = SR_SEEK \<and> sr_elapsed s = 0"
  by unfold_locales
    (auto simp: sr_defs sr_obs_def Let_def sr_elapsed_step simp del: One_nat_def)

interpretation sr_seek_phase: tick_phase seek_reset_fsm_step sr_obs "\<lambda>_. True"
  "\<lambda>s t. sr_state s = SR_SEEK \<and> 0 < t \<and> t \<le> 60 \<and> unat (sr_elapsed s) = 60 - t"
  "(SR_SEEK, 0, 1)" "(SR_IDLE, 0, 0)" "\<lambda>s. sr_state s = SR_IDLE"
  by unfold_locales
    (auto simp: sr_defs sr_obs_def Let_def sr_elapsed_step simp del: One_nat_def)

section \<open>Properties\<close>

text \<open>
  a RESET command runs its chain to the end and exactly for its time. From IDLE with
  no run active, a RESET tick holds the RESET line for 60 ticks (600 ms), then the SEEK
  line for 60 ticks, then both are released, whatever commands and runs arrive meanwhile;
  no tick has both lines active.
\<close>

theorem sr_reset_chain_trace:
  assumes "sr_state s = 0" "sri_cmd i = 1" "sri_run_active i = 0" "length is = 120"
  shows "map sr_obs (snd (fsm_run seek_reset_fsm_step s (i # is))) =
      replicate 60 (1, 1, 0) @ replicate 60 (2, 0, 1) @ [(0, 0, 0)] \<and>
    sr_state (fst (fsm_run seek_reset_fsm_step s (i # is))) = 0"
proof -
  let ?s1 = "fst (seek_reset_fsm_step i s)"
  have s1: "sr_state ?s1 = 1" "unat (sr_elapsed ?s1) = 0"
    and o1: "sr_obs (snd (seek_reset_fsm_step i s)) = (1, 1, 0)"
    using assms by (simp_all add: sr_defs sr_obs_def)
  define xs where "xs = take 60 is"
  define ys where "ys = drop 60 is"
  have split: "is = xs @ ys" "length xs = 60" "length ys = 60"
    using assms(4) by (simp_all add: xs_def ys_def)
  have p1: "map sr_obs (snd (fsm_run seek_reset_fsm_step ?s1 xs)) =
      replicate 59 (1, 1, 0) @ [(2, 0, 1)] \<and>
      sr_state (fst (fsm_run seek_reset_fsm_step ?s1 xs)) = 2 \<and>
      sr_elapsed (fst (fsm_run seek_reset_fsm_step ?s1 xs)) = 0"
    using sr_reset_phase.phase_run [of ?s1 60 xs] s1 split by simp
  define s2 where "s2 = fst (fsm_run seek_reset_fsm_step ?s1 xs)"
  have p2: "map sr_obs (snd (fsm_run seek_reset_fsm_step s2 ys)) =
      replicate 59 (2, 0, 1) @ [(0, 0, 0)] \<and>
      sr_state (fst (fsm_run seek_reset_fsm_step s2 ys)) = 0"
    using sr_seek_phase.phase_run [of s2 60 ys] p1 split by (simp add: s2_def)
  have "replicate 60 x = x # replicate 59 x" "replicate 60 x = replicate 59 x @ [x]" for x :: "u8 \<times> u8 \<times> u8"
    by (simp_all add: numeral_eq_Suc replicate_append_same [symmetric])
  with o1 p1 p2 show ?thesis
    by (simp add: split fsm_run_Cons fsm_run_append s2_def del: fsm_run.simps(2))
qed

theorem sr_reset_chain_trace_witness:
  "map sr_obs (snd (fsm_run seek_reset_fsm_step seek_reset_fsm_init
     (\<lparr>sri_cmd = 1, sri_run_active = 0\<rparr> #
      replicate 120 \<lparr>sri_cmd = 2, sri_run_active = 1\<rparr>))) =
   replicate 60 (1, 1, 0) @ replicate 60 (2, 0, 1) @ [(0, 0, 0)]"
proof -
  have "sr_state seek_reset_fsm_init = 0" by (simp add: seek_reset_fsm_init_def)
  from sr_reset_chain_trace [OF this, of "\<lparr>sri_cmd = 1, sri_run_active = 0\<rparr>"
      "replicate 120 \<lparr>sri_cmd = 2, sri_run_active = 1\<rparr>"]
  show ?thesis by simp
qed

text \<open>
  the icons mirror the lines. Over any run from boot, folding the RESET icon edges
  gives a level that is on exactly in the RESET state, folding the SEEK icon edges one
  that is on exactly in the SEEK state, so the panel icons and the OSC lines the glue
  drives from the same edges can never both be left on.
\<close>

theorem sr_icon_levels:
  fixes "is" :: "seek_reset_in list"
  defines "r \<equiv> fsm_run seek_reset_fsm_step seek_reset_fsm_init is"
  shows "level_after (\<lambda>out. sro_reset_icon out \<noteq> 0) (\<lambda>out. sro_reset_icon_off out \<noteq> 0) False (snd r) =
      (sr_state (fst r) = 1) \<and>
    level_after (\<lambda>out. sro_seek_icon out \<noteq> 0) (\<lambda>out. sro_seek_icon_off out \<noteq> 0) False (snd r) =
      (sr_state (fst r) = 2)"
  unfolding r_def by (simp only: sr_reset_line.level_boot_run sr_seek_line.level_boot_run simp_thms)

end
