(* ===== verification/Osc_Init_Fsm.thy ===== *)
theory Osc_Init_Fsm
  imports Prelude
begin

text \<open>
  The boot handshake with the oscillator board, \<open>fw/src/app_osc_init_fsm.c\<close> and its
  blocking driver \<open>fw/src/app_osc_init.c\<close>: wait for the board's output to rise and
  fall (with 900 ms fallbacks), then a RESET pulse and a SEEK pulse.
\<close>

section \<open>Data\<close>

abbreviation (input) OSC_WAIT_H :: u8 where "OSC_WAIT_H \<equiv> 0"
abbreviation (input) OSC_WAIT_L :: u8 where "OSC_WAIT_L \<equiv> 1"
abbreviation (input) OSC_GAP :: u8 where "OSC_GAP \<equiv> 2"
abbreviation (input) OSC_RESET :: u8 where "OSC_RESET \<equiv> 3"
abbreviation (input) OSC_SEEK :: u8 where "OSC_SEEK \<equiv> 4"
abbreviation (input) OSC_DONE :: u8 where "OSC_DONE \<equiv> 5"
abbreviation (input) OSC_WAIT_H_TIMEOUT :: u16 where "OSC_WAIT_H_TIMEOUT \<equiv> 90"
abbreviation (input) OSC_WAIT_L_TIMEOUT :: u16 where "OSC_WAIT_L_TIMEOUT \<equiv> 90"
abbreviation (input) OSC_H_DEBOUNCE :: u8 where "OSC_H_DEBOUNCE \<equiv> 2"
abbreviation (input) OSC_GAP_TICKS :: u16 where "OSC_GAP_TICKS \<equiv> 15"
abbreviation (input) OSC_RESET_TICKS :: u16 where "OSC_RESET_TICKS \<equiv> 4"
abbreviation (input) OSC_SEEK_TICKS :: u16 where "OSC_SEEK_TICKS \<equiv> 2"
abbreviation (input) OSC_INIT_TICK_MS :: u32 where "OSC_INIT_TICK_MS \<equiv> 10"

record osc_out =
  oo_state :: u8
  oo_reset_signal :: u8
  oo_seek_signal :: u8

record osc_st =
  o_state :: u8
  o_elapsed :: u16
  o_h_debounce :: u8

definition osc_init_fsm_init :: osc_st where
  "osc_init_fsm_init = \<lparr>o_state = OSC_WAIT_H, o_elapsed = 0, o_h_debounce = 0\<rparr>"

definition osc_init_fsm_state :: "osc_st \<Rightarrow> u8" where
  "osc_init_fsm_state s = o_state s"

definition osc_out_zero :: osc_out where
  "osc_out_zero = \<lparr>oo_state = 0, oo_reset_signal = 0, oo_seek_signal = 0\<rparr>"

section \<open>The step function\<close>

definition osc_step_wait_h :: "u8 \<Rightarrow> osc_st \<Rightarrow> osc_st" where
  "osc_step_wait_h pb12 s =
     (if pb12 \<noteq> 0 then
        (let s = s\<lparr>o_h_debounce :=
               (if o_h_debounce s < 0xFF then o_h_debounce s + 1 else o_h_debounce s)\<rparr>
         in if OSC_H_DEBOUNCE \<le> o_h_debounce s
            then s\<lparr>o_state := OSC_WAIT_L, o_elapsed := 0, o_h_debounce := 0\<rparr>
            else s)
      else
        (let s = s\<lparr>o_h_debounce := 0, o_elapsed := sat_inc (o_elapsed s)\<rparr>
         in if OSC_WAIT_H_TIMEOUT \<le> o_elapsed s
            then s\<lparr>o_state := OSC_WAIT_L, o_elapsed := 0\<rparr>
            else s))"

definition osc_step_wait_l :: "u8 \<Rightarrow> osc_st \<Rightarrow> osc_st" where
  "osc_step_wait_l pb12 s =
     (if pb12 = 0 then s\<lparr>o_state := OSC_GAP, o_elapsed := 0\<rparr>
      else
        (let s = s\<lparr>o_elapsed := sat_inc (o_elapsed s)\<rparr>
         in if OSC_WAIT_L_TIMEOUT \<le> o_elapsed s
            then s\<lparr>o_state := OSC_GAP, o_elapsed := 0\<rparr>
            else s))"

definition osc_step_gap :: "osc_st \<Rightarrow> osc_out \<Rightarrow> osc_st \<times> osc_out" where
  "osc_step_gap s out =
     (let s = s\<lparr>o_elapsed := sat_inc (o_elapsed s)\<rparr>
      in if OSC_GAP_TICKS \<le> o_elapsed s
         then (s\<lparr>o_state := OSC_RESET, o_elapsed := 0\<rparr>, out\<lparr>oo_reset_signal := 1\<rparr>)
         else (s, out))"

definition osc_step_reset :: "osc_st \<Rightarrow> osc_out \<Rightarrow> osc_st \<times> osc_out" where
  "osc_step_reset s out =
     (let s = s\<lparr>o_elapsed := sat_inc (o_elapsed s)\<rparr>
      in if OSC_RESET_TICKS \<le> o_elapsed s
         then (s\<lparr>o_state := OSC_SEEK, o_elapsed := 0\<rparr>, out\<lparr>oo_seek_signal := 1\<rparr>)
         else (s, out\<lparr>oo_reset_signal := 1\<rparr>))"

definition osc_step_seek :: "osc_st \<Rightarrow> osc_out \<Rightarrow> osc_st \<times> osc_out" where
  "osc_step_seek s out =
     (let s = s\<lparr>o_elapsed := sat_inc (o_elapsed s)\<rparr>
      in if OSC_SEEK_TICKS \<le> o_elapsed s
         then (s\<lparr>o_state := OSC_DONE, o_elapsed := 0\<rparr>, out)
         else (s, out\<lparr>oo_seek_signal := 1\<rparr>))"

definition osc_init_fsm_step :: "u8 \<Rightarrow> osc_st \<Rightarrow> osc_st \<times> osc_out" where
  "osc_init_fsm_step pb12 s =
     (let out = osc_out_zero;
          (s, out) =
            (if o_state s = OSC_WAIT_H then (osc_step_wait_h pb12 s, out)
             else if o_state s = OSC_WAIT_L then (osc_step_wait_l pb12 s, out)
             else if o_state s = OSC_GAP then osc_step_gap s out
             else if o_state s = OSC_RESET then osc_step_reset s out
             else if o_state s = OSC_SEEK then osc_step_seek s out
             else if o_state s = OSC_DONE then (s, out)
             else (s\<lparr>o_state := OSC_DONE\<rparr>, out))
      in (s, out\<lparr>oo_state := o_state s\<rparr>))"

lemmas osc_defs [fsm_defs] =
  osc_init_fsm_step_def osc_step_wait_h_def osc_step_wait_l_def osc_step_gap_def
  osc_step_reset_def osc_step_seek_def osc_out_zero_def

section \<open>The blocking driver\<close>

text \<open>
  \<open>app_osc_init_tick\<close> is gated to 10 ms; its effects are the two command lines of the
  oscillator board. One element of \<open>env\<close> is what one call reads: the millisecond
  counter and the PB12 pin.
\<close>

record osc_glue =
  og_fsm :: osc_st
  og_prev_ms :: u32
  og_reset_line :: bool
  og_seek_line :: bool

definition app_osc_init_init :: "u32 \<Rightarrow> osc_glue \<Rightarrow> osc_glue" where
  "app_osc_init_init now g = g\<lparr>og_fsm := osc_init_fsm_init, og_prev_ms := now\<rparr>"

definition app_osc_init_tick :: "u32 \<Rightarrow> u8 \<Rightarrow> osc_glue \<Rightarrow> osc_glue" where
  "app_osc_init_tick now pb12 g =
     (if elapsed now (og_prev_ms g) < OSC_INIT_TICK_MS then g
      else
        (let g = g\<lparr>og_prev_ms := now\<rparr>
         in if osc_init_fsm_state (og_fsm g) = OSC_DONE then g
            else
              (let (s, out) = osc_init_fsm_step pb12 (og_fsm g)
               in g\<lparr>og_fsm := s, og_reset_line := (oo_reset_signal out \<noteq> 0),
                    og_seek_line := (oo_seek_signal out \<noteq> 0)\<rparr>)))"

text \<open>The boot loop: it may spin forever, so not returning is \<open>None\<close>.\<close>

partial_function (option) app_osc_init_run_to_done ::
  "(nat \<Rightarrow> u32 \<times> u8) \<Rightarrow> nat \<Rightarrow> osc_glue \<Rightarrow> osc_glue option" where
  "app_osc_init_run_to_done env k g =
     (if osc_init_fsm_state (og_fsm g) \<noteq> OSC_DONE
      then app_osc_init_run_to_done env (Suc k)
             (app_osc_init_tick (fst (env k)) (snd (env k)) g)
      else Some g)"

section \<open>The invariant and the rank\<close>

definition osc_inv :: "osc_st \<Rightarrow> bool" where
  "osc_inv s \<longleftrightarrow>
     (o_state s = OSC_WAIT_H \<and> unat (o_elapsed s) < 90 \<and> o_h_debounce s \<in> {0, 1}) \<or>
     (o_state s = OSC_WAIT_L \<and> unat (o_elapsed s) < 90) \<or>
     (o_state s = OSC_GAP \<and> unat (o_elapsed s) < 15) \<or>
     (o_state s = OSC_RESET \<and> unat (o_elapsed s) < 4) \<or>
     (o_state s = OSC_SEEK \<and> unat (o_elapsed s) < 2) \<or>
     o_state s = OSC_DONE"

text \<open>Ticks left in the worst case: a board that bounces between the two levels.\<close>

definition osc_rank :: "osc_st \<Rightarrow> nat" where
  "osc_rank s =
     (if o_state s = OSC_WAIT_H
      then 111 + 2 * (90 - unat (o_elapsed s)) + (if o_h_debounce s = 0 then 1 else 0)
      else if o_state s = OSC_WAIT_L then 21 + (90 - unat (o_elapsed s))
      else if o_state s = OSC_GAP then 6 + (15 - unat (o_elapsed s))
      else if o_state s = OSC_RESET then 2 + (4 - unat (o_elapsed s))
      else if o_state s = OSC_SEEK then 2 - unat (o_elapsed s)
      else 0)"

lemmas osc_timeouts = sat_inc_ge [of 90, simplified] sat_inc_ge [of 15, simplified]
  sat_inc_ge [of 4, simplified] sat_inc_ge [of 2, simplified]

lemma osc_inv_init: "osc_inv osc_init_fsm_init"
  by (simp add: osc_inv_def osc_init_fsm_init_def)

lemma osc_inv_step: "osc_inv s \<Longrightarrow> osc_inv (fst (osc_init_fsm_step i s))"
  unfolding osc_inv_def [of s]
  by (elim disjE conjE) (auto simp: osc_inv_def osc_defs Let_def unat_sat_inc osc_timeouts)

lemma osc_rank_step:
  assumes "osc_inv s" "o_state s \<noteq> OSC_DONE"
  shows "osc_rank (fst (osc_init_fsm_step i s)) < osc_rank s"
  using assms unfolding osc_inv_def
  by (elim disjE conjE) (auto simp: osc_rank_def osc_defs Let_def unat_sat_inc osc_timeouts)

lemma osc_rank_0: "osc_inv s \<Longrightarrow> osc_rank s = 0 \<longleftrightarrow> o_state s = OSC_DONE"
  by (auto simp: osc_inv_def osc_rank_def)

interpretation osc: tick_fsm osc_init_fsm_init osc_init_fsm_step osc_inv
  by unfold_locales (simp_all add: osc_inv_init osc_inv_step)

lemma osc_run_done:
  "osc_inv s \<Longrightarrow> osc_rank s \<le> length is \<Longrightarrow>
     o_state (fst (fsm_run osc_init_fsm_step s is)) = OSC_DONE"
proof (induction "is" arbitrary: s)
  case Nil
  then show ?case by (simp add: osc_rank_0)
next
  case (Cons i "is")
  have "osc_rank (fst (osc_init_fsm_step i s)) \<le> length is"
  proof (cases "o_state s = OSC_DONE")
    case True
    then show ?thesis by (simp add: osc_rank_def osc_init_fsm_step_def)
  next
    case False
    from osc_rank_step [OF Cons.prems(1) False, of i] Cons.prems(2) show ?thesis by simp
  qed
  with Cons.IH [OF osc_inv_step [OF Cons.prems(1)]] show ?case
    by (simp add: fsm_run_Cons del: fsm_run.simps(2))
qed

section \<open>The pulses\<close>

definition osc_obs :: "osc_out \<Rightarrow> u8 \<times> u8 \<times> u8" where
  "osc_obs out = (oo_state out, oo_reset_signal out, oo_seek_signal out)"

lemma osc_left_step:
  assumes "unat e = n - t" "0 < t" "t \<le> n" "n \<le> 65535"
  shows "of_nat n \<le> sat_inc e \<longleftrightarrow> t \<le> 1" and "t > 1 \<Longrightarrow> unat (sat_inc e) = n - (t - 1)"
  using assms by (auto simp: sat_inc_ge unat_sat_inc)

lemmas osc_lefts = osc_left_step [of _ 15, simplified] osc_left_step [of _ 4, simplified]
  osc_left_step [of _ 2, simplified]

interpretation osc_gap_phase: tick_phase osc_init_fsm_step osc_obs "\<lambda>_. True"
  "\<lambda>s t. o_state s = OSC_GAP \<and> 0 < t \<and> t \<le> 15 \<and> unat (o_elapsed s) = 15 - t"
  "(OSC_GAP, 0, 0)" "(OSC_RESET, 1, 0)"
  "\<lambda>s. o_state s = OSC_RESET \<and> o_elapsed s = 0"
  by unfold_locales (auto simp: osc_defs osc_obs_def Let_def osc_lefts)

interpretation osc_reset_phase: tick_phase osc_init_fsm_step osc_obs "\<lambda>_. True"
  "\<lambda>s t. o_state s = OSC_RESET \<and> 0 < t \<and> t \<le> 4 \<and> unat (o_elapsed s) = 4 - t"
  "(OSC_RESET, 1, 0)" "(OSC_SEEK, 0, 1)"
  "\<lambda>s. o_state s = OSC_SEEK \<and> o_elapsed s = 0"
  by unfold_locales (auto simp: osc_defs osc_obs_def Let_def osc_lefts)

interpretation osc_seek_phase: tick_phase osc_init_fsm_step osc_obs "\<lambda>_. True"
  "\<lambda>s t. o_state s = OSC_SEEK \<and> 0 < t \<and> t \<le> 2 \<and> unat (o_elapsed s) = 2 - t"
  "(OSC_SEEK, 0, 1)" "(OSC_DONE, 0, 0)" "\<lambda>s. o_state s = OSC_DONE"
proof (unfold_locales, goal_cases)
  case (1 s t i)
  then have "t = 2" "o_elapsed s = 0" by (simp_all add: unat_eq_0)
  with 1 show ?case by (simp add: osc_defs osc_obs_def Let_def sat_inc_def word_le_nat_alt)
next
  case (2 s t i)
  then have "t = 1" by simp
  with 2 have "unat (o_elapsed s) = 1" by simp
  then have "o_elapsed s = 1" by (simp add: word_unat_eq_iff)
  moreover from 2 have "o_state s = OSC_SEEK" by simp
  ultimately show ?case by (simp add: osc_defs osc_obs_def Let_def sat_inc_def)
qed

section \<open>Properties\<close>

text \<open>
  the boot handshake ends whatever the board does. From boot, any 292 samples of
  PB12 (2.92 s), a missing board, a stuck output and a bouncing one included, bring the
  machine to DONE, where it stays.
\<close>

theorem osc_init_always_completes:
  assumes "292 \<le> length pins"
  shows "o_state (fst (fsm_run osc_init_fsm_step osc_init_fsm_init pins)) = 5"
proof (rule osc_run_done [OF osc_inv_init])
  show "osc_rank osc_init_fsm_init \<le> length pins"
    using assms by (simp add: osc_rank_def osc_init_fsm_init_def)
qed

theorem osc_init_always_completes_witness:
  "o_state (fst (fsm_run osc_init_fsm_step osc_init_fsm_init
     (concat (replicate 146 [1, 0])))) = 5"
  by (rule osc_init_always_completes) (simp add: length_concat sum_list_replicate)

text \<open>
  once the board's output has fallen, the pulses are exact whatever PB12 does: a gap
  of 14 idle ticks, the RESET line active for 4 ticks (40 ms), the SEEK line for 2 ticks
  (20 ms), then both released. (The comments of the state enumeration and of the switch
  speak of 200 ms and 100 ms.)
\<close>

theorem osc_pulse_trace:
  assumes "o_state s = 2" "o_elapsed s = 0" "length pins = 21"
  shows "map osc_obs (snd (fsm_run osc_init_fsm_step s pins)) =
      replicate 14 (2, 0, 0) @ replicate 4 (3, 1, 0) @ replicate 2 (4, 0, 1) @ [(5, 0, 0)]"
proof -
  define a where "a = take 15 pins"
  define b where "b = take 4 (drop 15 pins)"
  define c where "c = drop 4 (drop 15 pins)"
  have "drop 15 pins = b @ c" "pins = a @ drop 15 pins"
    by (simp_all only: a_def b_def c_def append_take_drop_id)
  then have split: "pins = a @ b @ c" by simp
  have len: "length a = 15" "length b = 4" "length c = 2"
    using assms(3) by (simp_all add: a_def b_def c_def)
  define s1 where "s1 = fst (fsm_run osc_init_fsm_step s a)"
  define s2 where "s2 = fst (fsm_run osc_init_fsm_step s1 b)"
  have p1: "map osc_obs (snd (fsm_run osc_init_fsm_step s a)) = replicate 14 (2, 0, 0) @ [(3, 1, 0)] \<and>
      o_state s1 = 3 \<and> o_elapsed s1 = 0"
    using osc_gap_phase.phase_run [of s 15 a] assms len by (simp add: s1_def)
  have p2: "map osc_obs (snd (fsm_run osc_init_fsm_step s1 b)) = replicate 3 (3, 1, 0) @ [(4, 0, 1)] \<and>
      o_state s2 = 4 \<and> o_elapsed s2 = 0"
    using osc_reset_phase.phase_run [of s1 4 b] p1 len by (simp add: s2_def)
  have p3: "map osc_obs (snd (fsm_run osc_init_fsm_step s2 c)) = [(4, 0, 1), (5, 0, 0)]"
    using osc_seek_phase.phase_run [of s2 2 c] p2 len by simp
  show ?thesis
    using p1 p2 p3 by (simp add: split fsm_run_append s1_def s2_def numeral_eq_Suc)
qed

theorem osc_pulse_trace_witness:
  "map osc_obs (snd (fsm_run osc_init_fsm_step (osc_init_fsm_init\<lparr>o_state := 2\<rparr>) (replicate 21 1))) =
   replicate 14 (2, 0, 0) @ replicate 4 (3, 1, 0) @ replicate 2 (4, 0, 1) @ [(5, 0, 0)]"
  by (rule osc_pulse_trace) (simp_all add: osc_init_fsm_init_def)

lemma osc_tick_closed:
  "elapsed now (og_prev_ms g) < 10 \<Longrightarrow> app_osc_init_tick now pin g = g"
  by (simp add: app_osc_init_tick_def)

lemma osc_tick_open:
  assumes "10 \<le> elapsed now (og_prev_ms g)" "o_state (og_fsm g) \<noteq> OSC_DONE"
  shows "og_fsm (app_osc_init_tick now pin g) = fst (osc_init_fsm_step pin (og_fsm g))"
  using assms
  by (simp add: app_osc_init_tick_def osc_init_fsm_state_def Let_def case_prod_unfold not_less)

lemma osc_run_to_done_total:
  assumes live: "\<And>k t. \<exists>j. k \<le> j \<and> 10 \<le> elapsed (fst (env j)) t"
  shows "osc_inv (og_fsm g) \<Longrightarrow>
    \<exists>g'. app_osc_init_run_to_done env k g = Some g' \<and> o_state (og_fsm g') = OSC_DONE"
proof (induction "osc_rank (og_fsm g)" arbitrary: g k rule: less_induct)
  case less
  show ?case
  proof (cases "o_state (og_fsm g) = OSC_DONE")
    case True
    then show ?thesis
      by (subst app_osc_init_run_to_done.simps) (simp add: osc_init_fsm_state_def)
  next
    case False
    obtain j where "k \<le> j" and open_j: "10 \<le> elapsed (fst (env j)) (og_prev_ms g)"
      using live by blast
    then obtain d where "j = k + d" using le_Suc_ex by blast
    then show ?thesis using open_j
    proof (induction d arbitrary: k)
      case 0
      let ?g = "app_osc_init_tick (fst (env k)) (snd (env k)) g"
      have fsm: "og_fsm ?g = fst (osc_init_fsm_step (snd (env k)) (og_fsm g))"
        using 0 False by (simp add: osc_tick_open)
      have "\<exists>g'. app_osc_init_run_to_done env (Suc k) ?g = Some g' \<and> o_state (og_fsm g') = OSC_DONE"
        using less.hyps [of ?g "Suc k"] osc_rank_step [OF less.prems False] osc_inv_step [OF less.prems]
        by (simp add: fsm)
      then show ?case
        by (subst app_osc_init_run_to_done.simps) (simp add: osc_init_fsm_state_def False)
    next
      case (Suc d)
      show ?case
      proof (cases "10 \<le> elapsed (fst (env k)) (og_prev_ms g)")
        case True
        let ?g = "app_osc_init_tick (fst (env k)) (snd (env k)) g"
        have fsm: "og_fsm ?g = fst (osc_init_fsm_step (snd (env k)) (og_fsm g))"
          using True False by (simp add: osc_tick_open)
        have "\<exists>g'. app_osc_init_run_to_done env (Suc k) ?g = Some g' \<and> o_state (og_fsm g') = OSC_DONE"
          using less.hyps [of ?g "Suc k"] osc_rank_step [OF less.prems False] osc_inv_step [OF less.prems]
          by (simp add: fsm)
        then show ?thesis
          by (subst app_osc_init_run_to_done.simps) (simp add: osc_init_fsm_state_def False)
      next
        case closed: False
        have "\<exists>g'. app_osc_init_run_to_done env (Suc k) g = Some g' \<and> o_state (og_fsm g') = OSC_DONE"
          using Suc.IH [of "Suc k"] Suc.prems by simp
        then show ?thesis
          using closed
          by (subst app_osc_init_run_to_done.simps)
            (simp add: osc_init_fsm_state_def False osc_tick_closed not_le)
      qed
    qed
  qed
qed

text \<open>
  the blocking boot loop returns. If the millisecond counter keeps moving (for every
  time stamp some later reading is at least 10 ms past it), the loop that runs the
  handshake before the LCD boot returns with the machine in DONE, whatever PB12 reads.
\<close>

theorem osc_run_to_done_returns:
  assumes "\<And>k t. \<exists>j. k \<le> j \<and> 10 \<le> elapsed (fst (env j)) t"
  shows "\<exists>g'. app_osc_init_run_to_done env 0 (app_osc_init_init now g) = Some g' \<and>
    o_state (og_fsm g') = 5"
  by (rule osc_run_to_done_total [OF assms]) (simp add: app_osc_init_init_def osc_inv_init)

lemma ten_ms_clock_live: "\<exists>j. k \<le> j \<and> 10 \<le> elapsed (fst ((\<lambda>j. (of_nat (10 * j), 0 :: u8)) j)) t"
proof (cases "10 \<le> elapsed (of_nat (10 * k)) t")
  case True
  then show ?thesis by auto
next
  case False
  then have "unat (elapsed (of_nat (10 * k)) t) < 10" by (simp add: word_le_nat_alt)
  moreover have "elapsed (of_nat (10 * Suc k)) t = elapsed (of_nat (10 * k)) t + 10"
    by (simp add: elapsed_def)
  ultimately have "10 \<le> elapsed (of_nat (10 * Suc k)) t"
    by (simp only: word_le_nat_alt unat_word_ariths) simp
  then show ?thesis by (intro exI [of _ "Suc k"]) simp
qed

theorem osc_run_to_done_returns_witness:
  "\<exists>g'. app_osc_init_run_to_done (\<lambda>j. (of_nat (10 * j), 0)) 0
      (app_osc_init_init 0 \<lparr>og_fsm = osc_init_fsm_init, og_prev_ms = 0,
         og_reset_line = False, og_seek_line = False\<rparr>) = Some g' \<and> o_state (og_fsm g') = 5"
  by (rule osc_run_to_done_returns) (rule ten_ms_clock_live)

end
