(* ===== verification/Horn_Fsm.thy ===== *)
theory Horn_Fsm
  imports Prelude
begin

text \<open>
  The horn-down jog mode, \<open>fw/src/app_horn_fsm.c\<close>: while the mode is on, every press of
  one of the two start keys (both at once count as one) toggles the solenoid; leaving or
  entering the mode and the emergency stop force it off.
\<close>

section \<open>Data and operations\<close>

record horn_in =
  hi_mode :: u8
  hi_key1 :: u8
  hi_key2 :: u8
  hi_estop :: u8

record horn_st =
  hs_mode_prev :: u8
  hs_key1_bak :: u8
  hs_key2_bak :: u8
  hs_horn :: u8

definition horn_fsm_init :: horn_st where
  "horn_fsm_init = \<lparr>hs_mode_prev = 0, hs_key1_bak = 0, hs_key2_bak = 0, hs_horn = 0\<rparr>"

definition horn_fsm_step :: "horn_in \<Rightarrow> horn_st \<Rightarrow> horn_st \<times> u8" where
  "horn_fsm_step i s =
     (let press = 0 :: u8;
          (s, press) =
            (if hi_key1 i \<noteq> hs_key1_bak s
             then (s\<lparr>hs_key1_bak := hi_key1 i\<rparr>, if hi_key1 i = 0 then 1 else press)
             else (s, press));
          (s, press) =
            (if hi_key2 i \<noteq> hs_key2_bak s
             then (s\<lparr>hs_key2_bak := hi_key2 i\<rparr>, if hi_key2 i = 0 then 1 else press)
             else (s, press));
          s = (if hi_mode i = 0 then s\<lparr>hs_horn := 0\<rparr>
               else if hi_estop i \<noteq> 0 then s\<lparr>hs_horn := 0\<rparr>
               else if hs_mode_prev s = 0 then s\<lparr>hs_horn := 0\<rparr>
               else if press \<noteq> 0 then s\<lparr>hs_horn := hs_horn s XOR 1\<rparr>
               else s);
          s = s\<lparr>hs_mode_prev := hi_mode i\<rparr>
      in (s, hs_horn s))"

section \<open>Invariant and history\<close>

definition horn_inv :: "horn_st \<Rightarrow> bool" where
  "horn_inv s \<longleftrightarrow> hs_horn s \<in> {0, 1} \<and> (hs_mode_prev s = 0 \<longrightarrow> hs_horn s = 0)"

lemma xor_1_level: "x \<in> {0, 1 :: u8} \<Longrightarrow> x XOR 1 = b2u (x = 0)"
  by auto

text \<open>A tick that counts as a press, given the samples of the tick before.\<close>

definition horn_press :: "u8 \<times> u8 \<Rightarrow> horn_in \<Rightarrow> bool" where
  "horn_press bak i \<longleftrightarrow>
     (fst bak \<noteq> 0 \<and> hi_key1 i = 0) \<or> (snd bak \<noteq> 0 \<and> hi_key2 i = 0)"

fun horn_presses :: "u8 \<times> u8 \<Rightarrow> horn_in list \<Rightarrow> nat" where
  "horn_presses bak [] = 0"
| "horn_presses bak (i # is) =
     (if horn_press bak i then 1 else 0) + horn_presses (hi_key1 i, hi_key2 i) is"

lemma horn_step_bak:
  "hs_key1_bak (fst (horn_fsm_step i s)) = hi_key1 i"
  "hs_key2_bak (fst (horn_fsm_step i s)) = hi_key2 i"
  "hs_mode_prev (fst (horn_fsm_step i s)) = hi_mode i"
  "snd (horn_fsm_step i s) = hs_horn (fst (horn_fsm_step i s))"
  by (simp_all add: horn_fsm_step_def Let_def)

lemma horn_step_horn:
  assumes "hs_horn s \<in> {0, 1}"
  shows "hs_horn (fst (horn_fsm_step i s)) =
    (if hi_mode i = 0 \<or> hi_estop i \<noteq> 0 \<or> hs_mode_prev s = 0 then 0
     else if horn_press (hs_key1_bak s, hs_key2_bak s) i then b2u (hs_horn s = 0)
     else hs_horn s)"
  using assms by (auto simp: horn_fsm_step_def horn_press_def Let_def)

lemma horn_inv_step: "horn_inv s \<Longrightarrow> horn_inv (fst (horn_fsm_step i s))"
  by (auto simp: horn_inv_def horn_step_bak horn_step_horn b2u_def)

interpretation horn: tick_fsm horn_fsm_init horn_fsm_step horn_inv
  by unfold_locales (simp_all add: horn_inv_step, simp add: horn_inv_def horn_fsm_init_def)

interpretation horn_out: tick_fsm_out horn_fsm_init horn_fsm_step horn_inv
  "\<lambda>s out. out = hs_horn s"
  by unfold_locales (simp add: horn_step_bak)

lemma horn_parity_run:
  assumes "horn_inv s" "hs_mode_prev s \<noteq> 0" "\<forall>i \<in> set is. hi_mode i \<noteq> 0 \<and> hi_estop i = 0"
  shows "hs_horn (fst (fsm_run horn_fsm_step s is)) =
    b2u ((hs_horn s = 1) = even (horn_presses (hs_key1_bak s, hs_key2_bak s) is))"
  using assms
proof (induction "is" arbitrary: s)
  case Nil
  then show ?case by (auto simp: horn_inv_def)
next
  case (Cons i "is")
  have "horn_inv (fst (horn_fsm_step i s))" using Cons.prems(1) by (rule horn_inv_step)
  from Cons.IH [OF this] Cons.prems show ?case
    by (auto simp: fsm_run_Cons horn_step_bak horn_step_horn horn_inv_def simp del: fsm_run.simps(2))
qed

section \<open>Properties\<close>

text \<open>
  inside the mode the solenoid is the parity of the presses. From boot, whatever
  happened before, once the mode is entered and stays on without an emergency stop, the
  level the machine returns at the last tick is 1 exactly when the number of press ticks
  since the entry tick is odd; a press in the entry tick itself does not count.
\<close>

theorem horn_level_is_press_parity:
  assumes entry: "hi_mode e \<noteq> 0" "hs_mode_prev (fst (fsm_run horn_fsm_step horn_fsm_init before)) = 0"
    and inside: "\<forall>i \<in> set (is @ [l]). hi_mode i \<noteq> 0 \<and> hi_estop i = 0"
  shows "last (snd (fsm_run horn_fsm_step horn_fsm_init (before @ e # is @ [l]))) =
    b2u (odd (horn_presses (hi_key1 e, hi_key2 e) (is @ [l])))"
proof -
  define s where "s = fst (fsm_run horn_fsm_step horn_fsm_init before)"
  define s1 where "s1 = fst (horn_fsm_step e s)"
  have inv: "horn_inv s" unfolding s_def by (rule horn.inv_boot_run)
  then have inv1: "horn_inv s1" unfolding s1_def by (rule horn_inv_step)
  have s1: "hs_horn s1 = 0" "hs_mode_prev s1 \<noteq> 0" "hs_key1_bak s1 = hi_key1 e" "hs_key2_bak s1 = hi_key2 e"
    using entry inv by (auto simp: s1_def horn_step_bak horn_step_horn horn_inv_def simp flip: s_def)
  have "last (snd (fsm_run horn_fsm_step s1 (is @ [l]))) = hs_horn (fst (fsm_run horn_fsm_step s1 (is @ [l])))"
    by (rule horn_out.good_run_last [OF inv1]) simp
  also have "\<dots> = b2u (odd (horn_presses (hi_key1 e, hi_key2 e) (is @ [l])))"
    using horn_parity_run [OF inv1 s1(2) inside] by (simp add: s1)
  moreover have "snd (fsm_run horn_fsm_step s1 (is @ [l])) \<noteq> []"
    by (metis length_fsm_run length_0_conv snoc_eq_iff_butlast)
  ultimately show ?thesis
    by (simp add: fsm_run_append(2) fsm_run_Cons del: fsm_run.simps(2) flip: s_def s1_def)
qed

theorem horn_level_is_press_parity_witness:
  "last (snd (fsm_run horn_fsm_step horn_fsm_init
     ([] @ \<lparr>hi_mode = 1, hi_key1 = 0, hi_key2 = 1, hi_estop = 0\<rparr> #
      [\<lparr>hi_mode = 1, hi_key1 = 1, hi_key2 = 1, hi_estop = 0\<rparr>] @
      [\<lparr>hi_mode = 1, hi_key1 = 0, hi_key2 = 0, hi_estop = 0\<rparr>]))) =
   b2u (odd (horn_presses (0, 1)
      ([\<lparr>hi_mode = 1, hi_key1 = 1, hi_key2 = 1, hi_estop = 0\<rparr>] @
       [\<lparr>hi_mode = 1, hi_key1 = 0, hi_key2 = 0, hi_estop = 0\<rparr>])))"
  using horn_level_is_press_parity
    [of "\<lparr>hi_mode = 1, hi_key1 = 0, hi_key2 = 1, hi_estop = 0\<rparr>" "[]"
      "[\<lparr>hi_mode = 1, hi_key1 = 1, hi_key2 = 1, hi_estop = 0\<rparr>]"
      "\<lparr>hi_mode = 1, hi_key1 = 0, hi_key2 = 0, hi_estop = 0\<rparr>"]
  by (simp add: horn_fsm_init_def)

lemma horn_on_step:
  "horn_inv s \<Longrightarrow> snd (horn_fsm_step i s) = 1 \<Longrightarrow>
     hi_mode i \<noteq> 0 \<and> hi_estop i = 0 \<and>
     (hs_horn s = 1 \<or> horn_press (hs_key1_bak s, hs_key2_bak s) i)"
  by (auto simp: horn_step_bak horn_step_horn horn_inv_def split: if_splits)

end
