(* ===== verification/Overload_Fsm.thy ===== *)
theory Overload_Fsm
  imports Prelude
begin

text \<open>
  The overload debounce, \<open>fw/src/app_overload_fsm.c\<close>, and the timed beep,
  \<open>fw/src/app_buzzer_fsm.c\<close>.
\<close>

section \<open>The debounce\<close>

abbreviation (input) OVLD_DEBOUNCE_N :: u8 where "OVLD_DEBOUNCE_N \<equiv> 5"
abbreviation (input) OVLD_EV_ACTIVE :: u8 where "OVLD_EV_ACTIVE \<equiv> 1"
abbreviation (input) OVLD_EV_ASSERT :: u8 where "OVLD_EV_ASSERT \<equiv> 2"
abbreviation (input) OVLD_EV_DEASSERT :: u8 where "OVLD_EV_DEASSERT \<equiv> 4"

record overload_st =
  ov_count :: u8
  ov_active :: u8

definition overload_fsm_init :: overload_st where
  "overload_fsm_init = \<lparr>ov_count = 0, ov_active = 0\<rparr>"

definition overload_fsm_step :: "u8 \<Rightarrow> overload_st \<Rightarrow> overload_st \<times> u8" where
  "overload_fsm_step raw s =
     (let prev = ov_active s;
          s = (if raw \<noteq> 0
               then (let s = (if ov_count s < OVLD_DEBOUNCE_N
                              then s\<lparr>ov_count := ov_count s + 1\<rparr> else s)
                     in if OVLD_DEBOUNCE_N \<le> ov_count s then s\<lparr>ov_active := 1\<rparr> else s)
               else s\<lparr>ov_count := 0, ov_active := 0\<rparr>);
          ev = ov_active s;
          ev = (if ov_active s \<noteq> 0 \<and> prev = 0 then ev OR OVLD_EV_ASSERT else ev);
          ev = (if ov_active s = 0 \<and> prev \<noteq> 0 then ev OR OVLD_EV_DEASSERT else ev)
      in (s, ev))"

text \<open>The counter is the length of the current run of fault samples, capped at 5.\<close>

fun high_run :: "u8 list \<Rightarrow> nat" where
  "high_run [] = 0"
| "high_run (x # xs) = (if x \<noteq> 0 then Suc (high_run xs) else 0)"

text \<open>The state that represents a history, most recent sample first.\<close>

definition ov_abs :: "u8 list \<Rightarrow> overload_st" where
  "ov_abs h = \<lparr>ov_count = of_nat (min 5 (high_run h)), ov_active = b2u (5 \<le> high_run h)\<rparr>"

definition ov_event :: "u8 list \<Rightarrow> u8 \<Rightarrow> u8" where
  "ov_event h raw =
     (case (5 \<le> high_run h, 5 \<le> high_run (raw # h)) of
        (False, False) \<Rightarrow> 0 | (False, True) \<Rightarrow> 3 | (True, False) \<Rightarrow> 4 | (True, True) \<Rightarrow> 1)"

lemma min5_cases: "min 5 n \<in> {0, 1, 2, 3, 4, 5 :: nat}"
  by (auto simp: min_def)

lemma ov_step_abs: "overload_fsm_step raw (ov_abs h) = (ov_abs (raw # h), ov_event h raw)"
proof (cases "5 \<le> high_run h")
  case True
  then show ?thesis by (simp add: overload_fsm_step_def ov_abs_def ov_event_def Let_def)
next
  case False
  then consider "high_run h = 0" | "high_run h = 1" | "high_run h = 2" | "high_run h = 3"
    | "high_run h = 4" by linarith
  then show ?thesis
    by cases (simp_all add: overload_fsm_step_def ov_abs_def ov_event_def Let_def
        word_le_nat_alt word_less_nat_alt)
qed

lemma ov_run_abs:
  "fst (fsm_run overload_fsm_step (ov_abs h) xs) = ov_abs (rev xs @ h)"
  by (induction xs arbitrary: h) (simp_all add: fsm_run_Cons ov_step_abs del: fsm_run.simps(2))

lemma ov_abs_Nil: "overload_fsm_init = ov_abs []"
  by (simp add: overload_fsm_init_def ov_abs_def)

lemma high_run_ge:
  "n \<le> high_run h \<longleftrightarrow> n \<le> length h \<and> (\<forall>x \<in> set (take n h). x \<noteq> 0)"
proof (induction h arbitrary: n)
  case Nil
  then show ?case by simp
next
  case (Cons x h)
  then show ?case by (cases n) auto
qed

lemma ov_abs_active: "ov_active (ov_abs h) \<noteq> 0 \<longleftrightarrow> 5 \<le> high_run h"
  by (simp add: ov_abs_def)

lemma ov_event_bits:
  "ov_event h raw AND OVLD_EV_ASSERT \<noteq> 0 \<longleftrightarrow> \<not> 5 \<le> high_run h \<and> 5 \<le> high_run (raw # h)"
  "ov_event h raw AND OVLD_EV_DEASSERT \<noteq> 0 \<longleftrightarrow> 5 \<le> high_run h \<and> \<not> 5 \<le> high_run (raw # h)"
  by (simp_all add: ov_event_def del: high_run.simps split: bool.split)

text \<open>The fold of the one-shot events is the debounced level.\<close>

interpretation ov_edges: edge_level overload_fsm_init overload_fsm_step
  "\<lambda>s. \<exists>h. s = ov_abs h" "\<lambda>ev. ev AND OVLD_EV_ASSERT \<noteq> 0" "\<lambda>ev. ev AND OVLD_EV_DEASSERT \<noteq> 0"
  "\<lambda>s. ov_active s \<noteq> 0"
proof (unfold_locales, goal_cases)
  case 1
  then show ?case using ov_abs_Nil by blast
next
  case (2 s i)
  then show ?case by (metis ov_step_abs fst_conv)
next
  case 3
  then show ?case by (simp add: overload_fsm_init_def)
next
  case (4 s i)
  then obtain h where "s = ov_abs h" by blast
  then show ?case
    by (simp only: ov_step_abs fst_conv snd_conv ov_event_bits ov_abs_active) simp
qed

lemma five_high:
  "5 \<le> high_run (rev ys) \<longleftrightarrow> 5 \<le> length ys \<and> (\<forall>x \<in> set (take 5 (rev ys)). x \<noteq> 0)"
  by (simp add: high_run_ge)

section \<open>Properties of the debounce\<close>

text \<open>
  the debounce is exact. After any samples of the overload line from boot, the event
  byte of the next sample has the level bit iff the last five samples, this one included,
  were all faults; the assert and deassert bits mark exactly the two changes of that level.
\<close>

theorem overload_debounce_exact:
  "snd (overload_fsm_step raw (fst (fsm_run overload_fsm_step overload_fsm_init xs))) =
     (let five = (\<lambda>ys. 5 \<le> length ys \<and> list_all (\<lambda>x. x \<noteq> 0) (take 5 (rev ys)));
          was = five xs; now_on = five (xs @ [raw])
      in b2u now_on OR (if now_on \<and> \<not> was then 2 else 0) OR (if was \<and> \<not> now_on then 4 else 0))"
proof -
  have "snd (overload_fsm_step raw (fst (fsm_run overload_fsm_step overload_fsm_init xs))) =
      ov_event (rev xs) raw"
    by (simp add: ov_abs_Nil ov_run_abs ov_step_abs)
  moreover have "raw # rev xs = rev (xs @ [raw])" by simp
  ultimately show ?thesis
    unfolding Let_def list_all_iff five_high [symmetric] ov_event_def
    by (simp del: high_run.simps rev_append split: bool.split)
qed

section \<open>The beep\<close>

definition buzzer_fsm_beep :: "u16 \<Rightarrow> u16 \<Rightarrow> u16" where
  "buzzer_fsm_beep ticks s = ticks"

definition buzzer_fsm_step :: "unit \<Rightarrow> u16 \<Rightarrow> u16 \<times> u8" where
  "buzzer_fsm_step u s = (if 0 < s then (s - 1, 1) else (s, 0))"

lemma buzzer_step: "buzzer_fsm_step u s = (tick_down s, b2u (0 < unat s))"
  by (auto simp: buzzer_fsm_step_def tick_down_def word_less_nat_alt)

lemma buzzer_run:
  "snd (fsm_run buzzer_fsm_step s (replicate n ())) =
     replicate (min n (unat s)) 1 @ replicate (n - unat s) 0"
proof (induction n arbitrary: s)
  case 0
  then show ?case by simp
next
  case (Suc n)
  then show ?case
    by (cases "unat s") (simp_all add: fsm_run_Cons buzzer_step Suc_diff_le del: fsm_run.simps(2))
qed

text \<open>
  a beep lasts exactly the ticks asked for: whatever was left of an earlier beep, the
  request overrides it, the line is on for that many ticks and off afterwards.
\<close>

theorem beep_exact:
  "snd (fsm_run buzzer_fsm_step (buzzer_fsm_beep ticks s) (replicate (unat ticks + k) ())) =
     replicate (unat ticks) 1 @ replicate k 0"
  by (simp add: buzzer_run buzzer_fsm_beep_def)

end
