(* ===== verification/Input_Fsm.thy ===== *)
theory Input_Fsm
  imports Prelude
begin

text \<open>
  The panel keys and the emergency stop, \<open>fw/src/app_input_fsm.c\<close>: edges of START, RESET
  and SEEK (active low) and the level and rising edge of the emergency stop. The pin PC11
  is SEEK on a hand or multi model and the emergency stop on a standard model.
\<close>

section \<open>Data and operations\<close>

record input_in =
  ii_start :: u8
  ii_reset :: u8
  ii_estop_seek :: u8
  ii_model_type :: u8

record input_out =
  io_start_press :: u8
  io_start_release :: u8
  io_reset_press :: u8
  io_seek_press :: u8
  io_estop_active :: u8
  io_estop_enter :: u8

record input_st =
  in_start_bak :: u8
  in_reset_bak :: u8
  in_seek_bak :: u8
  in_emsw_bak :: u8
  in_estop_active :: u8

definition input_fsm_init :: input_st where
  "input_fsm_init = \<lparr>in_start_bak = 0, in_reset_bak = 0, in_seek_bak = 0,
     in_emsw_bak = 0, in_estop_active = 0\<rparr>"

definition input_out_zero :: input_out where
  "input_out_zero = \<lparr>io_start_press = 0, io_start_release = 0, io_reset_press = 0,
     io_seek_press = 0, io_estop_active = 0, io_estop_enter = 0\<rparr>"

definition input_fsm_step :: "input_in \<Rightarrow> input_st \<Rightarrow> input_st \<times> input_out" where
  "input_fsm_step i s =
     (let out = input_out_zero;
          (s, out) =
            (if ii_start i \<noteq> in_start_bak s
             then (s\<lparr>in_start_bak := ii_start i\<rparr>,
                   if ii_start i = 0 then out\<lparr>io_start_press := 1\<rparr> else out\<lparr>io_start_release := 1\<rparr>)
             else (s, out));
          (s, out) =
            (if ii_reset i \<noteq> in_reset_bak s
             then (s\<lparr>in_reset_bak := ii_reset i\<rparr>,
                   if ii_reset i = 0 then out\<lparr>io_reset_press := 1\<rparr> else out)
             else (s, out));
          (s, out) =
            (if ii_model_type i \<le> 1
             then (let (s, out) =
                     (if ii_estop_seek i \<noteq> in_seek_bak s
                      then (s\<lparr>in_seek_bak := ii_estop_seek i\<rparr>,
                            if ii_estop_seek i = 0 then out\<lparr>io_seek_press := 1\<rparr> else out)
                      else (s, out))
                   in (s\<lparr>in_emsw_bak := 0, in_estop_active := 0\<rparr>, out))
             else (let (s, out) =
                     (if ii_estop_seek i \<noteq> in_emsw_bak s
                      then (s\<lparr>in_emsw_bak := ii_estop_seek i\<rparr>,
                            if ii_estop_seek i \<noteq> 0 then out\<lparr>io_estop_enter := 1\<rparr> else out)
                      else (s, out))
                   in (s\<lparr>in_estop_active := b2u (ii_estop_seek i \<noteq> 0),
                         in_seek_bak := ii_estop_seek i\<rparr>, out)))
      in (s, out\<lparr>io_estop_active := in_estop_active s\<rparr>))"

section \<open>The machine as a function of two samples\<close>

text \<open>
  The pins are GPIO levels, 0 or 1. The state holds nothing but the last sample: the level
  of each pin, with PC11 under both of its roles.
\<close>

definition input_levels :: "input_in \<Rightarrow> bool" where
  "input_levels i \<longleftrightarrow> ii_start i \<in> {0, 1} \<and> ii_reset i \<in> {0, 1} \<and> ii_estop_seek i \<in> {0, 1}"

definition input_abs :: "input_in \<Rightarrow> input_st" where
  "input_abs i = \<lparr>in_start_bak = ii_start i, in_reset_bak = ii_reset i,
     in_seek_bak = ii_estop_seek i,
     in_emsw_bak = (if ii_model_type i \<le> 1 then 0 else ii_estop_seek i),
     in_estop_active = b2u (1 < ii_model_type i \<and> ii_estop_seek i \<noteq> 0)\<rparr>"

definition input_events :: "input_in \<Rightarrow> input_in \<Rightarrow> input_out" where
  "input_events p i = \<lparr>
     io_start_press = b2u (ii_start p = 1 \<and> ii_start i = 0),
     io_start_release = b2u (ii_start p = 0 \<and> ii_start i = 1),
     io_reset_press = b2u (ii_reset p = 1 \<and> ii_reset i = 0),
     io_seek_press = b2u (ii_model_type i \<le> 1 \<and> ii_estop_seek p = 1 \<and> ii_estop_seek i = 0),
     io_estop_active = b2u (1 < ii_model_type i \<and> ii_estop_seek i = 1),
     io_estop_enter = b2u (1 < ii_model_type i \<and> ii_estop_seek i = 1 \<and>
        (ii_model_type p \<le> 1 \<or> ii_estop_seek p = 0))\<rparr>"

text \<open>Before the first sample every pin counts as pressed.\<close>

definition input_before_boot :: input_in where
  "input_before_boot = \<lparr>ii_start = 0, ii_reset = 0, ii_estop_seek = 0, ii_model_type = 0\<rparr>"

lemma input_abs_boot: "input_fsm_init = input_abs input_before_boot" "input_levels input_before_boot"
  by (simp_all add: input_fsm_init_def input_abs_def input_before_boot_def input_levels_def)

lemma input_step_state: "fst (input_fsm_step i (input_abs p)) = input_abs i"
  by (auto simp: input_fsm_step_def input_abs_def Let_def b2u_def not_le case_prod_unfold)

lemma input_step_out:
  assumes "input_levels p" "input_levels i"
  shows "snd (input_fsm_step i (input_abs p)) = input_events p i"
proof -
  have "ii_start p = 0 \<or> ii_start p = 1" "ii_reset p = 0 \<or> ii_reset p = 1"
    "ii_estop_seek p = 0 \<or> ii_estop_seek p = 1"
    using assms(1) by (simp_all add: input_levels_def)
  moreover have "ii_start i = 0 \<or> ii_start i = 1" "ii_reset i = 0 \<or> ii_reset i = 1"
    "ii_estop_seek i = 0 \<or> ii_estop_seek i = 1"
    using assms(2) by (simp_all add: input_levels_def)
  ultimately show ?thesis
    by (elim disjE)
      (simp_all add: input_fsm_step_def input_abs_def input_events_def input_out_zero_def Let_def
        not_le b2u_def)
qed

fun input_spec :: "input_in \<Rightarrow> input_in list \<Rightarrow> input_out list" where
  "input_spec p [] = []"
| "input_spec p (i # is) = input_events p i # input_spec i is"

lemma input_run_spec:
  "input_levels p \<Longrightarrow> \<forall>i \<in> set is. input_levels i \<Longrightarrow>
     snd (fsm_run input_fsm_step (input_abs p) is) = input_spec p is"
  by (induction "is" arbitrary: p)
    (simp_all add: fsm_run_Cons input_step_out input_step_state del: fsm_run.simps(2))

section \<open>Properties\<close>

text \<open>
  the input machine refines its specification. For every sequence of pin levels and
  model types from boot, its outputs are those of the function of two consecutive samples:
  a press is a fall from 1 to 0 of that pin between two ticks, so a key held at boot gives
  none; SEEK fires only on a hand or multi model and never from the level the emergency stop
  had; the stop level follows the pin on a standard model only and enters once, also when a
  switch of the model reveals it.
\<close>

theorem input_refines_spec:
  assumes "\<forall>i \<in> set is. input_levels i"
  shows "snd (fsm_run input_fsm_step input_fsm_init is) = input_spec input_before_boot is"
  unfolding input_abs_boot(1) by (rule input_run_spec [OF input_abs_boot(2) assms])

theorem input_refines_spec_witness:
  "snd (fsm_run input_fsm_step input_fsm_init
      [\<lparr>ii_start = 1, ii_reset = 1, ii_estop_seek = 1, ii_model_type = 0\<rparr>,
       \<lparr>ii_start = 0, ii_reset = 1, ii_estop_seek = 1, ii_model_type = 2\<rparr>]) =
    input_spec input_before_boot
      [\<lparr>ii_start = 1, ii_reset = 1, ii_estop_seek = 1, ii_model_type = 0\<rparr>,
       \<lparr>ii_start = 0, ii_reset = 1, ii_estop_seek = 1, ii_model_type = 2\<rparr>]"
  by (rule input_refines_spec) (simp add: input_levels_def)

lemma start_step:
  "in_start_bak (fst (input_fsm_step i s)) = ii_start i"
  "io_start_press (snd (input_fsm_step i s)) = b2u (ii_start i \<noteq> in_start_bak s \<and> ii_start i = 0)"
  "io_start_release (snd (input_fsm_step i s)) = b2u (ii_start i \<noteq> in_start_bak s \<and> ii_start i \<noteq> 0)"
  by (cases "ii_model_type i \<le> 1"; cases "ii_start i = in_start_bak s";
      cases "ii_reset i = in_reset_bak s"; cases "ii_estop_seek i = in_seek_bak s";
      cases "ii_estop_seek i = in_emsw_bak s";
      simp add: input_fsm_step_def input_out_zero_def Let_def)+

interpretation start_level: edge_level input_fsm_init input_fsm_step "\<lambda>_. True"
  "\<lambda>out. io_start_release out \<noteq> 0" "\<lambda>out. io_start_press out \<noteq> 0" "\<lambda>s. in_start_bak s \<noteq> 0"
  by unfold_locales (auto simp: start_step, simp add: input_fsm_init_def)

text \<open>
  the START edges alternate. From boot, the fold of the release and press edges of the
  START key is the level of the key at the last tick, so no press or release is lost and a
  run that a press started always sees its release.
\<close>

theorem start_edges_follow_key:
  "level_after (\<lambda>out. io_start_release out \<noteq> 0) (\<lambda>out. io_start_press out \<noteq> 0) False
     (snd (fsm_run input_fsm_step input_fsm_init is)) =
   (in_start_bak (fst (fsm_run input_fsm_step input_fsm_init is)) \<noteq> 0)"
  by (rule start_level.level_boot_run)

end
