(* ===== verification/Freq_Fsm.thy ===== *)
theory Freq_Fsm
  imports Prelude
begin

text \<open>
  The resonance frequency meter, \<open>fw/src/app_freq_fsm.c\<close>: the capture interrupt adds ten
  periods of the input to a batch, the main loop turns a fresh batch into Hertz.
\<close>

section \<open>Data and operations\<close>

abbreviation (input) FREQ_AVG_SAMPLES :: u8 where "FREQ_AVG_SAMPLES \<equiv> 10"
abbreviation (input) FREQ_CONST :: u32 where "FREQ_CONST \<equiv> 960000000"

record freq_st =
  fq_prev_cap :: u32
  fq_have_prev :: u8
  fq_acc :: u32
  fq_cnt :: u8
  fq_latched_sum :: u32
  fq_batch_seq :: u32
  fq_last_seen_seq :: u32

definition freq_fsm_init :: freq_st where
  "freq_fsm_init = \<lparr>fq_prev_cap = 0, fq_have_prev = 0, fq_acc = 0, fq_cnt = 0,
     fq_latched_sum = 0, fq_batch_seq = 0, fq_last_seen_seq = 0\<rparr>"

definition freq_fsm_on_capture :: "u32 \<Rightarrow> freq_st \<Rightarrow> freq_st" where
  "freq_fsm_on_capture capture s =
     (if fq_have_prev s = 0 then s\<lparr>fq_prev_cap := capture, fq_have_prev := 1\<rparr>
      else
        (let delta = capture - fq_prev_cap s;
             s = s\<lparr>fq_prev_cap := capture, fq_acc := fq_acc s + delta, fq_cnt := fq_cnt s + 1\<rparr>
         in if FREQ_AVG_SAMPLES \<le> fq_cnt s
            then s\<lparr>fq_latched_sum := fq_acc s, fq_acc := 0, fq_cnt := 0, fq_have_prev := 0,
                   fq_batch_seq := fq_batch_seq s + 1\<rparr>
            else s))"

definition freq_fsm_compute :: "u16 \<Rightarrow> freq_st \<Rightarrow> freq_st \<times> u16" where
  "freq_fsm_compute cal_val s =
     (if fq_batch_seq s = fq_last_seen_seq s then (s, 0)
      else
        (let s = s\<lparr>fq_last_seen_seq := fq_batch_seq s\<rparr>; sm = fq_latched_sum s
         in if sm = 0 then (s, 0)
            else (let base = FREQ_CONST div sm in (s, ucast base + cal_val))))"

section \<open>A batch\<close>

text \<open>
  Inside a batch the accumulator is the distance from the seed capture, whatever the
  captures between and however often the 32-bit timer wrapped.
\<close>

definition freq_open :: "u32 \<Rightarrow> nat \<Rightarrow> freq_st \<Rightarrow> bool" where
  "freq_open seed k s \<longleftrightarrow> fq_have_prev s = 1 \<and> k < 10 \<and> fq_cnt s = of_nat k \<and>
     fq_acc s = fq_prev_cap s - seed"

definition freq_idle :: "freq_st \<Rightarrow> bool" where
  "freq_idle s \<longleftrightarrow> fq_have_prev s = 0 \<and> fq_acc s = 0 \<and> fq_cnt s = 0"

lemma freq_seed:
  "freq_idle s \<Longrightarrow> freq_open c 0 (freq_fsm_on_capture c s) \<and>
     fq_batch_seq (freq_fsm_on_capture c s) = fq_batch_seq s"
  by (simp add: freq_idle_def freq_open_def freq_fsm_on_capture_def)

lemma freq_small:
  assumes "k < 10"
  shows "(10 :: u8) \<le> of_nat (Suc k) \<longleftrightarrow> k = 9"
proof -
  have "unat (of_nat (Suc k) :: u8) = Suc k" using assms by (simp add: unat_of_nat del: of_nat_Suc)
  then have "(10 :: u8) \<le> of_nat (Suc k) \<longleftrightarrow> 10 \<le> Suc k"
    by (simp only: word_le_nat_alt) simp
  with assms show ?thesis by auto
qed

lemma freq_middle:
  assumes "freq_open seed k s" "Suc k < 10"
  shows "freq_open seed (Suc k) (freq_fsm_on_capture c s) \<and>
    fq_batch_seq (freq_fsm_on_capture c s) = fq_batch_seq s"
proof -
  have "fq_cnt s + 1 = of_nat (Suc k)" "\<not> 10 \<le> (of_nat (Suc k) :: u8)"
    using assms freq_small [of k] by (simp_all add: freq_open_def add.commute)
  then show ?thesis
    using assms by (simp add: freq_open_def freq_fsm_on_capture_def Let_def del: of_nat_Suc)
qed

lemma freq_last:
  assumes "freq_open seed 9 s"
  shows "freq_idle (freq_fsm_on_capture c s) \<and>
    fq_latched_sum (freq_fsm_on_capture c s) = c - seed \<and>
    fq_batch_seq (freq_fsm_on_capture c s) = fq_batch_seq s + 1 \<and>
    fq_last_seen_seq (freq_fsm_on_capture c s) = fq_last_seen_seq s"
  using assms by (simp add: freq_open_def freq_idle_def freq_fsm_on_capture_def Let_def)

lemma freq_seen: "fq_last_seen_seq (freq_fsm_on_capture c s) = fq_last_seen_seq s"
  by (simp add: freq_fsm_on_capture_def Let_def)

lemma freq_middles:
  "freq_open seed k s \<Longrightarrow> k + length cs < 10 \<Longrightarrow>
     freq_open seed (k + length cs) (fold freq_fsm_on_capture cs s) \<and>
     fq_batch_seq (fold freq_fsm_on_capture cs s) = fq_batch_seq s \<and>
     fq_last_seen_seq (fold freq_fsm_on_capture cs s) = fq_last_seen_seq s"
proof (induction cs arbitrary: s k)
  case Nil
  then show ?case by simp
next
  case (Cons c cs)
  have "Suc k < 10" using Cons.prems by simp
  from freq_middle [OF Cons.prems(1) this, of c] Cons.IH [of "Suc k" "freq_fsm_on_capture c s"] Cons.prems(2)
  show ?case by (simp add: freq_seen)
qed

lemma freq_batch:
  assumes "freq_idle s" "length cs = 9"
  shows "freq_idle (fold freq_fsm_on_capture (first # cs @ [final]) s) \<and>
    fq_latched_sum (fold freq_fsm_on_capture (first # cs @ [final]) s) = final - first \<and>
    fq_batch_seq (fold freq_fsm_on_capture (first # cs @ [final]) s) = fq_batch_seq s + 1 \<and>
    fq_last_seen_seq (fold freq_fsm_on_capture (first # cs @ [final]) s) = fq_last_seen_seq s"
proof -
  let ?s = "freq_fsm_on_capture first s"
  have "freq_open first (0 + length cs) (fold freq_fsm_on_capture cs ?s) \<and>
     fq_batch_seq (fold freq_fsm_on_capture cs ?s) = fq_batch_seq ?s \<and>
     fq_last_seen_seq (fold freq_fsm_on_capture cs ?s) = fq_last_seen_seq ?s"
    using freq_seed [OF assms(1), of first] assms(2) by (intro freq_middles) simp_all
  then show ?thesis
    using freq_last [of first "fold freq_fsm_on_capture cs ?s" final] freq_seed [OF assms(1), of first] assms(2)
    by (simp add: freq_seen)
qed

section \<open>Properties\<close>

text \<open>
  the meter is right across timer wraps. From an idle meter with no unread batch, eleven
  captures first, cs, final, of any values, make the next reading 960000000 divided by the
  distance final - first (modulo \<open>2 ^ 32\<close>, the sum of the ten periods) plus the calibration, in
  16 bits, or 0 where the distance is 0; the reading after it is 0, the sign of no signal.
\<close>

theorem freq_reading_exact:
  assumes "fq_have_prev s = 0" "fq_acc s = 0" "fq_cnt s = 0" "fq_batch_seq s = fq_last_seen_seq s"
    and "length cs = 9"
  shows "let s1 = fold freq_fsm_on_capture (first # cs @ [final]) s;
             (s2, hz) = freq_fsm_compute cal s1
         in hz = (if final = first then 0 else ucast ((960000000 :: u32) div (final - first)) + cal) \<and>
            snd (freq_fsm_compute cal s2) = 0"
proof -
  define s1 where "s1 = fold freq_fsm_on_capture (first # cs @ [final]) s"
  have "freq_idle s" using assms by (simp add: freq_idle_def)
  from freq_batch [OF this assms(5), of first final] assms(4)
  have "fq_latched_sum s1 = final - first" "fq_batch_seq s1 = fq_last_seen_seq s1 + 1"
    by (simp_all add: s1_def)
  then show ?thesis
    unfolding s1_def [symmetric] by (simp add: freq_fsm_compute_def Let_def)
qed

theorem freq_reading_exact_witness:
  "let s1 = fold freq_fsm_on_capture (0xFFFFFF00 # replicate 9 7 @ [47744]) freq_fsm_init;
       (s2, hz) = freq_fsm_compute 3 s1
   in hz = (if (47744 :: u32) = 0xFFFFFF00 then 0
            else ucast ((960000000 :: u32) div (47744 - 0xFFFFFF00)) + 3) \<and>
      snd (freq_fsm_compute 3 s2) = 0"
  by (rule freq_reading_exact) (simp_all add: freq_fsm_init_def)

end
