(* ===== verification/Hold_Wdt_Fsm.thy ===== *)
theory Hold_Wdt_Fsm
  imports Prelude
begin

text \<open>
  The remote hold-to-run watchdog, \<open>fw/src/app_hold_wdt_fsm.c\<close>: armed by an accepted hold
  START, refreshed by keep writes, it trips once when none arrives for 600 ms.
\<close>

section \<open>Data and operations\<close>

abbreviation (input) HOLD_WDT_MS :: u32 where "HOLD_WDT_MS \<equiv> 600"

record hold_wdt =
  hw_armed :: u8
  hw_last_keep_ms :: u32

definition hold_wdt_init :: "hold_wdt \<Rightarrow> hold_wdt" where
  "hold_wdt_init w = w\<lparr>hw_armed := 0, hw_last_keep_ms := 0\<rparr>"

definition hold_wdt_arm :: "u32 \<Rightarrow> hold_wdt \<Rightarrow> hold_wdt" where
  "hold_wdt_arm now w = w\<lparr>hw_armed := 1, hw_last_keep_ms := now\<rparr>"

definition hold_wdt_keep :: "u32 \<Rightarrow> hold_wdt \<Rightarrow> hold_wdt" where
  "hold_wdt_keep now w = (if hw_armed w \<noteq> 0 then w\<lparr>hw_last_keep_ms := now\<rparr> else w)"

definition hold_wdt_step :: "u32 \<Rightarrow> u8 \<Rightarrow> hold_wdt \<Rightarrow> hold_wdt \<times> u8" where
  "hold_wdt_step now run_is_comm w =
     (if hw_armed w = 0 then (w, 0)
      else if run_is_comm = 0 then (w\<lparr>hw_armed := 0\<rparr>, 0)
      else if HOLD_WDT_MS \<le> elapsed now (hw_last_keep_ms w) then (w\<lparr>hw_armed := 0\<rparr>, 1)
      else (w, 0))"

definition hold_wdt_armed :: "hold_wdt \<Rightarrow> u8" where
  "hold_wdt_armed w = hw_armed w"

lemmas hold_defs [fsm_defs] =
  hold_wdt_arm_def hold_wdt_keep_def hold_wdt_step_def hold_wdt_armed_def hold_wdt_init_def

section \<open>The session as a step relation\<close>

text \<open>What can happen to the watchdog: the glue arms it, keeps it, or polls it.\<close>

datatype hold_event = Arm u32 | Keep u32 | Poll u32 u8

inductive hold_ev :: "hold_wdt \<Rightarrow> hold_event \<Rightarrow> hold_wdt \<Rightarrow> bool \<Rightarrow> bool" where
  arm: "hold_ev w (Arm t) (hold_wdt_arm t w) False"
| keep: "hold_ev w (Keep t) (hold_wdt_keep t w) False"
| poll: "hold_wdt_step t c w = (w', r) \<Longrightarrow> hold_ev w (Poll t c) w' (r \<noteq> 0)"

inductive_simps hold_ev_simps:
  "hold_ev w (Arm t) w' b" "hold_ev w (Keep t) w' b" "hold_ev w (Poll t c) w' b"

inductive hold_evs :: "hold_wdt \<Rightarrow> hold_event list \<Rightarrow> hold_wdt \<Rightarrow> nat \<Rightarrow> bool" where
  stop: "hold_evs w [] w 0"
| more: "hold_ev w e w1 b \<Longrightarrow> hold_evs w1 es w2 n \<Longrightarrow>
    hold_evs w (e # es) w2 (if b then Suc n else n)"

inductive_cases hold_evs_NilE: "hold_evs w [] w' n"
inductive_cases hold_evs_ConsE: "hold_evs w (e # es) w' n"

fun arms :: "hold_event list \<Rightarrow> nat" where
  "arms [] = 0"
| "arms (Arm t # es) = Suc (arms es)"
| "arms (Keep t # es) = arms es"
| "arms (Poll t c # es) = arms es"

text \<open>Trips so far never exceed arms so far: an armed session is worth one trip.\<close>

lemma hold_trips_le:
  "hold_evs w es w' n \<Longrightarrow> n + (if hw_armed w' \<noteq> 0 then 1 else 0) \<le>
     arms es + (if hw_armed w \<noteq> 0 then 1 else 0)"
proof (induction rule: hold_evs.induct)
  case (stop w)
  then show ?case by simp
next
  case (more w e w1 b es w2 n)
  then show ?case
    by (cases e) (auto simp: hold_ev_simps hold_defs split: if_splits)
qed

text \<open>A session that sees only timely keeps and polls while the run stays remote.\<close>

fun timely :: "u32 \<Rightarrow> hold_event list \<Rightarrow> bool" where
  "timely l [] = True"
| "timely l (Arm t # es) = timely t es"
| "timely l (Keep t # es) = timely t es"
| "timely l (Poll t c # es) = (c \<noteq> 0 \<and> elapsed t l < HOLD_WDT_MS \<and> timely l es)"

lemma hold_timely:
  "hold_evs w es w' n \<Longrightarrow> hw_armed w \<noteq> 0 \<Longrightarrow> timely (hw_last_keep_ms w) es \<Longrightarrow>
     n = 0 \<and> hw_armed w' \<noteq> 0"
proof (induction rule: hold_evs.induct)
  case (stop w)
  then show ?case by simp
next
  case (more w e w1 b es w2 n)
  then show ?case
    by (cases e) (auto simp: hold_ev_simps hold_defs not_le split: if_splits)
qed

section \<open>Properties\<close>

text \<open>
  a keep has no start authority and a session trips at most once. In any sequence of
  arms, keeps and polls from an unarmed watchdog, the number of trips is at most the number
  of arms; without an arm there is no trip and the watchdog is still unarmed, however many
  keeps arrive.
\<close>

theorem hold_trips_bounded:
  assumes "hold_evs w es w' n" "hw_armed w = 0"
  shows "n \<le> arms es \<and> (arms es = 0 \<longrightarrow> n = 0 \<and> hw_armed w' = 0)"
  using hold_trips_le [OF assms(1)] assms(2) by (auto split: if_splits)

theorem hold_trips_bounded_witness:
  "(1 :: nat) \<le> arms [Keep 5, Arm 10, Poll 700 1, Keep 701, Poll 2000 1]"
proof (rule conjunct1 [OF hold_trips_bounded, of "\<lparr>hw_armed = 0, hw_last_keep_ms = 0\<rparr>"])
  let ?w = "\<lambda>a t. \<lparr>hw_armed = a, hw_last_keep_ms = t\<rparr>"
  have "hold_ev (?w 0 0) (Keep 5) (?w 0 0) False" "hold_ev (?w 0 0) (Arm 10) (?w 1 10) False"
    "hold_ev (?w 1 10) (Poll 700 1) (?w 0 10) True" "hold_ev (?w 0 10) (Keep 701) (?w 0 10) False"
    "hold_ev (?w 0 10) (Poll 2000 1) (?w 0 10) False"
    by (simp_all add: hold_ev_simps hold_defs elapsed_def)
  from more [OF this(1) more [OF this(2) more [OF this(3) more [OF this(4) more [OF this(5) hold_evs.stop]]]]]
  show "hold_evs (?w 0 0) [Keep 5, Arm 10, Poll 700 1, Keep 701, Poll 2000 1] (?w 0 10) 1"
    by simp
qed simp

text \<open>
  the deadline is exact and wrap-safe. In a session armed at t, if every poll comes less
  than 600 ms after the last arm or keep and finds the remote run still on, nothing trips and
  the session lives; from such a session, the first poll 600 ms or more after the last keep
  (the counter may have wrapped) trips and ends the session.
\<close>

theorem hold_deadline_exact:
  assumes "hold_evs (hold_wdt_arm t w) es w1 n" "timely t es"
  shows "n = 0 \<and> hw_armed w1 \<noteq> 0 \<and>
    (\<forall>d c. 600 \<le> d \<and> c \<noteq> 0 \<longrightarrow>
       hold_wdt_step (hw_last_keep_ms w1 + d) c w1 = (w1\<lparr>hw_armed := 0\<rparr>, 1))"
  using hold_timely [OF assms(1)] assms(2)
  by (simp add: hold_defs elapsed_add)

theorem hold_deadline_exact_witness:
  "hold_wdt_step 950 1 \<lparr>hw_armed = 1, hw_last_keep_ms = 300\<rparr> =
     (\<lparr>hw_armed = 0, hw_last_keep_ms = 300\<rparr>, 1)"
proof -
  let ?w = "\<lambda>a t. \<lparr>hw_armed = a, hw_last_keep_ms = t\<rparr>"
  have "hold_ev (?w 1 0xFFFFFFF0) (Poll 500 1) (?w 1 0xFFFFFFF0) False"
    "hold_ev (?w 1 0xFFFFFFF0) (Keep 300) (?w 1 300) False"
    by (simp_all add: hold_ev_simps hold_defs elapsed_def)
  from more [OF this(1) more [OF this(2) hold_evs.stop]]
  have run: "hold_evs (hold_wdt_arm 0xFFFFFFF0 (?w 0 0)) [Poll 500 1, Keep 300] (?w 1 300) 0"
    by (simp add: hold_defs)
  have "timely 0xFFFFFFF0 [Poll 500 1, Keep 300]" by (simp add: elapsed_def)
  from hold_deadline_exact [OF run this]
  have "\<forall>d c. 600 \<le> d \<and> c \<noteq> 0 \<longrightarrow> hold_wdt_step (300 + d) c (?w 1 300) = (?w 0 300, 1)" by simp
  from this [rule_format, of 650 1] show ?thesis by simp
qed

end
