(* ===== verification/Remote_En_Fsm.thy ===== *)
theory Remote_En_Fsm
  imports Prelude
begin

text \<open>
  The remote-enable gate, \<open>fw/src/app_remote_en_fsm.c\<close>: the machine-side switch must be on
  before Modbus commands pass; the emergency stop and a silent link close the gate.
\<close>

section \<open>Data and operations\<close>

abbreviation (input) REN_DISABLED :: u8 where "REN_DISABLED \<equiv> 0"
abbreviation (input) REN_ENABLED :: u8 where "REN_ENABLED \<equiv> 1"
abbreviation (input) REN_DIS_LINK :: u8 where "REN_DIS_LINK \<equiv> 3"
abbreviation (input) REN_DIS_ESTOP :: u8 where "REN_DIS_ESTOP \<equiv> 4"
abbreviation (input) SILENCE_MS :: u32 where "SILENCE_MS \<equiv> 10000"

record remote_en_in =
  ri_now_ms :: u32
  ri_sw :: u8
  ri_last_req_ms :: u32
  ri_req_valid :: u8
  ri_estop :: u8

record remote_en_st =
  rn_state :: u8
  rn_enter_ms :: u32
  rn_silence_armed :: u8

definition remote_en_fsm_init :: remote_en_st where
  "remote_en_fsm_init = \<lparr>rn_state = REN_DISABLED, rn_enter_ms = 0, rn_silence_armed = 0\<rparr>"

definition link_alive :: "remote_en_in \<Rightarrow> u8" where
  "link_alive i = b2u (ri_req_valid i \<noteq> 0 \<and> elapsed (ri_now_ms i) (ri_last_req_ms i) < SILENCE_MS)"

definition ren_arm_and_watch :: "remote_en_in \<Rightarrow> remote_en_st \<Rightarrow> remote_en_st \<times> u8" where
  "ren_arm_and_watch i s =
     (let s = (if rn_silence_armed s = 0
               then (let el = elapsed (ri_now_ms i) (rn_enter_ms s)
                     in if ri_req_valid i \<noteq> 0 \<and> elapsed (ri_last_req_ms i) (rn_enter_ms s) \<le> el
                        then s\<lparr>rn_silence_armed := 1\<rparr> else s)
               else s);
          s = (if rn_silence_armed s \<noteq> 0 \<and> link_alive i = 0
               then s\<lparr>rn_state := REN_DIS_LINK\<rparr> else s)
      in (s, rn_state s))"

definition remote_en_fsm_step :: "remote_en_in \<Rightarrow> remote_en_st \<Rightarrow> remote_en_st \<times> u8" where
  "remote_en_fsm_step i s =
     (if ri_sw i = 0
      then (let s = s\<lparr>rn_state := REN_DISABLED, rn_silence_armed := 0\<rparr> in (s, rn_state s))
      else if ri_estop i \<noteq> 0
      then (let s = s\<lparr>rn_state := REN_DIS_ESTOP\<rparr> in (s, rn_state s))
      else if rn_state s \<noteq> REN_ENABLED
      then (if rn_state s = REN_DIS_LINK \<and> link_alive i = 0 then (s, rn_state s)
            else ren_arm_and_watch i
                   (s\<lparr>rn_state := REN_ENABLED, rn_enter_ms := ri_now_ms i,
                      rn_silence_armed := link_alive i\<rparr>))
      else ren_arm_and_watch i s)"

lemmas ren_defs [fsm_defs] = remote_en_fsm_step_def ren_arm_and_watch_def link_alive_def

section \<open>Invariant and promise\<close>

definition ren_inv :: "remote_en_st \<Rightarrow> bool" where
  "ren_inv s \<longleftrightarrow> rn_state s \<in> {REN_DISABLED, REN_ENABLED, REN_DIS_LINK, REN_DIS_ESTOP}"

text \<open>An open gate: switch on, no stop, and an armed watch saw a live link.\<close>

definition ren_open_ok :: "remote_en_in \<Rightarrow> remote_en_st \<Rightarrow> bool" where
  "ren_open_ok i s \<longleftrightarrow> ri_sw i \<noteq> 0 \<and> ri_estop i = 0 \<and>
     (rn_silence_armed s \<noteq> 0 \<longrightarrow>
        ri_req_valid i \<noteq> 0 \<and> elapsed (ri_now_ms i) (ri_last_req_ms i) < 10000)"

lemma ren_inv_init: "ren_inv remote_en_fsm_init"
  by (simp add: ren_inv_def remote_en_fsm_init_def)

lemma ren_inv_step: "ren_inv s \<Longrightarrow> ren_inv (fst (remote_en_fsm_step i s))"
  by (auto simp: ren_inv_def ren_defs Let_def)

lemma ren_step_out: "snd (remote_en_fsm_step i s) = rn_state (fst (remote_en_fsm_step i s))"
  by (simp add: ren_defs Let_def)

lemma ren_open_step:
  "rn_state (fst (remote_en_fsm_step i s)) = REN_ENABLED \<Longrightarrow>
     ren_open_ok i (fst (remote_en_fsm_step i s))"
  by (auto simp: ren_open_ok_def ren_defs Let_def split: if_splits)

interpretation ren: tick_fsm remote_en_fsm_init remote_en_fsm_step ren_inv
  by unfold_locales (simp_all add: ren_inv_init ren_inv_step)

interpretation ren_out: tick_fsm_out remote_en_fsm_init remote_en_fsm_step ren_inv
  "\<lambda>s out. out = rn_state s \<and> out \<in> {REN_DISABLED, REN_ENABLED, REN_DIS_LINK, REN_DIS_ESTOP}"
  using ren_inv_step by unfold_locales (auto simp: ren_step_out ren_inv_def)

section \<open>Properties\<close>

text \<open>
  C32: the gate is open only under its conditions. At every step of every history the state
  is one of the four codes, and if it is ENABLED then in that very step the switch was on,
  the emergency stop released, and, once the silence watch is armed, a valid request arrived
  less than 10 s before. Switch off gives DISABLED and the emergency stop 4 at once.
\<close>

theorem remote_gate_safe:
  "let s = fst (fsm_run remote_en_fsm_step remote_en_fsm_init is);
       (s', out) = remote_en_fsm_step i s
   in out = rn_state s' \<and> out \<in> {0, 1, 3, 4} \<and>
      (out = 1 \<longrightarrow> ren_open_ok i s') \<and>
      (ri_sw i = 0 \<longrightarrow> out = 0) \<and>
      (ri_sw i \<noteq> 0 \<and> ri_estop i \<noteq> 0 \<longrightarrow> out = 4)"
proof -
  define s where "s = fst (fsm_run remote_en_fsm_step remote_en_fsm_init is)"
  have "ren_inv s" unfolding s_def by (rule ren.inv_boot_run)
  then have "ren_inv (fst (remote_en_fsm_step i s))" by (rule ren_inv_step)
  then have codes: "rn_state (fst (remote_en_fsm_step i s)) \<in> {0, 1, 3, 4}"
    by (simp add: ren_inv_def)
  have "ri_sw i = 0 \<longrightarrow> snd (remote_en_fsm_step i s) = 0"
    "ri_sw i \<noteq> 0 \<and> ri_estop i \<noteq> 0 \<longrightarrow> snd (remote_en_fsm_step i s) = 4"
    by (simp_all add: remote_en_fsm_step_def Let_def)
  with codes ren_open_step [of i s] show ?thesis
    by (simp add: Let_def case_prod_unfold ren_step_out flip: s_def)
qed

theorem remote_gate_safe_witness:
  "let s = fst (fsm_run remote_en_fsm_step remote_en_fsm_init
             [\<lparr>ri_now_ms = 5, ri_sw = 1, ri_last_req_ms = 0, ri_req_valid = 0, ri_estop = 0\<rparr>]);
       (s', out) = remote_en_fsm_step
         \<lparr>ri_now_ms = 9, ri_sw = 1, ri_last_req_ms = 8, ri_req_valid = 1, ri_estop = 0\<rparr> s
   in out = rn_state s' \<and> out \<in> {0, 1, 3, 4} \<and>
      (out = 1 \<longrightarrow> ren_open_ok
         \<lparr>ri_now_ms = 9, ri_sw = 1, ri_last_req_ms = 8, ri_req_valid = 1, ri_estop = 0\<rparr> s') \<and>
      ((1 :: u8) = 0 \<longrightarrow> out = 0) \<and> ((1 :: u8) \<noteq> 0 \<and> (0 :: u8) \<noteq> 0 \<longrightarrow> out = 4)"
  using remote_gate_safe
    [of "[\<lparr>ri_now_ms = 5, ri_sw = 1, ri_last_req_ms = 0, ri_req_valid = 0, ri_estop = 0\<rparr>]"
        "\<lparr>ri_now_ms = 9, ri_sw = 1, ri_last_req_ms = 8, ri_req_valid = 1, ri_estop = 0\<rparr>"]
  by (simp only: remote_en_in.simps)

text \<open>
  the closing reasons are not latched. From any state, a step with the switch on, the
  emergency stop released and a valid request less than 10 s old opens the gate: after an
  emergency stop or a silent link no switch cycle is needed. (The header of the module still
  says that both reasons are latched until the switch is cycled.)
\<close>

theorem remote_gate_recovers:
  assumes "ri_sw i \<noteq> 0" "ri_estop i = 0" "ri_req_valid i \<noteq> 0"
    and "elapsed (ri_now_ms i) (ri_last_req_ms i) < 10000"
  shows "snd (remote_en_fsm_step i s) = 1"
  using assms by (auto simp: ren_defs Let_def)

theorem remote_gate_recovers_witness:
  "snd (remote_en_fsm_step
     \<lparr>ri_now_ms = 3, ri_sw = 1, ri_last_req_ms = 0xFFFFFFFE, ri_req_valid = 1, ri_estop = 0\<rparr>
     \<lparr>rn_state = 4, rn_enter_ms = 0, rn_silence_armed = 1\<rparr>) = 1"
  by (rule remote_gate_recovers) (simp_all add: elapsed_def)

end
