(* ===== verification/Reg_Calc.thy ===== *)
theory Reg_Calc
  imports Prelude
begin

text \<open>
  The pure computations of the regulation loop, \<open>fw/src/app_reg_calc.c\<close>: the input
  scaling, the output-level table, the display conversions and the decision that ends an
  energy-controlled run.
\<close>

section \<open>Operations\<close>

definition reg_lookup_table :: "u16 list" where
  "reg_lookup_table =
     [0x03FF, 0x03CC, 0x0399, 0x0366, 0x0333, 0x0300, 0x02CD, 0x029A,
      0x0267, 0x0234, 0x0201, 0x01CE, 0x01B9, 0x0168, 0x0135, 0x0102,
      0x00CF, 0x009C, 0x0069, 0x0036, 0x000F, 0x0004, 0x0004, 0x0054]"

definition reg_scale :: "u16 \<Rightarrow> u16" where
  "reg_scale inp = (if 1000 \<le> inp then 1000 else if inp < 3 then 0 else inp * 6)"

text \<open>The for loop over the bands, from band i.\<close>

fun reg_level_from :: "nat \<Rightarrow> u16 \<Rightarrow> u16 list \<Rightarrow> nat" where
  "reg_level_from i scaled [] = i"
| "reg_level_from i scaled (t # ts) =
     (if t < scaled then i else reg_level_from (Suc i) scaled ts)"

definition reg_output_level :: "u16 \<Rightarrow> nat" where
  "reg_output_level scaled = reg_level_from 0 scaled (take 21 reg_lookup_table)"

fun reg_ramp_from :: "u16 \<Rightarrow> (u16 \<times> u16) list \<Rightarrow> u16" where
  "reg_ramp_from counter [] = 1024"
| "reg_ramp_from counter ((t, l) # rs) = (if counter < t then l else reg_ramp_from counter rs)"

definition reg_ramp_level :: "u16 \<Rightarrow> u16" where
  "reg_ramp_level counter = reg_ramp_from counter
     (zip [41, 81, 121, 161, 201, 241, 281, 321, 361, 401]
          [128, 256, 384, 512, 640, 768, 896, 1024, 1024, 1024])"

definition reg_on_time_200m :: "u32 \<Rightarrow> u8" where
  "reg_on_time_200m run_elapsed_ms =
     (let units = run_elapsed_ms div 200 in if 200 < units then 200 else ucast units)"

abbreviation (input) REG_ENERGY_DIV :: u32 where "REG_ENERGY_DIV \<equiv> 250"
abbreviation (input) OVTIME_SEC_MS :: u32 where "OVTIME_SEC_MS \<equiv> 1000"

definition reg_energy_from_acc :: "u32 \<Rightarrow> u32" where
  "reg_energy_from_acc acc_energy = acc_energy div REG_ENERGY_DIV"

datatype reg_energy_outcome = REG_RUN_CONTINUE | REG_RUN_STOP_ENERGY | REG_RUN_FAULT_OVTIME

definition reg_energy_termination ::
  "u8 \<Rightarrow> u32 \<Rightarrow> u32 \<Rightarrow> u32 \<Rightarrow> u16 \<Rightarrow> reg_energy_outcome" where
  "reg_energy_termination energy_ctrl curr_energy limit_energy elapsed_ms limit_out_time =
     (if energy_ctrl = 0 then REG_RUN_CONTINUE
      else if limit_energy \<noteq> 0 \<and> limit_energy \<le> curr_energy then REG_RUN_STOP_ENERGY
      else if ucast limit_out_time * OVTIME_SEC_MS \<le> elapsed_ms then REG_RUN_FAULT_OVTIME
      else REG_RUN_CONTINUE)"

text \<open>
  The int32 intermediate cannot overflow (at most 65535 * 59 + 32767), so it is an int; the
  dividend is not negative, so C's division is \<open>div\<close>.
\<close>

definition reg_current_from_adc :: "u16 \<Rightarrow> u16 \<Rightarrow> u16" where
  "reg_current_from_adc ch1_avg cal_val =
     (let v = uint ch1_avg * 59 div 126 + sint cal_val
      in if v \<le> 14 then 0 else word_of_int (v - 0))"

definition reg_power_from_amp :: "u16 \<Rightarrow> u16" where
  "reg_power_from_amp curr_amp = ucast ((ucast curr_amp * 22 :: u32) div 10)"

section \<open>The level table\<close>

lemma reg_table_bands:
  "take 21 reg_lookup_table =
     [1023, 972, 921, 870, 819, 768, 717, 666, 615, 564, 513, 462, 441, 360, 309, 258,
      207, 156, 105, 54, 15]"
  by (simp add: reg_lookup_table_def)

lemma reg_level_count:
  "sorted_wrt (>) ts \<Longrightarrow>
     reg_level_from i scaled ts = i + length (filter (\<lambda>t. scaled \<le> t) ts)"
proof (induction ts arbitrary: i)
  case Nil
  then show ?case by simp
next
  case (Cons t ts)
  show ?case
  proof (cases "t < scaled")
    case True
    then have "\<forall>u \<in> set ts. \<not> scaled \<le> u" using Cons.prems by auto
    then show ?thesis using True by (simp add: filter_False)
  next
    case False
    then show ?thesis using Cons by simp
  qed
qed

lemma reg_table_sorted: "sorted_wrt (>) (take 21 reg_lookup_table)"
  by (simp add: reg_table_bands)

lemma reg_output_level_count:
  "reg_output_level scaled = length (filter (\<lambda>t. scaled \<le> t) (take 21 reg_lookup_table))"
  by (simp add: reg_output_level_def reg_level_count reg_table_sorted)

lemma filter_length_mono:
  "(\<And>x. P x \<Longrightarrow> Q x) \<Longrightarrow> length (filter P xs) \<le> length (filter Q xs)"
  by (induction xs) (auto intro: le_SucI)

section \<open>Properties\<close>

text \<open>
  the output level is the number of bands the scaled input does not exceed, between 0
  and 21, and falls as the input grows: the first-match search over the decreasing table is
  a monotone quantiser, and 21 (output off) is reached exactly up to a scaled input of 15.
\<close>

theorem reg_output_level_quantises:
  "reg_output_level x = card {i. i < 21 \<and> x \<le> reg_lookup_table ! i} \<and>
   reg_output_level x \<le> 21 \<and>
   (reg_output_level x = 21 \<longleftrightarrow> x \<le> 15) \<and>
   (x \<le> y \<longrightarrow> reg_output_level y \<le> reg_output_level x)"
proof (intro conjI impI)
  have len: "length reg_lookup_table = 24" by (simp add: reg_lookup_table_def)
  have "{i. i < length (take 21 reg_lookup_table) \<and> x \<le> take 21 reg_lookup_table ! i} =
      {i. i < 21 \<and> x \<le> reg_lookup_table ! i}"
    by (auto simp: len)
  then show "reg_output_level x = card {i. i < 21 \<and> x \<le> reg_lookup_table ! i}"
    by (simp add: reg_output_level_count length_filter_conv_card)
  have "length (take 21 reg_lookup_table) = 21" by (simp add: len)
  then show "reg_output_level x \<le> 21"
    by (metis length_filter_le reg_output_level_count)
  have "x \<le> 15 \<Longrightarrow> \<forall>t \<in> set (take 21 reg_lookup_table). x \<le> t"
    unfolding reg_table_bands word_le_nat_alt by (simp; linarith)
  moreover have "\<not> x \<le> 15 \<Longrightarrow> length (filter (\<lambda>t. x \<le> t) (take 21 reg_lookup_table)) < 21"
  proof -
    assume "\<not> x \<le> 15"
    then have "length (filter (\<lambda>t. x \<le> t) (take 21 reg_lookup_table)) < length (take 21 reg_lookup_table)"
      by (intro length_filter_less [of 15]) (simp_all add: reg_table_bands)
    then show ?thesis by (simp add: len)
  qed
  ultimately show "reg_output_level x = 21 \<longleftrightarrow> x \<le> 15"
    unfolding reg_output_level_count by (cases "x \<le> 15") (simp_all add: filter_True len)
  show "reg_output_level y \<le> reg_output_level x" if "x \<le> y"
    unfolding reg_output_level_count using that by (intro filter_length_mono) simp
qed

theorem reg_output_level_quantises_witness:
  "reg_output_level 300 = card {i. i < 21 \<and> 300 \<le> reg_lookup_table ! i} \<and>
   reg_output_level 300 \<le> 21 \<and>
   (reg_output_level 300 = 21 \<longleftrightarrow> (300 :: u16) \<le> 15) \<and>
   reg_output_level 900 \<le> reg_output_level 300"
  using reg_output_level_quantises [of 300 900] by simp

lemma unat_ovtime: "unat (ucast t * 1000 :: u32) = unat t * 1000" for t :: u16
proof -
  have "unat (ucast t :: u32) = unat t" by (simp add: unat_casts)
  then show ?thesis using unat_bounds(2) [of t] by (subst unat_mult_small) simp_all
qed

text \<open>
  an energy run ends for the right reason. With energy control on, the run stops
  normally when a nonzero energy target is reached, else it faults when the time limit, the
  configured seconds exactly (the product does not wrap; a limit of 0 faults at once), has
  passed, else it continues; without energy control it never ends here.
\<close>

theorem reg_energy_termination_exact:
  "reg_energy_termination ec e lim ms t =
     (if ec \<noteq> 0 \<and> lim \<noteq> 0 \<and> unat lim \<le> unat e then REG_RUN_STOP_ENERGY
      else if ec \<noteq> 0 \<and> unat t * 1000 \<le> unat ms then REG_RUN_FAULT_OVTIME
      else REG_RUN_CONTINUE)"
  by (simp add: reg_energy_termination_def word_le_nat_alt unat_ovtime)

lemma reg_current_bounds:
  assumes "unat ch1 \<le> 24570" "sint cal \<le> 1000"
  shows "unat (reg_current_from_adc ch1 cal) \<le> 12505 \<and>
    int (unat (reg_current_from_adc ch1 cal)) =
      (let v = int (unat ch1) * 59 div 126 + sint cal in if v \<le> 14 then 0 else v)"
proof -
  define v where "v = uint ch1 * 59 div 126 + sint cal"
  have u: "int (unat ch1) = uint ch1" by simp
  then have ch: "uint ch1 \<le> 24570" "0 \<le> uint ch1" using assms(1) by linarith+
  then have "uint ch1 * 59 div 126 \<le> 24570 * 59 div 126"
    by (intro zdiv_mono1) simp_all
  then have hi: "v \<le> 12505" using assms(2) by (simp add: v_def)
  show ?thesis
  proof (cases "v \<le> 14")
    case True
    then show ?thesis by (simp add: reg_current_from_adc_def Let_def flip: v_def)
  next
    case False
    then have "uint (word_of_int v :: u16) = v"
      using hi by (simp add: uint_word_of_int)
    then have "unat (word_of_int v :: u16) = nat v" by (simp add: unat_eq_nat_uint)
    then show ?thesis
      using False hi by (simp add: reg_current_from_adc_def Let_def flip: v_def)
  qed
qed

text \<open>
  in the domain of the converter (six 12-bit samples, at most 24570) and with a
  calibration that the remote clamp admits (at most 1000), the displayed current is the
  proportional value with its dead band and the displayed power is 2.2 times it, rounded
  down: neither 16-bit result wraps.
\<close>

theorem reg_power_exact:
  assumes "unat ch1 \<le> 24570" "sint cal \<le> 1000"
  shows "let v = int (unat ch1) * 59 div 126 + sint cal;
             amp = (if v \<le> 14 then 0 else v)
         in int (unat (reg_current_from_adc ch1 cal)) = amp \<and>
            int (unat (reg_power_from_amp (reg_current_from_adc ch1 cal))) = amp * 22 div 10"
proof -
  define a where "a = reg_current_from_adc ch1 cal"
  have a: "unat a \<le> 12505" using reg_current_bounds [OF assms] by (simp add: a_def)
  have w: "unat (ucast a :: u32) = unat a" by (simp add: unat_casts)
  have "unat (ucast a * 22 :: u32) = unat a * 22"
    using a w by (subst unat_mult_small) simp_all
  then have "unat ((ucast a * 22 :: u32) div 10) = unat a * 22 div 10"
    by (simp add: unat_div)
  then have "unat (reg_power_from_amp a) = unat a * 22 div 10"
    using a by (simp add: reg_power_from_amp_def unat_casts)
  then have "int (unat (reg_power_from_amp a)) = int (unat a) * 22 div 10"
    by (simp add: zdiv_int)
  then show ?thesis
    using reg_current_bounds [OF assms] by (simp only: Let_def a_def)
qed

theorem reg_power_exact_witness:
  "let v = int (unat (1260 :: u16)) * 59 div 126 + sint (0xFFF6 :: u16);
       amp = (if v \<le> 14 then 0 else v)
   in int (unat (reg_current_from_adc 1260 0xFFF6)) = amp \<and>
      int (unat (reg_power_from_amp (reg_current_from_adc 1260 0xFFF6))) = amp * 22 div 10"
  by (rule reg_power_exact) simp_all

text \<open>
  the on-time bar counts 200 ms units and saturates at 200 without wrapping its byte.
\<close>

theorem reg_on_time_saturates:
  "unat (reg_on_time_200m ms) = min 200 (unat ms div 200)"
proof -
  have "unat (ms div 200) = unat ms div 200" by (simp add: unat_div)
  then show ?thesis
    by (simp add: reg_on_time_200m_def Let_def word_less_nat_alt unat_casts)
qed

end
