(* ===== verification/Fram.thy ===== *)
theory Fram
  imports Prelude
begin

text \<open>
  The I2C bus with its two devices, \<open>fw/drivers/i2c1.c\<close>, \<open>fram.c\<close> and \<open>i2c_pot.c\<close>.
  The hardware is state: the 256 bytes of the FRAM page, the wiper of the potentiometer and
  the outcomes the bus still has in store. An outcome \<open>Some k\<close> is a transaction that
  fails after k bytes reached the device; when the list is used up the bus is healthy.
\<close>

section \<open>The bus\<close>

record i2c_st =
  ic_mem :: "u8 \<Rightarrow> u8"
  ic_wiper :: u8
  ic_bus :: "nat option list"
  ic_err_count :: u16

abbreviation (input) FRAM_I2C_ADDR_7B :: u8 where "FRAM_I2C_ADDR_7B \<equiv> 0x50"
abbreviation (input) I2C_POT_ADDR :: u8 where "I2C_POT_ADDR \<equiv> 0x28"
abbreviation (input) I2C_POT_REG :: u8 where "I2C_POT_REG \<equiv> 0"

fun store_bytes :: "u8 \<Rightarrow> u8 list \<Rightarrow> (u8 \<Rightarrow> u8) \<Rightarrow> u8 \<Rightarrow> u8" where
  "store_bytes a [] m = m"
| "store_bytes a (b # bs) m = store_bytes (a + 1) bs (m(a := b))"

fun fetch_bytes :: "u8 \<Rightarrow> nat \<Rightarrow> (u8 \<Rightarrow> u8) \<Rightarrow> u8 list" where
  "fetch_bytes a 0 m = []"
| "fetch_bytes a (Suc n) m = m a # fetch_bytes (a + 1) n m"

definition bus_outcome :: "i2c_st \<Rightarrow> nat option \<times> i2c_st" where
  "bus_outcome s = (case ic_bus s of [] \<Rightarrow> (None, s) | r # rs \<Rightarrow> (r, s\<lparr>ic_bus := rs\<rparr>))"

definition dev_store :: "u8 \<Rightarrow> u8 \<Rightarrow> u8 list \<Rightarrow> i2c_st \<Rightarrow> i2c_st" where
  "dev_store dev a bs s =
     (if dev = FRAM_I2C_ADDR_7B then s\<lparr>ic_mem := store_bytes a bs (ic_mem s)\<rparr>
      else if dev = I2C_POT_ADDR \<and> bs \<noteq> [] then s\<lparr>ic_wiper := last bs\<rparr>
      else s)"

text \<open>True stands for \<open>HAL_OK\<close>; a failing read leaves the buffer of the caller alone.\<close>

definition i2c1_mem_read :: "u8 \<Rightarrow> u8 \<Rightarrow> nat \<Rightarrow> i2c_st \<Rightarrow> u8 list option \<times> i2c_st" where
  "i2c1_mem_read dev a n s =
     (let (r, s) = bus_outcome s
      in if r = None then (Some (fetch_bytes a n (ic_mem s)), s)
         else (None, s\<lparr>ic_err_count := ic_err_count s + 1\<rparr>))"

definition i2c1_mem_write :: "u8 \<Rightarrow> u8 \<Rightarrow> u8 list \<Rightarrow> i2c_st \<Rightarrow> bool \<times> i2c_st" where
  "i2c1_mem_write dev a bs s =
     (let (r, s) = bus_outcome s
      in case r of
           None \<Rightarrow> (True, dev_store dev a bs s)
         | Some k \<Rightarrow>
             (let s = dev_store dev a (take k bs) s
              in (False, s\<lparr>ic_err_count := ic_err_count s + 1\<rparr>)))"

definition i2c1_err_count :: "i2c_st \<Rightarrow> u16" where
  "i2c1_err_count s = ic_err_count s"

section \<open>The FRAM and the potentiometer\<close>

definition be32 :: "u8 list \<Rightarrow> u32" where
  "be32 b = push_bit 24 (ucast (b ! 0)) OR push_bit 16 (ucast (b ! 1)) OR
     push_bit 8 (ucast (b ! 2)) OR ucast (b ! 3)"

definition bytes32 :: "u32 \<Rightarrow> u8 list" where
  "bytes32 v = [ucast (drop_bit 24 v), ucast (drop_bit 16 v), ucast (drop_bit 8 v), ucast v]"

definition fram_read_byte :: "u8 \<Rightarrow> i2c_st \<Rightarrow> u8 option \<times> i2c_st" where
  "fram_read_byte addr s =
     (let (r, s) = i2c1_mem_read FRAM_I2C_ADDR_7B addr 1 s
      in (case r of None \<Rightarrow> None | Some b \<Rightarrow> Some (b ! 0), s))"

definition fram_read_u16 :: "u8 \<Rightarrow> i2c_st \<Rightarrow> u16 option \<times> i2c_st" where
  "fram_read_u16 addr s =
     (let (r, s) = i2c1_mem_read FRAM_I2C_ADDR_7B addr 2 s
      in (case r of None \<Rightarrow> None | Some b \<Rightarrow> Some (be16 (b ! 0) (b ! 1)), s))"

definition fram_read_u32 :: "u8 \<Rightarrow> i2c_st \<Rightarrow> u32 option \<times> i2c_st" where
  "fram_read_u32 addr s =
     (let (r, s) = i2c1_mem_read FRAM_I2C_ADDR_7B addr 4 s
      in (case r of None \<Rightarrow> None | Some b \<Rightarrow> Some (be32 b), s))"

definition fram_write_byte :: "u8 \<Rightarrow> u8 \<Rightarrow> i2c_st \<Rightarrow> i2c_st" where
  "fram_write_byte addr v s = snd (i2c1_mem_write FRAM_I2C_ADDR_7B addr [v] s)"

definition fram_write_u16 :: "u8 \<Rightarrow> u16 \<Rightarrow> i2c_st \<Rightarrow> i2c_st" where
  "fram_write_u16 addr v s = snd (i2c1_mem_write FRAM_I2C_ADDR_7B addr [hi8 v, lo8 v] s)"

definition fram_write_u32 :: "u8 \<Rightarrow> u32 \<Rightarrow> i2c_st \<Rightarrow> i2c_st" where
  "fram_write_u32 addr v s = snd (i2c1_mem_write FRAM_I2C_ADDR_7B addr (bytes32 v) s)"

definition pot_dac_from_power :: "u8 \<Rightarrow> u8" where
  "pot_dac_from_power pct =
     (if pct \<le> 50 then 0 else if 100 \<le> pct then 127
      else ucast ((ucast (pct - 50) * 255 :: u16) div 100))"

definition i2c_pot_set_dac :: "u8 \<Rightarrow> i2c_st \<Rightarrow> i2c_st" where
  "i2c_pot_set_dac dac s =
     (let dac = (if 127 < dac then 127 else dac)
      in snd (i2c1_mem_write I2C_POT_ADDR I2C_POT_REG [dac] s))"

section \<open>Read after write\<close>

lemma bit_be32:
  "bit (be32 [b0, b1, b2, b3]) n =
     (if n < 8 then bit b3 n else if n < 16 then bit b2 (n - 8)
      else if n < 24 then bit b1 (n - 16) else n < 32 \<and> bit b0 (n - 24))"
  by (auto simp: be32_def bit_or_iff bit_push_bit_iff bit_ucast_iff
      dest: bit_imp_le_length)

lemma be32_bytes32 [simp]: "be32 (bytes32 v) = v"
  unfolding bytes32_def
  by (rule bit_word_eqI) (auto simp: bit_be32 bit_ucast_iff bit_drop_bit_eq)

lemma length_bytes32 [simp]: "length (bytes32 v) = 4"
  by (simp add: bytes32_def)

definition healthy :: "i2c_st \<Rightarrow> bool" where
  "healthy s \<longleftrightarrow> ic_bus s = []"

lemma bus_healthy: "healthy s \<Longrightarrow> bus_outcome s = (None, s)"
  by (simp add: healthy_def bus_outcome_def)

lemma fetch_2: "fetch_bytes a 2 m = [m a, m (a + 1)]"
  by (simp add: numeral_2_eq_2)

lemma fetch_4: "fetch_bytes a 4 m = [m a, m (a + 1), m (a + 2), m (a + 3)]"
  by (simp add: numeral_eq_Suc add.assoc)

lemma fram_reads:
  assumes "healthy s"
  shows "fram_read_byte a s = (Some (ic_mem s a), s)"
    and "fram_read_u16 a s = (Some (be16 (ic_mem s a) (ic_mem s (a + 1))), s)"
    and "fram_read_u32 a s =
      (Some (be32 [ic_mem s a, ic_mem s (a + 1), ic_mem s (a + 2), ic_mem s (a + 3)]), s)"
  using assms
  by (simp_all add: fram_read_byte_def fram_read_u16_def fram_read_u32_def i2c1_mem_read_def
      bus_healthy fetch_2 fetch_4)

lemma fram_writes:
  assumes "healthy s"
  shows "fram_write_byte a v s = s\<lparr>ic_mem := store_bytes a [v] (ic_mem s)\<rparr>"
    and "fram_write_u16 a w s = s\<lparr>ic_mem := store_bytes a [hi8 w, lo8 w] (ic_mem s)\<rparr>"
    and "fram_write_u32 a x s = s\<lparr>ic_mem := store_bytes a (bytes32 x) (ic_mem s)\<rparr>"
  using assms
  by (simp_all add: fram_write_byte_def fram_write_u16_def fram_write_u32_def i2c1_mem_write_def
      bus_healthy dev_store_def)

lemma healthy_mem [simp]: "healthy (s\<lparr>ic_mem := m\<rparr>) = healthy s"
  by (simp add: healthy_def)

text \<open>What a store promises its client, and what the client gets from it.\<close>

locale value_store =
  fixes rd :: "u8 \<Rightarrow> 's \<Rightarrow> 'v option \<times> 's"
    and wr :: "u8 \<Rightarrow> 'v \<Rightarrow> 's \<Rightarrow> 's"
    and ok :: "'s \<Rightarrow> bool"
    and apart :: "u8 \<Rightarrow> u8 \<Rightarrow> bool"
  assumes wr_ok: "ok s \<Longrightarrow> ok (wr a v s)"
    and rd_same: "ok s \<Longrightarrow> rd a (wr a v s) = (Some v, wr a v s)"
    and rd_other: "ok s \<Longrightarrow> apart a b \<Longrightarrow> fst (rd a (wr b v s)) = fst (rd a s)"
    and rd_state: "ok s \<Longrightarrow> snd (rd a s) = s"
begin

lemma wr_all_ok: "ok s \<Longrightarrow> ok (fold (\<lambda>(a, v). wr a v) avs s)"
  by (induction avs arbitrary: s) (auto simp: wr_ok)

lemma rd_untouched:
  "ok s \<Longrightarrow> \<forall>(b, v) \<in> set avs. apart a b \<Longrightarrow>
     rd a (fold (\<lambda>(a, v). wr a v) avs s) = (fst (rd a s), fold (\<lambda>(a, v). wr a v) avs s)"
proof (induction avs arbitrary: s)
  case Nil
  then show ?case by (simp add: rd_state prod_eq_iff)
next
  case (Cons bv avs)
  then show ?case by (cases bv) (simp add: wr_ok rd_other)
qed

lemma rd_last_written:
  assumes "ok s" "\<forall>(b, w) \<in> set after. apart a b"
  shows "fst (rd a (fold (\<lambda>(a, v). wr a v) (before @ (a, v) # after) s)) = Some v"
proof -
  let ?s = "fold (\<lambda>(a, v). wr a v) before s"
  have "ok ?s" using assms(1) by (rule wr_all_ok)
  then show ?thesis
    using rd_untouched [OF wr_ok, of ?s "after" a a v] assms(2) by (simp add: rd_same)
qed

end

interpretation fram_bytes: value_store fram_read_byte fram_write_byte healthy "(\<noteq>)"
  by unfold_locales (simp_all add: fram_reads fram_writes)

interpretation fram_halves: value_store fram_read_u16 fram_write_u16 healthy
  "\<lambda>a b. a \<noteq> b \<and> a \<noteq> b + 1 \<and> a + 1 \<noteq> b"
  by unfold_locales (auto simp: fram_reads fram_writes)

lemma word_offsets:
  "a + 1 \<noteq> a" "a + 2 \<noteq> a" "a + 3 \<noteq> a" for a :: u8
  by (simp_all add: add_eq_self_zero)

lemma store_fetch32:
  "healthy s \<Longrightarrow> fram_read_u32 a (fram_write_u32 a v s) = (Some v, fram_write_u32 a v s)"
proof -
  assume h: "healthy s"
  have "be32 [ucast (drop_bit 24 v), ucast (drop_bit 16 v), ucast (drop_bit 8 v), ucast v] = v"
    using be32_bytes32 [of v] by (simp add: bytes32_def)
  then show ?thesis
    using h by (simp add: fram_reads fram_writes bytes32_def add.assoc)
qed

section \<open>Properties\<close>

text \<open>
  what is written last is read back. On a healthy bus any sequence of 16-bit writes that
  ends with writes away from address a returns, at a, the value last written there, most
  significant byte first; 32-bit values round-trip as well.
\<close>

theorem fram_reads_last_write:
  assumes "ic_bus s = []" "\<forall>(b, w) \<in> set after. a \<noteq> b \<and> a \<noteq> b + 1 \<and> a + 1 \<noteq> b"
  shows "fst (fram_read_u16 a (fold (\<lambda>(a, v). fram_write_u16 a v) (before @ (a, v) # after) s)) = Some v \<and>
    fst (fram_read_u32 c (fram_write_u32 c x s)) = Some x"
  using fram_halves.rd_last_written [of s "after" a before v] store_fetch32 [of s c x] assms
  by (simp add: healthy_def)

theorem fram_reads_last_write_witness:
  "fst (fram_read_u16 5 (fold (\<lambda>(a, v). fram_write_u16 a v)
       ([(5, 1)] @ (5, 0xABCD) # [(7, 9)])
       \<lparr>ic_mem = (\<lambda>_. 0), ic_wiper = 0, ic_bus = [], ic_err_count = 0\<rparr>)) = Some 0xABCD \<and>
   fst (fram_read_u32 1 (fram_write_u32 1 0x01020304
       \<lparr>ic_mem = (\<lambda>_. 0), ic_wiper = 0, ic_bus = [], ic_err_count = 0\<rparr>)) = Some 0x01020304"
  by (rule fram_reads_last_write) simp_all

lemma pot_dac_unat:
  "unat (pot_dac_from_power p) =
     (if unat p \<le> 50 then 0 else if 100 \<le> unat p then 127 else (unat p - 50) * 255 div 100)"
proof (cases "50 < unat p \<and> unat p < 100")
  case False
  then show ?thesis by (auto simp: pot_dac_from_power_def word_le_nat_alt)
next
  case True
  then have sub: "unat (p - 50) = unat p - 50" by (simp add: unat_sub word_le_nat_alt)
  have w: "unat (ucast (p - 50) :: u16) = unat p - 50"
    by (simp add: unat_casts sub)
  have small: "(unat p - 50) * 255 < 65536" using True by linarith
  have "unat (ucast (p - 50) * 255 :: u16) = (unat p - 50) * 255"
    using w small by (subst unat_mult_small) simp_all
  then have d: "unat ((ucast (p - 50) * 255 :: u16) div 100) = (unat p - 50) * 255 div 100"
    by (simp add: unat_div)
  have "(unat p - 50) * 255 div 100 < 256" using True by auto
  then show ?thesis
    using True d by (simp add: pot_dac_from_power_def word_le_nat_alt unat_casts)
qed

text \<open>
  the amplitude reaches the wiper exactly. On a healthy bus, setting the power p leaves
  the wiper at 0 up to 50 percent, at 127 from 100 percent, at (p - 50) * 255 / 100 between,
  never above 127 and growing with p, and leaves the FRAM and the error counter alone.
\<close>

theorem power_reaches_wiper:
  assumes "ic_bus s = []"
  shows "let s' = i2c_pot_set_dac (pot_dac_from_power p) s
    in unat (ic_wiper s') = (if unat p \<le> 50 then 0 else if 100 \<le> unat p then 127
                             else (unat p - 50) * 255 div 100) \<and>
       unat (ic_wiper s') \<le> 127 \<and>
       (unat q \<le> unat p \<longrightarrow> unat (pot_dac_from_power q) \<le> unat (ic_wiper s')) \<and>
       ic_mem s' = ic_mem s \<and> ic_err_count s' = ic_err_count s"
proof -
  define d where "d = pot_dac_from_power p"
  have le: "unat (pot_dac_from_power r) \<le> 127" for r
    by (simp add: pot_dac_unat) linarith
  have "\<not> 127 < d" using le [of p] by (simp add: d_def word_less_nat_alt not_less)
  then have s': "i2c_pot_set_dac d s = s\<lparr>ic_wiper := d\<rparr>"
    using assms by (simp add: i2c_pot_set_dac_def i2c1_mem_write_def bus_outcome_def dev_store_def)
  have "unat q \<le> unat p \<longrightarrow> unat (pot_dac_from_power q) \<le> unat d"
    unfolding d_def pot_dac_unat by (auto intro!: div_le_mono)
  then show ?thesis
    using le [of p] unfolding d_def [symmetric] Let_def s'
    by (simp add: d_def pot_dac_unat)
qed

theorem power_reaches_wiper_witness:
  "let s' = i2c_pot_set_dac (pot_dac_from_power 80)
         \<lparr>ic_mem = (\<lambda>_. 0), ic_wiper = 0, ic_bus = [], ic_err_count = 0\<rparr>
    in unat (ic_wiper s') = (if unat (80 :: u8) \<le> 50 then 0 else if 100 \<le> unat (80 :: u8) then 127
                             else (unat (80 :: u8) - 50) * 255 div 100) \<and>
       unat (ic_wiper s') \<le> 127 \<and>
       (unat (60 :: u8) \<le> unat (80 :: u8) \<longrightarrow> unat (pot_dac_from_power 60) \<le> unat (ic_wiper s')) \<and>
       ic_mem s' = ic_mem \<lparr>ic_mem = (\<lambda>_. 0), ic_wiper = 0, ic_bus = [], ic_err_count = 0\<rparr> \<and>
       ic_err_count s' =
         ic_err_count \<lparr>ic_mem = (\<lambda>_. 0), ic_wiper = 0, ic_bus = [], ic_err_count = 0\<rparr>"
  by (rule power_reaches_wiper) simp

end
