(* ===== verification/Config.thy ===== *)
theory Config
  imports Fram
begin

text \<open>
  The configuration of the controller and its map in the FRAM, \<open>fw/src/app_config.c\<close>
  and \<open>fw/include/cfg_clamp.h\<close>. The signed calibrations are kept as their 16 bits.
\<close>

section \<open>Data\<close>

record app_config =
  model_freq :: u8
  model_type :: u8
  f_safty :: u8
  run_mode :: u8
  limit_delay_time1 :: u16
  limit_delay_time2 :: u16
  limit_delay_time3 :: u16
  limit_trigger_time2 :: u16
  limit_trigger_time3 :: u16
  limit_on_time :: u16
  limit_out_time :: u16
  limit_mo_out1 :: u16
  limit_mo_out2 :: u16
  limit_mo_time1 :: u16
  limit_mo_time2 :: u16
  output_power :: u8
  work_cnt :: u32
  limit_energy :: u32
  energy_ctrl :: bool
  multi_ctrl :: bool
  cal_val :: u16
  freq_cal_val :: u16
  comm_address :: u8
  comm_speed_idx :: u8
  comm_parity_idx :: u8
  comm_mode :: u8
  ether_ip :: "u8 list"
  ether_nm :: "u8 list"
  ether_gw :: "u8 list"

abbreviation (input) CFG_COMM_SPEED_IDX_MAX :: u8 where "CFG_COMM_SPEED_IDX_MAX \<equiv> 5"
abbreviation (input) CFG_COMM_PARITY_IDX_MAX :: u8 where "CFG_COMM_PARITY_IDX_MAX \<equiv> 2"
abbreviation (input) FRAM_INIT_FLAG_MAGIC :: u8 where "FRAM_INIT_FLAG_MAGIC \<equiv> 0xAA"

definition cfg_clamp_max :: "u16 \<Rightarrow> u16 \<Rightarrow> u16" where
  "cfg_clamp_max v m = (if m < v then m else v)"

definition cfg_clamp_power :: "u16 \<Rightarrow> u16" where
  "cfg_clamp_power v = (if 100 < v then 100 else if v < 50 then 50 else v)"

definition app_config_factory_defaults :: app_config where
  "app_config_factory_defaults = \<lparr>
     model_freq = 0, model_type = 0, f_safty = 0, run_mode = 0,
     limit_delay_time1 = 50, limit_delay_time2 = 50, limit_delay_time3 = 50,
     limit_trigger_time2 = 50, limit_trigger_time3 = 50,
     limit_on_time = 50, limit_out_time = 10,
     limit_mo_out1 = 25, limit_mo_out2 = 50, limit_mo_time1 = 25, limit_mo_time2 = 50,
     output_power = 50, work_cnt = 0, limit_energy = 100000,
     energy_ctrl = False, multi_ctrl = False, cal_val = 0, freq_cal_val = 0,
     comm_address = 0, comm_speed_idx = 0, comm_parity_idx = 0, comm_mode = 0,
     ether_ip = [0, 0, 0, 0], ether_nm = [0, 0, 0, 0], ether_gw = [0, 0, 0, 0]\<rparr>"

section \<open>Saving\<close>

definition app_config_save_all :: "app_config \<Rightarrow> i2c_st \<Rightarrow> i2c_st" where
  "app_config_save_all cfg s = fold (\<lambda>write s. write s)
     ([fram_write_u32 1 (work_cnt cfg),
       fram_write_u16 5 (limit_delay_time1 cfg),
       fram_write_u16 7 (limit_delay_time2 cfg),
       fram_write_u16 9 (limit_delay_time3 cfg),
       fram_write_u16 11 (limit_trigger_time2 cfg),
       fram_write_u16 13 (limit_trigger_time3 cfg),
       fram_write_byte 15 (f_safty cfg),
       fram_write_byte 16 (run_mode cfg),
       fram_write_byte 17 (model_freq cfg),
       fram_write_byte 18 (model_type cfg),
       fram_write_byte 19 (output_power cfg),
       fram_write_u16 20 (limit_on_time cfg),
       fram_write_byte 34 (b2u (energy_ctrl cfg)),
       fram_write_byte 35 (b2u (multi_ctrl cfg)),
       fram_write_u32 22 (limit_energy cfg),
       fram_write_u16 26 (limit_mo_time1 cfg),
       fram_write_u16 28 (limit_mo_time2 cfg),
       fram_write_u16 30 (limit_mo_out1 cfg),
       fram_write_u16 32 (limit_mo_out2 cfg),
       fram_write_byte 36 (ucast (limit_out_time cfg)),
       fram_write_byte 37 (comm_address cfg),
       fram_write_byte 38 (comm_speed_idx cfg),
       fram_write_byte 39 (comm_parity_idx cfg),
       fram_write_u16 40 (cal_val cfg),
       fram_write_u16 42 (freq_cal_val cfg),
       fram_write_byte 44 (comm_mode cfg)] @
      concat (map (\<lambda>i.
        [fram_write_byte (45 + of_nat i) (ether_ip cfg ! i),
         fram_write_byte (49 + of_nat i) (ether_nm cfg ! i),
         fram_write_byte (53 + of_nat i) (ether_gw cfg ! i)]) [0, 1, 2, 3])) s"

definition app_config_factory_write :: "i2c_st \<Rightarrow> app_config \<times> i2c_st" where
  "app_config_factory_write s =
     (let cfg = app_config_factory_defaults in (cfg, app_config_save_all cfg s))"

section \<open>Loading\<close>

text \<open>
  The loader threads the configuration, the count of failed reads and the bus. A failed read
  leaves its field alone and counts.
\<close>

type_synonym loader = "app_config \<times> u8 \<times> i2c_st"

definition ld_byte :: "u8 \<Rightarrow> (u8 \<Rightarrow> app_config \<Rightarrow> app_config) \<Rightarrow> loader \<Rightarrow> loader" where
  "ld_byte a set_field l =
     (case l of (cfg, fail, s) \<Rightarrow>
       (case fram_read_byte a s of
          (Some v, s) \<Rightarrow> (set_field v cfg, fail, s)
        | (None, s) \<Rightarrow> (cfg, fail + 1, s)))"

definition ld_u16 :: "u8 \<Rightarrow> (u16 \<Rightarrow> app_config \<Rightarrow> app_config) \<Rightarrow> loader \<Rightarrow> loader" where
  "ld_u16 a set_field l =
     (case l of (cfg, fail, s) \<Rightarrow>
       (case fram_read_u16 a s of
          (Some v, s) \<Rightarrow> (set_field v cfg, fail, s)
        | (None, s) \<Rightarrow> (cfg, fail + 1, s)))"

definition ld_u32 :: "u8 \<Rightarrow> (u32 \<Rightarrow> app_config \<Rightarrow> app_config) \<Rightarrow> loader \<Rightarrow> loader" where
  "ld_u32 a set_field l =
     (case l of (cfg, fail, s) \<Rightarrow>
       (case fram_read_u32 a s of
          (Some v, s) \<Rightarrow> (set_field v cfg, fail, s)
        | (None, s) \<Rightarrow> (cfg, fail + 1, s)))"

text \<open>An energy limit over 100000 is clamped and written back.\<close>

definition ld_energy :: "loader \<Rightarrow> loader" where
  "ld_energy l =
     (case l of (cfg, fail, s) \<Rightarrow>
       (case fram_read_u32 22 s of
          (Some v, s) \<Rightarrow>
            (let cfg = cfg\<lparr>limit_energy := v\<rparr>
             in if 100000 < limit_energy cfg
                then (let cfg = cfg\<lparr>limit_energy := 100000\<rparr>
                      in (cfg, fail, fram_write_u32 22 (limit_energy cfg) s))
                else (cfg, fail, s))
        | (None, s) \<Rightarrow> (cfg, fail + 1, s)))"

definition ld_ether :: "nat \<Rightarrow> (loader \<Rightarrow> loader) list" where
  "ld_ether i =
     [ld_byte (45 + of_nat i) (\<lambda>v c. c\<lparr>ether_ip := (ether_ip c)[i := v]\<rparr>),
      ld_byte (49 + of_nat i) (\<lambda>v c. c\<lparr>ether_nm := (ether_nm c)[i := v]\<rparr>),
      ld_byte (53 + of_nat i) (\<lambda>v c. c\<lparr>ether_gw := (ether_gw c)[i := v]\<rparr>)]"

definition ld_before_energy :: "(loader \<Rightarrow> loader) list" where
  "ld_before_energy =
     [ld_u32 1 (\<lambda>v c. c\<lparr>work_cnt := v\<rparr>),
      ld_u16 5 (\<lambda>v c. c\<lparr>limit_delay_time1 := v\<rparr>),
      ld_u16 7 (\<lambda>v c. c\<lparr>limit_delay_time2 := v\<rparr>),
      ld_u16 9 (\<lambda>v c. c\<lparr>limit_delay_time3 := v\<rparr>),
      ld_u16 11 (\<lambda>v c. c\<lparr>limit_trigger_time2 := v\<rparr>),
      ld_u16 13 (\<lambda>v c. c\<lparr>limit_trigger_time3 := v\<rparr>),
      ld_byte 15 (\<lambda>v c. c\<lparr>f_safty := v\<rparr>),
      ld_byte 16 (\<lambda>v c. c\<lparr>run_mode := v\<rparr>),
      ld_byte 17 (\<lambda>v c. c\<lparr>model_freq := v\<rparr>),
      ld_byte 18 (\<lambda>v c. c\<lparr>model_type := v\<rparr>),
      ld_byte 19 (\<lambda>v c. c\<lparr>output_power := ucast (cfg_clamp_power (ucast v))\<rparr>),
      ld_u16 20 (\<lambda>v c. c\<lparr>limit_on_time := v\<rparr>),
      ld_byte 34 (\<lambda>v c. c\<lparr>energy_ctrl := (v = 1)\<rparr>)]"

definition ld_after_energy :: "(loader \<Rightarrow> loader) list" where
  "ld_after_energy =
     [ld_byte 35 (\<lambda>v c. c\<lparr>multi_ctrl := (v = 1)\<rparr>),
      ld_u16 26 (\<lambda>v c. c\<lparr>limit_mo_time1 := v\<rparr>),
      ld_u16 28 (\<lambda>v c. c\<lparr>limit_mo_time2 := v\<rparr>),
      ld_u16 30 (\<lambda>v c. c\<lparr>limit_mo_out1 := v\<rparr>),
      ld_u16 32 (\<lambda>v c. c\<lparr>limit_mo_out2 := v\<rparr>),
      ld_byte 36 (\<lambda>v c. c\<lparr>limit_out_time := ucast v\<rparr>),
      ld_byte 37 (\<lambda>v c. c\<lparr>comm_address := v\<rparr>),
      ld_byte 38 (\<lambda>v c. c\<lparr>comm_speed_idx := if CFG_COMM_SPEED_IDX_MAX < v then 0 else v\<rparr>),
      ld_byte 39 (\<lambda>v c. c\<lparr>comm_parity_idx := if CFG_COMM_PARITY_IDX_MAX < v then 0 else v\<rparr>),
      ld_u16 40 (\<lambda>v c. c\<lparr>cal_val := v\<rparr>),
      ld_u16 42 (\<lambda>v c. c\<lparr>freq_cal_val := v\<rparr>),
      ld_byte 44 (\<lambda>v c. c\<lparr>comm_mode := v\<rparr>)] @
      concat (map ld_ether [0, 1, 2, 3])"

definition app_config_load :: "i2c_st \<Rightarrow> u8 \<times> app_config \<times> i2c_st" where
  "app_config_load s =
     (let cfg = app_config_factory_defaults
      in case fram_read_byte 0 s of
           (None, s) \<Rightarrow> (0xFF, cfg, s)
         | (Some flag, s) \<Rightarrow>
             if flag \<noteq> FRAM_INIT_FLAG_MAGIC
             then (let s = fram_write_byte 0 FRAM_INIT_FLAG_MAGIC s;
                       (cfg, s) = app_config_factory_write s
                   in (0, cfg, s))
             else (let (cfg, fail, s) =
                     fold (\<lambda>f l. f l) (ld_before_energy @ ld_energy # ld_after_energy) (cfg, 0, s)
                   in (fail, cfg, s)))"

section \<open>What a loaded configuration satisfies\<close>

definition cfg_ok :: "app_config \<Rightarrow> bool" where
  "cfg_ok c \<longleftrightarrow> 50 \<le> unat (output_power c) \<and> unat (output_power c) \<le> 100 \<and>
     unat (limit_energy c) \<le> 100000 \<and> unat (comm_speed_idx c) \<le> 5 \<and>
     unat (comm_parity_idx c) \<le> 2 \<and>
     length (ether_ip c) = 4 \<and> length (ether_nm c) = 4 \<and> length (ether_gw c) = 4"

lemma cfg_ok_defaults [simp]: "cfg_ok app_config_factory_defaults"
  by (simp add: cfg_ok_def app_config_factory_defaults_def)

lemma unat_clamp_power: "unat (cfg_clamp_power v) = max 50 (min 100 (unat v))"
  by (simp add: cfg_clamp_power_def word_less_nat_alt)

lemma clamp_power_byte:
  "unat (ucast (cfg_clamp_power (ucast (v :: u8))) :: u8) = max 50 (min 100 (unat v))"
  by (simp add: unat_casts unat_clamp_power)

definition keeps_ok :: "(loader \<Rightarrow> loader) \<Rightarrow> bool" where
  "keeps_ok f \<longleftrightarrow> (\<forall>c n s. cfg_ok c \<longrightarrow> cfg_ok (fst (f (c, n, s))))"

lemma keeps_ok_ld:
  "(\<And>v c. cfg_ok c \<Longrightarrow> cfg_ok (g v c)) \<Longrightarrow> keeps_ok (ld_byte a g)"
  "(\<And>w c. cfg_ok c \<Longrightarrow> cfg_ok (h w c)) \<Longrightarrow> keeps_ok (ld_u16 a h)"
  "(\<And>x c. cfg_ok c \<Longrightarrow> cfg_ok (k x c)) \<Longrightarrow> keeps_ok (ld_u32 a k)"
  by (auto simp: keeps_ok_def ld_byte_def ld_u16_def ld_u32_def split: prod.split option.split)

lemma keeps_ok_energy: "keeps_ok ld_energy"
  by (auto simp: keeps_ok_def ld_energy_def cfg_ok_def Let_def word_less_nat_alt
      split: prod.split option.split)

lemma keeps_ok_steps: "\<forall>f \<in> set (ld_before_energy @ ld_energy # ld_after_energy). keeps_ok f"
  unfolding ld_before_energy_def ld_after_energy_def ld_ether_def
  by (auto intro!: keeps_ok_ld keeps_ok_energy
      simp: cfg_ok_def clamp_power_byte word_less_nat_alt)

lemma keeps_ok_fold:
  "\<forall>f \<in> set fs. keeps_ok f \<Longrightarrow> cfg_ok (fst l) \<Longrightarrow> cfg_ok (fst (fold (\<lambda>f l. f l) fs l))"
proof (induction fs arbitrary: l)
  case Nil
  then show ?case by simp
next
  case (Cons f fs)
  then show ?case by (cases l) (simp add: keeps_ok_def)
qed

section \<open>Counting failed reads\<close>

text \<open>
  The next outcome of the bus decides each read: a failure leaves the configuration and adds
  one to the count.
\<close>

definition next_fails :: "i2c_st \<Rightarrow> bool" where
  "next_fails s \<longleftrightarrow> ic_bus s \<noteq> [] \<and> hd (ic_bus s) \<noteq> None"

definition one_read :: "(loader \<Rightarrow> loader) \<Rightarrow> bool" where
  "one_read f \<longleftrightarrow> (\<forall>c n s.
     fst (snd (f (c, n, s))) = n + (if next_fails s then 1 else 0) \<and>
     (next_fails s \<longrightarrow> fst (f (c, n, s)) = c) \<and>
     ic_bus (snd (snd (f (c, n, s)))) = tl (ic_bus s) \<and>
     ic_mem (snd (snd (f (c, n, s)))) = ic_mem s)"

lemma read_outcomes:
  "fram_read_byte a s = (if next_fails s
     then (None, s\<lparr>ic_bus := tl (ic_bus s), ic_err_count := ic_err_count s + 1\<rparr>)
     else (Some (ic_mem s a), s\<lparr>ic_bus := tl (ic_bus s)\<rparr>))"
  "fram_read_u16 a s = (if next_fails s
     then (None, s\<lparr>ic_bus := tl (ic_bus s), ic_err_count := ic_err_count s + 1\<rparr>)
     else (Some (be16 (ic_mem s a) (ic_mem s (a + 1))), s\<lparr>ic_bus := tl (ic_bus s)\<rparr>))"
  "fram_read_u32 a s = (if next_fails s
     then (None, s\<lparr>ic_bus := tl (ic_bus s), ic_err_count := ic_err_count s + 1\<rparr>)
     else (Some (be32 [ic_mem s a, ic_mem s (a + 1), ic_mem s (a + 2), ic_mem s (a + 3)]),
           s\<lparr>ic_bus := tl (ic_bus s)\<rparr>))"
  by (simp_all add: fram_read_byte_def fram_read_u16_def fram_read_u32_def i2c1_mem_read_def
      bus_outcome_def next_fails_def fetch_2 fetch_4 split: list.split)

lemma one_read_ld: "one_read (ld_byte a g)" "one_read (ld_u16 a h)" "one_read (ld_u32 a k)"
  by (simp_all add: one_read_def ld_byte_def ld_u16_def ld_u32_def read_outcomes)

lemma one_read_steps: "\<forall>f \<in> set (ld_before_energy @ ld_after_energy). one_read f"
  by (simp add: ld_before_energy_def ld_after_energy_def ld_ether_def one_read_ld)

lemma one_read_energy:
  assumes "unat (be32 [ic_mem s 22, ic_mem s 23, ic_mem s 24, ic_mem s 25]) \<le> 100000"
  shows "fst (snd (ld_energy (c, n, s))) = n + (if next_fails s then 1 else 0)"
    "ic_bus (snd (snd (ld_energy (c, n, s)))) = tl (ic_bus s)"
    "ic_mem (snd (snd (ld_energy (c, n, s)))) = ic_mem s"
  using assms
  by (simp_all add: ld_energy_def read_outcomes Let_def word_less_nat_alt)

definition failures :: "nat \<Rightarrow> nat option list \<Rightarrow> nat" where
  "failures k rs = length (filter (\<lambda>r. r \<noteq> None) (take k rs))"

lemma failures_Suc:
  "failures (Suc k) rs = (if rs \<noteq> [] \<and> hd rs \<noteq> None then 1 else 0) + failures k (tl rs)"
  by (cases rs) (simp_all add: failures_def)

lemma failures_le: "failures k rs \<le> k"
  by (simp add: failures_def) (metis length_filter_le length_take min.cobounded2 order_trans)

lemma one_read_fold:
  "\<forall>f \<in> set fs. one_read f \<Longrightarrow>
     fst (snd (fold (\<lambda>f l. f l) fs (c, n, s))) = n + of_nat (failures (length fs) (ic_bus s)) \<and>
     ic_bus (snd (snd (fold (\<lambda>f l. f l) fs (c, n, s)))) = drop (length fs) (ic_bus s) \<and>
     ic_mem (snd (snd (fold (\<lambda>f l. f l) fs (c, n, s)))) = ic_mem s"
proof (induction fs arbitrary: c n s)
  case Nil
  then show ?case by (simp add: failures_def)
next
  case (Cons f fs)
  obtain c1 n1 s1 where f: "f (c, n, s) = (c1, n1, s1)" by (cases "f (c, n, s)")
  from Cons.prems have "one_read f" by simp
  then have "fst (snd (f (c, n, s))) = n + (if next_fails s then 1 else 0)"
    "ic_bus (snd (snd (f (c, n, s)))) = tl (ic_bus s)" "ic_mem (snd (snd (f (c, n, s)))) = ic_mem s"
    unfolding one_read_def by blast+
  then have "n1 = n + (if next_fails s then 1 else 0)" "ic_bus s1 = tl (ic_bus s)"
    "ic_mem s1 = ic_mem s"
    by (simp_all add: f)
  with Cons.IH [of c1 n1 s1] Cons.prems f show ?case
    by (simp add: failures_Suc next_fails_def drop_Suc)
qed

lemma failures_add: "failures (j + k) rs = failures j rs + failures k (drop j rs)"
proof -
  have "take (j + k) rs = take j rs @ take k (drop j rs)" by (rule take_add)
  then show ?thesis by (simp add: failures_def)
qed

lemma load_steps_length: "length ld_before_energy = 13" "length ld_after_energy = 24"
  by (simp_all add: ld_before_energy_def ld_after_energy_def ld_ether_def)

lemma tl_drop_13: "tl (drop 13 xs) = drop 14 xs"
proof -
  have "tl (drop 13 xs) = drop (Suc 13) xs" by (simp only: drop_Suc tl_drop)
  then show ?thesis by simp
qed

lemma load_count:
  assumes "unat (be32 [ic_mem s 22, ic_mem s 23, ic_mem s 24, ic_mem s 25]) \<le> 100000"
  shows "fst (snd (fold (\<lambda>f l. f l) (ld_before_energy @ ld_energy # ld_after_energy) (c, 0, s))) =
    of_nat (failures 38 (ic_bus s))"
proof -
  obtain c1 n1 s1 where b: "fold (\<lambda>f l. f l) ld_before_energy (c, 0, s) = (c1, n1, s1)"
    by (cases "fold (\<lambda>f l. f l) ld_before_energy (c, 0, s)")
  have before: "n1 = of_nat (failures 13 (ic_bus s))" "ic_bus s1 = drop 13 (ic_bus s)" "ic_mem s1 = ic_mem s"
    using one_read_fold [of ld_before_energy c 0 s] one_read_steps b
    by (simp_all add: load_steps_length)
  obtain c2 n2 s2 where e: "ld_energy (c1, n1, s1) = (c2, n2, s2)"
    by (cases "ld_energy (c1, n1, s1)")
  have mid: "n2 = n1 + (if next_fails s1 then 1 else 0)" "ic_bus s2 = drop 14 (ic_bus s)"
    using one_read_energy [of s1 c1 n1] e before assms by (simp_all add: tl_drop_13)
  have "fst (snd (fold (\<lambda>f l. f l) ld_after_energy (c2, n2, s2))) =
      n2 + of_nat (failures 24 (drop 14 (ic_bus s)))"
    using one_read_fold [of ld_after_energy c2 n2 s2] one_read_steps mid
    by (simp add: load_steps_length)
  moreover have "failures 38 (ic_bus s) = failures 13 (ic_bus s) + failures 25 (drop 13 (ic_bus s))"
    using failures_add [of 13 25 "ic_bus s"] by simp
  moreover have "failures 25 (drop 13 (ic_bus s)) =
      (if next_fails s1 then 1 else 0) + failures 24 (drop 14 (ic_bus s))"
    using failures_Suc [of 24 "drop 13 (ic_bus s)"] before
    by (simp add: next_fails_def tl_drop_13)
  ultimately show ?thesis using b e before mid by simp
qed

section \<open>The map is a bijection\<close>

definition cfg_storable :: "app_config \<Rightarrow> bool" where
  "cfg_storable c \<longleftrightarrow> cfg_ok c \<and> unat (limit_out_time c) < 256"

lemma healthy_write [simp]:
  "healthy s \<Longrightarrow> healthy (fram_write_byte a v s)"
  "healthy s \<Longrightarrow> healthy (fram_write_u16 a w s)"
  "healthy s \<Longrightarrow> healthy (fram_write_u32 a x s)"
  by (simp_all add: fram_writes)

lemma ld_healthy:
  assumes "healthy s"
  shows "ld_byte a g (c, n, s) = (g (ic_mem s a) c, n, s)"
    and "ld_u16 a h (c, n, s) = (h (be16 (ic_mem s a) (ic_mem s (a + 1))) c, n, s)"
    and "ld_u32 a k (c, n, s) =
      (k (be32 [ic_mem s a, ic_mem s (a + 1), ic_mem s (a + 2), ic_mem s (a + 3)]) c, n, s)"
  using assms by (simp_all add: ld_byte_def ld_u16_def ld_u32_def fram_reads)

lemma list4: "length xs = 4 \<Longrightarrow> [xs ! 0, xs ! 1, xs ! 2, xs ! 3] = xs"
  by (auto simp: numeral_eq_Suc length_Suc_conv)

lemma list4_cases: "length xs = 4 \<Longrightarrow> \<exists>a b c d. xs = [a, b, c, d]"
  by (auto simp: numeral_eq_Suc length_Suc_conv)

lemma be32_nths: "be32 [bytes32 v ! 0, bytes32 v ! Suc 0, bytes32 v ! 2, bytes32 v ! 3] = v"
  using be32_bytes32 [of v] by (simp add: bytes32_def)

lemma save_healthy [simp]: "healthy s \<Longrightarrow> healthy (app_config_save_all c s)"
  by (simp add: app_config_save_all_def)

lemma save_mem:
  assumes "healthy s" "ether_ip c = [i0, i1, i2, i3]" "ether_nm c = [n0, n1, n2, n3]"
    "ether_gw c = [g0, g1, g2, g3]"
  shows "map (ic_mem (app_config_save_all c s))
    [0, 1, 2, 3, 4, 5, 6, 7, 8, 9, 10, 11, 12, 13, 14, 15, 16, 17, 18, 19, 20, 21, 22, 23, 24,
    25, 26, 27, 28, 29, 30, 31, 32, 33, 34, 35, 36, 37, 38, 39, 40, 41, 42, 43, 44, 45, 46,
    47, 48, 49, 50, 51, 52, 53, 54, 55, 56] =
    [ic_mem s 0, bytes32 (work_cnt c) ! 0, bytes32 (work_cnt c) ! 1,
     bytes32 (work_cnt c) ! 2, bytes32 (work_cnt c) ! 3, hi8 (limit_delay_time1 c), lo8 (limit_delay_time1 c), hi8 (limit_delay_time2 c),
     lo8 (limit_delay_time2 c), hi8 (limit_delay_time3 c), lo8 (limit_delay_time3 c),
     hi8 (limit_trigger_time2 c), lo8 (limit_trigger_time2 c),
     hi8 (limit_trigger_time3 c), lo8 (limit_trigger_time3 c),
     f_safty c, run_mode c, model_freq c, model_type c, output_power c,
     hi8 (limit_on_time c), lo8 (limit_on_time c), bytes32 (limit_energy c) ! 0,
     bytes32 (limit_energy c) ! 1, bytes32 (limit_energy c) ! 2, bytes32 (limit_energy c) ! 3,
     hi8 (limit_mo_time1 c), lo8 (limit_mo_time1 c), hi8 (limit_mo_time2 c), lo8 (limit_mo_time2 c),
     hi8 (limit_mo_out1 c), lo8 (limit_mo_out1 c), hi8 (limit_mo_out2 c), lo8 (limit_mo_out2 c),
     b2u (energy_ctrl c), b2u (multi_ctrl c), ucast (limit_out_time c), comm_address c,
     comm_speed_idx c, comm_parity_idx c, hi8 (cal_val c), lo8 (cal_val c),
     hi8 (freq_cal_val c), lo8 (freq_cal_val c), comm_mode c, i0, i1, i2, i3, n0, n1, n2, n3, g0, g1, g2, g3]"
  using assms
  by (simp add: app_config_save_all_def fram_writes bytes32_def)

lemma ld_energy_healthy:
  assumes "healthy s" "ic_mem s 22 = b0" "ic_mem s 23 = b1" "ic_mem s 24 = b2" "ic_mem s 25 = b3"
    and "unat (be32 [b0, b1, b2, b3]) \<le> 100000"
  shows "ld_energy (c, n, s) = (c\<lparr>limit_energy := be32 [b0, b1, b2, b3]\<rparr>, n, s)"
  using assms by (simp add: ld_energy_def fram_reads Let_def word_less_nat_alt)

lemma out_time_byte: "unat v < 256 \<Longrightarrow> (ucast (ucast v :: u8) :: u16) = v" for v :: u16
  by (simp add: word_unat_eq_iff unat_casts)

lemma power_byte:
  assumes "50 \<le> unat v" "unat v \<le> 100"
  shows "ucast (cfg_clamp_power (ucast v)) = (v :: u8)"
proof -
  have "unat (ucast (cfg_clamp_power (ucast v)) :: u8) = unat v"
    using assms by (simp add: clamp_power_byte)
  then show ?thesis by (simp add: word_unat_eq_iff)
qed

lemma load_saved:
  assumes "healthy s" "cfg_storable c" "ic_mem s 0 = FRAM_INIT_FLAG_MAGIC"
  shows "app_config_load (app_config_save_all c s) = (0, c, app_config_save_all c s)"
proof -
  from assms(2) obtain i0 i1 i2 i3 n0 n1 n2 n3 g0 g1 g2 g3 where
    e: "ether_ip c = [i0, i1, i2, i3]" "ether_nm c = [n0, n1, n2, n3]" "ether_gw c = [g0, g1, g2, g3]"
    unfolding cfg_storable_def cfg_ok_def using list4_cases by metis
  define s' where "s' = app_config_save_all c s"
  have h: "healthy s'" using assms(1) by (simp add: s'_def)
  have clamps: "ucast (cfg_clamp_power (ucast (output_power c))) = output_power c"
    "\<not> 5 < comm_speed_idx c" "\<not> 2 < comm_parity_idx c"
    "(ucast (ucast (limit_out_time c) :: u8) :: u16) = limit_out_time c"
    "unat (limit_energy c) \<le> 100000"
    using assms(2)
    by (simp_all add: cfg_storable_def cfg_ok_def power_byte out_time_byte word_less_nat_alt)
  note mem = save_mem [OF assms(1) e, folded s'_def,
      unfolded list.map list.inject assms(3) simp_thms]
  define cB where "cB = app_config_factory_defaults\<lparr>
      work_cnt := work_cnt c, limit_delay_time1 := limit_delay_time1 c,
      limit_delay_time2 := limit_delay_time2 c, limit_delay_time3 := limit_delay_time3 c,
      limit_trigger_time2 := limit_trigger_time2 c, limit_trigger_time3 := limit_trigger_time3 c,
      f_safty := f_safty c, run_mode := run_mode c, model_freq := model_freq c,
      model_type := model_type c, output_power := output_power c,
      limit_on_time := limit_on_time c, energy_ctrl := energy_ctrl c\<rparr>"
  have before: "fold (\<lambda>f l. f l) ld_before_energy (app_config_factory_defaults, 0, s') = (cB, 0, s')"
    by (simp add: ld_before_energy_def ld_healthy h mem be32_nths clamps cB_def)
  have mid: "ld_energy (cB, 0, s') = (cB\<lparr>limit_energy := limit_energy c\<rparr>, 0, s')"
    using ld_energy_healthy [OF h, of _ _ _ _ cB 0] mem by (simp add: be32_nths clamps)
  have "fold (\<lambda>f l. f l) ld_after_energy (cB\<lparr>limit_energy := limit_energy c\<rparr>, 0, s') = (c, 0, s')"
    by (simp add: ld_after_energy_def ld_ether_def ld_healthy h mem clamps)
      (simp add: cB_def app_config_factory_defaults_def e)
  then show ?thesis
    unfolding s'_def [symmetric]
    by (simp add: app_config_load_def fram_reads h mem before mid)
qed

section \<open>Properties\<close>

text \<open>
  C28: saving and loading is the identity. On a healthy bus and an initialised FRAM, every
  configuration within its ranges (the time-over limit is stored in one byte) that is saved
  is loaded back field by field, with no failed read, and loading does not change the FRAM.
\<close>

theorem config_roundtrip:
  assumes "ic_bus s = []" "ic_mem s 0 = 0xAA" "cfg_ok c" "unat (limit_out_time c) < 256"
  shows "app_config_load (app_config_save_all c s) = (0, c, app_config_save_all c s)"
  using load_saved [of s c] assms by (simp add: healthy_def cfg_storable_def)

theorem config_roundtrip_witness:
  "app_config_load (app_config_save_all
      (app_config_factory_defaults\<lparr>limit_energy := 77777, cal_val := 0xFFF0, ether_ip := [192, 168, 0, 9]\<rparr>)
      \<lparr>ic_mem = (\<lambda>_. 0xAA), ic_wiper = 0, ic_bus = [], ic_err_count = 0\<rparr>) =
   (0, app_config_factory_defaults\<lparr>limit_energy := 77777, cal_val := 0xFFF0, ether_ip := [192, 168, 0, 9]\<rparr>,
    app_config_save_all
      (app_config_factory_defaults\<lparr>limit_energy := 77777, cal_val := 0xFFF0, ether_ip := [192, 168, 0, 9]\<rparr>)
      \<lparr>ic_mem = (\<lambda>_. 0xAA), ic_wiper = 0, ic_bus = [], ic_err_count = 0\<rparr>)"
  by (rule config_roundtrip) (simp_all add: cfg_ok_def app_config_factory_defaults_def)

lemma load_cfg_ok: "cfg_ok (fst (snd (app_config_load s)))"
proof (cases "next_fails s")
  case True
  then show ?thesis by (simp add: app_config_load_def read_outcomes)
next
  case False
  have "cfg_ok (fst (fold (\<lambda>f l. f l) (ld_before_energy @ ld_energy # ld_after_energy)
      (app_config_factory_defaults, 0, s\<lparr>ic_bus := tl (ic_bus s)\<rparr>)))"
    by (rule keeps_ok_fold [OF keeps_ok_steps]) simp
  with False show ?thesis
    by (simp add: app_config_load_def read_outcomes app_config_factory_write_def Let_def
        case_prod_unfold del: fold_append fold_simps)
qed

text \<open>
  C29: a loaded configuration is always in range. Whatever the FRAM holds and however the bus
  fails, the loaded power is within 50 to 100, the energy limit at most 100000, the speed and
  parity indices within their tables and the addresses four bytes long; and if the flag byte
  itself cannot be read, the result is 0xFF, the defaults, and an untouched FRAM.
\<close>

theorem config_load_safe:
  "let (r, c, s') = app_config_load s
   in cfg_ok c \<and>
      (next_fails s \<longrightarrow> r = 0xFF \<and> c = app_config_factory_defaults \<and> ic_mem s' = ic_mem s)"
proof (cases "next_fails s")
  case True
  then show ?thesis by (simp add: app_config_load_def read_outcomes)
next
  case False
  then show ?thesis using load_cfg_ok [of s] by (simp add: case_prod_unfold Let_def)
qed

theorem config_load_safe_witness:
  "let (r, c, s') = app_config_load \<lparr>ic_mem = (\<lambda>_. 0xAA), ic_wiper = 0, ic_bus = [Some 0], ic_err_count = 0\<rparr>
   in cfg_ok c \<and>
      (next_fails \<lparr>ic_mem = (\<lambda>_. 0xAA), ic_wiper = 0, ic_bus = [Some 0], ic_err_count = 0\<rparr> \<longrightarrow>
         r = 0xFF \<and> c = app_config_factory_defaults \<and>
         ic_mem s' = ic_mem \<lparr>ic_mem = (\<lambda>_. 0xAA), ic_wiper = 0, ic_bus = [Some 0], ic_err_count = 0\<rparr>)"
  by (rule config_load_safe)

text \<open>
  the load result counts the failed reads. When the flag byte reads as the magic and the
  stored energy limit needs no clamp, the result is the number of failures among the 38
  transactions that follow the flag, so 0 means that every field came from the FRAM.
\<close>

theorem config_load_counts_failures:
  assumes "ic_bus s = [] \<or> hd (ic_bus s) = None" "ic_mem s 0 = 0xAA"
    and "unat (be32 [ic_mem s 22, ic_mem s 23, ic_mem s 24, ic_mem s 25]) \<le> 100000"
  shows "fst (app_config_load s) =
    of_nat (length (filter (\<lambda>r. r \<noteq> None) (take 38 (tl (ic_bus s)))))"
proof -
  let ?s = "s\<lparr>ic_bus := tl (ic_bus s)\<rparr>"
  have flag: "\<not> next_fails s" using assms(1) by (auto simp: next_fails_def)
  have "fst (snd (fold (\<lambda>f l. f l) (ld_before_energy @ ld_energy # ld_after_energy)
      (app_config_factory_defaults, 0, ?s))) = of_nat (failures 38 (tl (ic_bus s)))"
    using load_count [of ?s app_config_factory_defaults] assms(3) by simp
  then show ?thesis
    using flag assms(2)
    by (simp add: app_config_load_def read_outcomes Let_def case_prod_unfold failures_def
        del: fold_append fold_simps)
qed

theorem config_load_counts_failures_witness:
  "fst (app_config_load \<lparr>ic_mem = (\<lambda>a. if a = 0 then 0xAA else 0), ic_wiper = 0,
      ic_bus = [None, None, Some 0, None, Some 1], ic_err_count = 0\<rparr>) =
    of_nat (length (filter (\<lambda>r. r \<noteq> None) (take 38 (tl [None, None, Some 0, None, Some 1]))))"
  using config_load_counts_failures [of "\<lparr>ic_mem = (\<lambda>a. if a = 0 then 0xAA else 0), ic_wiper = 0,
      ic_bus = [None, None, Some 0, None, Some 1], ic_err_count = 0\<rparr>"]
  by (simp add: be32_def)

end
