(* ===== verification/Cfg_Stage.thy ===== *)
theory Cfg_Stage
  imports Config
begin

text \<open>
  Staged edits of the communication settings, \<open>fw/src/app_cfg_stage.c\<close>: nine fields are
  collected, then committed at once or not at all.
\<close>

section \<open>Data\<close>

abbreviation (input) CFG_STAT_IDLE :: u8 where "CFG_STAT_IDLE \<equiv> 0"
abbreviation (input) CFG_STAT_STAGED :: u8 where "CFG_STAT_STAGED \<equiv> 1"
abbreviation (input) CFG_STAT_COMMIT_OK :: u8 where "CFG_STAT_COMMIT_OK \<equiv> 2"
abbreviation (input) CFG_STAT_REJ_RANGE :: u8 where "CFG_STAT_REJ_RANGE \<equiv> 3"
abbreviation (input) CFG_STAT_REJ_SAME_LINK :: u8 where "CFG_STAT_REJ_SAME_LINK \<equiv> 4"
abbreviation (input) CFG_STAT_REJ_RUNNING :: u8 where "CFG_STAT_REJ_RUNNING \<equiv> 5"
abbreviation (input) CFG_STAT_REJ_TIMEOUT :: u8 where "CFG_STAT_REJ_TIMEOUT \<equiv> 6"
abbreviation (input) CFG_STAGE_TIMEOUT_MS :: u32 where "CFG_STAGE_TIMEOUT_MS \<equiv> 30000"
abbreviation (input) CFG_STG_SERIAL_MASK :: u16 where "CFG_STG_SERIAL_MASK \<equiv> 0x0007"
abbreviation (input) CFG_STG_ETHER_MASK :: u16 where "CFG_STG_ETHER_MASK \<equiv> 0x01F8"
abbreviation (input) CFG_STG_COUNT :: nat where "CFG_STG_COUNT \<equiv> 9"

datatype mb_link = MB_LINK_RTU | MB_LINK_TCP

record cfg_stage =
  cs_val :: "u16 list"
  cs_dirty :: u16
  cs_last_write_ms :: u32
  cs_stat :: u8

definition cfg_stage_init :: cfg_stage where
  "cfg_stage_init = \<lparr>cs_val = replicate 9 0, cs_dirty = 0, cs_last_write_ms = 0,
     cs_stat = CFG_STAT_IDLE\<rparr>"

section \<open>Operations\<close>

definition cfg_stage_dirty :: "cfg_stage \<Rightarrow> nat \<Rightarrow> u8" where
  "cfg_stage_dirty s idx = b2u (cs_dirty s AND push_bit idx 1 \<noteq> 0)"

definition cfg_stage_write :: "nat \<Rightarrow> u16 \<Rightarrow> u32 \<Rightarrow> cfg_stage \<Rightarrow> cfg_stage" where
  "cfg_stage_write idx v now s =
     s\<lparr>cs_val := (cs_val s)[idx := v], cs_dirty := cs_dirty s OR push_bit idx 1,
       cs_last_write_ms := now, cs_stat := CFG_STAT_STAGED\<rparr>"

definition cfg_stage_discard :: "cfg_stage \<Rightarrow> cfg_stage" where
  "cfg_stage_discard s = s\<lparr>cs_dirty := 0, cs_stat := CFG_STAT_IDLE\<rparr>"

definition cfg_stage_tick :: "u32 \<Rightarrow> cfg_stage \<Rightarrow> cfg_stage" where
  "cfg_stage_tick now s =
     (if cs_dirty s = 0 then s
      else if CFG_STAGE_TIMEOUT_MS \<le> elapsed now (cs_last_write_ms s)
      then s\<lparr>cs_dirty := 0, cs_stat := CFG_STAT_REJ_TIMEOUT\<rparr>
      else s)"

definition cfg_stage_commit :: "mb_link \<Rightarrow> u8 \<Rightarrow> cfg_stage \<Rightarrow> cfg_stage \<times> u8" where
  "cfg_stage_commit link running s =
     (let d = cs_dirty s
      in if d = 0 then (s, 0)
         else if d AND push_bit 0 1 \<noteq> 0 \<and> (cs_val s ! 0 < 1 \<or> 247 < cs_val s ! 0)
         then (s\<lparr>cs_stat := CFG_STAT_REJ_RANGE\<rparr>, 0)
         else if d AND push_bit 1 1 \<noteq> 0 \<and> 5 < cs_val s ! 1
         then (s\<lparr>cs_stat := CFG_STAT_REJ_RANGE\<rparr>, 0)
         else if d AND push_bit 2 1 \<noteq> 0 \<and> 2 < cs_val s ! 2
         then (s\<lparr>cs_stat := CFG_STAT_REJ_RANGE\<rparr>, 0)
         else if link = MB_LINK_RTU \<and> d AND CFG_STG_SERIAL_MASK \<noteq> 0 \<or>
                 link = MB_LINK_TCP \<and> d AND CFG_STG_ETHER_MASK \<noteq> 0
         then (s\<lparr>cs_stat := CFG_STAT_REJ_SAME_LINK\<rparr>, 0)
         else if running \<noteq> 0 then (s\<lparr>cs_stat := CFG_STAT_REJ_RUNNING\<rparr>, 0)
         else (s\<lparr>cs_dirty := 0, cs_stat := CFG_STAT_COMMIT_OK\<rparr>, 1))"

text \<open>The int16 of the wire: two's complement first, then the clamp.\<close>

definition cfg_cal_from_wire :: "u16 \<Rightarrow> u16" where
  "cfg_cal_from_wire wire =
     (let v = sint wire
      in if 1000 < v then word_of_int 1000 else if v < -1000 then word_of_int (-1000) else wire)"

section \<open>The staged edits as a map\<close>

definition staged :: "cfg_stage \<Rightarrow> nat \<Rightarrow> u16 option" where
  "staged s i = (if i < 9 \<and> bit (cs_dirty s) i then Some (cs_val s ! i) else None)"

definition stage_inv :: "cfg_stage \<Rightarrow> bool" where
  "stage_inv s \<longleftrightarrow> length (cs_val s) = 9 \<and> (\<forall>i. bit (cs_dirty s) i \<longrightarrow> i < 9)"

lemma and_single: "x AND push_bit i 1 \<noteq> 0 \<longleftrightarrow> bit x i" for x :: u16
proof -
  have "x AND push_bit i 1 = 0 \<longleftrightarrow> \<not> bit x i"
  proof
    assume "x AND push_bit i 1 = 0"
    then have "\<not> bit (x AND push_bit i 1) i" by simp
    then show "\<not> bit x i" by (auto simp: bit_and_iff bit_exp_iff dest: bit_imp_le_length)
  next
    assume "\<not> bit x i"
    then show "x AND push_bit i 1 = 0"
      by (intro bit_word_eqI) (auto simp: bit_and_iff bit_exp_iff)
  qed
  then show ?thesis by simp
qed

lemma stage_inv_init: "stage_inv cfg_stage_init"
  by (simp add: stage_inv_def cfg_stage_init_def)

lemma stage_inv_ops:
  assumes "stage_inv s"
  shows "i < 9 \<Longrightarrow> stage_inv (cfg_stage_write i v now s)"
    "stage_inv (cfg_stage_discard s)" "stage_inv (cfg_stage_tick now s)"
    "stage_inv (fst (cfg_stage_commit link running s))"
  using assms
  by (auto simp: stage_inv_def cfg_stage_write_def cfg_stage_discard_def cfg_stage_tick_def
      cfg_stage_commit_def bit_or_iff bit_exp_iff Let_def)

lemma staged_write:
  assumes "stage_inv s" "i < 9"
  shows "staged (cfg_stage_write i v now s) = (staged s)(i \<mapsto> v)"
  using assms
  by (auto simp: fun_eq_iff staged_def stage_inv_def cfg_stage_write_def bit_or_iff
      bit_exp_iff)

lemma staged_empty: "cs_dirty s = 0 \<Longrightarrow> staged s = Map.empty"
  by (simp add: fun_eq_iff staged_def)

lemma dirty_empty_iff: "stage_inv s \<Longrightarrow> cs_dirty s = 0 \<longleftrightarrow> staged s = Map.empty"
proof
  assume "stage_inv s" "staged s = Map.empty"
  then have "\<not> bit (cs_dirty s) i" for i
    by (auto simp: stage_inv_def staged_def fun_eq_iff split: if_splits)
  then show "cs_dirty s = 0" by (intro bit_word_eqI) simp
qed (simp add: staged_empty)

text \<open>The wire of the specification: what a commit demands of a set of edits.\<close>

definition edits_in_range :: "(nat \<Rightarrow> u16 option) \<Rightarrow> bool" where
  "edits_in_range m \<longleftrightarrow>
     (\<forall>v. m 0 = Some v \<longrightarrow> 1 \<le> unat v \<and> unat v \<le> 247) \<and>
     (\<forall>v. m 1 = Some v \<longrightarrow> unat v \<le> 5) \<and> (\<forall>v. m 2 = Some v \<longrightarrow> unat v \<le> 2)"

definition edits_touch :: "mb_link \<Rightarrow> (nat \<Rightarrow> u16 option) \<Rightarrow> bool" where
  "edits_touch link m \<longleftrightarrow>
     (case link of MB_LINK_RTU \<Rightarrow> dom m \<inter> {0 ..< 3} \<noteq> {} | MB_LINK_TCP \<Rightarrow> dom m \<inter> {3 ..< 9} \<noteq> {})"

lemma mask_bits:
  "bit (CFG_STG_SERIAL_MASK) i \<longleftrightarrow> i < 3"
  "bit (CFG_STG_ETHER_MASK) i \<longleftrightarrow> 3 \<le> i \<and> i < 9"
proof -
  have lo: "CFG_STG_SERIAL_MASK = mask 3" and hi: "CFG_STG_ETHER_MASK = push_bit 3 (mask 6)"
    by (simp_all add: mask_eq_exp_minus_1 push_bit_eq_mult)
  show "bit (CFG_STG_SERIAL_MASK) i \<longleftrightarrow> i < 3"
    by (simp only: lo bit_mask_iff) auto
  show "bit (CFG_STG_ETHER_MASK) i \<longleftrightarrow> 3 \<le> i \<and> i < 9"
    by (simp only: hi bit_push_bit_iff bit_mask_iff) auto
qed

lemma and_mask_nonzero: "x AND m \<noteq> 0 \<longleftrightarrow> (\<exists>i. bit x i \<and> bit m i)" for x m :: u16
proof -
  have "x AND m \<noteq> 0 \<longleftrightarrow> (\<exists>i. bit (x AND m) i)"
    by (metis bit_word_eqI bit_0_eq bot_apply bot_bool_def)
  then show ?thesis by (simp add: bit_and_iff)
qed

lemma dom_staged: "dom (staged s) = {i. i < 9 \<and> bit (cs_dirty s) i}"
  by (auto simp: staged_def dom_def)

lemma touch_iff:
  "edits_touch link (staged s) \<longleftrightarrow>
     link = MB_LINK_RTU \<and> cs_dirty s AND CFG_STG_SERIAL_MASK \<noteq> 0 \<or>
     link = MB_LINK_TCP \<and> cs_dirty s AND CFG_STG_ETHER_MASK \<noteq> 0"
  unfolding and_mask_nonzero mask_bits edits_touch_def dom_staged
  by (cases link) (simp_all add: disjoint_iff, (force | blast)+)

lemma range_iff:
  "edits_in_range (staged s) \<longleftrightarrow>
     \<not> (cs_dirty s AND push_bit 0 1 \<noteq> 0 \<and> (cs_val s ! 0 < 1 \<or> 247 < cs_val s ! 0)) \<and>
     \<not> (cs_dirty s AND push_bit 1 1 \<noteq> 0 \<and> 5 < cs_val s ! 1) \<and>
     \<not> (cs_dirty s AND push_bit 2 1 \<noteq> 0 \<and> 2 < cs_val s ! 2)"
  unfolding and_single edits_in_range_def staged_def word_less_nat_alt
  by (auto simp: not_less simp del: One_nat_def)

lemma commit_spec:
  assumes "stage_inv s"
  shows "cfg_stage_commit link running s =
    (if staged s = Map.empty then (s, 0)
     else if \<not> edits_in_range (staged s) then (s\<lparr>cs_stat := CFG_STAT_REJ_RANGE\<rparr>, 0)
     else if edits_touch link (staged s) then (s\<lparr>cs_stat := CFG_STAT_REJ_SAME_LINK\<rparr>, 0)
     else if running \<noteq> 0 then (s\<lparr>cs_stat := CFG_STAT_REJ_RUNNING\<rparr>, 0)
     else (s\<lparr>cs_dirty := 0, cs_stat := CFG_STAT_COMMIT_OK\<rparr>, 1))"
  unfolding cfg_stage_commit_def Let_def dirty_empty_iff [OF assms] range_iff touch_iff
  by (simp only: if_splits) auto

section \<open>Properties\<close>

text \<open>
  C30: a commit is all or nothing and never cuts its own link. From a reachable stage the
  result follows the order empty, range, same link, running: it is accepted exactly when
  there are edits, all in range, none of the group that the link of the commit depends on,
  and the machine stands still; then the stage is emptied, otherwise every staged edit is
  kept and the status tells the first reason (an empty commit leaves even the status).
\<close>

theorem commit_all_or_nothing:
  assumes "stage_inv s"
  shows "let (s', ok) = cfg_stage_commit link running s;
             m = staged s
    in (ok = 1 \<longleftrightarrow> m \<noteq> Map.empty \<and> edits_in_range m \<and> \<not> edits_touch link m \<and> running = 0) \<and>
       (ok = 1 \<longrightarrow> staged s' = Map.empty \<and> cs_stat s' = 2) \<and>
       (ok \<noteq> 1 \<longrightarrow> ok = 0 \<and> staged s' = m \<and> stage_inv s' \<and>
          cs_stat s' = (if m = Map.empty then cs_stat s else if \<not> edits_in_range m then 3
                        else if edits_touch link m then 4 else 5))"
proof -
  have keep: "staged (s\<lparr>cs_stat := x\<rparr>) = staged s" for x by (simp add: fun_eq_iff staged_def)
  have inv: "stage_inv (s\<lparr>cs_stat := x\<rparr>)" for x using assms by (simp add: stage_inv_def)
  have empty: "staged (s\<lparr>cs_dirty := 0, cs_stat := x\<rparr>) = Map.empty" for x by (rule staged_empty) simp
  show ?thesis
    unfolding commit_spec [OF assms] by (simp add: keep inv empty assms)
qed

definition stage_example :: cfg_stage where
  "stage_example = cfg_stage_write 3 0xC0A8 7 (cfg_stage_write 1 5 6 cfg_stage_init)"

lemma stage_example_inv: "stage_inv stage_example"
  by (simp add: stage_example_def stage_inv_ops(1) stage_inv_init)

theorem commit_all_or_nothing_witness:
  "let (s', ok) = cfg_stage_commit MB_LINK_TCP 0 stage_example;
       m = staged stage_example
    in (ok = 1 \<longleftrightarrow> m \<noteq> Map.empty \<and> edits_in_range m \<and> \<not> edits_touch MB_LINK_TCP m \<and> (0 :: u8) = 0) \<and>
       (ok = 1 \<longrightarrow> staged s' = Map.empty \<and> cs_stat s' = 2) \<and>
       (ok \<noteq> 1 \<longrightarrow> ok = 0 \<and> staged s' = m \<and> stage_inv s' \<and>
          cs_stat s' = (if m = Map.empty then cs_stat stage_example else if \<not> edits_in_range m then 3
                        else if edits_touch MB_LINK_TCP m then 4 else 5))"
  by (rule commit_all_or_nothing [OF stage_example_inv])

text \<open>
  C31: the stage is a map that only its own writes fill. A write maps its field to its value
  and leaves the others; a discard empties the stage; the tick empties it exactly when 30 s
  have passed since the last write, with the time-out status, and does nothing to an empty
  one, so an earlier status is never turned into a time-out.
\<close>

theorem stage_refines_map:
  assumes "stage_inv s" "i < 9"
  shows "staged (cfg_stage_write i v now s) = (staged s)(i \<mapsto> v) \<and>
    staged (cfg_stage_discard s) = Map.empty \<and>
    (let t = cfg_stage_tick now s;
         expired = (staged s \<noteq> Map.empty \<and> 30000 \<le> unat (elapsed now (cs_last_write_ms s)))
     in staged t = (if expired then Map.empty else staged s) \<and>
        cs_stat t = (if expired then 6 else cs_stat s))"
proof -
  have "staged (cfg_stage_discard s) = Map.empty"
    by (rule staged_empty) (simp add: cfg_stage_discard_def)
  moreover have "staged (s\<lparr>cs_dirty := 0, cs_stat := x\<rparr>) = Map.empty" for x
    by (rule staged_empty) simp
  ultimately show ?thesis
    using staged_write [OF assms] dirty_empty_iff [OF assms(1)]
    by (simp add: cfg_stage_tick_def word_le_nat_alt Let_def)
qed

theorem stage_refines_map_witness:
  "staged (cfg_stage_write 2 1 40000 stage_example) = (staged stage_example)(2 \<mapsto> 1) \<and>
    staged (cfg_stage_discard stage_example) = Map.empty \<and>
    (let t = cfg_stage_tick 40000 stage_example;
         expired = (staged stage_example \<noteq> Map.empty \<and>
           30000 \<le> unat (elapsed 40000 (cs_last_write_ms stage_example)))
     in staged t = (if expired then Map.empty else staged stage_example) \<and>
        cs_stat t = (if expired then 6 else cs_stat stage_example))"
  by (rule stage_refines_map [OF stage_example_inv]) simp

text \<open>
  a calibration from the wire is the signed value clamped to plus or minus 1000: a
  negative calibration stays negative, and no value of the wire escapes the range.
\<close>

theorem cal_from_wire_clamps:
  "sint (cfg_cal_from_wire w) = max (-1000) (min 1000 (sint w))"
proof -
  have "sint (word_of_int 1000 :: u16) = 1000" "sint (word_of_int (-1000) :: u16) = -1000"
    by simp_all
  then show ?thesis by (simp add: cfg_cal_from_wire_def Let_def)
qed

end
