(* ===== verification/Modbus_Core.thy ===== *)
theory Modbus_Core
  imports Prelude
begin

text \<open>
  The Modbus slave core shared by the serial line and TCP, \<open>fw/src/app_modbus_core.c\<close>:
  the CRC, the decoding of function codes 1 to 6 with their bounds, the register and coil
  tables. A frame and a response are byte lists; an empty response is silence.
\<close>

section \<open>Data\<close>

abbreviation (input) MB_REG_COUNT :: nat where "MB_REG_COUNT \<equiv> 51"
abbreviation (input) MB_COIL_COUNT :: nat where "MB_COIL_COUNT \<equiv> 50"
abbreviation (input) MB_REG_NONE :: u16 where "MB_REG_NONE \<equiv> 0xFFFF"
abbreviation (input) MB_REG_WORK_CNTL :: u16 where "MB_REG_WORK_CNTL \<equiv> 1"

datatype mb_mode = MB_MODE_RTU | MB_MODE_TCP

record mb_core =
  holding :: "u16 list"
  coils :: "u8 list"
  device_addr :: u8
  last_write_addr :: u16

definition mb_core_init :: "u8 \<Rightarrow> mb_core" where
  "mb_core_init addr = \<lparr>holding = replicate 51 0, coils = replicate 50 0,
     device_addr = addr, last_write_addr = MB_REG_NONE\<rparr>"

section \<open>The CRC\<close>

definition crc_bit :: "u16 \<Rightarrow> u16" where
  "crc_bit crc = (if crc AND 1 \<noteq> 0 then drop_bit 1 crc XOR 0xA001 else drop_bit 1 crc)"

definition crc_byte :: "u8 \<Rightarrow> u16 \<Rightarrow> u16" where
  "crc_byte b crc = (crc_bit ^^ 8) (crc XOR ucast b)"

definition mb_crc16 :: "u8 list \<Rightarrow> u16" where
  "mb_crc16 buf =
     (let crc = fold crc_byte buf 0xFFFF
      in push_bit 8 (crc AND 0x00FF) OR drop_bit 8 (crc AND 0xFF00))"

definition crc_bytes :: "u8 list \<Rightarrow> u8 list" where
  "crc_bytes buf = (let crc = mb_crc16 buf in [ucast (drop_bit 8 crc), ucast crc])"

section \<open>The function codes\<close>

definition mb_read_regs :: "mb_core \<Rightarrow> u8 list \<Rightarrow> u8 \<Rightarrow> u8 list" where
  "mb_read_regs mb frame fc =
     (let addr = be16 (frame ! 2) (frame ! 3); num = be16 (frame ! 4) (frame ! 5)
      in if num = 0 \<or> MB_REG_COUNT < unat num \<or> MB_REG_COUNT < unat addr + unat num then []
         else (let resp = [device_addr mb, fc, ucast (num * 2)] @
                 concat (map (\<lambda>i. [hi8 (holding mb ! i), lo8 (holding mb ! i)])
                   [unat addr ..< unat addr + unat num])
               in resp @ crc_bytes resp))"

definition mb_write_reg :: "mb_core \<Rightarrow> u8 list \<Rightarrow> mb_core \<times> u8 list" where
  "mb_write_reg mb frame =
     (let addr = be16 (frame ! 2) (frame ! 3); val = be16 (frame ! 4) (frame ! 5)
      in if MB_REG_COUNT \<le> unat addr then (mb, [])
         else (let mb = mb\<lparr>holding := (holding mb)[unat addr := val], last_write_addr := addr\<rparr>;
                   resp = [device_addr mb, 0x06, frame ! 2, frame ! 3, frame ! 4, frame ! 5]
               in (mb, resp @ crc_bytes resp)))"

text \<open>The byte of nbits coils from coil l, bits xored into a zeroed buffer.\<close>

definition coil_byte :: "mb_core \<Rightarrow> nat \<Rightarrow> nat \<Rightarrow> u8" where
  "coil_byte mb l nbits =
     fold (\<lambda>j b. b XOR push_bit j (if coils mb ! (l + j) \<noteq> 0 then 1 else 0)) [0 ..< nbits] 0"

definition mb_read_coils :: "mb_core \<Rightarrow> u8 list \<Rightarrow> u8 \<Rightarrow> u8 list" where
  "mb_read_coils mb frame fc =
     (let addr = be16 (frame ! 2) (frame ! 3); num = be16 (frame ! 4) (frame ! 5)
      in if num = 0 \<or> MB_COIL_COUNT < unat addr + unat num then []
         else (let rem = unat num mod 8;
                   bytes = unat num div 8 + (if rem \<noteq> 0 then 1 else 0);
                   resp = [device_addr mb, fc, of_nat bytes] @
                     map (\<lambda>k. coil_byte mb (unat addr + 8 * k)
                       (if k = bytes - 1 \<and> rem \<noteq> 0 then rem else 8)) [0 ..< bytes]
               in resp @ crc_bytes resp))"

definition mb_write_coil :: "mb_core \<Rightarrow> u8 list \<Rightarrow> mb_core \<times> u8 list" where
  "mb_write_coil mb frame =
     (let addr = be16 (frame ! 2) (frame ! 3); val = be16 (frame ! 4) (frame ! 5)
      in if MB_COIL_COUNT \<le> unat addr then (mb, [])
         else (let mb = mb\<lparr>coils := (coils mb)[unat addr := (if val \<noteq> 0 then 0xFF else 0)]\<rparr>;
                   resp = [device_addr mb, 0x05, frame ! 2, frame ! 3, frame ! 4, frame ! 5]
               in (mb, resp @ crc_bytes resp)))"

definition mb_dispatch :: "mb_core \<Rightarrow> u8 list \<Rightarrow> mb_core \<times> u8 list" where
  "mb_dispatch mb frame =
     (let fc = frame ! 1
      in if fc = 0x01 \<or> fc = 0x02 then (mb, mb_read_coils mb frame fc)
         else if fc = 0x03 \<or> fc = 0x04 then (mb, mb_read_regs mb frame fc)
         else if fc = 0x05 then mb_write_coil mb frame
         else if fc = 0x06 then mb_write_reg mb frame
         else (mb, []))"

text \<open>The last component is the function code processed, 0 for none.\<close>

definition mb_core_decode :: "mb_core \<Rightarrow> u8 list \<Rightarrow> mb_mode \<Rightarrow> mb_core \<times> u8 list \<times> u8" where
  "mb_core_decode mb frame mode =
     (let len = length frame;
          accepted =
            (case mode of
               MB_MODE_RTU \<Rightarrow>
                 8 \<le> len \<and> frame ! 0 = device_addr mb \<and>
                 [frame ! (len - 2), frame ! (len - 1)] = crc_bytes (take (len - 2) frame)
             | MB_MODE_TCP \<Rightarrow> 6 \<le> len)
      in if \<not> accepted then (mb, [], 0)
         else (let (mb, resp) = mb_dispatch mb frame
               in (mb, resp, if resp \<noteq> [] then frame ! 1 else 0)))"

section \<open>Status bits and the counter reset\<close>

record mb_status_in =
  si_running :: u8
  si_estop :: u8
  si_ovld :: u8
  si_ovtime :: u8
  si_sensor :: u8
  si_horn :: u8
  si_seek :: u8
  si_reset :: u8

definition mb_status_bits :: "mb_status_in \<Rightarrow> u16" where
  "mb_status_bits i =
     (let s = 0 :: u16;
          s = (if si_running i \<noteq> 0 then s OR 0x01 else s);
          s = (if si_estop i \<noteq> 0 then s OR 0x02 else s);
          s = (if si_ovld i \<noteq> 0 then s OR 0x04 else s);
          s = (if si_ovtime i \<noteq> 0 then s OR 0x08 else s);
          s = (if si_sensor i \<noteq> 0 then s OR 0x20 else s);
          s = (if si_horn i \<noteq> 0 then s OR 0x40 else s);
          s = (if si_seek i \<noteq> 0 then s OR 0x80 else s);
          s = (if si_reset i \<noteq> 0 then s OR 0x100 else s)
      in s)"

definition mb_work_cnt_reset_req :: "mb_core \<Rightarrow> u32 \<Rightarrow> u8" where
  "mb_work_cnt_reset_req mb work_cnt =
     b2u (last_write_addr mb = MB_REG_WORK_CNTL \<and> holding mb ! 1 = 0 \<and> work_cnt \<noteq> 0)"

section \<open>The CRC finds every single-byte error\<close>

lemma and_1_bit: "x AND 1 \<noteq> 0 \<longleftrightarrow> bit x 0" for x :: u16
  by (simp add: and_one_eq mod_2_eq_odd bit_0)

lemma crc_bit_alt: "crc_bit c = drop_bit 1 c XOR (if bit c 0 then 0xA001 else 0)"
  by (simp add: crc_bit_def and_1_bit)

lemma crc_bit_lsb: "bit (crc_bit c) 15 = bit c 0"
proof -
  have "\<not> bit c 16" by (auto dest: bit_imp_le_length)
  moreover have "bit (0xA001 :: u16) 15" by simp
  ultimately show ?thesis by (simp only: crc_bit_alt bit_xor_iff bit_drop_bit_eq) auto
qed

lemma xor_cancel: "x XOR b = y XOR b \<Longrightarrow> x = y" for x y b :: "'a::len word"
proof -
  assume "x XOR b = y XOR b"
  then have "(x XOR b) XOR b = (y XOR b) XOR b" by simp
  then show "x = y" by (simp add: xor.assoc)
qed

lemma crc_bit_inj: "crc_bit x = crc_bit y \<Longrightarrow> x = y"
proof (rule bit_word_eqI)
  fix n
  assume eq: "crc_bit x = crc_bit y" and n: "n < LENGTH(16)"
  have low: "bit x 0 = bit y 0" using eq crc_bit_lsb by metis
  have "drop_bit 1 x XOR (if bit x 0 then 0xA001 else 0) =
      drop_bit 1 y XOR (if bit x 0 then 0xA001 else 0)"
    using eq low by (simp only: crc_bit_alt)
  then have "drop_bit 1 x = drop_bit 1 y" by (rule xor_cancel)
  then have "bit (drop_bit 1 x) m = bit (drop_bit 1 y) m" for m by simp
  then have "bit x (Suc m) = bit y (Suc m)" for m by (simp add: bit_drop_bit_eq)
  with low show "bit x n = bit y n" by (cases n) auto
qed

lemma crc_bits_inj: "(crc_bit ^^ k) x = (crc_bit ^^ k) y \<Longrightarrow> x = y"
  by (induction k) (auto dest: crc_bit_inj)

lemma crc_byte_inj: "crc_byte b x = crc_byte b y \<Longrightarrow> x = y"
  unfolding crc_byte_def by (blast dest: crc_bits_inj xor_cancel)

lemma ucast_u8_u16_inj: "(ucast (a :: u8) :: u16) = ucast b \<Longrightarrow> a = b"
  by (metis unat_ucast_widen(1) word_unat_eq_iff)

lemma crc_byte_inj_byte: "crc_byte a c = crc_byte b c \<Longrightarrow> a = b"
proof -
  assume "crc_byte a c = crc_byte b c"
  then have "c XOR ucast a = c XOR ucast b" unfolding crc_byte_def by (rule crc_bits_inj)
  then have "ucast a XOR c = ucast b XOR c" by (simp add: xor.commute)
  then show "a = b" by (blast dest: xor_cancel ucast_u8_u16_inj)
qed

lemma crc_fold_inj: "fold crc_byte bs x = fold crc_byte bs y \<Longrightarrow> x = y"
  by (induction bs arbitrary: x y) (auto dest: crc_byte_inj)

lemma crc_fold_one_byte:
  "fold crc_byte (xs @ a # ys) c = fold crc_byte (xs @ b # ys) c \<Longrightarrow> a = b"
  by (auto dest: crc_fold_inj crc_byte_inj_byte)

lemma bit_FF: "bit (0xFF :: u16) n \<longleftrightarrow> n < 8" "bit (0xFF00 :: u16) n \<longleftrightarrow> 8 \<le> n \<and> n < 16"
proof -
  have lo: "(0xFF :: u16) = mask 8" and hi: "(0xFF00 :: u16) = push_bit 8 (mask 8)"
    by (simp_all add: mask_eq_exp_minus_1 push_bit_eq_mult)
  show "bit (0xFF :: u16) n \<longleftrightarrow> n < 8"
    by (simp only: lo bit_mask_iff) auto
  show "bit (0xFF00 :: u16) n \<longleftrightarrow> 8 \<le> n \<and> n < 16"
    by (simp only: hi bit_push_bit_iff bit_mask_iff) auto
qed

lemma crc_bytes_fold:
  "crc_bytes buf = [lo8 (fold crc_byte buf 0xFFFF), hi8 (fold crc_byte buf 0xFFFF)]"
proof -
  define c where "c = fold crc_byte buf 0xFFFF"
  have "ucast (drop_bit 8 (push_bit 8 (c AND 0x00FF) OR drop_bit 8 (c AND 0xFF00))) = (ucast c :: u8)"
    by (rule bit_word_eqI)
      (simp only: bit_ucast_iff bit_drop_bit_eq comp_apply bit_or_iff bit_push_bit_iff bit_and_iff bit_FF,
       auto dest: bit_imp_le_length)
  moreover have "ucast (push_bit 8 (c AND 0x00FF) OR drop_bit 8 (c AND 0xFF00)) = (ucast (drop_bit 8 c) :: u8)"
    by (rule bit_word_eqI)
      (simp only: bit_ucast_iff bit_drop_bit_eq comp_apply bit_or_iff bit_push_bit_iff bit_and_iff bit_FF,
       auto dest: bit_imp_le_length)
  ultimately show ?thesis
    by (simp only: crc_bytes_def mb_crc16_def Let_def lo8_def hi8_def c_def)
qed

lemma length_crc_bytes [simp]: "length (crc_bytes buf) = 2"
  by (simp add: crc_bytes_def Let_def)

lemma crc_bytes_one_byte: "crc_bytes (xs @ a # ys) = crc_bytes (xs @ b # ys) \<Longrightarrow> a = b"
proof -
  assume "crc_bytes (xs @ a # ys) = crc_bytes (xs @ b # ys)"
  then have "lo8 (fold crc_byte (xs @ a # ys) 0xFFFF) = lo8 (fold crc_byte (xs @ b # ys) 0xFFFF)"
    "hi8 (fold crc_byte (xs @ a # ys) 0xFFFF) = hi8 (fold crc_byte (xs @ b # ys) 0xFFFF)"
    unfolding crc_bytes_fold by simp_all
  then have "fold crc_byte (xs @ a # ys) 0xFFFF = fold crc_byte (xs @ b # ys) 0xFFFF"
    using be16_hi_lo by metis
  then show "a = b" by (rule crc_fold_one_byte)
qed

section \<open>Frames and tables\<close>

text \<open>A request as a master builds it, and the serial frame around it.\<close>

definition mb_request :: "u8 \<Rightarrow> u8 \<Rightarrow> u16 \<Rightarrow> u16 \<Rightarrow> u8 list" where
  "mb_request dev fc a v = [dev, fc, hi8 a, lo8 a, hi8 v, lo8 v]"

definition rtu_frame :: "u8 list \<Rightarrow> u8 list" where
  "rtu_frame pdu = pdu @ crc_bytes pdu"

text \<open>What a master reads out of a register response: pairs of bytes after the header.\<close>

fun be_pairs :: "u8 list \<Rightarrow> u16 list" where
  "be_pairs (h # l # bs) = be16 h l # be_pairs bs"
| "be_pairs bs = []"

definition mb_tables_ok :: "mb_core \<Rightarrow> bool" where
  "mb_tables_ok mb \<longleftrightarrow> length (holding mb) = 51 \<and> length (coils mb) = 50"

lemma be_pairs_regs:
  "be_pairs (concat (map (\<lambda>i. [hi8 (f i), lo8 (f i)]) xs)) = map f xs"
  by (induction xs) simp_all

lemma request_fields [simp]:
  "mb_request dev fc a v ! 0 = dev" "mb_request dev fc a v ! Suc 0 = fc"
  "be16 (mb_request dev fc a v ! 2) (mb_request dev fc a v ! 3) = a"
  "be16 (mb_request dev fc a v ! 4) (mb_request dev fc a v ! 5) = v"
  "length (mb_request dev fc a v) = 6"
  by (simp_all add: mb_request_def)

lemma dispatch_prefix:
  assumes "length pdu = 6"
  shows "mb_dispatch mb (pdu @ tail) = mb_dispatch mb pdu"
proof -
  have at: "(pdu @ tail) ! k = pdu ! k" if "k < 6" for k using that assms by (simp add: nth_append)
  show ?thesis
    unfolding mb_dispatch_def mb_read_regs_def mb_read_coils_def mb_write_reg_def mb_write_coil_def
    by (simp only: at Let_def)
qed

lemma decode_rtu_accepts:
  assumes "length pdu = 6" "pdu ! 0 = device_addr mb"
  shows "mb_core_decode mb (rtu_frame pdu) MB_MODE_RTU = mb_core_decode mb pdu MB_MODE_TCP"
proof -
  obtain x y where xy: "crc_bytes pdu = [x, y]" by (simp add: crc_bytes_def Let_def)
  then have "rtu_frame pdu ! 6 = x" "rtu_frame pdu ! 7 = y" "length (rtu_frame pdu) = 8"
    "take 6 (rtu_frame pdu) = pdu" "rtu_frame pdu ! 0 = pdu ! 0" "rtu_frame pdu ! 1 = pdu ! 1"
    using assms by (simp_all add: rtu_frame_def nth_append)
  moreover have "mb_dispatch mb (rtu_frame pdu) = mb_dispatch mb pdu"
    unfolding rtu_frame_def by (rule dispatch_prefix [OF assms(1)])
  ultimately show ?thesis
    using assms xy by (simp add: mb_core_decode_def Let_def case_prod_unfold del: One_nat_def)
qed

lemma length_pairs: "length (concat (map (\<lambda>i. [f i, g i]) xs)) = 2 * length xs"
  by (induction xs) simp_all

lemma read_regs_length: "length (mb_read_regs mb frame fc) \<le> 107"
  by (auto simp: mb_read_regs_def Let_def length_pairs)

lemma read_coils_length: "length (mb_read_coils mb frame fc) \<le> 12"
proof -
  define n where "n = unat (be16 (frame ! 4) (frame ! 5))"
  have "n \<le> 50 \<Longrightarrow> n div 8 + (if n mod 8 \<noteq> 0 then 1 else 0) \<le> 7"
    by (cases "n mod 8 = 0") auto
  then show ?thesis by (auto simp: mb_read_coils_def Let_def simp flip: n_def)
qed

lemma dispatch_length: "length (snd (mb_dispatch mb frame)) \<le> 107"
  using read_regs_length [of mb frame "frame ! 1"] read_coils_length [of mb frame "frame ! 1"]
  by (simp add: mb_dispatch_def mb_write_reg_def mb_write_coil_def Let_def)

lemma dispatch_silent: "snd (mb_dispatch mb frame) = [] \<Longrightarrow> fst (mb_dispatch mb frame) = mb"
  by (auto simp: mb_dispatch_def mb_write_reg_def mb_write_coil_def Let_def split: if_splits)

lemma dispatch_tables:
  "mb_tables_ok mb \<Longrightarrow> mb_tables_ok (fst (mb_dispatch mb frame)) \<and>
     device_addr (fst (mb_dispatch mb frame)) = device_addr mb"
  by (auto simp: mb_tables_ok_def mb_dispatch_def mb_write_reg_def mb_write_coil_def Let_def)

lemma dispatch_holding:
  "holding (fst (mb_dispatch mb frame)) \<noteq> holding mb \<Longrightarrow>
     frame ! 1 = 6 \<and> unat (be16 (frame ! 2) (frame ! 3)) < 51 \<and>
     holding (fst (mb_dispatch mb frame)) =
       (holding mb)[unat (be16 (frame ! 2) (frame ! 3)) := be16 (frame ! 4) (frame ! 5)]"
  by (auto simp: mb_dispatch_def mb_write_reg_def mb_write_coil_def Let_def not_le split: if_splits)

lemma dispatch_coils:
  "coils (fst (mb_dispatch mb frame)) \<noteq> coils mb \<Longrightarrow> frame ! 1 = 5"
  by (auto simp: mb_dispatch_def mb_write_reg_def mb_write_coil_def Let_def split: if_splits)

lemma decode_cases:
  "mb_core_decode mb frame mode = (mb, [], 0) \<or>
   (fst (mb_core_decode mb frame mode) = fst (mb_dispatch mb frame) \<and>
    fst (snd (mb_core_decode mb frame mode)) = snd (mb_dispatch mb frame) \<and>
    snd (snd (mb_core_decode mb frame mode)) =
      (if snd (mb_dispatch mb frame) \<noteq> [] then frame ! 1 else 0))"
  by (auto simp: mb_core_decode_def Let_def case_prod_unfold)

lemma decode_effect:
  assumes "mb_tables_ok mb"
  shows "let (mb', resp, fc) = mb_core_decode mb frame mode
    in mb_tables_ok mb' \<and> device_addr mb' = device_addr mb \<and> length resp \<le> 107 \<and>
       (resp = [] \<longrightarrow> mb' = mb \<and> fc = 0) \<and>
       (holding mb' \<noteq> holding mb \<longrightarrow> fc = 6 \<and>
          (\<exists>(a :: u16) v. unat a < 51 \<and> holding mb' = (holding mb)[unat a := v])) \<and>
       (coils mb' \<noteq> coils mb \<longrightarrow> fc = 5)"
proof (cases "mb_core_decode mb frame mode = (mb, [], 0)")
  case True
  then show ?thesis using assms by simp
next
  case False
  have d: "fst (mb_core_decode mb frame mode) = fst (mb_dispatch mb frame)"
    "fst (snd (mb_core_decode mb frame mode)) = snd (mb_dispatch mb frame)"
    "snd (snd (mb_core_decode mb frame mode)) = (if snd (mb_dispatch mb frame) \<noteq> [] then frame ! 1 else 0)"
    using decode_cases [of mb frame mode] False by simp_all
  obtain m r where mr: "mb_dispatch mb frame = (m, r)" by (cases "mb_dispatch mb frame")
  have "holding m \<noteq> holding mb \<longrightarrow> r \<noteq> [] \<and> frame ! 1 = 6 \<and>
      (\<exists>(a :: u16) v. unat a < 51 \<and> holding m = (holding mb)[unat a := v])"
    using dispatch_silent [of mb frame] dispatch_holding [of mb frame] unfolding mr fst_conv snd_conv
    by blast
  moreover have "coils m \<noteq> coils mb \<longrightarrow> r \<noteq> [] \<and> frame ! 1 = 5"
    using dispatch_silent [of mb frame] dispatch_coils [of mb frame] unfolding mr fst_conv snd_conv
    by blast
  moreover have "mb_tables_ok m" "device_addr m = device_addr mb" "length r \<le> 107" "r = [] \<longrightarrow> m = mb"
    using dispatch_tables [OF assms, of frame] dispatch_length [of mb frame] dispatch_silent [of mb frame]
    by (simp_all add: mr)
  moreover have "(if r \<noteq> [] then frame ! 1 else 0) = x" if "r \<noteq> [] \<and> frame ! 1 = x \<or> r = [] \<and> x = 0" for x
    using that by (elim disjE conjE) simp_all
  ultimately show ?thesis
    unfolding Let_def case_prod_unfold d mr fst_conv snd_conv by blast
qed

lemma bit_coil_byte:
  "bit (fold (\<lambda>j b. b XOR push_bit j (if c (l + j) \<noteq> (0 :: u8) then 1 else (0 :: u8))) [0 ..< n] 0) k \<longleftrightarrow>
     k < n \<and> k < 8 \<and> c (l + k) \<noteq> 0"
proof (induction n)
  case 0
  then show ?case by simp
next
  case (Suc n)
  have one: "bit (push_bit n (if c (l + n) \<noteq> (0 :: u8) then 1 else (0 :: u8))) k \<longleftrightarrow>
      k = n \<and> k < 8 \<and> c (l + n) \<noteq> 0"
    by (auto simp: bit_push_bit_iff bit_1_iff le_antisym)
  then show ?case
    using Suc by (auto simp: bit_xor_iff less_Suc_eq)
qed

section \<open>Properties\<close>

text \<open>
  C21: the CRC finds every single-byte error. If a serial frame is accepted (it is answered),
  the same frame with one byte other than the two check bytes replaced by a different value
  is met with silence and changes nothing.
\<close>

theorem rtu_rejects_single_byte_errors:
  assumes "frame = xs @ a # ys @ [c, d]" "5 \<le> length (xs @ ys)" "b \<noteq> a"
    and "fst (snd (mb_core_decode mb frame MB_MODE_RTU)) \<noteq> []"
  shows "mb_core_decode mb (xs @ b # ys @ [c, d]) MB_MODE_RTU = (mb, [], 0)"
proof -
  have last2: "[(ps @ [c, d]) ! (length (ps @ [c, d]) - 2), (ps @ [c, d]) ! (length (ps @ [c, d]) - 1)] = [c, d]"
    "take (length (ps @ [c, d]) - 2) (ps @ [c, d]) = ps" for ps :: "u8 list"
    by (simp_all add: nth_append)
  have good: "[c, d] = crc_bytes (xs @ a # ys)"
  proof (rule ccontr)
    assume "[c, d] \<noteq> crc_bytes (xs @ a # ys)"
    then have "mb_core_decode mb ((xs @ a # ys) @ [c, d]) MB_MODE_RTU = (mb, [], 0)"
      unfolding mb_core_decode_def Let_def last2 by simp
    with assms(1,4) show False by simp
  qed
  then have "[c, d] \<noteq> crc_bytes (xs @ b # ys)"
    using crc_bytes_one_byte [of xs a ys b] assms(3) by auto
  then have "mb_core_decode mb ((xs @ b # ys) @ [c, d]) MB_MODE_RTU = (mb, [], 0)"
    unfolding mb_core_decode_def Let_def last2 by simp
  then show ?thesis by simp
qed

theorem rtu_rejects_single_byte_errors_witness:
  "let crc = crc_bytes (mb_request 1 6 6 80)
   in mb_core_decode (mb_core_init 1)
        ([1, 6, 0, 6, 0] @ 81 # [] @ [crc ! 0, crc ! 1]) MB_MODE_RTU = (mb_core_init 1, [], 0)"
proof -
  define crc where "crc = crc_bytes (mb_request 1 6 6 80)"
  have "crc = [crc ! 0, crc ! 1]" by (simp add: crc_def crc_bytes_def Let_def)
  moreover have "rtu_frame (mb_request 1 6 6 80) = mb_request 1 6 6 80 @ crc"
    by (simp add: rtu_frame_def crc_def)
  moreover have "mb_request 1 6 6 80 = [1, 6, 0, 6, 0, 80]"
    by (simp add: mb_request_def hi8_def lo8_def)
  ultimately have frame: "rtu_frame (mb_request 1 6 6 80) = [1, 6, 0, 6, 0] @ 80 # [] @ [crc ! 0, crc ! 1]"
    by (metis append_Cons append_Nil)
  have "fst (snd (mb_core_decode (mb_core_init 1) (rtu_frame (mb_request 1 6 6 80)) MB_MODE_RTU)) \<noteq> []"
    by (subst decode_rtu_accepts)
      (simp_all add: mb_core_init_def mb_core_decode_def mb_dispatch_def mb_write_reg_def)
  from rtu_rejects_single_byte_errors [OF frame _ _ this, of 81]
  show ?thesis by (simp flip: crc_def)
qed

text \<open>
  a register read returns the registers. The answer to a serial read of n registers
  from a, in range, is the device address, the function code, the byte count and the n
  register values, most significant byte first, closed by its own valid check bytes.
\<close>

theorem read_returns_registers:
  assumes "mb_tables_ok mb" "fc = 3 \<or> fc = 4" "0 < n" "unat a + unat n \<le> 51"
  shows "\<exists>resp. mb_core_decode mb (rtu_frame (mb_request (device_addr mb) fc a n)) MB_MODE_RTU =
      (mb, rtu_frame resp, fc) \<and>
    resp ! 0 = device_addr mb \<and> resp ! 1 = fc \<and> unat (resp ! 2) = 2 * unat n \<and>
    be_pairs (drop 3 resp) = take (unat n) (drop (unat a) (holding mb))"
proof -
  define regs where "regs = concat (map (\<lambda>i. [hi8 (holding mb ! i), lo8 (holding mb ! i)])
      [unat a ..< unat a + unat n])"
  define resp where "resp = [device_addr mb, fc, ucast (n * 2)] @ regs"
  have n: "n \<noteq> 0" "\<not> 51 < unat n" "\<not> 51 < unat a + unat n" using assms by auto
  have "mb_read_regs mb (mb_request (device_addr mb) fc a n) fc = rtu_frame resp"
    using n by (simp add: mb_read_regs_def rtu_frame_def resp_def regs_def Let_def)
  then have "mb_dispatch mb (mb_request (device_addr mb) fc a n) = (mb, rtu_frame resp)"
    using assms(2) by (auto simp: mb_dispatch_def)
  moreover have "rtu_frame resp \<noteq> []" by (simp add: rtu_frame_def resp_def)
  ultimately have "mb_core_decode mb (mb_request (device_addr mb) fc a n) MB_MODE_TCP =
      (mb, rtu_frame resp, fc)"
    by (simp add: mb_core_decode_def)
  then have "mb_core_decode mb (rtu_frame (mb_request (device_addr mb) fc a n)) MB_MODE_RTU =
      (mb, rtu_frame resp, fc)"
    by (simp add: decode_rtu_accepts)
  moreover have "unat (n * 2) = unat n * 2" using n by (subst unat_mult_small) simp_all
  then have "unat (ucast (n * 2) :: u8) = 2 * unat n" using n by (simp add: unat_casts)
  moreover have "map ((!) (holding mb)) [unat a ..< unat a + unat n] = take (unat n) (drop (unat a) (holding mb))"
    using assms by (intro nth_equalityI) (simp_all add: mb_tables_ok_def)
  then have "be_pairs regs = take (unat n) (drop (unat a) (holding mb))"
    by (simp add: regs_def be_pairs_regs)
  ultimately show ?thesis by (intro exI [of _ resp]) (simp add: resp_def)
qed

theorem read_returns_registers_witness:
  "\<exists>resp. mb_core_decode (mb_core_init 7)
        (rtu_frame (mb_request (device_addr (mb_core_init 7)) 3 10 41)) MB_MODE_RTU =
      (mb_core_init 7, rtu_frame resp, 3) \<and>
    resp ! 0 = device_addr (mb_core_init 7) \<and> resp ! 1 = 3 \<and> unat (resp ! 2) = 2 * unat (41 :: u16) \<and>
    be_pairs (drop 3 resp) = take (unat (41 :: u16)) (drop (unat (10 :: u16)) (holding (mb_core_init 7)))"
  by (rule read_returns_registers) (simp_all add: mb_tables_ok_def mb_core_init_def)

text \<open>
  a register write is echoed and recorded. The answer to a serial write of v to a
  register a in range repeats the request with fresh check bytes; the register holds v, no
  other one changed, and the address is on record, so the work counter counts as reset
  exactly when the master itself wrote 0 to its low word while the counter was not 0, never
  because the mirror put a 0 there.
\<close>

theorem write_is_echoed_and_recorded:
  assumes "mb_tables_ok mb" "unat a < 51"
  shows "\<exists>mb'. mb_core_decode mb (rtu_frame (mb_request (device_addr mb) 6 a v)) MB_MODE_RTU =
      (mb', rtu_frame (mb_request (device_addr mb) 6 a v), 6) \<and>
    holding mb' = (holding mb)[unat a := v] \<and> coils mb' = coils mb \<and>
    mb_work_cnt_reset_req mb' work = b2u (a = 1 \<and> v = 0 \<and> work \<noteq> 0)"
proof -
  define mb' where "mb' = mb\<lparr>holding := (holding mb)[unat a := v], last_write_addr := a\<rparr>"
  have "mb_dispatch mb (mb_request (device_addr mb) 6 a v) =
      (mb', rtu_frame (mb_request (device_addr mb) 6 a v))"
    using assms(2)
    by (simp add: mb_dispatch_def mb_write_reg_def mb'_def rtu_frame_def Let_def)
      (simp add: mb_request_def)
  moreover have "rtu_frame (mb_request (device_addr mb) 6 a v) \<noteq> []"
    by (simp add: rtu_frame_def mb_request_def)
  ultimately have "mb_core_decode mb (mb_request (device_addr mb) 6 a v) MB_MODE_TCP =
      (mb', rtu_frame (mb_request (device_addr mb) 6 a v), 6)"
    by (simp add: mb_core_decode_def)
  then have "mb_core_decode mb (rtu_frame (mb_request (device_addr mb) 6 a v)) MB_MODE_RTU =
      (mb', rtu_frame (mb_request (device_addr mb) 6 a v), 6)"
    by (simp add: decode_rtu_accepts)
  moreover have "mb_work_cnt_reset_req mb' work = b2u (a = 1 \<and> v = 0 \<and> work \<noteq> 0)"
  proof (cases "a = 1")
    case True
    then show ?thesis using assms(1) by (simp add: mb_work_cnt_reset_req_def mb'_def mb_tables_ok_def)
  next
    case False
    then show ?thesis by (simp add: mb_work_cnt_reset_req_def mb'_def)
  qed
  ultimately show ?thesis by (intro exI [of _ mb']) (simp add: mb'_def)
qed

theorem write_is_echoed_and_recorded_witness:
  "\<exists>mb'. mb_core_decode (mb_core_init 7)
        (rtu_frame (mb_request (device_addr (mb_core_init 7)) 6 1 0)) MB_MODE_RTU =
      (mb', rtu_frame (mb_request (device_addr (mb_core_init 7)) 6 1 0), 6) \<and>
    holding mb' = (holding (mb_core_init 7))[unat (1 :: u16) := 0] \<and> coils mb' = coils (mb_core_init 7) \<and>
    mb_work_cnt_reset_req mb' 65536 = b2u ((1 :: u16) = 1 \<and> (0 :: u16) = 0 \<and> (65536 :: u32) \<noteq> 0)"
  by (rule write_is_echoed_and_recorded) (simp_all add: mb_tables_ok_def mb_core_init_def)

lemma last_chunk: "8 * (m div 8) + j < m \<longleftrightarrow> j < m mod 8" for m j :: nat
proof -
  have "8 * (m div 8) + m mod 8 = m" by (rule mult_div_mod_eq)
  then show ?thesis by linarith
qed

text \<open>
  coils read back as bits. The answer to a read of n coils from a, in range, carries
  ceil(n / 8) data bytes, and bit j of data byte i is set exactly when coil a + 8 i + j is one
  of the n and is on: the last byte is filled too when n is a multiple of 8.
\<close>

theorem coils_read_back:
  assumes "fc = 1 \<or> fc = 2" "0 < n" "unat a + unat n \<le> 50" "i < (unat n + 7) div 8" "j < 8"
  shows "\<exists>resp. mb_core_decode mb (rtu_frame (mb_request (device_addr mb) fc a n)) MB_MODE_RTU =
      (mb, rtu_frame resp, fc) \<and>
    length resp = 3 + (unat n + 7) div 8 \<and> unat (resp ! 2) = (unat n + 7) div 8 \<and>
    (bit (resp ! (3 + i)) j \<longleftrightarrow> 8 * i + j < unat n \<and> coils mb ! (unat a + (8 * i + j)) \<noteq> 0)"
proof -
  define m where "m = unat n"
  define bytes where "bytes = m div 8 + (if m mod 8 \<noteq> 0 then 1 else 0)"
  define width where "width = (\<lambda>k. if k = bytes - 1 \<and> m mod 8 \<noteq> 0 then m mod 8 else 8)"
  define resp where "resp = [device_addr mb, fc, of_nat bytes] @
      map (\<lambda>k. coil_byte mb (unat a + 8 * k) (width k)) [0 ..< bytes]"
  have m: "0 < m" "m \<le> 50" "unat a + m \<le> 50"
    using assms unat_gt_0 [of n] by (auto simp: m_def)
  have bytes: "bytes = (m + 7) div 8" unfolding bytes_def by presburger
  have "mb_read_coils mb (mb_request (device_addr mb) fc a n) fc = rtu_frame resp"
    using m by (simp add: mb_read_coils_def rtu_frame_def resp_def width_def bytes_def Let_def
        m_def [symmetric] flip: unat_eq_0)
  then have "mb_dispatch mb (mb_request (device_addr mb) fc a n) = (mb, rtu_frame resp)"
    using assms(1) by (auto simp: mb_dispatch_def)
  moreover have "rtu_frame resp \<noteq> []" by (simp add: rtu_frame_def resp_def)
  ultimately have "mb_core_decode mb (mb_request (device_addr mb) fc a n) MB_MODE_TCP =
      (mb, rtu_frame resp, fc)"
    by (simp add: mb_core_decode_def)
  then have "mb_core_decode mb (rtu_frame (mb_request (device_addr mb) fc a n)) MB_MODE_RTU =
      (mb, rtu_frame resp, fc)"
    by (simp add: decode_rtu_accepts)
  moreover have "unat (of_nat bytes :: u8) = bytes" using m bytes by (simp add: unat_of_nat)
  moreover have "i < bytes" using assms(4) bytes by (simp add: m_def)
  moreover have "j < width i \<longleftrightarrow> 8 * i + j < m"
    using \<open>i < bytes\<close> assms(5)
    by (auto simp: width_def bytes_def last_chunk split: if_splits)
  moreover have "resp ! (3 + i) = coil_byte mb (unat a + 8 * i) (width i)"
    using \<open>i < bytes\<close> by (simp add: resp_def numeral_3_eq_3)
  moreover have "bit (coil_byte mb (unat a + 8 * i) (width i)) j \<longleftrightarrow>
      j < width i \<and> coils mb ! (unat a + (8 * i + j)) \<noteq> 0"
    using assms(5) by (simp add: coil_byte_def bit_coil_byte add.assoc [symmetric])
  ultimately show ?thesis
    using bytes by (intro exI [of _ resp]) (simp add: resp_def m_def)
qed

theorem coils_read_back_witness:
  "\<exists>resp. mb_core_decode (mb_core_init 7)
        (rtu_frame (mb_request (device_addr (mb_core_init 7)) 1 3 16)) MB_MODE_RTU =
      (mb_core_init 7, rtu_frame resp, 1) \<and>
    length resp = 3 + (unat (16 :: u16) + 7) div 8 \<and> unat (resp ! 2) = (unat (16 :: u16) + 7) div 8 \<and>
    (bit (resp ! (3 + 1)) 2 \<longleftrightarrow> 8 * 1 + 2 < unat (16 :: u16) \<and>
       coils (mb_core_init 7) ! (unat (3 :: u16) + (8 * 1 + 2)) \<noteq> 0)"
  by (rule coils_read_back) simp_all

text \<open>
  C22: the serial line and TCP decode alike. A six-byte request addressed to the device gets
  the same effect, answer and function code through its serial frame as through TCP.
\<close>

theorem rtu_and_tcp_agree:
  assumes "length pdu = 6" "pdu ! 0 = device_addr mb"
  shows "mb_core_decode mb (rtu_frame pdu) MB_MODE_RTU = mb_core_decode mb pdu MB_MODE_TCP"
  by (rule decode_rtu_accepts [OF assms])

theorem rtu_and_tcp_agree_witness:
  "mb_core_decode (mb_core_init 3) (rtu_frame [3, 5, 0, 2, 1, 0]) MB_MODE_RTU =
   mb_core_decode (mb_core_init 3) [3, 5, 0, 2, 1, 0] MB_MODE_TCP"
  by (rule rtu_and_tcp_agree) (simp_all add: mb_core_init_def)

text \<open>
  each status input sets its own bit of the status register and no other, whatever
  nonzero value it has; bit 4 is never set.
\<close>

theorem status_bits_exact:
  "bit (mb_status_bits i) n \<longleftrightarrow>
     n = 0 \<and> si_running i \<noteq> 0 \<or> n = 1 \<and> si_estop i \<noteq> 0 \<or> n = 2 \<and> si_ovld i \<noteq> 0 \<or>
     n = 3 \<and> si_ovtime i \<noteq> 0 \<or> n = 5 \<and> si_sensor i \<noteq> 0 \<or> n = 6 \<and> si_horn i \<noteq> 0 \<or>
     n = 7 \<and> si_seek i \<noteq> 0 \<or> n = 8 \<and> si_reset i \<noteq> 0"
proof -
  have "mb_status_bits i =
      (if si_running i \<noteq> 0 then 2 ^ 0 else 0) OR (if si_estop i \<noteq> 0 then 2 ^ 1 else 0) OR
      (if si_ovld i \<noteq> 0 then 2 ^ 2 else 0) OR (if si_ovtime i \<noteq> 0 then 2 ^ 3 else 0) OR
      (if si_sensor i \<noteq> 0 then 2 ^ 5 else 0) OR (if si_horn i \<noteq> 0 then 2 ^ 6 else 0) OR
      (if si_seek i \<noteq> 0 then 2 ^ 7 else 0) OR (if si_reset i \<noteq> 0 then 2 ^ 8 else 0)"
    by (simp add: mb_status_bits_def Let_def or.assoc)
  moreover have "bit (if c then 2 ^ k else (0 :: u16)) n \<longleftrightarrow> n = k \<and> c" if "k < 16" for c k
    using that by (auto simp: bit_exp_iff)
  ultimately show ?thesis by (simp only: bit_or_iff)
qed

end
