(* ===== verification/Modbus_Tcp_Frame.thy ===== *)
theory Modbus_Tcp_Frame
  imports Modbus_Core
begin

text \<open>
  The Modbus TCP framing, \<open>fw/src/app_modbus_tcp_frame.c\<close>: the header is stripped, the
  core decodes, the answer is wrapped again without its check bytes; and the boundary of a
  frame in the receive buffer.
\<close>

section \<open>Operations\<close>

abbreviation (input) MB_FRAME_MAX :: nat where "MB_FRAME_MAX \<equiv> 125"
abbreviation (input) MB_TCP_MBAP_LEN :: nat where "MB_TCP_MBAP_LEN \<equiv> 6"

text \<open>None is the silence of the code's false.\<close>

definition mb_tcp_build_response :: "mb_core \<Rightarrow> u8 list \<Rightarrow> mb_core \<times> u8 list option \<times> u8" where
  "mb_tcp_build_response mb req =
     (let req_len = length req
      in if req_len < 8 then (mb, None, 0)
         else
           (let proto = be16 (req ! 2) (req ! 3); len = unat (be16 (req ! 4) (req ! 5))
            in if proto \<noteq> 0 then (mb, None, 0)
               else if len < 2 then (mb, None, 0)
               else if req_len < MB_TCP_MBAP_LEN + len then (mb, None, 0)
               else if MB_FRAME_MAX < len then (mb, None, 0)
               else
                 (let (mb, resp, fc) = mb_core_decode mb (take len (drop 6 req)) MB_MODE_TCP;
                      n = length resp
                  in if n = 0 then (mb, None, fc)
                     else if n < 4 then (mb, None, fc)
                     else
                       (let pdu_len = n - 2;
                            head = [req ! 0, req ! 1, 0, 0, hi8 (of_nat pdu_len), lo8 (of_nat pdu_len)];
                            out = (head @ take pdu_len resp)[6 := req ! 6]
                        in (mb, Some out, fc)))))"

datatype mb_tcp_fr = MB_TCP_FR_NEED_MORE | MB_TCP_FR_OK nat | MB_TCP_FR_DESYNC

definition mb_tcp_frame_peek :: "u8 list \<Rightarrow> mb_tcp_fr" where
  "mb_tcp_frame_peek buf =
     (let len = length buf
      in if len < MB_TCP_MBAP_LEN then MB_TCP_FR_NEED_MORE
         else
           (let proto = be16 (buf ! 2) (buf ! 3); l = unat (be16 (buf ! 4) (buf ! 5))
            in if proto \<noteq> 0 \<or> l < 2 \<or> MB_FRAME_MAX < l then MB_TCP_FR_DESYNC
               else (let total = MB_TCP_MBAP_LEN + l
                     in if len < total then MB_TCP_FR_NEED_MORE else MB_TCP_FR_OK total)))"

section \<open>A stream of frames\<close>

text \<open>A TCP request: transaction id, the header around a unit and its data.\<close>

definition mbap :: "u16 \<Rightarrow> u8 list \<Rightarrow> u8 list" where
  "mbap txn body = [hi8 txn, lo8 txn, 0, 0, hi8 (of_nat (length body)), lo8 (of_nat (length body))] @ body"

lemma mbap_fields:
  "mbap txn body ! 0 = hi8 txn" "mbap txn body ! 1 = lo8 txn"
  "be16 (mbap txn body ! 2) (mbap txn body ! 3) = 0"
  "be16 (mbap txn body ! 4) (mbap txn body ! 5) = of_nat (length body)"
  "length (mbap txn body) = 6 + length body" "drop 6 (mbap txn body) = body"
  "body \<noteq> [] \<Longrightarrow> mbap txn body ! 6 = body ! 0"
proof -
  have z: "be16 0 0 = 0" by (simp add: be16_def)
  show "mbap txn body ! 0 = hi8 txn" "mbap txn body ! 1 = lo8 txn"
    "be16 (mbap txn body ! 2) (mbap txn body ! 3) = 0"
    "be16 (mbap txn body ! 4) (mbap txn body ! 5) = of_nat (length body)"
    "length (mbap txn body) = 6 + length body" "drop 6 (mbap txn body) = body"
    "body \<noteq> [] \<Longrightarrow> mbap txn body ! 6 = body ! 0"
    by (simp_all add: mbap_def z)
qed

lemma mbap_append:
  "k < 6 \<Longrightarrow> (mbap txn body @ rest) ! k = mbap txn body ! k"
  by (simp add: mbap_fields nth_append)

lemma unat_len: "n \<le> 125 \<Longrightarrow> unat (of_nat n :: u16) = n"
  by (simp add: unat_of_nat)

lemma peek_frame:
  assumes "2 \<le> length body" "length body \<le> 125"
  shows "mb_tcp_frame_peek (mbap txn body @ rest) = MB_TCP_FR_OK (6 + length body)"
  using assms
  by (simp add: mb_tcp_frame_peek_def mbap_append mbap_fields unat_len Let_def)

lemma peek_partial:
  assumes "2 \<le> length body" "length body \<le> 125" "k < 6 + length body"
  shows "mb_tcp_frame_peek (take k (mbap txn body)) = MB_TCP_FR_NEED_MORE"
  using assms
  by (simp add: mb_tcp_frame_peek_def mbap_fields unat_len Let_def not_less)

section \<open>Properties\<close>

text \<open>
  framing loses and invents nothing. In a byte stream, a whole request at the head, with
  anything behind it, is recognised with its exact length; any proper prefix of it asks for
  more bytes, so a request split by the network is never cut short or discarded.
\<close>

theorem frame_boundaries_exact:
  assumes "2 \<le> length body" "length body \<le> 125"
  shows "mb_tcp_frame_peek (mbap txn body @ rest) = MB_TCP_FR_OK (length (mbap txn body)) \<and>
    (\<forall>k < length (mbap txn body). mb_tcp_frame_peek (take k (mbap txn body)) = MB_TCP_FR_NEED_MORE)"
  using peek_frame [OF assms] peek_partial [OF assms] by (simp add: mbap_fields)

theorem frame_boundaries_exact_witness:
  "mb_tcp_frame_peek [0, 9, 0, 0, 0, 6, 1, 3, 0, 0, 0, 50, 0, 10, 0] = MB_TCP_FR_OK 12 \<and>
   mb_tcp_frame_peek [0, 9, 0, 0, 0, 6, 1, 3, 0, 0, 0] = MB_TCP_FR_NEED_MORE"
proof -
  have "2 \<le> length ([1, 3, 0, 0, 0, 50] :: u8 list)" "length ([1, 3, 0, 0, 0, 50] :: u8 list) \<le> 125"
    by simp_all
  from frame_boundaries_exact [OF this, of 9 "[0, 10, 0]"]
  have head: "mb_tcp_frame_peek (mbap 9 [1, 3, 0, 0, 0, 50] @ [0, 10, 0]) =
      MB_TCP_FR_OK (length (mbap 9 [1, 3, 0, 0, 0, 50]))"
    and part: "\<forall>k < length (mbap 9 [1, 3, 0, 0, 0, 50]).
      mb_tcp_frame_peek (take k (mbap 9 [1, 3, 0, 0, 0, 50])) = MB_TCP_FR_NEED_MORE"
    by blast+
  have m: "mbap 9 [1, 3, 0, 0, 0, 50] = [0, 9, 0, 0, 0, 6, 1, 3, 0, 0, 0, 50]"
    by (simp add: mbap_def hi8_def lo8_def)
  show ?thesis using head part [rule_format, of 11] by (simp add: m)
qed

lemma decode_resp_shape:
  assumes "mb_core_decode mb pdu MB_MODE_TCP = (mb', resp, fc)" "resp \<noteq> []"
  shows "\<exists>body. resp = rtu_frame body \<and> 4 \<le> length body \<and> length body \<le> 105 \<and>
    body ! 0 = device_addr mb \<and> body ! 1 = fc"
proof -
  have d: "mb_dispatch mb pdu = (mb', resp)" "fc = pdu ! 1"
    using assms by (auto simp: mb_core_decode_def Let_def split: if_splits prod.splits)
  have "length resp \<le> 107" using dispatch_length [of mb pdu] d by simp
  moreover have "\<exists>body. resp = rtu_frame body \<and> 4 \<le> length body \<and>
      body ! 0 = device_addr mb \<and> body ! 1 = pdu ! 1"
  proof -
    have regs: "mb_read_regs mb pdu f = [] \<or> (\<exists>bs. bs \<noteq> [] \<and> mb_read_regs mb pdu f =
        rtu_frame ([device_addr mb, f, ucast (be16 (pdu ! 4) (pdu ! 5) * 2)] @ bs))" for f
      by (auto simp: mb_read_regs_def rtu_frame_def Let_def unat_gt_0)
    have cls: "mb_read_coils mb pdu f = [] \<or> (\<exists>n bs. bs \<noteq> [] \<and>
        mb_read_coils mb pdu f = rtu_frame ([device_addr mb, f, n] @ bs))" for f
    proof (cases "mb_read_coils mb pdu f = []")
      case False
      define n where "n = unat (be16 (pdu ! 4) (pdu ! 5))"
      have "0 < n" using False by (auto simp: mb_read_coils_def n_def Let_def unat_gt_0 split: if_splits)
      then have "0 < n div 8 + (if n mod 8 \<noteq> 0 then 1 else 0)" by (cases "n < 8") auto
      with False show ?thesis
        by (auto simp: mb_read_coils_def rtu_frame_def Let_def simp flip: n_def split: if_splits)
    qed simp
    have wr: "snd (mb_write_reg mb pdu) = [] \<or> snd (mb_write_reg mb pdu) =
        rtu_frame [device_addr mb, 6, pdu ! 2, pdu ! 3, pdu ! 4, pdu ! 5]"
      "snd (mb_write_coil mb pdu) = [] \<or> snd (mb_write_coil mb pdu) =
        rtu_frame [device_addr mb, 5, pdu ! 2, pdu ! 3, pdu ! 4, pdu ! 5]"
      by (simp_all add: mb_write_reg_def mb_write_coil_def rtu_frame_def Let_def)
    have len: "bs \<noteq> [] \<Longrightarrow> 4 \<le> length ([x, y, z] @ bs)" for x y z and bs :: "u8 list"
      by (cases bs) simp_all
    consider "pdu ! 1 \<in> {1, 2}" | "pdu ! 1 \<in> {3, 4}" | "pdu ! 1 = 5" | "pdu ! 1 = 6"
      using d(1) assms(2) by (auto simp: mb_dispatch_def Let_def split: if_splits)
    then show ?thesis
    proof cases
      case 1
      then have "resp = mb_read_coils mb pdu (pdu ! 1)"
        using d(1) by (auto simp: mb_dispatch_def Let_def)
      with cls [of "pdu ! 1"] assms(2) len show ?thesis by fastforce
    next
      case 2
      then have "resp = mb_read_regs mb pdu (pdu ! 1)"
        using d(1) by (auto simp: mb_dispatch_def Let_def)
      with regs [of "pdu ! 1"] assms(2) len show ?thesis by fastforce
    next
      case 3
      then have "resp = snd (mb_write_coil mb pdu)" using d(1) by (simp add: mb_dispatch_def)
      with wr(2) 3 assms(2) show ?thesis by auto
    next
      case 4
      then have "resp = snd (mb_write_reg mb pdu)" using d(1) by (simp add: mb_dispatch_def)
      with wr(1) 4 assms(2) show ?thesis by auto
    qed
  qed
  ultimately show ?thesis using d(2) by (auto simp: rtu_frame_def)
qed

lemma tcp_answer:
  assumes "2 \<le> length pdu" "length pdu \<le> 125"
    and "mb_core_decode mb pdu MB_MODE_TCP = (mb', resp, fc)"
  shows "mb_tcp_build_response mb (mbap txn pdu @ rest) =
      (mb', if resp = [] then None
            else Some (mbap txn ((take (length resp - 2) resp)[0 := pdu ! 0])), fc) \<and>
    length (mbap txn ((take (length resp - 2) resp)[0 := pdu ! 0])) \<le> 111"
proof -
  have ne: "pdu \<noteq> []" using assms(1) by auto
  then have req: "\<not> length (mbap txn pdu @ rest) < 8" "(mbap txn pdu @ rest) ! 6 = pdu ! 0"
    "take (length pdu) (drop 6 (mbap txn pdu @ rest)) = pdu"
    using assms ne by (simp_all add: mbap_fields nth_append)
  have len: "length resp \<le> 107"
    using assms(3) decode_resp_shape [of mb pdu mb' resp fc] by (cases "resp = []") (auto simp: rtu_frame_def)
  show ?thesis
  proof (cases "resp = []")
    case True
    then show ?thesis
      using assms req
      by (simp add: mb_tcp_build_response_def mbap_append mbap_fields unat_len Let_def)
  next
    case False
    then obtain body where "resp = rtu_frame body" "4 \<le> length body"
      using decode_resp_shape [OF assms(3)] by blast
    then have long: "\<not> length resp < 4" by (simp add: rtu_frame_def)
    have short: "length resp - 2 \<le> 105" "be16 0 0 = 0" using len by (simp_all add: be16_def)
    have upd: "(x # y # z # u # v # w # bs)[6 := b] = x # y # z # u # v # w # bs[0 := b]"
      for x y z u v w b and bs :: "u8 list"
      by (simp add: numeral_eq_Suc)
    show ?thesis
      using assms req long short False
      by (simp add: mb_tcp_build_response_def mbap_append mbap_fields unat_len Let_def mbap_def upd)
  qed
qed

text \<open>
  a TCP answer is the core's answer in standard framing. For a whole request the module
  answers exactly when the core does, with the transaction id of the request, protocol 0, the
  right length, the unit id of the request and the data of the core without its two check
  bytes; the effect on the tables is the core's. The answer fits 111 bytes.
\<close>

theorem tcp_answer_is_wrapped_core_answer:
  assumes "2 \<le> length pdu" "length pdu \<le> 125"
  shows "let (mb', resp, fc) = mb_core_decode mb pdu MB_MODE_TCP;
             answer = mbap txn ((take (length resp - 2) resp)[0 := pdu ! 0])
    in mb_tcp_build_response mb (mbap txn pdu @ rest) =
         (mb', if resp = [] then None else Some answer, fc) \<and> length answer \<le> 111"
  using tcp_answer [OF assms, of mb] by (cases "mb_core_decode mb pdu MB_MODE_TCP") (simp add: Let_def)

theorem tcp_answer_is_wrapped_core_answer_witness:
  "let (mb', resp, fc) = mb_core_decode (mb_core_init 1) [9, 6, 0, 7, 0, 1] MB_MODE_TCP;
       answer = mbap 0x1234 ((take (length resp - 2) resp)[0 := [9, 6, 0, 7, 0, 1] ! 0])
    in mb_tcp_build_response (mb_core_init 1) (mbap 0x1234 [9, 6, 0, 7, 0, 1] @ [5]) =
         (mb', if resp = [] then None else Some answer, fc) \<and> length answer \<le> 111"
  by (rule tcp_answer_is_wrapped_core_answer) simp_all

end
