(* ===== verification/Sys_State.thy ===== *)
theory Sys_State
  imports Weld_Fsm Weld_Trigger_Fsm Seek_Reset_Fsm Horn_Fsm Overload_Fsm Input_Fsm Freq_Fsm
    Hold_Wdt_Fsm Remote_En_Fsm Reg_Calc Config Cfg_Stage Modbus_Core
begin

text \<open>
  The static state of the whole firmware as one record \<open>sys\<close>, with one component per file
  that keeps state: the live configuration and the panel state (\<open>app_lcd.c\<close>), the regulator
  (\<open>app_reg.c\<close>), the panel link (\<open>dgus_lcd.c\<close>), the glue of the weld, overload, input, horn,
  seek/reset, buzzer and fault-alarm files, the Modbus glue (\<open>app_modbus.c\<close>), the I2C devices
  and the levels the output pins carry. What the code reads from outside (the millisecond
  counter, the input pins, the converter) is the record \<open>env\<close>, an argument of every operation
  that reads it. The text of the monitor port is not modelled.
\<close>

section \<open>What a call reads from the hardware\<close>

record env =
  e_now :: u32
  e_start :: u8
  e_reset :: u8
  e_estop_seek :: u8
  e_key1 :: u8
  e_key2 :: u8
  e_sens_up :: u8
  e_sens_dn :: u8
  e_overload :: u8
  e_remote_en :: u8
  e_adc_sens_out :: u16
  e_adc_osc :: u16

section \<open>The output pins\<close>

text \<open>True is the active level, whatever the polarity of the pin.\<close>

record outputs =
  out_sol_dn :: bool
  out_ovld_relay :: bool
  out_buzzer :: bool
  out_usout :: bool
  out_osc4 :: bool
  out_reset :: bool
  out_seek :: bool

section \<open>The panel link\<close>

datatype parse_state = PS_IDLE | PS_GOT_5A | PS_GOT_HEADER | PS_COLLECTING

text \<open>
  \<open>dg_sent\<close> is the sequence of frames put on the wire, \<open>dg_tx_timeouts\<close> the outcomes the
  serial driver will report for the next frames (empty: no more time-outs), \<open>dg_rx_ring\<close> the
  received bytes the interrupt has queued.
\<close>

record dgus_st =
  dg_sent :: "u8 list list"
  dg_tx_timeouts :: "bool list"
  dg_tx_timeout_count :: u16
  dg_rx_ring :: "u8 list"
  dg_parse_state :: parse_state
  dg_frame_buf :: "u8 list"
  dg_frame_idx :: u8
  dg_bytes_remaining :: u8
  dg_frame_start_ms :: u32
  dg_rx_drop_count :: u16

section \<open>The panel application\<close>

record lcd_app_state =
  ls_lcd_status :: u8
  ls_sys_mode :: u8
  ls_error_status :: u8
  ls_key_press_ms :: u32
  ls_key_press_vp :: u16
  ls_ref_lv_1 :: u16
  ls_ref_lv_10 :: u16
  ls_ref_lv_20 :: u16
  ls_temp_address :: u8
  ls_temp_speed_idx :: u8
  ls_temp_parity_idx :: u8
  ls_temp_comm_mode :: u8
  ls_temp_ether_ip :: "u8 list"
  ls_temp_ether_nm :: "u8 list"
  ls_temp_ether_gw :: "u8 list"
  ls_temp_cnt_reset :: u8
  ls_temp_horndown :: u8
  ls_ether_what_input :: u8
  ls_ether_current_number :: u16
  ls_ether_current_octet :: u8
  ls_ether_has_input :: u8
  ls_ether_ip_input_complete :: u8
  ls_ether_buffer_pos :: u8
  ls_ether_input_buffer :: "u8 list"
  ls_ether_temp_ip :: "u8 list"
  ls_last_set_page_ms :: u32
  ls_boot_complete :: bool
  ls_run_key_down :: u8
  ls_ether_dirty :: bool

text \<open>The function-local and file-local statics of the display step and of the panel tick.\<close>

record disp_st =
  ds_level_buf :: "u16 list"
  ds_time_buf :: "u16 list"
  ds_step :: u8
  ds_prev_run_on :: bool
  ds_prev_remote_on :: bool
  ds_prev_err :: u8
  ds_prev_ms :: u32

section \<open>The regulator\<close>

record lcd_measure =
  me_curr_amp :: u16
  me_max_amp :: u16
  me_last_amp :: u16
  me_curr_power :: u16
  me_max_power :: u16
  me_last_power :: u16
  me_curr_freq :: u16
  me_last_freq :: u16
  me_curr_energy :: u32
  me_last_energy :: u32
  me_us_on_time_200m :: u8
  me_us_run_status :: u8
  me_us_on_status :: u8
  me_error_status :: u8

record reg_state =
  rg_ch0_avg :: u16
  rg_ch1_avg :: u16
  rg_adc_scaled_value :: u16
  rg_cal_val :: u16
  rg_band :: u8
  rg_ch0_acc :: u32
  rg_ch0_cnt :: u16
  rg_ch1_acc :: u32
  rg_ch1_cnt :: u16
  rg_main_state :: u8
  rg_ramp_counter :: u16
  rg_prev_ramp_ms :: u32
  rg_us_run_status :: u8
  rg_us_out_on :: u8
  rg_max_power :: u16
  rg_last_power :: u16
  rg_max_amp :: u16
  rg_last_amp :: u16
  rg_run_start_ms :: u32
  rg_swallow_start :: u8
  rg_acc_energy :: u32
  rg_last_energy :: u32
  rg_last_freq :: u16
  rg_sr_disp_active :: u8
  rg_error_status :: u8
  rg_prev_acq_ms :: u32
  rg_prev_ms :: u32
  rg_ch1_filt_x16 :: u32

section \<open>The glue files\<close>

record weld_glue =
  wg_fsm :: weld_st
  wg_trig :: weld_trig_st
  wg_prev_ms :: u32
  wg_start_pending :: u8
  wg_sol_last :: u8
  wg_sens_dn_bak :: u8

record ovld_glue =
  og_ovld_fsm :: overload_st
  og_ovld_prev_ms :: u32
  og_ovld_blink_ms :: u32
  og_ovld_active :: u8

record input_glue =
  ig_fsm :: input_st
  ig_prev_ms :: u32
  ig_blink_ms :: u32
  ig_estop_active :: u8

record horn_glue =
  hg_fsm :: horn_st
  hg_prev_ms :: u32
  hg_mode :: u8
  hg_sol_last :: u8

record sr_glue =
  sg_fsm :: seek_reset_st
  sg_prev_ms :: u32
  sg_pending_cmd :: u8

record buzzer_glue =
  bg_fsm :: u16
  bg_prev_ms :: u32
  bg_last :: u8

record alarm_glue =
  ag_prev_ms :: u32
  ag_blink_ms :: u32
  ag_prev_err :: u8

section \<open>The Modbus glue\<close>

datatype product_model = MODEL_STD | MODEL_REMOTE

record mb_glue =
  mg_core :: mb_core
  mg_owned :: u8
  mg_speed_idx :: u8
  mg_parity_idx :: u8
  mg_addr :: u8
  mg_tcp_active :: u8
  mg_remote_ms :: u32
  mg_remote_seen :: u8
  mg_ren_fsm :: remote_en_st
  mg_ren_state :: u8
  mg_stg :: cfg_stage
  mg_hwd :: hold_wdt

section \<open>The system\<close>

record sys =
  g_cfg :: app_config
  g_lcd :: lcd_app_state
  g_disp :: disp_st
  g_dgus :: dgus_st
  g_measure :: lcd_measure
  g_reg :: reg_state
  g_freq :: freq_st
  g_i2c :: i2c_st
  g_weld :: weld_glue
  g_ovld :: ovld_glue
  g_input :: input_glue
  g_horn :: horn_glue
  g_sr :: sr_glue
  g_buzzer :: buzzer_glue
  g_alarm :: alarm_glue
  g_mb :: mb_glue
  g_out :: outputs
  g_model :: product_model

section \<open>Codes shared by the files\<close>

datatype us_cmd = US_CMD_START | US_CMD_SEEK | US_CMD_RESET | US_CMD_RUN_RELEASE

abbreviation (input) US_IDLE :: u8 where "US_IDLE \<equiv> 0"
abbreviation (input) US_REMOTE :: u8 where "US_REMOTE \<equiv> 1"
abbreviation (input) US_TOUCH :: u8 where "US_TOUCH \<equiv> 2"
abbreviation (input) US_COMM :: u8 where "US_COMM \<equiv> 3"
abbreviation (input) US_CYCLE :: u8 where "US_CYCLE \<equiv> 4"
abbreviation (input) ERR_OVLD :: u8 where "ERR_OVLD \<equiv> 1"
abbreviation (input) ERR_OVTIME :: u8 where "ERR_OVTIME \<equiv> 2"
abbreviation (input) ERR_OUTERR :: u8 where "ERR_OUTERR \<equiv> 4"

section \<open>The questions the files ask each other\<close>

definition app_overload_active :: "sys \<Rightarrow> u8" where
  "app_overload_active s = og_ovld_active (g_ovld s)"

definition app_estop_active :: "sys \<Rightarrow> u8" where
  "app_estop_active s = ig_estop_active (g_input s)"

definition app_horn_mode_active :: "sys \<Rightarrow> u8" where
  "app_horn_mode_active s = hg_mode (g_horn s)"

definition app_seek_reset_active :: "sys \<Rightarrow> u8" where
  "app_seek_reset_active s = b2u (seek_reset_fsm_state (sg_fsm (g_sr s)) \<noteq> SR_IDLE)"

definition app_reg_measure :: "sys \<Rightarrow> lcd_measure" where
  "app_reg_measure s = g_measure s"

definition app_reg_run_src :: "sys \<Rightarrow> u8" where
  "app_reg_run_src s = rg_us_run_status (g_reg s)"

lemmas query_defs = app_overload_active_def app_estop_active_def app_horn_mode_active_def
  app_seek_reset_active_def app_reg_measure_def app_reg_run_src_def

section \<open>The pin writes\<close>

definition io_sol_dn :: "bool \<Rightarrow> sys \<Rightarrow> sys" where
  "io_sol_dn on s = s\<lparr>g_out := (g_out s)\<lparr>out_sol_dn := on\<rparr>\<rparr>"

definition io_ovld_relay :: "bool \<Rightarrow> sys \<Rightarrow> sys" where
  "io_ovld_relay on s = s\<lparr>g_out := (g_out s)\<lparr>out_ovld_relay := on\<rparr>\<rparr>"

definition io_buzzer :: "bool \<Rightarrow> sys \<Rightarrow> sys" where
  "io_buzzer on s = s\<lparr>g_out := (g_out s)\<lparr>out_buzzer := on\<rparr>\<rparr>"

definition io_usout :: "bool \<Rightarrow> sys \<Rightarrow> sys" where
  "io_usout on s = s\<lparr>g_out := (g_out s)\<lparr>out_usout := on\<rparr>\<rparr>"

definition board_osc4 :: "bool \<Rightarrow> sys \<Rightarrow> sys" where
  "board_osc4 on s = s\<lparr>g_out := (g_out s)\<lparr>out_osc4 := on\<rparr>\<rparr>"

definition board_reset :: "bool \<Rightarrow> sys \<Rightarrow> sys" where
  "board_reset on s = s\<lparr>g_out := (g_out s)\<lparr>out_reset := on\<rparr>\<rparr>"

definition board_seek :: "bool \<Rightarrow> sys \<Rightarrow> sys" where
  "board_seek on s = s\<lparr>g_out := (g_out s)\<lparr>out_seek := on\<rparr>\<rparr>"

lemmas pin_defs = io_sol_dn_def io_ovld_relay_def io_buzzer_def io_usout_def board_osc4_def
  board_reset_def board_seek_def

section \<open>A start state\<close>

text \<open>
  Zeroed statics, the pure machines as their init functions leave them, the outputs inactive
  and the devices healthy: the state before \<open>app_init\<close> loads the configuration.
\<close>

definition lcd_app_state_zero :: lcd_app_state where
  "lcd_app_state_zero = \<lparr>ls_lcd_status = 0, ls_sys_mode = 0, ls_error_status = 0,
     ls_key_press_ms = 0, ls_key_press_vp = 0, ls_ref_lv_1 = 0, ls_ref_lv_10 = 0,
     ls_ref_lv_20 = 0, ls_temp_address = 0, ls_temp_speed_idx = 0, ls_temp_parity_idx = 0,
     ls_temp_comm_mode = 0, ls_temp_ether_ip = replicate 4 0, ls_temp_ether_nm = replicate 4 0,
     ls_temp_ether_gw = replicate 4 0, ls_temp_cnt_reset = 0, ls_temp_horndown = 0,
     ls_ether_what_input = 0, ls_ether_current_number = 0, ls_ether_current_octet = 0,
     ls_ether_has_input = 0, ls_ether_ip_input_complete = 0, ls_ether_buffer_pos = 0,
     ls_ether_input_buffer = replicate 16 0, ls_ether_temp_ip = replicate 4 0,
     ls_last_set_page_ms = 0, ls_boot_complete = False, ls_run_key_down = 0,
     ls_ether_dirty = False\<rparr>"

definition disp_st_zero :: disp_st where
  "disp_st_zero = \<lparr>ds_level_buf = replicate 20 0, ds_time_buf = replicate 20 0, ds_step = 0,
     ds_prev_run_on = False, ds_prev_remote_on = False, ds_prev_err = 0, ds_prev_ms = 0\<rparr>"

definition dgus_st_zero :: dgus_st where
  "dgus_st_zero = \<lparr>dg_sent = [], dg_tx_timeouts = [], dg_tx_timeout_count = 0, dg_rx_ring = [],
     dg_parse_state = PS_IDLE, dg_frame_buf = replicate 32 0, dg_frame_idx = 0,
     dg_bytes_remaining = 0, dg_frame_start_ms = 0, dg_rx_drop_count = 0\<rparr>"

definition reg_state_zero :: reg_state where
  "reg_state_zero = \<lparr>rg_ch0_avg = 0, rg_ch1_avg = 0, rg_adc_scaled_value = 0, rg_cal_val = 0,
     rg_band = 0, rg_ch0_acc = 0, rg_ch0_cnt = 0, rg_ch1_acc = 0, rg_ch1_cnt = 0,
     rg_main_state = 0, rg_ramp_counter = 0, rg_prev_ramp_ms = 0, rg_us_run_status = 0,
     rg_us_out_on = 0, rg_max_power = 0, rg_last_power = 0, rg_max_amp = 0, rg_last_amp = 0,
     rg_run_start_ms = 0, rg_swallow_start = 0, rg_acc_energy = 0, rg_last_energy = 0,
     rg_last_freq = 0, rg_sr_disp_active = 0, rg_error_status = 0, rg_prev_acq_ms = 0,
     rg_prev_ms = 0, rg_ch1_filt_x16 = 0\<rparr>"

definition lcd_measure_zero :: lcd_measure where
  "lcd_measure_zero = \<lparr>me_curr_amp = 0, me_max_amp = 0, me_last_amp = 0, me_curr_power = 0,
     me_max_power = 0, me_last_power = 0, me_curr_freq = 0, me_last_freq = 0,
     me_curr_energy = 0, me_last_energy = 0, me_us_on_time_200m = 0, me_us_run_status = 0,
     me_us_on_status = 0, me_error_status = 0\<rparr>"

definition mb_glue_zero :: mb_glue where
  "mb_glue_zero = \<lparr>mg_core = mb_core_init 0, mg_owned = 0, mg_speed_idx = 0, mg_parity_idx = 0,
     mg_addr = 0, mg_tcp_active = 0, mg_remote_ms = 0, mg_remote_seen = 0,
     mg_ren_fsm = remote_en_fsm_init, mg_ren_state = 0, mg_stg = cfg_stage_init,
     mg_hwd = \<lparr>hw_armed = 0, hw_last_keep_ms = 0\<rparr>\<rparr>"

definition sys_zero :: "product_model \<Rightarrow> sys" where
  "sys_zero md = \<lparr>g_cfg = app_config_factory_defaults, g_lcd = lcd_app_state_zero,
     g_disp = disp_st_zero, g_dgus = dgus_st_zero, g_measure = lcd_measure_zero,
     g_reg = reg_state_zero, g_freq = freq_fsm_init,
     g_i2c = \<lparr>ic_mem = (\<lambda>_. 0), ic_wiper = 0, ic_bus = [], ic_err_count = 0\<rparr>,
     g_weld = \<lparr>wg_fsm = weld_fsm_init, wg_trig = weld_trigger_fsm_init, wg_prev_ms = 0,
       wg_start_pending = 0, wg_sol_last = 0, wg_sens_dn_bak = 1\<rparr>,
     g_ovld = \<lparr>og_ovld_fsm = overload_fsm_init, og_ovld_prev_ms = 0, og_ovld_blink_ms = 0,
       og_ovld_active = 0\<rparr>,
     g_input = \<lparr>ig_fsm = input_fsm_init, ig_prev_ms = 0, ig_blink_ms = 0, ig_estop_active = 0\<rparr>,
     g_horn = \<lparr>hg_fsm = horn_fsm_init, hg_prev_ms = 0, hg_mode = 0, hg_sol_last = 0\<rparr>,
     g_sr = \<lparr>sg_fsm = seek_reset_fsm_init, sg_prev_ms = 0, sg_pending_cmd = 0\<rparr>,
     g_buzzer = \<lparr>bg_fsm = 0, bg_prev_ms = 0, bg_last = 0\<rparr>,
     g_alarm = \<lparr>ag_prev_ms = 0, ag_blink_ms = 0, ag_prev_err = 0\<rparr>,
     g_mb = mb_glue_zero,
     g_out = \<lparr>out_sol_dn = False, out_ovld_relay = False, out_buzzer = False, out_usout = False,
       out_osc4 = False, out_reset = False, out_seek = False\<rparr>,
     g_model = md\<rparr>"

end
