(* ===== verification/Sys_Prelude.thy ===== *)
theory Sys_Prelude
  imports Prelude "HOL-Library.Signed_Division"
begin

text \<open>
  What the system-level theories share: word facts about sums, shifts and signed reads,
  the contract of a nondeterministic step relation with an invariant (locale \<open>step_system\<close>),
  and the interface through which the glue files stop the ultrasonic (locale \<open>run_control\<close>).
\<close>

section \<open>Words\<close>

lemma unat_add_small:
  fixes a b :: "'a::len word"
  assumes "unat a + unat b < 2 ^ LENGTH('a)"
  shows "unat (a + b) = unat a + unat b"
  using assms by (simp add: unat_word_ariths)

lemma unat_drop_bit_div: "unat (drop_bit n w) = unat w div 2 ^ n" for w :: "'a::len word"
proof -
  have "unat (drop_bit n w) = drop_bit n (unat w)"
    by (simp add: unsigned_drop_bit_eq take_bit_nat_eq_self)
  then show ?thesis by (simp only: drop_bit_eq_div)
qed

lemma sint_small:
  fixes w :: u32 assumes "unat w < 2147483648" shows "sint w = int (unat w)"
proof -
  have u: "uint w = int (unat w)" by simp
  have "int (unat w) < 2147483648" "0 \<le> int (unat w)" using assms by linarith+
  moreover have "(2 :: int) ^ 31 = 2147483648" by simp
  ultimately have "signed_take_bit 31 (int (unat w)) = int (unat w)"
    by (intro signed_take_bit_int_eq_self) linarith+
  moreover have "sint w = signed_take_bit 31 (uint w)" by (simp add: sint_uint)
  ultimately show ?thesis by (simp only: u)
qed

lemma sdiv2_bounds: "(d :: int) sdiv 2 = (if 0 \<le> d then d div 2 else - ((- d) div 2))"
  by (simp add: signed_divide_int_def sgn_if)

section \<open>Step relations with an invariant\<close>

locale step_system =
  fixes boot :: "'s \<Rightarrow> bool"
    and step :: "'s \<Rightarrow> 's \<Rightarrow> bool"
    and inv :: "'s \<Rightarrow> bool"
  assumes inv_boot: "boot s \<Longrightarrow> inv s"
    and inv_step: "inv s \<Longrightarrow> step s s' \<Longrightarrow> inv s'"
begin

lemma inv_steps: "step\<^sup>*\<^sup>* s s' \<Longrightarrow> inv s \<Longrightarrow> inv s'"
  by (induction rule: rtranclp_induct) (auto intro: inv_step)

lemma inv_reachable: "boot s0 \<Longrightarrow> step\<^sup>*\<^sup>* s0 s \<Longrightarrow> inv s"
  using inv_steps inv_boot by blast

end

section \<open>The run-command interface\<close>

text \<open>
  \<open>status\<close> is the source of the run in progress (0 when idle) and \<open>release\<close> the command with
  which overload, emergency stop, horn mode and the hold watchdog stop it: it always ends
  the run, and on an idle machine with no touch pairing pending it changes nothing.
\<close>

locale run_control =
  fixes status :: "'s \<Rightarrow> 8 word"
    and release :: "8 word \<Rightarrow> 's \<Rightarrow> 's"
    and stop :: "8 word \<Rightarrow> 's \<Rightarrow> 's"
  assumes release_stops: "status (release src s) = 0"
    and stop_eq: "stop src s = (if src \<noteq> 0 then release src s else s)"
begin

lemma stop_stops: "src \<noteq> 0 \<Longrightarrow> status (stop src s) = 0"
  by (simp add: stop_eq release_stops)

lemma stop_fresh: "status (stop (status s) s) = 0"
  by (simp add: stop_eq release_stops)

lemma stop_never_starts: "status (stop src s) \<in> {0, status s}"
  by (simp add: stop_eq release_stops)

lemma stop_idle: "status s = 0 \<Longrightarrow> status (stop src s) = 0"
  using stop_never_starts [of src s] by auto

end

end
