(* ===== verification/Regulator.thy ===== *)
theory Regulator
  imports Sys_State Sys_Prelude
begin

text \<open>
  The regulator, \<open>fw/src/app_reg.c\<close>: which START is accepted, what stops a run (release, the
  30 s safety ceiling, the on-time limit, the energy target, the time-over fault), the
  averaging of the two converter channels, the published measurements and the drive of the
  ultrasonic output. The state is \<open>g_reg\<close> and \<open>g_measure\<close> of the system record.
\<close>

section \<open>Data\<close>

abbreviation (input) REG_TICK_MS :: u32 where "REG_TICK_MS \<equiv> 2"
abbreviation (input) REG_ACQ_MS :: u32 where "REG_ACQ_MS \<equiv> 1"
abbreviation (input) CH0_SAMPLES :: u16 where "CH0_SAMPLES \<equiv> 10"
abbreviation (input) CH1_SAMPLES :: u16 where "CH1_SAMPLES \<equiv> 50"
abbreviation (input) ADC_NORM_SHIFT :: nat where "ADC_NORM_SHIFT \<equiv> 2"
abbreviation (input) REG_RAMP_MS :: u32 where "REG_RAMP_MS \<equiv> 10"
abbreviation (input) RAMP_DONE_COUNT :: u16 where "RAMP_DONE_COUNT \<equiv> 401"
abbreviation (input) ON_TIME_UNIT_MS :: u32 where "ON_TIME_UNIT_MS \<equiv> 10"
abbreviation (input) ON_TIME_SAFETY_MS :: u32 where "ON_TIME_SAFETY_MS \<equiv> 30000"
abbreviation (input) MODEL_TYPE_HAND :: u8 where "MODEL_TYPE_HAND \<equiv> 0"

record reg_run_limits =
  rl_limit_on_time :: u16
  rl_energy_ctrl :: u8
  rl_limit_energy :: u32
  rl_limit_out_time :: u16
  rl_freq_cal_val :: u16
  rl_model_type :: u8
  rl_cal_val :: u16

section \<open>Operations\<close>

definition app_reg_hook_us_output :: "bool \<Rightarrow> sys \<Rightarrow> sys" where
  "app_reg_hook_us_output on s = board_osc4 on (io_usout on s)"

definition reg_stop_run :: "u8 \<Rightarrow> sys \<Rightarrow> sys" where
  "reg_stop_run rs s =
     (let r = (g_reg s)\<lparr>
            rg_last_power := rg_max_power (g_reg s),
            rg_last_amp := rg_max_amp (g_reg s),
            rg_last_energy := me_curr_energy (g_measure s),
            rg_last_freq := me_curr_freq (g_measure s),
            rg_us_run_status := US_IDLE\<rparr>;
          r = (if rs = US_TOUCH then r\<lparr>rg_swallow_start := 1\<rparr> else r)
      in s\<lparr>g_reg := r\<rparr>)"

text \<open>
  The memset clears \<open>g_reg\<close> and \<open>g_measure\<close>; the filter of the display current is a static
  of its own, which only the program start zeroes.
\<close>

definition app_reg_init :: "env \<Rightarrow> sys \<Rightarrow> sys" where
  "app_reg_init e s = s\<lparr>
     g_reg := reg_state_zero\<lparr>rg_prev_ms := e_now e, rg_prev_acq_ms := e_now e,
       rg_prev_ramp_ms := e_now e, rg_main_state := 1,
       rg_ch1_filt_x16 := rg_ch1_filt_x16 (g_reg s)\<rparr>,
     g_measure := lcd_measure_zero\<rparr>"

definition app_reg_start_allowed :: "sys \<Rightarrow> bool" where
  "app_reg_start_allowed s \<longleftrightarrow>
     rg_main_state (g_reg s) = 0 \<and>
     rg_us_run_status (g_reg s) = US_IDLE \<and>
     app_seek_reset_active s = 0 \<and>
     rg_error_status (g_reg s) = 0 \<and>
     app_overload_active s = 0 \<and>
     app_estop_active s = 0 \<and>
     app_horn_mode_active s = 0"

definition app_reg_raise_ovtime :: "sys \<Rightarrow> sys" where
  "app_reg_raise_ovtime s =
     s\<lparr>g_reg := (g_reg s)\<lparr>rg_error_status := rg_error_status (g_reg s) OR ERR_OVTIME\<rparr>\<rparr>"

text \<open>The latch of the seek/reset glue that SEEK and RESET commands fill.\<close>

definition app_seek_reset_request :: "us_cmd \<Rightarrow> u8 \<Rightarrow> sys \<Rightarrow> sys" where
  "app_seek_reset_request cmd src s =
     (if cmd = US_CMD_RESET then s\<lparr>g_sr := (g_sr s)\<lparr>sg_pending_cmd := SR_CMD_RESET\<rparr>\<rparr>
      else if cmd = US_CMD_SEEK then s\<lparr>g_sr := (g_sr s)\<lparr>sg_pending_cmd := SR_CMD_SEEK\<rparr>\<rparr>
      else s)"

definition reg_cmd_start :: "u32 \<Rightarrow> u8 \<Rightarrow> sys \<Rightarrow> sys" where
  "reg_cmd_start now src s =
     (if rg_main_state (g_reg s) = 0 \<and> rg_us_run_status (g_reg s) = US_IDLE then
        if src = US_TOUCH \<and> rg_swallow_start (g_reg s) \<noteq> 0
        then s\<lparr>g_reg := (g_reg s)\<lparr>rg_swallow_start := 0\<rparr>\<rparr>
        else if \<not> app_reg_start_allowed s then s
        else s\<lparr>g_reg := (g_reg s)\<lparr>rg_us_run_status := src, rg_max_power := 0, rg_max_amp := 0,
                  rg_run_start_ms := now, rg_acc_energy := 0\<rparr>,
               g_measure := (g_measure s)\<lparr>me_us_on_time_200m := 0, me_curr_energy := 0\<rparr>\<rparr>
      else s)"

definition reg_cmd_release :: "u8 \<Rightarrow> sys \<Rightarrow> sys" where
  "reg_cmd_release src s =
     (if rg_us_run_status (g_reg s) \<noteq> US_IDLE
      then s\<lparr>g_reg := (g_reg s)\<lparr>
             rg_last_power := rg_max_power (g_reg s),
             rg_last_amp := rg_max_amp (g_reg s),
             rg_last_energy := me_curr_energy (g_measure s),
             rg_last_freq := me_curr_freq (g_measure s),
             rg_us_run_status := US_IDLE\<rparr>\<rparr>
      else if src = US_TOUCH \<and> rg_swallow_start (g_reg s) \<noteq> 0
      then s\<lparr>g_reg := (g_reg s)\<lparr>rg_swallow_start := 0\<rparr>\<rparr>
      else s)"

definition app_reg_command :: "u32 \<Rightarrow> us_cmd \<Rightarrow> u8 \<Rightarrow> sys \<Rightarrow> sys" where
  "app_reg_command now cmd src s =
     (case cmd of
        US_CMD_START \<Rightarrow> reg_cmd_start now src s
      | US_CMD_RUN_RELEASE \<Rightarrow> reg_cmd_release src s
      | US_CMD_SEEK \<Rightarrow> app_seek_reset_request cmd src s
      | US_CMD_RESET \<Rightarrow>
          app_seek_reset_request cmd src (s\<lparr>g_reg := (g_reg s)\<lparr>rg_error_status := 0\<rparr>\<rparr>))"

section \<open>Acquisition\<close>

definition reg_acquire_ch0 :: "u16 \<Rightarrow> reg_state \<Rightarrow> reg_state" where
  "reg_acquire_ch0 adc r =
     (let s0 = drop_bit ADC_NORM_SHIFT adc;
          r = r\<lparr>rg_ch0_acc := rg_ch0_acc r + ucast s0, rg_ch0_cnt := rg_ch0_cnt r + 1\<rparr>
      in if CH0_SAMPLES \<le> rg_ch0_cnt r
         then r\<lparr>rg_ch0_avg := ucast (rg_ch0_acc r div 10), rg_ch0_acc := 0, rg_ch0_cnt := 0\<rparr>
         else r)"

text \<open>
  The second channel ends in a first-order filter in 16ths; its int32 difference is halved
  towards zero, as C does.
\<close>

definition ema_half :: "u32 \<Rightarrow> u32 \<Rightarrow> u32" where
  "ema_half avg filt =
     (let d = sint (push_bit 4 avg) - sint filt in word_of_int (sint filt + d sdiv 2))"

definition reg_acquire_ch1 :: "u16 \<Rightarrow> reg_state \<Rightarrow> reg_state" where
  "reg_acquire_ch1 s1 r =
     (let r = r\<lparr>rg_ch1_acc := rg_ch1_acc r + ucast s1, rg_ch1_cnt := rg_ch1_cnt r + 1\<rparr>
      in if CH1_SAMPLES \<le> rg_ch1_cnt r
         then (let avg = (rg_ch1_acc r * 6) div 50;
                   f = ema_half avg (rg_ch1_filt_x16 r)
               in r\<lparr>rg_ch1_filt_x16 := f, rg_ch1_avg := ucast (drop_bit 4 f),
                    rg_ch1_acc := 0, rg_ch1_cnt := 0\<rparr>)
         else r)"

definition reg_acquire_step :: "env \<Rightarrow> sys \<Rightarrow> sys" where
  "reg_acquire_step e s =
     s\<lparr>g_reg := reg_acquire_ch1 (e_adc_osc e) (reg_acquire_ch0 (e_adc_sens_out e) (g_reg s))\<rparr>"

section \<open>Publication\<close>

text \<open>The edges of a seek or reset: peaks and energy restart, then the last values latch.\<close>

definition publish_sr_edge :: "u8 \<Rightarrow> reg_state \<times> lcd_measure \<Rightarrow> reg_state \<times> lcd_measure" where
  "publish_sr_edge sr rm =
     (let (r, m) = rm in
      if sr \<noteq> rg_sr_disp_active r
      then (let r = (if sr \<noteq> 0
                     then r\<lparr>rg_max_amp := 0, rg_max_power := 0, rg_last_energy := 0,
                            rg_acc_energy := 0\<rparr>
                     else r\<lparr>rg_last_amp := me_curr_amp m, rg_last_power := me_curr_power m,
                            rg_last_energy := me_curr_energy m, rg_acc_energy := 0\<rparr>);
                m = m\<lparr>me_curr_energy := 0\<rparr>
            in (r\<lparr>rg_sr_disp_active := sr\<rparr>, m))
      else (r, m))"

text \<open>The displayed current and power with their peaks.\<close>

definition publish_power :: "bool \<Rightarrow> reg_state \<times> lcd_measure \<Rightarrow> reg_state \<times> lcd_measure" where
  "publish_power live rm =
     (let (r, m) = rm;
          disp_amp = reg_current_from_adc (rg_ch1_avg r) (rg_cal_val r);
          m = m\<lparr>me_curr_amp := disp_amp\<rparr>;
          r = (if live \<and> rg_max_amp r < disp_amp then r\<lparr>rg_max_amp := disp_amp\<rparr> else r);
          disp_pwr = reg_power_from_amp disp_amp;
          m = m\<lparr>me_curr_power := (if live then disp_pwr else 0)\<rparr>;
          r = (if live \<and> rg_max_power r < disp_pwr then r\<lparr>rg_max_power := disp_pwr\<rparr> else r)
      in (r, m))"

text \<open>The energy integral and the on-time bar of a run.\<close>

definition publish_energy :: "u32 \<Rightarrow> bool \<Rightarrow> reg_state \<times> lcd_measure \<Rightarrow> reg_state \<times> lcd_measure" where
  "publish_energy now active rm =
     (let (r, m) = rm in
      if active
      then (let r = r\<lparr>rg_acc_energy := rg_acc_energy r + ucast (me_curr_power m)\<rparr>
            in (r, m\<lparr>me_curr_energy := reg_energy_from_acc (rg_acc_energy r),
                     me_us_on_time_200m := reg_on_time_200m (elapsed now (rg_run_start_ms r))\<rparr>))
      else (r, m))"

definition publish_mirror :: "bool \<Rightarrow> u16 \<Rightarrow> reg_state \<Rightarrow> lcd_measure \<Rightarrow> lcd_measure" where
  "publish_mirror live freq r m = m\<lparr>
     me_max_power := rg_max_power r,
     me_last_power := rg_last_power r,
     me_max_amp := rg_max_amp r,
     me_last_amp := rg_last_amp r,
     me_last_energy := rg_last_energy r,
     me_curr_freq := freq,
     me_last_freq := rg_last_freq r,
     me_us_run_status := rg_us_run_status r,
     me_us_on_status := b2u live,
     me_error_status := rg_error_status r\<rparr>"

definition reg_publish_measure :: "u32 \<Rightarrow> u16 \<Rightarrow> sys \<Rightarrow> sys" where
  "reg_publish_measure now fcal s =
     (let active = (rg_us_run_status (g_reg s) \<noteq> US_IDLE);
          sr = app_seek_reset_active s;
          rm = publish_sr_edge sr (g_reg s, g_measure s);
          live = (active \<or> sr \<noteq> 0);
          (r, m) = publish_energy now active (publish_power live rm);
          (fq, freq) = freq_fsm_compute fcal (g_freq s);
          m = publish_mirror live freq r m;
          s = s\<lparr>g_reg := r, g_measure := m, g_freq := fq\<rparr>
      in if b2u active \<noteq> rg_us_out_on r
         then app_reg_hook_us_output active (s\<lparr>g_reg := r\<lparr>rg_us_out_on := b2u active\<rparr>\<rparr>)
         else s)"

section \<open>What ends a run\<close>

definition reg_check_safety_ceiling :: "u32 \<Rightarrow> sys \<Rightarrow> sys" where
  "reg_check_safety_ceiling now s =
     (let rs = rg_us_run_status (g_reg s) in
      if (rs = US_TOUCH \<or> rs = US_COMM \<or> rs = US_REMOTE \<or> rs = US_CYCLE) \<and>
         ON_TIME_SAFETY_MS \<le> elapsed now (rg_run_start_ms (g_reg s))
      then reg_stop_run rs s else s)"

definition reg_check_auto_terminate :: "u32 \<Rightarrow> reg_run_limits \<Rightarrow> sys \<Rightarrow> sys" where
  "reg_check_auto_terminate now lim s =
     (let rs = rg_us_run_status (g_reg s) in
      if rs = US_TOUCH \<or> rs = US_COMM \<or> rs = US_REMOTE
      then (let el = elapsed now (rg_run_start_ms (g_reg s)) in
            if rl_energy_ctrl lim \<noteq> 0
            then (case reg_energy_termination (rl_energy_ctrl lim) (me_curr_energy (g_measure s))
                         (rl_limit_energy lim) el (rl_limit_out_time lim) of
                    REG_RUN_CONTINUE \<Rightarrow> s
                  | REG_RUN_STOP_ENERGY \<Rightarrow> reg_stop_run rs s
                  | REG_RUN_FAULT_OVTIME \<Rightarrow> app_reg_raise_ovtime (reg_stop_run rs s))
            else if rl_model_type lim = MODEL_TYPE_HAND \<and> (rs = US_COMM \<or> rs = US_REMOTE) \<and>
                    rl_limit_on_time lim \<noteq> 0 \<and>
                    ucast (rl_limit_on_time lim) * ON_TIME_UNIT_MS \<le> el
            then reg_stop_run rs s
            else s)
      else s)"

section \<open>The tick\<close>

definition reg_warm_up :: "u32 \<Rightarrow> reg_state \<Rightarrow> reg_state" where
  "reg_warm_up now r =
     (if REG_RAMP_MS \<le> elapsed now (rg_prev_ramp_ms r)
      then (let r = r\<lparr>rg_prev_ramp_ms := now\<rparr> in
            if rg_main_state r = 1
            then (let r = r\<lparr>rg_ramp_counter := rg_ramp_counter r + 1\<rparr>
                  in if RAMP_DONE_COUNT \<le> rg_ramp_counter r then r\<lparr>rg_main_state := 0\<rparr> else r)
            else r)
      else r)"

definition reg_select :: "reg_state \<Rightarrow> reg_state" where
  "reg_select r =
     (let sel = (if rg_main_state r = 1 \<or> rg_us_run_status r = US_IDLE then 0
                 else reg_scale (rg_ch0_avg r))
      in r\<lparr>rg_adc_scaled_value := sel, rg_band := of_nat (reg_output_level sel)\<rparr>)"

definition app_reg_tick :: "env \<Rightarrow> reg_run_limits \<Rightarrow> sys \<Rightarrow> sys" where
  "app_reg_tick e lim s =
     (let now = e_now e;
          s = s\<lparr>g_reg := reg_warm_up now ((g_reg s)\<lparr>rg_cal_val := rl_cal_val lim\<rparr>)\<rparr>;
          s = reg_check_safety_ceiling now s;
          s = reg_check_auto_terminate now lim s;
          s = (if REG_ACQ_MS \<le> elapsed now (rg_prev_acq_ms (g_reg s))
               then reg_acquire_step e (s\<lparr>g_reg := (g_reg s)\<lparr>rg_prev_acq_ms := now\<rparr>\<rparr>)
               else s)
      in if elapsed now (rg_prev_ms (g_reg s)) < REG_TICK_MS then s
         else reg_publish_measure now (rl_freq_cal_val lim)
                (s\<lparr>g_reg := reg_select ((g_reg s)\<lparr>rg_prev_ms := now\<rparr>)\<rparr>))"


text \<open>The snippet with which overload, emergency stop and horn mode stop the run of a source.\<close>

definition reg_force_stop :: "u32 \<Rightarrow> u8 \<Rightarrow> sys \<Rightarrow> sys" where
  "reg_force_stop now src s =
     (if src \<noteq> US_IDLE then app_reg_command now US_CMD_RUN_RELEASE src s else s)"

interpretation run: run_control "\<lambda>s. rg_us_run_status (g_reg s)"
    "app_reg_command now US_CMD_RUN_RELEASE" "reg_force_stop now"
  by unfold_locales
    (simp_all add: app_reg_command_def reg_cmd_release_def reg_force_stop_def)

section \<open>The filter\<close>

lemma ema_half_value:
  assumes "unat avg < 134217728" "unat filt < 2147483648"
  shows "int (unat (ema_half avg filt)) =
    int (unat filt) + (16 * int (unat avg) - int (unat filt)) sdiv 2"
proof -
  define a f where "a = int (unat avg)" and "f = int (unat filt)"
  have af: "0 \<le> a" "a < 134217728" "0 \<le> f" "f < 2147483648"
    unfolding a_def f_def using assms by linarith+
  have p: "unat (push_bit 4 avg) = 16 * unat avg"
    using assms(1) by (simp add: push_bit_eq_mult unat_mult_small mult.commute)
  have "sint (push_bit 4 avg) = int (unat (push_bit 4 avg))"
    by (rule sint_small) (use assms(1) p in linarith)
  then have as: "sint (push_bit 4 avg) = 16 * a" by (simp only: p a_def of_nat_mult of_nat_numeral)
  have fs: "sint filt = f" unfolding f_def by (rule sint_small) (rule assms)
  define x where "x = f + (16 * a - f) sdiv 2"
  have x: "min f (16 * a) \<le> x" "x \<le> max f (16 * a)"
    by (auto simp: x_def sdiv2_bounds min_def max_def)
  have e: "ema_half avg filt = word_of_int x" by (simp add: ema_half_def Let_def as fs x_def)
  have "0 \<le> x" "x < 4294967296" using x af by (auto simp: min_def max_def split: if_splits)
  then have "int (unat (ema_half avg filt)) = x"
    unfolding e by (simp add: unsigned_of_int take_bit_int_eq_self)
  then show ?thesis by (simp only: x_def a_def f_def)
qed

lemma ema_half_between:
  assumes "unat avg < 134217728" "unat filt < 2147483648"
  shows "unat (ema_half avg filt) \<le> max (unat filt) (16 * unat avg)"
proof -
  have "int (unat filt) + (16 * int (unat avg) - int (unat filt)) sdiv 2 \<le>
      max (int (unat filt)) (16 * int (unat avg))"
    by (auto simp only: sdiv2_bounds max_def split: if_splits)
  then have "int (unat (ema_half avg filt)) \<le> max (int (unat filt)) (16 * int (unat avg))"
    by (simp only: ema_half_value [OF assms])
  moreover have "max (int (unat filt)) (16 * int (unat avg)) = int (max (unat filt) (16 * unat avg))"
    by (simp only: of_nat_max of_nat_mult of_nat_numeral)
  ultimately show ?thesis by linarith
qed

section \<open>The invariant\<close>


definition acq_ok :: "reg_state \<Rightarrow> bool" where
  "acq_ok r \<longleftrightarrow>
     unat (rg_ch0_cnt r) < 10 \<and> unat (rg_ch0_acc r) \<le> 1023 * unat (rg_ch0_cnt r) \<and>
     unat (rg_ch0_avg r) \<le> 1023 \<and>
     unat (rg_ch1_cnt r) < 50 \<and> unat (rg_ch1_acc r) \<le> 4095 * unat (rg_ch1_cnt r) \<and>
     unat (rg_ch1_filt_x16 r) \<le> 16 * 24570 \<and> unat (rg_ch1_avg r) \<le> 24570"

lemma acquire_ch0_ok:
  assumes "acq_ok r" "unat adc < 4096"
  shows "acq_ok (reg_acquire_ch0 adc r)"
proof -
  define s0 where "s0 = drop_bit 2 adc"
  have s0: "unat s0 \<le> 1023" using assms(2) by (simp add: s0_def unat_drop_bit_div)
  have c: "unat (rg_ch0_cnt r) < 10" "unat (rg_ch0_acc r) \<le> 1023 * unat (rg_ch0_cnt r)"
    using assms(1) by (simp_all add: acq_ok_def)
  have cnt: "unat (rg_ch0_cnt r + 1) = Suc (unat (rg_ch0_cnt r))"
    by (subst unat_add_small) (use c in simp_all)
  have acc: "unat (rg_ch0_acc r + ucast s0) = unat (rg_ch0_acc r) + unat s0"
    by (subst unat_add_small) (use c s0 in \<open>simp_all add: unat_casts\<close>)
  have avg: "unat (ucast ((rg_ch0_acc r + ucast s0) div 10) :: u16) \<le> 1023"
    using acc c s0 by (simp add: unat_casts unat_div)
  show ?thesis
    using assms(1) cnt acc avg s0 c
    by (auto simp: reg_acquire_ch0_def Let_def acq_ok_def s0_def [symmetric] word_le_nat_alt)
qed

lemma acquire_ch1_ok:
  assumes "acq_ok r" "unat s1 < 4096"
  shows "acq_ok (reg_acquire_ch1 s1 r)"
proof -
  have c: "unat (rg_ch1_cnt r) < 50" "unat (rg_ch1_acc r) \<le> 4095 * unat (rg_ch1_cnt r)"
    "unat (rg_ch1_filt_x16 r) \<le> 393120"
    using assms(1) by (simp_all add: acq_ok_def)
  have cnt: "unat (rg_ch1_cnt r + 1) = Suc (unat (rg_ch1_cnt r))"
    by (subst unat_add_small) (use c in simp_all)
  have acc: "unat (rg_ch1_acc r + ucast s1) = unat (rg_ch1_acc r) + unat s1"
    by (subst unat_add_small) (use c assms(2) in \<open>simp_all add: unat_casts\<close>)
  define avg where "avg = (rg_ch1_acc r + ucast s1) * 6 div 50"
  have "unat ((rg_ch1_acc r + ucast s1) * 6) = (unat (rg_ch1_acc r) + unat s1) * 6"
    by (subst unat_mult_small) (use acc c assms(2) in simp_all)
  then have avg: "unat avg \<le> 24570" using c assms(2) by (simp add: avg_def unat_div)
  define f where "f = ema_half avg (rg_ch1_filt_x16 r)"
  have f: "unat f \<le> 393120"
    using ema_half_between [of avg "rg_ch1_filt_x16 r"] avg c(3) by (simp add: f_def)
  have fd: "unat (ucast (drop_bit 4 f) :: u16) \<le> 24570"
    using f by (simp add: unat_casts unat_drop_bit_div)
  have "reg_acquire_ch1 s1 r =
      (if CH1_SAMPLES \<le> rg_ch1_cnt r + 1
       then r\<lparr>rg_ch1_filt_x16 := f, rg_ch1_avg := ucast (drop_bit 4 f), rg_ch1_acc := 0,
              rg_ch1_cnt := 0\<rparr>
       else r\<lparr>rg_ch1_acc := rg_ch1_acc r + ucast s1, rg_ch1_cnt := rg_ch1_cnt r + 1\<rparr>)"
    by (simp add: reg_acquire_ch1_def Let_def f_def avg_def)
  then show ?thesis
    using assms cnt acc f fd c by (auto simp: acq_ok_def word_le_nat_alt)
qed


definition reg_inv :: "sys \<Rightarrow> bool" where
  "reg_inv s \<longleftrightarrow>
     rg_us_run_status (g_reg s) \<in> {US_IDLE, US_REMOTE, US_TOUCH, US_COMM, US_CYCLE} \<and>
     (rg_main_state (g_reg s) = 0 \<or> rg_main_state (g_reg s) = 1 \<and> rg_us_run_status (g_reg s) = US_IDLE) \<and>
     rg_us_out_on (g_reg s) \<in> {0, 1} \<and>
     out_usout (g_out s) = (rg_us_out_on (g_reg s) = 1) \<and>
     out_osc4 (g_out s) = (rg_us_out_on (g_reg s) = 1) \<and>
     acq_ok (g_reg s)"

text \<open>Operations that touch none of the averaging fields.\<close>

lemma acq_ok_cong:
  assumes "rg_ch0_cnt r' = rg_ch0_cnt r" "rg_ch0_acc r' = rg_ch0_acc r"
    "rg_ch0_avg r' = rg_ch0_avg r" "rg_ch1_cnt r' = rg_ch1_cnt r" "rg_ch1_acc r' = rg_ch1_acc r"
    "rg_ch1_filt_x16 r' = rg_ch1_filt_x16 r" "rg_ch1_avg r' = rg_ch1_avg r"
  shows "acq_ok r' = acq_ok r"
  using assms by (simp add: acq_ok_def)

lemma acq_ok_updates [simp]:
  "acq_ok (r\<lparr>rg_us_run_status := x1\<rparr>) = acq_ok r"
  "acq_ok (r\<lparr>rg_main_state := x1\<rparr>) = acq_ok r"
  "acq_ok (r\<lparr>rg_us_out_on := x1\<rparr>) = acq_ok r"
  "acq_ok (r\<lparr>rg_swallow_start := x1\<rparr>) = acq_ok r"
  "acq_ok (r\<lparr>rg_error_status := x1\<rparr>) = acq_ok r"
  "acq_ok (r\<lparr>rg_last_power := x2\<rparr>) = acq_ok r"
  "acq_ok (r\<lparr>rg_last_amp := x2\<rparr>) = acq_ok r"
  "acq_ok (r\<lparr>rg_last_freq := x2\<rparr>) = acq_ok r"
  "acq_ok (r\<lparr>rg_max_power := x2\<rparr>) = acq_ok r"
  "acq_ok (r\<lparr>rg_max_amp := x2\<rparr>) = acq_ok r"
  "acq_ok (r\<lparr>rg_cal_val := x2\<rparr>) = acq_ok r"
  "acq_ok (r\<lparr>rg_ramp_counter := x2\<rparr>) = acq_ok r"
  "acq_ok (r\<lparr>rg_adc_scaled_value := x2\<rparr>) = acq_ok r"
  "acq_ok (r\<lparr>rg_band := x1\<rparr>) = acq_ok r"
  "acq_ok (r\<lparr>rg_sr_disp_active := x1\<rparr>) = acq_ok r"
  "acq_ok (r\<lparr>rg_last_energy := x3\<rparr>) = acq_ok r"
  "acq_ok (r\<lparr>rg_acc_energy := x3\<rparr>) = acq_ok r"
  "acq_ok (r\<lparr>rg_run_start_ms := x3\<rparr>) = acq_ok r"
  "acq_ok (r\<lparr>rg_prev_ramp_ms := x3\<rparr>) = acq_ok r"
  "acq_ok (r\<lparr>rg_prev_acq_ms := x3\<rparr>) = acq_ok r"
  "acq_ok (r\<lparr>rg_prev_ms := x3\<rparr>) = acq_ok r"
  by (rule acq_ok_cong; simp)+

lemma reg_inv_stop: "reg_inv s \<Longrightarrow> reg_inv (reg_stop_run rs s)"
  by (auto simp: reg_inv_def reg_stop_run_def Let_def)

lemma reg_inv_fault: "reg_inv s \<Longrightarrow> reg_inv (app_reg_raise_ovtime s)"
  by (auto simp: reg_inv_def app_reg_raise_ovtime_def)

lemma reg_inv_command:
  assumes "reg_inv s" "src \<in> {US_REMOTE, US_TOUCH, US_COMM, US_CYCLE}"
  shows "reg_inv (app_reg_command now cmd src s)"
  using assms
  by (cases cmd)
    (auto simp: reg_inv_def app_reg_command_def reg_cmd_start_def reg_cmd_release_def
      app_seek_reset_request_def)

lemma reg_inv_safety: "reg_inv s \<Longrightarrow> reg_inv (reg_check_safety_ceiling now s)"
  by (simp add: reg_check_safety_ceiling_def Let_def reg_inv_stop)

lemma reg_inv_auto: "reg_inv s \<Longrightarrow> reg_inv (reg_check_auto_terminate now lim s)"
  by (auto simp: reg_check_auto_terminate_def Let_def reg_inv_stop reg_inv_fault
      split: reg_energy_outcome.splits)

lemma acquire_keeps [simp]:
  "rg_us_run_status (reg_acquire_ch1 a (reg_acquire_ch0 b r)) = rg_us_run_status r"
  "rg_main_state (reg_acquire_ch1 a (reg_acquire_ch0 b r)) = rg_main_state r"
  "rg_us_out_on (reg_acquire_ch1 a (reg_acquire_ch0 b r)) = rg_us_out_on r"
  "rg_run_start_ms (reg_acquire_ch1 a (reg_acquire_ch0 b r)) = rg_run_start_ms r"
  "rg_prev_ms (reg_acquire_ch1 a (reg_acquire_ch0 b r)) = rg_prev_ms r"
  "rg_error_status (reg_acquire_ch1 a (reg_acquire_ch0 b r)) = rg_error_status r"
  by (simp_all add: reg_acquire_ch1_def reg_acquire_ch0_def Let_def)

lemma reg_inv_acquire:
  assumes "reg_inv s" "unat (e_adc_sens_out e) < 4096" "unat (e_adc_osc e) < 4096"
  shows "reg_inv (reg_acquire_step e s)"
  using assms by (auto simp: reg_inv_def reg_acquire_step_def acquire_ch0_ok acquire_ch1_ok)

text \<open>Publication keeps the control fields of the regulator.\<close>

definition same_ctl :: "reg_state \<Rightarrow> reg_state \<Rightarrow> bool" where
  "same_ctl r' r \<longleftrightarrow> rg_us_run_status r' = rg_us_run_status r \<and>
     rg_main_state r' = rg_main_state r \<and> rg_us_out_on r' = rg_us_out_on r \<and>
     rg_run_start_ms r' = rg_run_start_ms r \<and> rg_error_status r' = rg_error_status r \<and>
     rg_swallow_start r' = rg_swallow_start r \<and> rg_ramp_counter r' = rg_ramp_counter r \<and>
     rg_prev_ramp_ms r' = rg_prev_ramp_ms r \<and> acq_ok r' = acq_ok r"

lemma publish_same_ctl:
  "same_ctl (fst (publish_sr_edge sr rm)) (fst rm)"
  "same_ctl (fst (publish_power live rm)) (fst rm)"
  "same_ctl (fst (publish_energy now active rm)) (fst rm)"
  by (auto simp: same_ctl_def publish_sr_edge_def publish_power_def publish_energy_def Let_def
      split: prod.split)

lemma same_ctl_trans: "same_ctl r'' r' \<Longrightarrow> same_ctl r' r \<Longrightarrow> same_ctl r'' r"
  by (simp add: same_ctl_def)


lemma publish_effect:
  obtains r m fq where
    "same_ctl r (g_reg s)"
    "me_us_run_status m = rg_us_run_status (g_reg s)"
    "me_error_status m = rg_error_status (g_reg s)"
    "me_us_on_status m =
       b2u (rg_us_run_status (g_reg s) \<noteq> US_IDLE \<or> app_seek_reset_active s \<noteq> 0)"
    "me_curr_power m = (if rg_us_run_status (g_reg s) \<noteq> US_IDLE \<or> app_seek_reset_active s \<noteq> 0
       then reg_power_from_amp (reg_current_from_adc (rg_ch1_avg (g_reg s)) (rg_cal_val (g_reg s)))
       else 0)"
    "reg_publish_measure now fcal s =
       (let on = (rg_us_run_status (g_reg s) \<noteq> US_IDLE) in
        if b2u on \<noteq> rg_us_out_on (g_reg s)
        then s\<lparr>g_reg := r\<lparr>rg_us_out_on := b2u on\<rparr>, g_measure := m, g_freq := fq,
               g_out := (g_out s)\<lparr>out_usout := on, out_osc4 := on\<rparr>\<rparr>
        else s\<lparr>g_reg := r, g_measure := m, g_freq := fq\<rparr>)"
proof -
  define active where "active = (rg_us_run_status (g_reg s) \<noteq> US_IDLE)"
  define sr where "sr = app_seek_reset_active s"
  define live where "live = (active \<or> sr \<noteq> 0)"
  define rm0 where "rm0 = publish_sr_edge sr (g_reg s, g_measure s)"
  define rm1 where "rm1 = publish_power live rm0"
  define rm2 where "rm2 = publish_energy (now :: u32) active rm1"
  define fv where "fv = freq_fsm_compute fcal (g_freq s)"
  define m where "m = publish_mirror live (snd fv) (fst rm2) (snd rm2)"
  have ctl: "same_ctl (fst rm2) (g_reg s)"
    using publish_same_ctl(1) [of sr "(g_reg s, g_measure s)"] publish_same_ctl(2) [of live rm0]
      publish_same_ctl(3) [of now active rm1]
    unfolding rm0_def [symmetric] rm1_def [symmetric] rm2_def [symmetric]
    by (auto intro: same_ctl_trans)
  have adc: "rg_ch1_avg (fst rm0) = rg_ch1_avg (g_reg s)" "rg_cal_val (fst rm0) = rg_cal_val (g_reg s)"
    by (simp_all add: rm0_def publish_sr_edge_def Let_def)
  have pw: "me_curr_power m = (if live
       then reg_power_from_amp (reg_current_from_adc (rg_ch1_avg (g_reg s)) (rg_cal_val (g_reg s)))
       else 0)"
    by (simp add: m_def publish_mirror_def rm2_def publish_energy_def rm1_def publish_power_def
        Let_def case_prod_unfold adc)
  have eq: "reg_publish_measure now fcal s =
      (if b2u active \<noteq> rg_us_out_on (fst rm2)
       then app_reg_hook_us_output active
              (s\<lparr>g_reg := (fst rm2)\<lparr>rg_us_out_on := b2u active\<rparr>, g_measure := m, g_freq := fst fv\<rparr>)
       else s\<lparr>g_reg := fst rm2, g_measure := m, g_freq := fst fv\<rparr>)"
    unfolding reg_publish_measure_def Let_def active_def [symmetric] sr_def [symmetric]
      live_def [symmetric] rm0_def [symmetric] rm1_def [symmetric] rm2_def [symmetric]
      fv_def [symmetric] m_def
    by (simp add: case_prod_unfold app_reg_hook_us_output_def pin_defs)
  show ?thesis
    by (rule that [of "fst rm2" m "fst fv"])
      (use ctl pw in \<open>simp_all add: eq m_def publish_mirror_def same_ctl_def active_def sr_def live_def
         app_reg_hook_us_output_def pin_defs Let_def\<close>)
qed

lemma reg_inv_publish:
  assumes "reg_inv s" shows "reg_inv (reg_publish_measure now fcal s)"
proof -
  obtain r m fq where r: "same_ctl r (g_reg s)" and eq: "reg_publish_measure now fcal s =
       (let on = (rg_us_run_status (g_reg s) \<noteq> US_IDLE) in
        if b2u on \<noteq> rg_us_out_on (g_reg s)
        then s\<lparr>g_reg := r\<lparr>rg_us_out_on := b2u on\<rparr>, g_measure := m, g_freq := fq,
               g_out := (g_out s)\<lparr>out_usout := on, out_osc4 := on\<rparr>\<rparr>
        else s\<lparr>g_reg := r, g_measure := m, g_freq := fq\<rparr>)"
    by (rule publish_effect)
  show ?thesis using assms r by (auto simp: eq reg_inv_def same_ctl_def Let_def)
qed

lemma warm_up_keeps [simp]:
  "rg_us_run_status (reg_warm_up now r) = rg_us_run_status r"
  "rg_us_out_on (reg_warm_up now r) = rg_us_out_on r"
  "rg_run_start_ms (reg_warm_up now r) = rg_run_start_ms r"
  "rg_error_status (reg_warm_up now r) = rg_error_status r"
  "acq_ok (reg_warm_up now r) = acq_ok r"
  by (simp_all add: reg_warm_up_def Let_def)

lemma warm_up_main: "rg_main_state (reg_warm_up now r) \<in> {0, rg_main_state r}"
  by (simp add: reg_warm_up_def Let_def)

lemma select_keeps [simp]:
  "rg_us_run_status (reg_select r) = rg_us_run_status r"
  "rg_us_out_on (reg_select r) = rg_us_out_on r"
  "rg_main_state (reg_select r) = rg_main_state r"
  "rg_run_start_ms (reg_select r) = rg_run_start_ms r"
  "rg_error_status (reg_select r) = rg_error_status r"
  "acq_ok (reg_select r) = acq_ok r"
  by (simp_all add: reg_select_def Let_def)

lemma reg_inv_tick:
  assumes "reg_inv s" "unat (e_adc_sens_out e) < 4096" "unat (e_adc_osc e) < 4096"
  shows "reg_inv (app_reg_tick e lim s)"
proof -
  define s1 where "s1 = s\<lparr>g_reg := reg_warm_up (e_now e) ((g_reg s)\<lparr>rg_cal_val := rl_cal_val lim\<rparr>)\<rparr>"
  have "reg_inv s1"
    using assms(1) warm_up_main [of "e_now e" "(g_reg s)\<lparr>rg_cal_val := rl_cal_val lim\<rparr>"]
    by (auto simp: s1_def reg_inv_def)
  then have 2: "reg_inv (reg_check_auto_terminate (e_now e) lim (reg_check_safety_ceiling (e_now e) s1))"
    (is "reg_inv ?s2") by (intro reg_inv_auto reg_inv_safety)
  define s3 where "s3 = (if REG_ACQ_MS \<le> elapsed (e_now e) (rg_prev_acq_ms (g_reg ?s2))
     then reg_acquire_step e (?s2\<lparr>g_reg := (g_reg ?s2)\<lparr>rg_prev_acq_ms := e_now e\<rparr>\<rparr>) else ?s2)"
  have "reg_inv (?s2\<lparr>g_reg := (g_reg ?s2)\<lparr>rg_prev_acq_ms := e_now e\<rparr>\<rparr>)"
    using 2 by (auto simp: reg_inv_def)
  then have 3: "reg_inv s3" using 2 assms(2,3) by (simp add: s3_def reg_inv_acquire)
  then have "reg_inv (s3\<lparr>g_reg := reg_select ((g_reg s3)\<lparr>rg_prev_ms := e_now e\<rparr>)\<rparr>)"
    by (auto simp: reg_inv_def)
  then have "reg_inv (reg_publish_measure (e_now e) (rl_freq_cal_val lim)
      (s3\<lparr>g_reg := reg_select ((g_reg s3)\<lparr>rg_prev_ms := e_now e\<rparr>)\<rparr>))"
    by (rule reg_inv_publish)
  moreover have "app_reg_tick e lim s =
      (if elapsed (e_now e) (rg_prev_ms (g_reg s3)) < REG_TICK_MS then s3
       else reg_publish_measure (e_now e) (rl_freq_cal_val lim)
              (s3\<lparr>g_reg := reg_select ((g_reg s3)\<lparr>rg_prev_ms := e_now e\<rparr>)\<rparr>))"
    unfolding app_reg_tick_def Let_def s1_def [symmetric] s3_def [symmetric] ..
  ultimately show ?thesis using 3 by simp
qed

lemma reg_inv_init:
  assumes "\<not> out_usout (g_out s)" "\<not> out_osc4 (g_out s)" "rg_ch1_filt_x16 (g_reg s) = 0"
  shows "reg_inv (app_reg_init e s)"
  using assms by (simp add: reg_inv_def app_reg_init_def acq_ok_def reg_state_zero_def)

section \<open>Reachable states\<close>

text \<open>
  What can happen between two looks at the regulator: its tick with any limits, a command of
  any source, the fault a weld raises, and anything the other files do that leaves the
  regulator and its two output pins alone.
\<close>

inductive reg_step :: "sys \<Rightarrow> sys \<Rightarrow> bool" where
  tick: "unat (e_adc_sens_out e) < 4096 \<Longrightarrow> unat (e_adc_osc e) < 4096 \<Longrightarrow>
    reg_step s (app_reg_tick e lim s)"
| command: "src \<in> {US_REMOTE, US_TOUCH, US_COMM, US_CYCLE} \<Longrightarrow>
    reg_step s (app_reg_command now cmd src s)"
| fault: "reg_step s (app_reg_raise_ovtime s)"
| others: "g_reg s' = g_reg s \<Longrightarrow> out_usout (g_out s') = out_usout (g_out s) \<Longrightarrow>
    out_osc4 (g_out s') = out_osc4 (g_out s) \<Longrightarrow> reg_step s s'"

inductive_cases reg_stepE: "reg_step s s'"

definition reg_boot :: "sys \<Rightarrow> bool" where
  "reg_boot s \<longleftrightarrow> (\<exists>e s0. s = app_reg_init e s0 \<and> \<not> out_usout (g_out s0) \<and>
     \<not> out_osc4 (g_out s0) \<and> rg_ch1_filt_x16 (g_reg s0) = 0)"

interpretation reg: step_system reg_boot reg_step reg_inv
proof
  show "reg_inv s" if "reg_boot s" for s
    using that by (auto simp: reg_boot_def reg_inv_init)
  show "reg_inv s'" if "reg_inv s" "reg_step s s'" for s s'
    using that(2)
  proof cases
    case (others)
    then show ?thesis using that(1) by (simp add: reg_inv_def)
  qed (use that(1) in \<open>simp_all add: reg_inv_tick reg_inv_command reg_inv_fault\<close>)
qed

section \<open>Properties\<close>

text \<open>
  C11: The regulator's invariant. After boot and any sequence of ticks, commands, faults
  and steps of the other files: the run source is one of the five, no run exists during the
  warm-up, the two ultrasonic pins agree with each other and with the stored drive level; each
  averaging sum is at most the largest sample times the samples counted, fewer than a full
  window, so that it never wraps; the averages are at most 1023 and 24570, and the display filter,
  which keeps 16ths, is at most 16 times the latter.
\<close>

theorem reg_reachable_invariant:
  assumes "reg_boot s0" "reg_step\<^sup>*\<^sup>* s0 s"
  shows "rg_us_run_status (g_reg s) \<in> {US_IDLE, US_REMOTE, US_TOUCH, US_COMM, US_CYCLE} \<and>
    (rg_main_state (g_reg s) \<noteq> 0 \<longrightarrow> rg_us_run_status (g_reg s) = US_IDLE) \<and>
    out_usout (g_out s) = out_osc4 (g_out s) \<and>
    out_usout (g_out s) = (rg_us_out_on (g_reg s) \<noteq> 0) \<and>
    rg_ch0_cnt (g_reg s) < CH0_SAMPLES \<and> rg_ch1_cnt (g_reg s) < CH1_SAMPLES \<and>
    unat (rg_ch0_acc (g_reg s)) \<le> 1023 * unat (rg_ch0_cnt (g_reg s)) \<and>
    unat (rg_ch1_acc (g_reg s)) \<le> 4095 * unat (rg_ch1_cnt (g_reg s)) \<and>
    rg_ch0_avg (g_reg s) \<le> 1023 \<and> rg_ch1_avg (g_reg s) \<le> 24570 \<and>
    rg_ch1_filt_x16 (g_reg s) \<le> 16 * 24570"
  using reg.inv_reachable [OF assms]
  by (auto simp: reg_inv_def acq_ok_def word_less_nat_alt word_le_nat_alt)

text \<open>The part of a tick that ends runs.\<close>

definition reg_terminate :: "u32 \<Rightarrow> reg_run_limits \<Rightarrow> sys \<Rightarrow> sys" where
  "reg_terminate now lim s = reg_check_auto_terminate now lim (reg_check_safety_ceiling now
     (s\<lparr>g_reg := reg_warm_up now ((g_reg s)\<lparr>rg_cal_val := rl_cal_val lim\<rparr>)\<rparr>))"

lemma stop_keeps [simp]:
  "rg_run_start_ms (g_reg (reg_stop_run rs s)) = rg_run_start_ms (g_reg s)"
  "rg_prev_ms (g_reg (reg_stop_run rs s)) = rg_prev_ms (g_reg s)"
  "rg_us_out_on (g_reg (reg_stop_run rs s)) = rg_us_out_on (g_reg s)"
  "rg_us_run_status (g_reg (reg_stop_run rs s)) = US_IDLE"
  "rg_error_status (g_reg (reg_stop_run rs s)) = rg_error_status (g_reg s)"
  "g_measure (reg_stop_run rs s) = g_measure s"
  "g_out (reg_stop_run rs s) = g_out s" "g_sr (reg_stop_run rs s) = g_sr s"
  by (simp_all add: reg_stop_run_def Let_def)

lemma raise_keeps [simp]:
  "rg_run_start_ms (g_reg (app_reg_raise_ovtime s)) = rg_run_start_ms (g_reg s)"
  "rg_prev_ms (g_reg (app_reg_raise_ovtime s)) = rg_prev_ms (g_reg s)"
  "rg_us_out_on (g_reg (app_reg_raise_ovtime s)) = rg_us_out_on (g_reg s)"
  "rg_us_run_status (g_reg (app_reg_raise_ovtime s)) = rg_us_run_status (g_reg s)"
  "g_measure (app_reg_raise_ovtime s) = g_measure s"
  "g_out (app_reg_raise_ovtime s) = g_out s" "g_sr (app_reg_raise_ovtime s) = g_sr s"
  by (simp_all add: app_reg_raise_ovtime_def)

lemma warm_up_prev_ms [simp]: "rg_prev_ms (reg_warm_up now r) = rg_prev_ms r"
  by (simp add: reg_warm_up_def Let_def)

lemma terminate_keeps [simp]:
  "rg_run_start_ms (g_reg (reg_terminate now lim s)) = rg_run_start_ms (g_reg s)"
  "rg_prev_ms (g_reg (reg_terminate now lim s)) = rg_prev_ms (g_reg s)"
  "rg_us_out_on (g_reg (reg_terminate now lim s)) = rg_us_out_on (g_reg s)"
  "g_measure (reg_terminate now lim s) = g_measure s"
  "g_out (reg_terminate now lim s) = g_out s" "g_sr (reg_terminate now lim s) = g_sr s"
  by (simp_all add: reg_terminate_def reg_check_auto_terminate_def reg_check_safety_ceiling_def
      Let_def split: reg_energy_outcome.split)

lemma publish_keeps [simp]:
  "rg_us_run_status (g_reg (reg_publish_measure now fcal s)) = rg_us_run_status (g_reg s)"
  "rg_run_start_ms (g_reg (reg_publish_measure now fcal s)) = rg_run_start_ms (g_reg s)"
  "rg_error_status (g_reg (reg_publish_measure now fcal s)) = rg_error_status (g_reg s)"
proof -
  obtain r m fq where r: "same_ctl r (g_reg s)" and eq: "reg_publish_measure now fcal s =
       (let on = (rg_us_run_status (g_reg s) \<noteq> US_IDLE) in
        if b2u on \<noteq> rg_us_out_on (g_reg s)
        then s\<lparr>g_reg := r\<lparr>rg_us_out_on := b2u on\<rparr>, g_measure := m, g_freq := fq,
               g_out := (g_out s)\<lparr>out_usout := on, out_osc4 := on\<rparr>\<rparr>
        else s\<lparr>g_reg := r, g_measure := m, g_freq := fq\<rparr>)"
    by (rule publish_effect)
  show "rg_us_run_status (g_reg (reg_publish_measure now fcal s)) = rg_us_run_status (g_reg s)"
    "rg_run_start_ms (g_reg (reg_publish_measure now fcal s)) = rg_run_start_ms (g_reg s)"
    "rg_error_status (g_reg (reg_publish_measure now fcal s)) = rg_error_status (g_reg s)"
    using r by (simp_all add: eq same_ctl_def Let_def)
qed

text \<open>After the part that ends runs, a tick acquires and, at its 2 ms pace, publishes.\<close>

definition reg_acquire_gate :: "env \<Rightarrow> sys \<Rightarrow> sys" where
  "reg_acquire_gate e s =
     (if REG_ACQ_MS \<le> elapsed (e_now e) (rg_prev_acq_ms (g_reg s))
      then reg_acquire_step e (s\<lparr>g_reg := (g_reg s)\<lparr>rg_prev_acq_ms := e_now e\<rparr>\<rparr>)
      else s)"

lemma acquire_gate_keeps [simp]:
  "rg_us_run_status (g_reg (reg_acquire_gate e s)) = rg_us_run_status (g_reg s)"
  "rg_run_start_ms (g_reg (reg_acquire_gate e s)) = rg_run_start_ms (g_reg s)"
  "rg_error_status (g_reg (reg_acquire_gate e s)) = rg_error_status (g_reg s)"
  "rg_us_out_on (g_reg (reg_acquire_gate e s)) = rg_us_out_on (g_reg s)"
  "rg_prev_ms (g_reg (reg_acquire_gate e s)) = rg_prev_ms (g_reg s)"
  "g_measure (reg_acquire_gate e s) = g_measure s"
  "g_out (reg_acquire_gate e s) = g_out s" "g_sr (reg_acquire_gate e s) = g_sr s"
  by (simp_all add: reg_acquire_gate_def reg_acquire_step_def)

lemma tick_eq:
  "app_reg_tick e lim s =
     (let s3 = reg_acquire_gate e (reg_terminate (e_now e) lim s) in
      if elapsed (e_now e) (rg_prev_ms (g_reg s)) < REG_TICK_MS then s3
      else reg_publish_measure (e_now e) (rl_freq_cal_val lim)
             (s3\<lparr>g_reg := reg_select ((g_reg s3)\<lparr>rg_prev_ms := e_now e\<rparr>)\<rparr>))"
proof -
  have "app_reg_tick e lim s =
     (let s3 = reg_acquire_gate e (reg_terminate (e_now e) lim s) in
      if elapsed (e_now e) (rg_prev_ms (g_reg s3)) < REG_TICK_MS then s3
      else reg_publish_measure (e_now e) (rl_freq_cal_val lim)
             (s3\<lparr>g_reg := reg_select ((g_reg s3)\<lparr>rg_prev_ms := e_now e\<rparr>)\<rparr>))"
    unfolding app_reg_tick_def Let_def reg_acquire_gate_def [symmetric] reg_terminate_def [symmetric] ..
  then show ?thesis by (simp only: acquire_gate_keeps terminate_keeps Let_def)
qed

lemma tick_keeps:
  "rg_us_run_status (g_reg (app_reg_tick e lim s)) =
     rg_us_run_status (g_reg (reg_terminate (e_now e) lim s))"
  "rg_error_status (g_reg (app_reg_tick e lim s)) =
     rg_error_status (g_reg (reg_terminate (e_now e) lim s))"
  "rg_run_start_ms (g_reg (app_reg_tick e lim s)) = rg_run_start_ms (g_reg s)"
  by (simp_all add: tick_eq Let_def)

text \<open>What the termination part leaves running.\<close>

lemma terminate_running:
  assumes "rg_us_run_status (g_reg (reg_terminate now lim s)) \<noteq> US_IDLE"
    "rg_us_run_status (g_reg s) \<in> {US_IDLE, US_REMOTE, US_TOUCH, US_COMM, US_CYCLE}"
  shows "rg_us_run_status (g_reg (reg_terminate now lim s)) = rg_us_run_status (g_reg s)"
    and "elapsed now (rg_run_start_ms (g_reg s)) < ON_TIME_SAFETY_MS"
    and "rg_us_run_status (g_reg s) \<noteq> US_CYCLE \<Longrightarrow> rl_energy_ctrl lim \<noteq> 0 \<Longrightarrow>
      reg_energy_termination (rl_energy_ctrl lim) (me_curr_energy (g_measure s)) (rl_limit_energy lim)
        (elapsed now (rg_run_start_ms (g_reg s))) (rl_limit_out_time lim) = REG_RUN_CONTINUE"
    and "rl_energy_ctrl lim = 0 \<Longrightarrow> rl_model_type lim = MODEL_TYPE_HAND \<Longrightarrow>
      rg_us_run_status (g_reg s) \<in> {US_COMM, US_REMOTE} \<Longrightarrow> rl_limit_on_time lim \<noteq> 0 \<Longrightarrow>
      elapsed now (rg_run_start_ms (g_reg s)) < ucast (rl_limit_on_time lim) * ON_TIME_UNIT_MS"
  using assms
  by (auto simp: reg_terminate_def reg_check_auto_terminate_def reg_check_safety_ceiling_def
      Let_def not_le split: reg_energy_outcome.splits if_splits)


text \<open>
  C10: No run outlives its limits. In every reachable state, whatever a tick reads and
  whatever limits the panel or the bus has set in that moment, a run it leaves going has the
  same source, is younger than 30 s; with energy control and a source other than the weld
  cycle it has not reached a nonzero energy target and is younger than the time-over limit; and
  without energy control, on a hand model and commanded by the bus or the connector, it is
  younger than a nonzero on-time limit.
\<close>

theorem run_stays_within_limits:
  assumes "reg_boot s0" "reg_step\<^sup>*\<^sup>* s0 s"
    and "rg_us_run_status (g_reg (app_reg_tick e lim s)) \<noteq> US_IDLE"
  shows "(let src = rg_us_run_status (g_reg s); age = elapsed (e_now e) (rg_run_start_ms (g_reg s)) in
     rg_us_run_status (g_reg (app_reg_tick e lim s)) = src \<and> age < 30000 \<and>
     (src \<noteq> US_CYCLE \<and> rl_energy_ctrl lim \<noteq> 0 \<longrightarrow>
        unat age < unat (rl_limit_out_time lim) * 1000 \<and>
        (rl_limit_energy lim = 0 \<or> me_curr_energy (g_measure s) < rl_limit_energy lim)) \<and>
     (rl_energy_ctrl lim = 0 \<and> rl_model_type lim = MODEL_TYPE_HAND \<and> src \<in> {US_COMM, US_REMOTE} \<and>
        rl_limit_on_time lim \<noteq> 0 \<longrightarrow> unat age < unat (rl_limit_on_time lim) * 10))"
proof -
  have src: "rg_us_run_status (g_reg s) \<in> {US_IDLE, US_REMOTE, US_TOUCH, US_COMM, US_CYCLE}"
    using reg.inv_reachable [OF assms(1,2)] by (simp add: reg_inv_def)
  note run = terminate_running [OF assms(3) [unfolded tick_keeps] src]
  have ot: "unat (ucast (rl_limit_out_time lim) * 1000 :: u32) = unat (rl_limit_out_time lim) * 1000"
    by (rule unat_ovtime)
  have on: "unat (ucast (rl_limit_on_time lim) * 10 :: u32) = unat (rl_limit_on_time lim) * 10"
    using unat_bounds(2) [of "rl_limit_on_time lim"]
    by (subst unat_mult_small) (simp_all add: unat_casts)
  show ?thesis
    using run ot on unfolding Let_def
    by (auto simp: tick_keeps reg_energy_termination_def not_le word_less_nat_alt
        split: if_splits)
qed

text \<open>
  C33: The ultrasonic output follows the run. When a tick publishes (2 ms or more since the
  last publication) of a reachable state, both ultrasonic pins are active exactly when a run is
  in progress, and the published source is the run source; a tick that does not publish leaves
  the pins alone. So a stopped run switches the generator off at the latest at the next
  publication.
\<close>

theorem usout_follows_run:
  assumes "reg_boot s0" "reg_step\<^sup>*\<^sup>* s0 s"
  shows "(let s' = app_reg_tick e lim s in
     if REG_TICK_MS \<le> elapsed (e_now e) (rg_prev_ms (g_reg s))
     then out_usout (g_out s') = (rg_us_run_status (g_reg s') \<noteq> US_IDLE) \<and>
          out_osc4 (g_out s') = (rg_us_run_status (g_reg s') \<noteq> US_IDLE) \<and>
          me_us_run_status (g_measure s') = rg_us_run_status (g_reg s') \<and>
          me_error_status (g_measure s') = rg_error_status (g_reg s')
     else g_out s' = g_out s \<and> g_measure s' = g_measure s)"
proof (cases "REG_TICK_MS \<le> elapsed (e_now e) (rg_prev_ms (g_reg s))")
  case True
  have inv: "reg_inv s" by (rule reg.inv_reachable [OF assms])
  define s3 where "s3 = reg_acquire_gate e (reg_terminate (e_now e) lim s)"
  define s4 where "s4 = s3\<lparr>g_reg := reg_select ((g_reg s3)\<lparr>rg_prev_ms := e_now e\<rparr>)\<rparr>"
  have tick: "app_reg_tick e lim s = reg_publish_measure (e_now e) (rl_freq_cal_val lim) s4"
    using True by (simp add: tick_eq Let_def s4_def s3_def not_less)
  have keep: "rg_us_out_on (g_reg s4) = rg_us_out_on (g_reg s)" "g_out s4 = g_out s"
    by (simp_all add: s4_def s3_def)
  obtain r m fq where r: "same_ctl r (g_reg s4)"
    and m: "me_us_run_status m = rg_us_run_status (g_reg s4)"
      "me_error_status m = rg_error_status (g_reg s4)"
    and eq: "reg_publish_measure (e_now e) (rl_freq_cal_val lim) s4 =
       (let on = (rg_us_run_status (g_reg s4) \<noteq> US_IDLE) in
        if b2u on \<noteq> rg_us_out_on (g_reg s4)
        then s4\<lparr>g_reg := r\<lparr>rg_us_out_on := b2u on\<rparr>, g_measure := m, g_freq := fq,
               g_out := (g_out s4)\<lparr>out_usout := on, out_osc4 := on\<rparr>\<rparr>
        else s4\<lparr>g_reg := r, g_measure := m, g_freq := fq\<rparr>)"
    by (rule publish_effect)
  show ?thesis
    using True inv r m keep
    by (auto simp: tick eq Let_def same_ctl_def reg_inv_def)
next
  case False
  then have "elapsed (e_now e) (rg_prev_ms (g_reg s)) < REG_TICK_MS" by (simp add: not_le)
  then show ?thesis using False by (simp add: tick_eq Let_def)
qed

end
