(* ===== verification/Regulator_Runs.thy ===== *)
theory Regulator_Runs
  imports Regulator
begin

text \<open>
  More of the regulator: what a history of commands does to the run, the exact averages of the
  acquisition, the length of the warm-up, the fate of an orphaned touch release, and a concrete
  reachable run on which the properties of the regulator are witnessed.
\<close>

section \<open>Commands\<close>


text \<open>A command, its moment and its source.\<close>

type_synonym command = "u32 \<times> us_cmd \<times> u8"

definition run_commands :: "command list \<Rightarrow> sys \<Rightarrow> sys" where
  "run_commands cs s = fold (\<lambda>(now, cmd, src). app_reg_command now cmd src) cs s"

definition occurs :: "us_cmd \<Rightarrow> command list \<Rightarrow> bool" where
  "occurs cmd cs \<longleftrightarrow> cmd \<in> (fst \<circ> snd) ` set cs"

text \<open>The first START among the commands after the last release.\<close>

definition since_release :: "command list \<Rightarrow> command list" where
  "since_release cs = rev (takeWhile (\<lambda>c. fst (snd c) \<noteq> US_CMD_RUN_RELEASE) (rev cs))"

definition winning_start :: "command list \<Rightarrow> command option" where
  "winning_start cs = find (\<lambda>c. fst (snd c) = US_CMD_START) (since_release cs)"

lemma history_more [simp]:
  "run_commands (cs @ [(now, cmd, src)]) s = app_reg_command now cmd src (run_commands cs s)"
  "occurs k (cs @ [(now, cmd, src)]) \<longleftrightarrow> occurs k cs \<or> cmd = k"
  "since_release (cs @ [(now, cmd, src)]) =
     (if cmd = US_CMD_RUN_RELEASE then [] else since_release cs @ [(now, cmd, src)])"
  by (auto simp: run_commands_def occurs_def since_release_def)

lemma history_none [simp]:
  "run_commands [] s = s" "\<not> occurs k []" "since_release [] = []" "winning_start [] = None"
  by (simp_all add: run_commands_def occurs_def since_release_def winning_start_def)

lemma find_snoc: "find P (xs @ [x]) = (case find P xs of None \<Rightarrow> if P x then Some x else None | Some y \<Rightarrow> Some y)"
  by (induction xs) simp_all

lemma winning_more:
  "winning_start (cs @ [(now, cmd, src)]) =
     (if cmd = US_CMD_RUN_RELEASE then None
      else case winning_start cs of
        None \<Rightarrow> if cmd = US_CMD_START then Some (now, cmd, src) else None
      | Some c \<Rightarrow> Some c)"
  by (simp add: winning_start_def find_snoc)

text \<open>What forbids every START and no command lifts, and the fault, which RESET lifts.\<close>

definition locked :: "sys \<Rightarrow> bool" where
  "locked s \<longleftrightarrow> rg_main_state (g_reg s) \<noteq> 0 \<or> seek_reset_fsm_state (sg_fsm (g_sr s)) \<noteq> SR_IDLE \<or>
     og_ovld_active (g_ovld s) \<noteq> 0 \<or> ig_estop_active (g_input s) \<noteq> 0 \<or> hg_mode (g_horn s) \<noteq> 0"

lemma allowed_unlocked:
  "app_reg_start_allowed s \<longleftrightarrow> \<not> locked s \<and> rg_us_run_status (g_reg s) = US_IDLE \<and> rg_error_status (g_reg s) = 0"
  by (auto simp: app_reg_start_allowed_def query_defs locked_def b2u_def)

lemma command_gates [simp]:
  "locked (app_reg_command now cmd src s) = locked s"
  "rg_error_status (g_reg (app_reg_command now cmd src s)) =
     (if cmd = US_CMD_RESET then 0 else rg_error_status (g_reg s))"
  by (cases cmd; simp add: locked_def app_reg_command_def reg_cmd_start_def reg_cmd_release_def
      app_seek_reset_request_def)+

lemma history_gates [simp]:
  "locked (run_commands cs s) = locked s"
  "rg_error_status (g_reg (run_commands cs s)) =
     (if occurs US_CMD_RESET cs then 0 else rg_error_status (g_reg s))"
  by (induction cs rule: rev_induct) auto

lemma blocked_history:
  assumes "locked s \<or> rg_error_status (g_reg s) \<noteq> 0 \<and> \<not> occurs US_CMD_RESET cs"
  shows "rg_us_run_status (g_reg (run_commands cs s)) =
    (if occurs US_CMD_RUN_RELEASE cs then US_IDLE else rg_us_run_status (g_reg s))"
  using assms
proof (induction cs rule: rev_induct)
  case (snoc c cs)
  obtain now cmd src where c: "c = (now, cmd, src)" by (rule prod_cases3)
  have "\<not> app_reg_start_allowed (run_commands cs s)"
    using snoc.prems by (auto simp: allowed_unlocked c)
  then show ?case
    using snoc by (cases cmd) (auto simp: c app_reg_command_def reg_cmd_start_def reg_cmd_release_def
        app_seek_reset_request_def)
qed simp

text \<open>The run that a history leaves when nothing forbids a START.\<close>

definition run_is :: "command option \<Rightarrow> sys \<Rightarrow> bool" where
  "run_is w s \<longleftrightarrow> (case w of
      None \<Rightarrow> rg_us_run_status (g_reg s) = US_IDLE
    | Some (now, cmd, src) \<Rightarrow> rg_us_run_status (g_reg s) = src \<and> rg_run_start_ms (g_reg s) = now \<and>
        rg_max_power (g_reg s) = 0 \<and> rg_max_amp (g_reg s) = 0 \<and> rg_acc_energy (g_reg s) = 0 \<and>
        me_curr_energy (g_measure s) = 0 \<and> me_us_on_time_200m (g_measure s) = 0)"

lemma free_history:
  assumes "\<not> locked s" "rg_error_status (g_reg s) = 0" "rg_swallow_start (g_reg s) = 0"
    and "rg_us_run_status (g_reg s) = US_IDLE" "\<forall>c \<in> set cs. snd (snd c) \<noteq> US_IDLE"
  shows "run_is (winning_start cs) (run_commands cs s) \<and> rg_swallow_start (g_reg (run_commands cs s)) = 0 \<and>
    (\<forall>c. winning_start cs = Some c \<longrightarrow> snd (snd c) \<noteq> US_IDLE)"
  using assms(5)
proof (induction cs rule: rev_induct)
  case Nil
  then show ?case using assms(3,4) by (simp add: run_is_def)
next
  case (snoc c cs)
  obtain now cmd src where c: "c = (now, cmd, src)" by (rule prod_cases3)
  define t where "t = run_commands cs s"
  have t: "run_is (winning_start cs) t" "rg_swallow_start (g_reg t) = 0" "\<not> locked t"
    "rg_error_status (g_reg t) = 0" "\<forall>c. winning_start cs = Some c \<longrightarrow> snd (snd c) \<noteq> US_IDLE"
    using snoc assms(1,2) by (auto simp: t_def)
  then show ?case
    using snoc.prems
    by (cases cmd; cases "winning_start cs")
      (auto simp: c winning_more run_is_def allowed_unlocked app_reg_command_def reg_cmd_start_def
        reg_cmd_release_def app_seek_reset_request_def locked_def simp flip: t_def)
qed

text \<open>
  C34: The history of commands decides what runs. While the warm-up lasts, a seek or reset is in
  progress, the overload, the emergency stop or the horn mode stands, or a fault stands that no
  RESET of the history clears, no sequence of commands of any sources starts a run: it ends the
  one in progress if it holds a release from any source, and otherwise leaves it. In an idle
  machine with none of these and no orphaned touch release due, the first START after the last
  release wins: the run has its source and its time, with peaks, energy and run time restarted;
  the STARTs after it, from whatever source, neither take the run over nor restart it; SEEK and
  RESET do not touch it; with no such START the machine is idle.
\<close>

theorem command_history_decides_run:
  assumes "\<forall>c \<in> set cs. snd (snd c) \<noteq> US_IDLE"
  shows "let s' = fold (\<lambda>(now, cmd, src). app_reg_command now cmd src) cs s;
             gates = (rg_main_state (g_reg s) \<noteq> 0 \<or> seek_reset_fsm_state (sg_fsm (g_sr s)) \<noteq> SR_IDLE \<or>
                      og_ovld_active (g_ovld s) \<noteq> 0 \<or> ig_estop_active (g_input s) \<noteq> 0 \<or> hg_mode (g_horn s) \<noteq> 0);
             fault = (rg_error_status (g_reg s) \<noteq> 0)
    in (gates \<or> fault \<and> \<not> occurs US_CMD_RESET cs \<longrightarrow>
          rg_us_run_status (g_reg s') =
            (if occurs US_CMD_RUN_RELEASE cs then US_IDLE else rg_us_run_status (g_reg s))) \<and>
       (\<not> gates \<and> \<not> fault \<and> rg_swallow_start (g_reg s) = 0 \<and> rg_us_run_status (g_reg s) = US_IDLE \<longrightarrow>
          (case winning_start cs of
             None \<Rightarrow> rg_us_run_status (g_reg s') = US_IDLE
           | Some (now, cmd, src) \<Rightarrow>
               rg_us_run_status (g_reg s') = src \<and> rg_run_start_ms (g_reg s') = now \<and>
               rg_max_power (g_reg s') = 0 \<and> rg_max_amp (g_reg s') = 0 \<and> rg_acc_energy (g_reg s') = 0 \<and>
               me_curr_energy (g_measure s') = 0 \<and> me_us_on_time_200m (g_measure s') = 0))"
  unfolding Let_def locked_def [symmetric] run_commands_def [symmetric] run_is_def [symmetric]
  using blocked_history [of s cs] free_history [of s cs] assms by blast

theorem command_history_decides_run_witness:
  "rg_us_run_status (g_reg (fold (\<lambda>(now, cmd, src). app_reg_command now cmd src)
      [(5, US_CMD_START, US_TOUCH), (6, US_CMD_RUN_RELEASE, US_COMM), (7, US_CMD_START, US_COMM),
       (8, US_CMD_SEEK, US_TOUCH), (9, US_CMD_START, US_REMOTE)]
      ((sys_zero MODEL_STD)\<lparr>g_reg := reg_state_zero\<rparr>))) = US_COMM"
  using command_history_decides_run [of "[(5, US_CMD_START, US_TOUCH), (6, US_CMD_RUN_RELEASE, US_COMM),
      (7, US_CMD_START, US_COMM), (8, US_CMD_SEEK, US_TOUCH), (9, US_CMD_START, US_REMOTE)]"
      "(sys_zero MODEL_STD)\<lparr>g_reg := reg_state_zero\<rparr>"]
  by (simp add: Let_def winning_start_def since_release_def sys_zero_def reg_state_zero_def
      seek_reset_fsm_state_def seek_reset_fsm_init_def)

section \<open>The averages\<close>

lemma ch0_step:
  "unat (rg_ch0_cnt q + 1) < 10 \<Longrightarrow> reg_acquire_ch0 x q =
     q\<lparr>rg_ch0_acc := rg_ch0_acc q + ucast (drop_bit 2 x), rg_ch0_cnt := rg_ch0_cnt q + 1\<rparr>"
  "unat (rg_ch0_cnt q + 1) = 10 \<Longrightarrow> reg_acquire_ch0 x q =
     q\<lparr>rg_ch0_avg := ucast ((rg_ch0_acc q + ucast (drop_bit 2 x)) div 10), rg_ch0_acc := 0,
       rg_ch0_cnt := 0\<rparr>"
  by (simp_all add: reg_acquire_ch0_def Let_def word_le_nat_alt)

lemma ch1_step:
  "unat (rg_ch1_cnt q + 1) < 50 \<Longrightarrow> reg_acquire_ch1 x q =
     q\<lparr>rg_ch1_acc := rg_ch1_acc q + ucast x, rg_ch1_cnt := rg_ch1_cnt q + 1\<rparr>"
  "unat (rg_ch1_cnt q + 1) = 50 \<Longrightarrow> f = ema_half ((rg_ch1_acc q + ucast x) * 6 div 50) (rg_ch1_filt_x16 q) \<Longrightarrow>
     reg_acquire_ch1 x q = q\<lparr>rg_ch1_filt_x16 := f, rg_ch1_avg := ucast (drop_bit 4 f),
       rg_ch1_acc := 0, rg_ch1_cnt := 0\<rparr>"
  by (simp_all add: reg_acquire_ch1_def Let_def word_le_nat_alt)

lemma fold_ch0:
  assumes "\<forall>x \<in> set xs. unat x < 4096" "length xs < 10" "rg_ch0_cnt r = 0" "rg_ch0_acc r = 0"
  shows "unat (rg_ch0_cnt (fold reg_acquire_ch0 xs r)) = length xs \<and>
    unat (rg_ch0_acc (fold reg_acquire_ch0 xs r)) = sum_list (map (\<lambda>x. unat x div 4) xs) \<and>
    sum_list (map (\<lambda>x. unat x div 4) xs) \<le> 1023 * length xs"
  using assms(1,2)
proof (induction xs rule: rev_induct)
  case Nil
  then show ?case using assms(3,4) by simp
next
  case (snoc x xs)
  define q where "q = fold reg_acquire_ch0 xs r"
  have x: "unat (drop_bit 2 x) = unat x div 4" "unat x div 4 \<le> 1023"
    using snoc.prems(1) by (auto simp: unat_drop_bit_div)
  have IH: "unat (rg_ch0_cnt q) = length xs"
    "unat (rg_ch0_acc q) = sum_list (map (\<lambda>x. unat x div 4) xs)"
    "sum_list (map (\<lambda>x. unat x div 4) xs) \<le> 1023 * length xs" "length xs < 9"
    using snoc by (auto simp: q_def)
  have "unat (rg_ch0_cnt q + 1) = Suc (length xs)"
    by (subst unat_add_small) (use IH in simp_all)
  moreover have "unat (rg_ch0_acc q + ucast (drop_bit 2 x)) =
      sum_list (map (\<lambda>x. unat x div 4) xs) + unat x div 4"
    by (subst unat_add_small) (use IH x in \<open>simp_all add: unat_casts\<close>)
  ultimately show ?case
    using IH x by (simp add: q_def [symmetric] ch0_step(1))
qed

lemma fold_ch1:
  assumes "\<forall>x \<in> set xs. unat x < 4096" "length xs < 50" "rg_ch1_cnt r = 0" "rg_ch1_acc r = 0"
  shows "unat (rg_ch1_cnt (fold reg_acquire_ch1 xs r)) = length xs \<and>
    unat (rg_ch1_acc (fold reg_acquire_ch1 xs r)) = sum_list (map unat xs) \<and>
    sum_list (map unat xs) \<le> 4095 * length xs \<and>
    rg_ch1_filt_x16 (fold reg_acquire_ch1 xs r) = rg_ch1_filt_x16 r"
  using assms(1,2)
proof (induction xs rule: rev_induct)
  case Nil
  then show ?case using assms(3,4) by simp
next
  case (snoc x xs)
  define q where "q = fold reg_acquire_ch1 xs r"
  have x: "unat x \<le> 4095" using snoc.prems(1) by auto
  have IH: "unat (rg_ch1_cnt q) = length xs" "unat (rg_ch1_acc q) = sum_list (map unat xs)"
    "sum_list (map unat xs) \<le> 4095 * length xs" "length xs < 49"
    "rg_ch1_filt_x16 q = rg_ch1_filt_x16 r"
    using snoc by (auto simp: q_def)
  have "unat (rg_ch1_cnt q + 1) = Suc (length xs)"
    by (subst unat_add_small) (use IH in simp_all)
  moreover have "unat (rg_ch1_acc q + ucast x) = sum_list (map unat xs) + unat x"
    by (subst unat_add_small) (use IH x in \<open>simp_all add: unat_casts\<close>)
  ultimately show ?case
    using IH x by (simp add: q_def [symmetric] ch1_step(1))
qed

lemma half_up: "2 * x \<in> {y, y + 1} \<Longrightarrow> x = (y + 1) div 2" for x y :: int
  by auto

lemma ema_half_exact:
  assumes "unat avg < 134217728" "unat filt < 2147483648"
  shows "2 * \<bar>16 * int (unat avg) - int (unat (ema_half avg filt))\<bar> \<in>
    {\<bar>16 * int (unat avg) - int (unat filt)\<bar>, \<bar>16 * int (unat avg) - int (unat filt)\<bar> + 1}"
proof -
  define a f where "a = int (unat avg)" and "f = int (unat filt)"
  have af: "0 \<le> a" "a < 134217728" "0 \<le> f" "f < 2147483648"
    unfolding a_def f_def using assms by linarith+
  have "int (unat (ema_half avg filt)) = f + (16 * a - f) sdiv 2"
    unfolding a_def f_def by (rule ema_half_value) (rule assms)+
  then show ?thesis unfolding a_def [symmetric] f_def [symmetric]
    by (simp add: sdiv2_bounds) presburger
qed


text \<open>
  The averages are exact. From a block boundary, ten samples of the regulation channel
  commit the rounded-down mean of their 10-bit values and start the next block; fifty samples of
  the current channel leave the display filter at half its former distance (rounded up) from
  sixteen times six times their mean, so it approaches a steady current without overshoot, and
  the sums never wrap.
\<close>

theorem reg_averages_exact:
  assumes "\<forall>x \<in> set xs. unat x < 4096" "length xs = 10" "rg_ch0_cnt r = 0" "rg_ch0_acc r = 0"
    and "\<forall>y \<in> set ys. unat y < 4096" "length ys = 50" "rg_ch1_cnt r = 0" "rg_ch1_acc r = 0"
    and "unat (rg_ch1_filt_x16 r) \<le> 393120"
  shows "let r0 = fold reg_acquire_ch0 xs r; r1 = fold reg_acquire_ch1 ys r;
       target = 16 * int (sum_list (map unat ys) * 6 div 50);
       old = \<bar>target - int (unat (rg_ch1_filt_x16 r))\<bar>;
       new = \<bar>target - int (unat (rg_ch1_filt_x16 r1))\<bar>
     in unat (rg_ch0_avg r0) = sum_list (map (\<lambda>x. unat x div 4) xs) div 10 \<and>
        rg_ch0_cnt r0 = 0 \<and> rg_ch0_acc r0 = 0 \<and>
        new = (old + 1) div 2 \<and> rg_ch1_cnt r1 = 0 \<and> rg_ch1_acc r1 = 0 \<and>
        unat (rg_ch1_avg r1) = unat (rg_ch1_filt_x16 r1) div 16"
proof -
  obtain xs' x where xs: "xs = xs' @ [x]" "length xs' = 9"
    using assms(2) by (cases xs rule: rev_exhaust) auto
  obtain ys' y where ys: "ys = ys' @ [y]" "length ys' = 49"
    using assms(6) by (cases ys rule: rev_exhaust) auto
  define q where "q = fold reg_acquire_ch0 xs' r"
  define w where "w = fold reg_acquire_ch1 ys' r"
  have q: "unat (rg_ch0_cnt q) = 9"
    "unat (rg_ch0_acc q) = sum_list (map (\<lambda>x. unat x div 4) xs')"
    "sum_list (map (\<lambda>x. unat x div 4) xs') \<le> 1023 * 9"
    using fold_ch0 [of xs' r] assms(1,3,4) xs by (simp_all add: q_def)
  have w: "unat (rg_ch1_cnt w) = 49" "unat (rg_ch1_acc w) = sum_list (map unat ys')"
    "sum_list (map unat ys') \<le> 4095 * 49" "rg_ch1_filt_x16 w = rg_ch1_filt_x16 r"
    using fold_ch1 [of ys' r] assms(5,7,8) ys by (simp_all add: w_def)
  have x: "unat (drop_bit 2 x) = unat x div 4" "unat x div 4 \<le> 1023" and y: "unat y \<le> 4095"
    using assms(1,5) xs ys by (auto simp: unat_drop_bit_div)
  have cnt: "unat (rg_ch0_cnt q + 1) = 10" "unat (rg_ch1_cnt w + 1) = 50"
    by ((subst unat_add_small), use q w in simp_all)+
  have acc0: "unat (rg_ch0_acc q + ucast (drop_bit 2 x)) = sum_list (map (\<lambda>x. unat x div 4) xs)"
    by (subst unat_add_small) (use q x xs in \<open>simp_all add: unat_casts\<close>)
  have acc1: "unat (rg_ch1_acc w + ucast y) = sum_list (map unat ys)"
    by (subst unat_add_small) (use w y ys in \<open>simp_all add: unat_casts\<close>)
  define avg where "avg = (rg_ch1_acc w + ucast y) * 6 div 50"
  have "unat ((rg_ch1_acc w + ucast y) * 6) = sum_list (map unat ys) * 6"
    by (subst unat_mult_small) (use acc1 w y ys in simp_all)
  then have avg: "unat avg = sum_list (map unat ys) * 6 div 50" by (simp add: avg_def unat_div)
  have small: "unat avg \<le> 24570" using avg w y ys by simp
  define f where "f = ema_half avg (rg_ch1_filt_x16 r)"
  have fb: "unat f \<le> 393120"
    using ema_half_between [of avg "rg_ch1_filt_x16 r"] small assms(9) by (simp add: f_def)
  have "2 * \<bar>16 * int (unat avg) - int (unat f)\<bar> \<in>
     {\<bar>16 * int (unat avg) - int (unat (rg_ch1_filt_x16 r))\<bar>,
      \<bar>16 * int (unat avg) - int (unat (rg_ch1_filt_x16 r))\<bar> + 1}"
    unfolding f_def by (rule ema_half_exact) (use small assms(9) in linarith)+
  then have new: "\<bar>16 * int (unat avg) - int (unat f)\<bar> =
      (\<bar>16 * int (unat avg) - int (unat (rg_ch1_filt_x16 r))\<bar> + 1) div 2"
    by (rule half_up)
  have r0: "fold reg_acquire_ch0 xs r =
      q\<lparr>rg_ch0_avg := ucast ((rg_ch0_acc q + ucast (drop_bit 2 x)) div 10), rg_ch0_acc := 0,
        rg_ch0_cnt := 0\<rparr>"
    using cnt(1) by (simp add: xs q_def [symmetric] ch0_step(2))
  have r1: "fold reg_acquire_ch1 ys r =
      w\<lparr>rg_ch1_filt_x16 := f, rg_ch1_avg := ucast (drop_bit 4 f), rg_ch1_acc := 0, rg_ch1_cnt := 0\<rparr>"
    using ch1_step(2) [OF cnt(2), of f y] by (simp add: ys(1) w_def [symmetric] f_def avg_def w(4))
  have a0: "unat (ucast ((rg_ch0_acc q + ucast (drop_bit 2 x)) div 10) :: u16) =
      sum_list (map (\<lambda>x. unat x div 4) xs) div 10"
    using acc0 q x xs by (simp add: unat_casts unat_div)
  have a1: "unat (ucast (drop_bit 4 f) :: u16) = unat f div 16"
    using fb by (simp add: unat_casts unat_drop_bit_div)
  show ?thesis
    unfolding Let_def r0 r1 using a0 a1 new by (simp add: avg)
qed

theorem reg_averages_exact_witness:
  "let r0 = fold reg_acquire_ch0 (replicate 10 2000) reg_state_zero;
       r1 = fold reg_acquire_ch1 (replicate 50 100) reg_state_zero;
       target = 16 * int (sum_list (map unat (replicate 50 (100 :: u16))) * 6 div 50);
       old = \<bar>target - int (unat (rg_ch1_filt_x16 reg_state_zero))\<bar>;
       new = \<bar>target - int (unat (rg_ch1_filt_x16 r1))\<bar>
     in unat (rg_ch0_avg r0) = sum_list (map (\<lambda>x. unat x div 4) (replicate 10 (2000 :: u16))) div 10 \<and>
        rg_ch0_cnt r0 = 0 \<and> rg_ch0_acc r0 = 0 \<and>
        new = (old + 1) div 2 \<and> rg_ch1_cnt r1 = 0 \<and> rg_ch1_acc r1 = 0 \<and>
        unat (rg_ch1_avg r1) = unat (rg_ch1_filt_x16 r1) div 16"
  by (rule reg_averages_exact) (simp_all add: reg_state_zero_def)


section \<open>The warm-up and the orphaned release\<close>

lemma publish_others [simp]:
  "g_sr (reg_publish_measure now fcal s) = g_sr s"
  "g_ovld (reg_publish_measure now fcal s) = g_ovld s"
  "g_input (reg_publish_measure now fcal s) = g_input s"
  "g_horn (reg_publish_measure now fcal s) = g_horn s"
  "rg_main_state (g_reg (reg_publish_measure now fcal s)) = rg_main_state (g_reg s)"
  "rg_swallow_start (g_reg (reg_publish_measure now fcal s)) = rg_swallow_start (g_reg s)"
  "rg_ramp_counter (g_reg (reg_publish_measure now fcal s)) = rg_ramp_counter (g_reg s)"
  "rg_prev_ramp_ms (g_reg (reg_publish_measure now fcal s)) = rg_prev_ramp_ms (g_reg s)"
  by (rule publish_effect [of s now fcal]; simp add: same_ctl_def Let_def)+

lemma acquire_gate_others [simp]:
  "g_ovld (reg_acquire_gate e s) = g_ovld s" "g_input (reg_acquire_gate e s) = g_input s"
  "g_horn (reg_acquire_gate e s) = g_horn s"
  "rg_main_state (g_reg (reg_acquire_gate e s)) = rg_main_state (g_reg s)"
  "rg_swallow_start (g_reg (reg_acquire_gate e s)) = rg_swallow_start (g_reg s)"
  "rg_ramp_counter (g_reg (reg_acquire_gate e s)) = rg_ramp_counter (g_reg s)"
  "rg_prev_ramp_ms (g_reg (reg_acquire_gate e s)) = rg_prev_ramp_ms (g_reg s)"
  by (simp_all add: reg_acquire_gate_def reg_acquire_step_def reg_acquire_ch1_def
      reg_acquire_ch0_def Let_def)

lemma terminate_others [simp]:
  "g_ovld (reg_terminate now lim s) = g_ovld s" "g_input (reg_terminate now lim s) = g_input s"
  "g_horn (reg_terminate now lim s) = g_horn s"
  "rg_main_state (g_reg (reg_terminate now lim s)) =
     rg_main_state (reg_warm_up now ((g_reg s)\<lparr>rg_cal_val := rl_cal_val lim\<rparr>))"
  "rg_ramp_counter (g_reg (reg_terminate now lim s)) =
     rg_ramp_counter (reg_warm_up now ((g_reg s)\<lparr>rg_cal_val := rl_cal_val lim\<rparr>))"
  "rg_prev_ramp_ms (g_reg (reg_terminate now lim s)) =
     rg_prev_ramp_ms (reg_warm_up now ((g_reg s)\<lparr>rg_cal_val := rl_cal_val lim\<rparr>))"
  by (simp_all add: reg_terminate_def reg_check_auto_terminate_def reg_check_safety_ceiling_def
      reg_stop_run_def app_reg_raise_ovtime_def Let_def split: reg_energy_outcome.split)

lemma select_others [simp]:
  "rg_swallow_start (reg_select r) = rg_swallow_start r"
  "rg_ramp_counter (reg_select r) = rg_ramp_counter r"
  "rg_prev_ramp_ms (reg_select r) = rg_prev_ramp_ms r"
  by (simp_all add: reg_select_def Let_def)

lemma tick_others [simp]:
  "g_sr (app_reg_tick e lim s) = g_sr s" "g_ovld (app_reg_tick e lim s) = g_ovld s"
  "g_input (app_reg_tick e lim s) = g_input s" "g_horn (app_reg_tick e lim s) = g_horn s"
  "rg_swallow_start (g_reg (app_reg_tick e lim s)) =
     rg_swallow_start (g_reg (reg_terminate (e_now e) lim s))"
  "rg_main_state (g_reg (app_reg_tick e lim s)) =
     rg_main_state (reg_warm_up (e_now e) ((g_reg s)\<lparr>rg_cal_val := rl_cal_val lim\<rparr>))"
  "rg_ramp_counter (g_reg (app_reg_tick e lim s)) =
     rg_ramp_counter (reg_warm_up (e_now e) ((g_reg s)\<lparr>rg_cal_val := rl_cal_val lim\<rparr>))"
  "rg_prev_ramp_ms (g_reg (app_reg_tick e lim s)) =
     rg_prev_ramp_ms (reg_warm_up (e_now e) ((g_reg s)\<lparr>rg_cal_val := rl_cal_val lim\<rparr>))"
  by (simp_all add: tick_eq Let_def)

definition warming :: "nat \<Rightarrow> u32 \<Rightarrow> sys \<Rightarrow> bool" where
  "warming n t s \<longleftrightarrow>
     rg_main_state (g_reg s) = (if n < 401 then 1 else 0) \<and>
     (n \<le> 401 \<longrightarrow> unat (rg_ramp_counter (g_reg s)) = n) \<and>
     rg_prev_ramp_ms (g_reg s) = t \<and>
     rg_us_run_status (g_reg s) = US_IDLE \<and> rg_error_status (g_reg s) = 0"

lemma terminate_idle:
  "rg_us_run_status (g_reg s) = US_IDLE \<Longrightarrow>
     rg_us_run_status (g_reg (reg_terminate now lim s)) = US_IDLE \<and>
     rg_error_status (g_reg (reg_terminate now lim s)) = rg_error_status (g_reg s)"
  by (simp add: reg_terminate_def reg_check_auto_terminate_def reg_check_safety_ceiling_def Let_def)

lemma warming_tick:
  assumes "warming n t s" "e_now e = t + 10"
  shows "warming (Suc n) (t + 10) (app_reg_tick e lim s)"
proof -
  have el: "elapsed (t + 10) t = 10" by (simp add: elapsed_add)
  have c: "unat (rg_ramp_counter (g_reg s) + 1) = Suc n" if "n < 401"
    using assms(1) that by (subst unat_add_small) (simp_all add: warming_def)
  show ?thesis
    using assms c el terminate_idle [of s "t + 10" lim]
    by (auto simp: warming_def tick_keeps reg_warm_up_def Let_def word_le_nat_alt)
qed

lemma warming_run:
  assumes "\<forall>k. e_now (e k) = t0 + of_nat (10 * k)"
    and "s0 = app_reg_init (e 0) s"
  shows "warming n (t0 + of_nat (10 * n)) (fold (\<lambda>k. app_reg_tick (e k) (lim k)) [1..<Suc n] s0) \<and>
    g_sr (fold (\<lambda>k. app_reg_tick (e k) (lim k)) [1..<Suc n] s0) = g_sr s \<and>
    g_ovld (fold (\<lambda>k. app_reg_tick (e k) (lim k)) [1..<Suc n] s0) = g_ovld s \<and>
    g_input (fold (\<lambda>k. app_reg_tick (e k) (lim k)) [1..<Suc n] s0) = g_input s \<and>
    g_horn (fold (\<lambda>k. app_reg_tick (e k) (lim k)) [1..<Suc n] s0) = g_horn s"
proof (induction n)
  case 0
  then show ?case
    using assms by (simp add: warming_def app_reg_init_def reg_state_zero_def)
next
  case (Suc n)
  have "e_now (e (Suc n)) = (t0 + of_nat (10 * n)) + 10"
    using assms(1) by (simp add: algebra_simps)
  from warming_tick [OF conjunct1 [OF Suc.IH] this, of "lim (Suc n)"]
  have w: "warming (Suc n) (t0 + of_nat (10 * n) + 10)
    (app_reg_tick (e (Suc n)) (lim (Suc n)) (fold (\<lambda>k. app_reg_tick (e k) (lim k)) [1..<Suc n] s0))" .
  have "[1..<Suc (Suc n)] = [1..<Suc n] @ [Suc n]" by simp
  moreover have "t0 + of_nat (10 * n) + 10 = t0 + of_nat (10 * Suc n)" by (simp add: algebra_simps)
  ultimately show ?case using w Suc.IH by (simp del: upt_Suc add: ac_simps)
qed

text \<open>
  The warm-up takes exactly 401 ticks of 10 ms and then ends by itself. After boot at
  any counter value, while ticks come every 10 ms (wrap included), the machine stays idle and
  refuses every START before the 401st tick, and from the 401st tick on it accepts one exactly
  when no seek or reset, overload, emergency stop or horn mode stands against it.
\<close>

theorem reg_warm_up_exact:
  assumes "\<forall>k. e_now (e k) = t0 + of_nat (10 * k)"
  shows "let s1 = fold (\<lambda>k. app_reg_tick (e k) (lim k)) [1..<Suc n] (app_reg_init (e 0) s)
    in rg_us_run_status (g_reg s1) = US_IDLE \<and>
       (app_reg_start_allowed s1 \<longleftrightarrow> 401 \<le> n \<and> app_seek_reset_active s = 0 \<and>
          app_overload_active s = 0 \<and> app_estop_active s = 0 \<and> app_horn_mode_active s = 0)"
proof -
  note w = warming_run [OF assms refl, of n lim s]
  then show ?thesis
    unfolding Let_def by (auto simp: warming_def app_reg_start_allowed_def query_defs)
qed

theorem reg_warm_up_exact_witness:
  "let e = (\<lambda>k. \<lparr>e_now = 0xFFFFFFF0 + of_nat (10 * k), e_start = 1, e_reset = 1, e_estop_seek = 1,
         e_key1 = 1, e_key2 = 1, e_sens_up = 1, e_sens_dn = 1, e_overload = 0, e_remote_en = 0,
         e_adc_sens_out = 0, e_adc_osc = 0\<rparr>);
       lim = (\<lambda>_. \<lparr>rl_limit_on_time = 0, rl_energy_ctrl = 0, rl_limit_energy = 0,
         rl_limit_out_time = 0, rl_freq_cal_val = 0, rl_model_type = 0, rl_cal_val = 0\<rparr>)
   in app_reg_start_allowed
        (fold (\<lambda>k. app_reg_tick (e k) (lim k)) [1..<Suc 401] (app_reg_init (e 0) (sys_zero MODEL_STD)))"
proof -
  define e :: "nat \<Rightarrow> env" where "e = (\<lambda>k. \<lparr>e_now = 0xFFFFFFF0 + of_nat (10 * k), e_start = 1, e_reset = 1,
         e_estop_seek = 1,
         e_key1 = 1, e_key2 = 1, e_sens_up = 1, e_sens_dn = 1, e_overload = 0, e_remote_en = 0,
         e_adc_sens_out = 0, e_adc_osc = 0\<rparr>)"
  have "\<forall>k. e_now (e k) = 0xFFFFFFF0 + of_nat (10 * k)" by (simp add: e_def)
  from reg_warm_up_exact [OF this, of "\<lambda>_. \<lparr>rl_limit_on_time = 0, rl_energy_ctrl = 0, rl_limit_energy = 0,
         rl_limit_out_time = 0, rl_freq_cal_val = 0, rl_model_type = 0, rl_cal_val = 0\<rparr>" 401
         "sys_zero MODEL_STD"]
  show ?thesis
    unfolding Let_def e_def [symmetric]
    by (simp del: upt_Suc add: sys_zero_def query_defs seek_reset_fsm_init_def seek_reset_fsm_state_def)
qed


lemma touch_stop_arms:
  assumes "rg_us_run_status (g_reg s) = US_TOUCH"
    "rg_us_run_status (g_reg (reg_terminate now lim s)) = US_IDLE"
  shows "rg_swallow_start (g_reg (reg_terminate now lim s)) = 1"
  using assms
  by (auto simp: reg_terminate_def reg_check_auto_terminate_def reg_check_safety_ceiling_def
      reg_stop_run_def app_reg_raise_ovtime_def Let_def split: reg_energy_outcome.splits if_splits)

text \<open>
  C35: The orphaned release of a touch run that the machine itself stopped does not restart
  it. In a reachable state with a touch run that a tick ends (a ceiling, the energy target or
  the time-over fault), the next START of the panel, which is the button's release, is swallowed
  and nothing runs; the one after it starts a run exactly if the machine allows it.
\<close>

theorem orphan_release_swallowed_once:
  assumes "reg_boot s0" "reg_step\<^sup>*\<^sup>* s0 s" "rg_us_run_status (g_reg s) = US_TOUCH"
    and "rg_us_run_status (g_reg (app_reg_tick e lim s)) = US_IDLE"
  shows "let s1 = app_reg_tick e lim s;
             s2 = app_reg_command t1 US_CMD_START US_TOUCH s1;
             s3 = app_reg_command t2 US_CMD_START US_TOUCH s2
         in rg_us_run_status (g_reg s2) = US_IDLE \<and>
            rg_us_run_status (g_reg s3) = (if app_reg_start_allowed s2 then US_TOUCH else US_IDLE)"
proof -
  have inv: "reg_inv s" by (rule reg.inv_reachable [OF assms(1,2)])
  then have "rg_main_state (g_reg s) = 0" using assms(3) by (auto simp: reg_inv_def)
  then have m: "rg_main_state (g_reg (app_reg_tick e lim s)) = 0"
    by (simp add: reg_warm_up_def Let_def)
  have sw: "rg_swallow_start (g_reg (app_reg_tick e lim s)) = 1"
    using touch_stop_arms [OF assms(3)] assms(4) by (simp add: tick_keeps)
  show ?thesis
    using m sw assms(4) by (simp add: Let_def app_reg_command_def reg_cmd_start_def)
qed

text \<open>A reachable state with a run, for the witnesses: 402 ticks, then a START.\<close>

definition wit_env :: "u32 \<Rightarrow> env" where
  "wit_env t = \<lparr>e_now = t, e_start = 1, e_reset = 1, e_estop_seek = 0, e_key1 = 1, e_key2 = 1,
     e_sens_up = 1, e_sens_dn = 1, e_overload = 0, e_remote_en = 0, e_adc_sens_out = 0,
     e_adc_osc = 0\<rparr>"

definition wit_lim :: "reg_run_limits" where
  "wit_lim = \<lparr>rl_limit_on_time = 0, rl_energy_ctrl = 0, rl_limit_energy = 0,
     rl_limit_out_time = 0, rl_freq_cal_val = 0, rl_model_type = 2, rl_cal_val = 0\<rparr>"

definition wit_boot :: sys where
  "wit_boot = app_reg_init (wit_env 0) (sys_zero MODEL_STD)"

definition wit_warm :: sys where
  "wit_warm = fold (\<lambda>k. app_reg_tick (wit_env (0 + of_nat (10 * k))) wit_lim) [1..<Suc 401] wit_boot"

definition wit_run :: sys where
  "wit_run = app_reg_command 4010 US_CMD_START US_TOUCH wit_warm"

lemma wit_boot: "reg_boot wit_boot"
  unfolding reg_boot_def wit_boot_def
  by (rule exI [of _ "wit_env 0"], rule exI [of _ "sys_zero MODEL_STD"])
    (simp add: sys_zero_def reg_state_zero_def)

lemma fold_ticks_steps:
  "(\<And>k. unat (e_adc_sens_out (e k)) < 4096 \<and> unat (e_adc_osc (e k)) < 4096) \<Longrightarrow>
     reg_step\<^sup>*\<^sup>* s (fold (\<lambda>k. app_reg_tick (e k) lim) ks s)"
  by (induction ks arbitrary: s) (auto intro: converse_rtranclp_into_rtranclp reg_step.tick)

lemma wit_warm_steps: "reg_step\<^sup>*\<^sup>* wit_boot wit_warm"
  unfolding wit_warm_def by (rule fold_ticks_steps) (simp add: wit_env_def)

lemma wit_warm:
  "app_reg_start_allowed wit_warm" "rg_us_run_status (g_reg wit_warm) = US_IDLE"
  "rg_main_state (g_reg wit_warm) = 0"
proof -
  have w: "warming 401 (0 + of_nat (10 * 401)) wit_warm \<and>
     g_sr wit_warm = g_sr (sys_zero MODEL_STD) \<and> g_ovld wit_warm = g_ovld (sys_zero MODEL_STD) \<and>
     g_input wit_warm = g_input (sys_zero MODEL_STD) \<and> g_horn wit_warm = g_horn (sys_zero MODEL_STD)"
    unfolding wit_warm_def
    by (rule warming_run [where e = "\<lambda>k. wit_env (0 + of_nat (10 * k))"])
      (simp_all add: wit_boot_def wit_env_def)
  then show "app_reg_start_allowed wit_warm" "rg_us_run_status (g_reg wit_warm) = US_IDLE"
    "rg_main_state (g_reg wit_warm) = 0"
    by (simp_all add: warming_def app_reg_start_allowed_def query_defs sys_zero_def
        seek_reset_fsm_state_def seek_reset_fsm_init_def)
qed

lemma wit_warm_swallow: "rg_swallow_start (g_reg wit_warm) = 0"
proof -
  have keep: "rg_us_run_status (g_reg s) = US_IDLE \<Longrightarrow>
      rg_swallow_start (g_reg (app_reg_tick e lim s)) = rg_swallow_start (g_reg s) \<and>
      rg_us_run_status (g_reg (app_reg_tick e lim s)) = US_IDLE" for e lim s
    by (simp add: tick_keeps terminate_idle)
      (simp add: reg_terminate_def reg_check_auto_terminate_def reg_check_safety_ceiling_def
        Let_def reg_warm_up_def)
  have "rg_us_run_status (g_reg s) = US_IDLE \<Longrightarrow>
      rg_swallow_start (g_reg (fold (\<lambda>k. app_reg_tick (e k) lim) ks s)) = rg_swallow_start (g_reg s)"
    for e :: "nat \<Rightarrow> env" and lim ks s
    by (induction ks arbitrary: s) (simp_all add: keep del: tick_others)
  then show ?thesis
    by (simp add: wit_warm_def wit_boot_def app_reg_init_def reg_state_zero_def del: upt_Suc)
qed

lemma wit_run:
  "rg_us_run_status (g_reg wit_run) = US_TOUCH" "rg_run_start_ms (g_reg wit_run) = 4010"
  "reg_step\<^sup>*\<^sup>* wit_boot wit_run"
proof -
  show "rg_us_run_status (g_reg wit_run) = US_TOUCH" "rg_run_start_ms (g_reg wit_run) = 4010"
    using wit_warm wit_warm_swallow
    by (simp_all add: wit_run_def app_reg_command_def reg_cmd_start_def)
  have "reg_step wit_warm wit_run" unfolding wit_run_def by (rule reg_step.command) simp
  with wit_warm_steps show "reg_step\<^sup>*\<^sup>* wit_boot wit_run" by (rule rtranclp.rtrancl_into_rtrancl)
qed


text \<open>One tick that keeps the run and one that ends it.\<close>

lemma wit_env_adc: "unat (e_adc_sens_out (wit_env t)) < 4096" "unat (e_adc_osc (wit_env t)) < 4096"
  by (simp_all add: wit_env_def)

lemma wit_tick_run:
  "rg_us_run_status (g_reg (app_reg_tick (wit_env 4020) wit_lim wit_run)) = US_TOUCH"
  "rg_us_run_status (g_reg (app_reg_tick (wit_env 34010) wit_lim wit_run)) = US_IDLE"
  using wit_run(1,2)
  by (simp_all add: tick_keeps reg_terminate_def reg_check_safety_ceiling_def
      reg_check_auto_terminate_def elapsed_def wit_env_def wit_lim_def Let_def)

theorem reg_reachable_invariant_witness:
  "rg_us_run_status (g_reg wit_run) = US_TOUCH \<and>
   out_usout (g_out wit_run) = out_osc4 (g_out wit_run) \<and> rg_ch0_cnt (g_reg wit_run) < 10"
  using reg_reachable_invariant [OF wit_boot wit_run(3)] wit_run(1) by blast

theorem run_stays_within_limits_witness:
  "elapsed 4020 (rg_run_start_ms (g_reg wit_run)) < 30000 \<and>
   rg_us_run_status (g_reg (app_reg_tick (wit_env 4020) wit_lim wit_run)) = rg_us_run_status (g_reg wit_run)"
  using run_stays_within_limits [OF wit_boot wit_run(3), of "wit_env 4020" wit_lim] wit_tick_run(1)
  by (simp add: Let_def wit_env_def)

theorem usout_follows_run_witness:
  "let s' = app_reg_tick (wit_env 4020) wit_lim wit_run in
   if REG_TICK_MS \<le> elapsed 4020 (rg_prev_ms (g_reg wit_run))
   then out_usout (g_out s') \<and> me_us_run_status (g_measure s') = US_TOUCH
   else g_out s' = g_out wit_run"
  using usout_follows_run [OF wit_boot wit_run(3), of "wit_env 4020" wit_lim] wit_tick_run(1)
  by (simp add: Let_def wit_env_def)

theorem orphan_release_swallowed_once_witness:
  "rg_us_run_status (g_reg (app_reg_command 34020 US_CMD_START US_TOUCH
     (app_reg_tick (wit_env 34010) wit_lim wit_run))) = US_IDLE"
  using orphan_release_swallowed_once [OF wit_boot wit_run(3) wit_run(1) wit_tick_run(2)]
  by (simp add: Let_def)

end
