(* ===== verification/Dgus_Lcd.thy ===== *)
theory Dgus_Lcd
  imports Sys_State Sys_Prelude
begin

text \<open>
  The panel protocol, \<open>fw/drivers/dgus_lcd.c\<close>: the frame builders, which hand whole frames
  to the serial driver (\<open>dg_sent\<close>), the byte-wise receive parser and the poll of the receive ring.
  The two blocking reads of the boot handshake are in the theory of the boot (\<open>Lcd_Boot\<close>).
\<close>

section \<open>Data\<close>

abbreviation (input) DGUS_SYNC1 :: u8 where "DGUS_SYNC1 \<equiv> 0x5A"
abbreviation (input) DGUS_SYNC2 :: u8 where "DGUS_SYNC2 \<equiv> 0xA5"
abbreviation (input) DGUS_CMD_WR :: u8 where "DGUS_CMD_WR \<equiv> 0x82"
abbreviation (input) DGUS_CMD_RD :: u8 where "DGUS_CMD_RD \<equiv> 0x83"
abbreviation (input) DGUS_MAX_DATA :: nat where "DGUS_MAX_DATA \<equiv> 23"
abbreviation (input) DGUS_LEN_MIN :: u8 where "DGUS_LEN_MIN \<equiv> 4"
abbreviation (input) DGUS_LEN_MAX :: u8 where "DGUS_LEN_MAX \<equiv> 26"
abbreviation (input) DGUS_FRAME_TIMEOUT_MS :: u32 where "DGUS_FRAME_TIMEOUT_MS \<equiv> 50"
abbreviation (input) VP_LCD_RESET :: u16 where "VP_LCD_RESET \<equiv> 0x0004"
abbreviation (input) VP_LCD_SETPAGE :: u16 where "VP_LCD_SETPAGE \<equiv> 0x0084"
abbreviation (input) SYS_PIC_NOW :: u16 where "SYS_PIC_NOW \<equiv> 0x0014"
abbreviation (input) DGUS_READ_REPLY_TIMEOUT_MS :: u32 where "DGUS_READ_REPLY_TIMEOUT_MS \<equiv> 120"

record dgus_frame =
  fr_cmd :: u8
  fr_vp_addr :: u16
  fr_data_len :: u8
  fr_data :: "u8 list"

definition dgus_frame_zero :: dgus_frame where
  "dgus_frame_zero = \<lparr>fr_cmd = 0, fr_vp_addr = 0, fr_data_len = 0, fr_data = replicate 23 0\<rparr>"

definition dgus_init :: "dgus_st \<Rightarrow> dgus_st" where
  "dgus_init d = d\<lparr>dg_parse_state := PS_IDLE, dg_frame_idx := 0, dg_bytes_remaining := 0,
     dg_frame_start_ms := 0, dg_rx_drop_count := 0, dg_tx_timeout_count := 0\<rparr>"

definition dgus_is_echo :: "dgus_frame \<Rightarrow> bool" where
  "dgus_is_echo f \<longleftrightarrow> fr_cmd f = DGUS_CMD_WR"

section \<open>Builders\<close>

text \<open>The driver takes the frame and reports whether it timed out.\<close>

definition usart1_send_blocking :: "u8 list \<Rightarrow> dgus_st \<Rightarrow> bool \<times> dgus_st" where
  "usart1_send_blocking bs d =
     (let d' = d\<lparr>dg_sent := dg_sent d @ [bs]\<rparr> in
      case dg_tx_timeouts d of
        [] \<Rightarrow> (False, d')
      | t # ts \<Rightarrow> (t, d'\<lparr>dg_tx_timeouts := ts\<rparr>))"

definition frame_bytes :: "u8 \<Rightarrow> u16 \<Rightarrow> u8 list \<Rightarrow> u8 list" where
  "frame_bytes cmd vp payload =
     [DGUS_SYNC1, DGUS_SYNC2, 3 + of_nat (length payload), cmd, hi8 vp, lo8 vp] @ payload"

definition send_frame :: "u8 \<Rightarrow> u16 \<Rightarrow> u8 list \<Rightarrow> dgus_st \<Rightarrow> dgus_st" where
  "send_frame cmd vp payload d =
     (let (timeout, d') = usart1_send_blocking (frame_bytes cmd vp payload) d
      in if timeout then d'\<lparr>dg_tx_timeout_count := dg_tx_timeout_count d' + 1\<rparr> else d')"

definition dgus_reset_lcd :: "dgus_st \<Rightarrow> dgus_st" where
  "dgus_reset_lcd = send_frame DGUS_CMD_WR VP_LCD_RESET [0x55, 0xAA, 0x5A, 0xA5]"

definition dgus_set_page :: "u8 \<Rightarrow> dgus_st \<Rightarrow> dgus_st" where
  "dgus_set_page page = send_frame DGUS_CMD_WR VP_LCD_SETPAGE [0x5A, 0x01, 0x00, page]"

definition dgus_write_u16 :: "u16 \<Rightarrow> u16 \<Rightarrow> dgus_st \<Rightarrow> dgus_st" where
  "dgus_write_u16 vp value = send_frame DGUS_CMD_WR vp [hi8 value, lo8 value]"

definition dgus_write_u32 :: "u16 \<Rightarrow> u32 \<Rightarrow> dgus_st \<Rightarrow> dgus_st" where
  "dgus_write_u32 vp value = send_frame DGUS_CMD_WR vp
     [ucast (drop_bit 24 value), ucast (drop_bit 16 value), ucast (drop_bit 8 value), ucast value]"

definition dgus_write_bytes :: "u16 \<Rightarrow> u8 list \<Rightarrow> dgus_st \<Rightarrow> dgus_st" where
  "dgus_write_bytes vp buf = send_frame DGUS_CMD_WR vp (take DGUS_MAX_DATA buf)"

definition dgus_write_u16_array :: "u16 \<Rightarrow> u16 list \<Rightarrow> dgus_st \<Rightarrow> dgus_st" where
  "dgus_write_u16_array vp buf = send_frame DGUS_CMD_WR vp
     (concat (map (\<lambda>w. [hi8 w, lo8 w]) (take (DGUS_MAX_DATA div 2) buf)))"

text \<open>A text is given by its characters before the terminating zero.\<close>

definition dgus_write_text :: "u16 \<Rightarrow> u8 list \<Rightarrow> dgus_st \<Rightarrow> dgus_st" where
  "dgus_write_text vp txt d =
     (if txt = [] then d
      else send_frame DGUS_CMD_WR vp (take 10 txt @ replicate (10 - length txt) 0) d)"

definition dgus_read_var :: "u8 \<Rightarrow> dgus_st \<Rightarrow> dgus_st" where
  "dgus_read_var var = send_frame DGUS_CMD_RD (ucast var) [1]"

section \<open>The receive parser\<close>

text \<open>The byte that completes a frame also fills the caller's frame.\<close>

definition ps_complete :: "dgus_st \<Rightarrow> dgus_frame \<Rightarrow> dgus_frame" where
  "ps_complete d out =
     (let n = dg_frame_idx d - 3; k = min (unat n) DGUS_MAX_DATA
      in out\<lparr>fr_cmd := dg_frame_buf d ! 0,
             fr_vp_addr := be16 (dg_frame_buf d ! 1) (dg_frame_buf d ! 2),
             fr_data_len := n,
             fr_data := take k (drop 3 (dg_frame_buf d)) @ drop k (fr_data out)\<rparr>)"

definition ps_collect :: "u32 \<Rightarrow> u8 \<Rightarrow> dgus_st \<Rightarrow> dgus_frame \<Rightarrow> bool \<times> dgus_st \<times> dgus_frame" where
  "ps_collect now b d out =
     (if DGUS_FRAME_TIMEOUT_MS < elapsed now (dg_frame_start_ms d)
      then (False, d\<lparr>dg_rx_drop_count := dg_rx_drop_count d + 1, dg_parse_state := PS_IDLE\<rparr>, out)
      else
        (let d = d\<lparr>dg_frame_buf := (dg_frame_buf d)[unat (dg_frame_idx d) := b],
                   dg_frame_idx := dg_frame_idx d + 1,
                   dg_bytes_remaining := dg_bytes_remaining d - 1\<rparr>
         in if dg_bytes_remaining d = 0
            then (True, d\<lparr>dg_parse_state := PS_IDLE\<rparr>, ps_complete d out)
            else (False, d, out)))"

definition parser_step :: "u32 \<Rightarrow> u8 \<Rightarrow> dgus_st \<Rightarrow> dgus_frame \<Rightarrow> bool \<times> dgus_st \<times> dgus_frame" where
  "parser_step now b d out =
     (case dg_parse_state d of
        PS_IDLE \<Rightarrow>
          (False, if b = DGUS_SYNC1 then d\<lparr>dg_parse_state := PS_GOT_5A\<rparr> else d, out)
      | PS_GOT_5A \<Rightarrow>
          (False, if b = DGUS_SYNC2 then d\<lparr>dg_parse_state := PS_GOT_HEADER, dg_frame_start_ms := now\<rparr>
                  else if b = DGUS_SYNC1 then d
                  else d\<lparr>dg_parse_state := PS_IDLE\<rparr>, out)
      | PS_GOT_HEADER \<Rightarrow>
          (False, if b < DGUS_LEN_MIN \<or> DGUS_LEN_MAX < b
                  then d\<lparr>dg_rx_drop_count := dg_rx_drop_count d + 1, dg_parse_state := PS_IDLE\<rparr>
                  else d\<lparr>dg_bytes_remaining := b, dg_frame_idx := 0,
                         dg_parse_state := PS_COLLECTING\<rparr>, out)
      | PS_COLLECTING \<Rightarrow> ps_collect now b d out)"

text \<open>The loop over the bytes the interrupt has queued.\<close>

fun rx_drain :: "u32 \<Rightarrow> u8 list \<Rightarrow> dgus_st \<Rightarrow> dgus_frame \<Rightarrow> bool \<times> dgus_st \<times> dgus_frame" where
  "rx_drain now [] d out = (False, d\<lparr>dg_rx_ring := []\<rparr>, out)"
| "rx_drain now (b # bs) d out =
     (let (got, d', out') = parser_step now b d out in
      if got then (True, d'\<lparr>dg_rx_ring := bs\<rparr>, out') else rx_drain now bs d' out')"

definition dgus_rx_poll :: "u32 \<Rightarrow> dgus_st \<Rightarrow> dgus_frame \<Rightarrow> bool \<times> dgus_st \<times> dgus_frame" where
  "dgus_rx_poll now d out = rx_drain now (dg_rx_ring d) d out"


section \<open>A timed sequence of bytes\<close>

text \<open>The frames that a sequence of bytes, each with its time of arrival, delivers.\<close>

fun feed :: "(u32 \<times> u8) list \<Rightarrow> dgus_st \<Rightarrow> dgus_frame \<Rightarrow> dgus_frame list \<times> dgus_st \<times> dgus_frame" where
  "feed [] d out = ([], d, out)"
| "feed ((t, b) # bs) d out =
     (let (got, d', out') = parser_step t b d out;
          (fs, d'', out'') = feed bs d' out'
      in (if got then out' # fs else fs, d'', out''))"

lemma feed_append:
  "feed (xs @ ys) d out =
     (let (fs, d', out') = feed xs d out; (gs, d'', out'') = feed ys d' out'
      in (fs @ gs, d'', out''))"
  by (induction xs arbitrary: d out) (auto simp: Let_def case_prod_unfold)

text \<open>The state of the parser that has room for what it still expects.\<close>

definition parser_ok :: "dgus_st \<Rightarrow> bool" where
  "parser_ok d \<longleftrightarrow> length (dg_frame_buf d) = 32 \<and>
     (dg_parse_state d = PS_COLLECTING \<longrightarrow>
        0 < dg_bytes_remaining d \<and>
        4 \<le> unat (dg_frame_idx d) + unat (dg_bytes_remaining d) \<and>
        unat (dg_frame_idx d) + unat (dg_bytes_remaining d) \<le> 26)"

lemma unat_dec: "0 < (w :: u8) \<Longrightarrow> unat (w - 1) = unat w - 1"
  by (simp add: unat_minus_one word_neq_0_conv)

lemma parser_step_ok:
  assumes "parser_ok d" "length (fr_data out) = 23" "parser_step t b d out = (got, d', out')"
  shows "parser_ok d' \<and> length (fr_data out') = 23 \<and> dg_sent d' = dg_sent d \<and>
    dg_rx_ring d' = dg_rx_ring d \<and>
    (got \<longrightarrow> 1 \<le> unat (fr_data_len out') \<and> unat (fr_data_len out') \<le> 23 \<and>
       dg_parse_state d' = PS_IDLE \<and>
       take (unat (fr_data_len out')) (fr_data out') =
         take (unat (fr_data_len out')) (drop 3 (dg_frame_buf d'))) \<and>
    (\<not> got \<longrightarrow> out' = out)"
proof (cases "dg_parse_state d")
  case PS_COLLECTING
  let ?i = "dg_frame_idx d" and ?r = "dg_bytes_remaining d"
  have b: "length (dg_frame_buf d) = 32" "0 < ?r" "unat ?i + unat ?r \<le> 26"
    "4 \<le> unat ?i + unat ?r" "0 < unat ?r"
    using assms(1) PS_COLLECTING by (auto simp: parser_ok_def word_less_nat_alt)
  have i: "unat (?i + 1) = unat ?i + 1"
    by (subst unat_add_small) (use b in simp_all)
  have r: "unat (?r - 1) = unat ?r - 1" by (rule unat_dec) (rule b)
  have "?r - 1 = 0 \<longleftrightarrow> unat (?r - 1) = 0" by (simp only: unat_eq_zero)
  then have z: "?r - 1 = 0 \<longleftrightarrow> unat ?r = 1" unfolding r using b(5) by arith
  show ?thesis
  proof (cases "unat ?r = 1")
    case False
    then show ?thesis
      using assms(2,3) b i r z PS_COLLECTING
      by (auto simp: parser_step_def ps_collect_def Let_def parser_ok_def word_less_nat_alt
          split: if_splits)
  next
    case True
    have n: "unat (?i + 1 - 3) = unat ?i - 2"
      using b i True by (subst unat_sub) (simp_all add: word_le_nat_alt)
    show ?thesis
      using assms(2,3) b i r z n PS_COLLECTING True
      by (auto simp: parser_step_def ps_collect_def ps_complete_def Let_def parser_ok_def min_def
          split: if_splits)
  qed
qed (use assms in \<open>auto simp: parser_step_def parser_ok_def word_less_nat_alt word_le_nat_alt
       split: if_splits\<close>)


section \<open>Round trip\<close>

lemma feed_collect:
  assumes "dg_parse_state d = PS_COLLECTING" "length (dg_frame_buf d) = 32"
    "unat (dg_bytes_remaining d) = length bs" "bs \<noteq> []"
    "unat (dg_frame_idx d) + length bs \<le> 26" "length ts = length bs"
    "\<forall>t \<in> set ts. elapsed t (dg_frame_start_ms d) \<le> 50"
  shows "\<exists>d'. feed (zip ts bs) d out = ([ps_complete d' out], d', ps_complete d' out) \<and>
    dg_parse_state d' = PS_IDLE \<and> length (dg_frame_buf d') = 32 \<and>
    take (unat (dg_frame_idx d) + length bs) (dg_frame_buf d') =
      take (unat (dg_frame_idx d)) (dg_frame_buf d) @ bs \<and>
    unat (dg_frame_idx d') = unat (dg_frame_idx d) + length bs \<and>
    dg_rx_drop_count d' = dg_rx_drop_count d \<and> dg_sent d' = dg_sent d"
  using assms
proof (induction bs arbitrary: d ts)
  case (Cons b bs)
  obtain t ts' where ts: "ts = t # ts'" using Cons.prems(6) by (cases ts) auto
  let ?i = "dg_frame_idx d" and ?r = "dg_bytes_remaining d"
  let ?d = "d\<lparr>dg_frame_buf := (dg_frame_buf d)[unat ?i := b], dg_frame_idx := ?i + 1,
    dg_bytes_remaining := ?r - 1\<rparr>"
  have i: "unat (?i + 1) = unat ?i + 1"
    by (subst unat_add_small) (use Cons.prems(5) in simp_all)
  have r: "unat (?r - 1) = length bs"
    using Cons.prems(3) unat_dec [of ?r] by (simp add: word_less_nat_alt)
  have time: "\<not> 50 < elapsed t (dg_frame_start_ms d)" using Cons.prems(7) ts by (simp add: not_less)
  have buf: "take (unat ?i + 1) ((dg_frame_buf d)[unat ?i := b]) = take (unat ?i) (dg_frame_buf d) @ [b]"
    using Cons.prems(2,5) by (simp add: take_Suc_conv_app_nth)
  show ?case
  proof (cases "bs = []")
    case True
    then have "?r - 1 = 0" using r by (simp add: unat_eq_zero)
    then have "feed (zip ts (b # bs)) d out =
        ([ps_complete ?d out], ?d\<lparr>dg_parse_state := PS_IDLE\<rparr>, ps_complete ?d out)"
      using ts True time Cons.prems(1) by (simp add: parser_step_def ps_collect_def Let_def)
    moreover have "ps_complete (?d\<lparr>dg_parse_state := PS_IDLE\<rparr>) out = ps_complete ?d out"
      by (simp add: ps_complete_def)
    ultimately show ?thesis
      using True i buf Cons.prems(2) by (intro exI [of _ "?d\<lparr>dg_parse_state := PS_IDLE\<rparr>"]) simp
  next
    case False
    have nz: "?r - 1 \<noteq> 0" using r False by (auto simp flip: unat_eq_zero)
    then have "feed (zip ts (b # bs)) d out = feed (zip ts' bs) ?d out"
      using ts time Cons.prems(1) by (simp add: parser_step_def ps_collect_def Let_def case_prod_unfold)
    moreover have "\<exists>d'. feed (zip ts' bs) ?d out = ([ps_complete d' out], d', ps_complete d' out) \<and>
        dg_parse_state d' = PS_IDLE \<and> length (dg_frame_buf d') = 32 \<and>
        take (unat (dg_frame_idx ?d) + length bs) (dg_frame_buf d') =
          take (unat (dg_frame_idx ?d)) (dg_frame_buf ?d) @ bs \<and>
        unat (dg_frame_idx d') = unat (dg_frame_idx ?d) + length bs \<and>
        dg_rx_drop_count d' = dg_rx_drop_count ?d \<and> dg_sent d' = dg_sent ?d"
      by (rule Cons.IH) (use Cons.prems ts i r False in simp_all)
    ultimately show ?thesis using i buf by (simp add: add.commute)
  qed
qed simp

lemma feed_header:
  assumes "dg_parse_state d = PS_IDLE" "4 \<le> n" "n \<le> (26 :: u8)"
  shows "feed ([(t0, DGUS_SYNC1), (t1, DGUS_SYNC2), (t2, n)] @ bs) d out =
    feed bs (d\<lparr>dg_frame_start_ms := t1, dg_bytes_remaining := n, dg_frame_idx := 0,
               dg_parse_state := PS_COLLECTING\<rparr>) out"
  using assms by (simp add: parser_step_def Let_def case_prod_unfold leD)

definition frame_times_ok :: "u32 list \<Rightarrow> u8 list \<Rightarrow> bool" where
  "frame_times_ok ts bs \<longleftrightarrow> length ts = length bs \<and> (\<forall>t \<in> set (drop 3 ts). elapsed t (ts ! 1) \<le> 50)"

lemma feed_frame:
  assumes "dg_parse_state d = PS_IDLE" "length (dg_frame_buf d) = 32" "length (fr_data out) = 23"
    "1 \<le> length pl" "length pl \<le> 23" "frame_times_ok ts (frame_bytes cmd vp pl)"
  shows "\<exists>d' f. feed (zip ts (frame_bytes cmd vp pl)) d out = ([f], d', f) \<and>
    fr_cmd f = cmd \<and> fr_vp_addr f = vp \<and> unat (fr_data_len f) = length pl \<and>
    fr_data f = pl @ drop (length pl) (fr_data out) \<and>
    dg_parse_state d' = PS_IDLE \<and> length (dg_frame_buf d') = 32 \<and>
    dg_rx_drop_count d' = dg_rx_drop_count d \<and> dg_sent d' = dg_sent d"
proof -
  obtain t0 t1 t2 ts' where ts: "ts = t0 # t1 # t2 # ts'"
    using assms(6) by (auto simp: frame_times_ok_def frame_bytes_def length_Suc_conv)
  let ?n = "3 + of_nat (length pl) :: u8" and ?bs = "[cmd, hi8 vp, lo8 vp] @ pl"
  let ?d = "d\<lparr>dg_frame_start_ms := t1, dg_bytes_remaining := ?n, dg_frame_idx := 0,
               dg_parse_state := PS_COLLECTING\<rparr>"
  have ln: "unat (of_nat (length pl) :: u8) = length pl"
    using assms(5) by (simp add: unsigned_of_nat take_bit_nat_eq_self)
  have n: "unat ?n = length ?bs"
    by (subst unat_add_small) (use ln assms(5) in simp_all)
  have "4 \<le> ?n" "?n \<le> 26" using n assms(4,5) by (simp_all add: word_le_nat_alt)
  then have "feed (zip ts (frame_bytes cmd vp pl)) d out = feed (zip ts' ?bs) ?d out"
    using feed_header [OF assms(1), of ?n t0 t1 t2 "zip ts' ?bs" out]
    by (simp add: ts frame_bytes_def)
  moreover have "\<exists>d'. feed (zip ts' ?bs) ?d out = ([ps_complete d' out], d', ps_complete d' out) \<and>
      dg_parse_state d' = PS_IDLE \<and> length (dg_frame_buf d') = 32 \<and>
      take (unat (dg_frame_idx ?d) + length ?bs) (dg_frame_buf d') =
        take (unat (dg_frame_idx ?d)) (dg_frame_buf ?d) @ ?bs \<and>
      unat (dg_frame_idx d') = unat (dg_frame_idx ?d) + length ?bs \<and>
      dg_rx_drop_count d' = dg_rx_drop_count ?d \<and> dg_sent d' = dg_sent ?d"
    by (rule feed_collect) (use assms n ts in \<open>simp_all add: frame_times_ok_def frame_bytes_def\<close>)
  ultimately obtain d' where d': "feed (zip ts (frame_bytes cmd vp pl)) d out =
      ([ps_complete d' out], d', ps_complete d' out)"
    "dg_parse_state d' = PS_IDLE" "length (dg_frame_buf d') = 32"
    "take (length ?bs) (dg_frame_buf d') = ?bs" "unat (dg_frame_idx d') = length ?bs"
    "dg_rx_drop_count d' = dg_rx_drop_count d" "dg_sent d' = dg_sent d"
    by (auto simp: ts)
  have buf: "dg_frame_buf d' = ?bs @ drop (length ?bs) (dg_frame_buf d')"
    using d'(4) by (metis append_take_drop_id)
  have nth: "dg_frame_buf d' ! 0 = cmd" "dg_frame_buf d' ! 1 = hi8 vp" "dg_frame_buf d' ! 2 = lo8 vp"
    "take (length pl) (drop 3 (dg_frame_buf d')) = pl"
    by (subst buf; simp)+
  have dl: "unat (dg_frame_idx d' - 3) = length pl"
    using d'(5) by (subst unat_sub) (simp_all add: word_le_nat_alt)
  have "fr_cmd (ps_complete d' out) = cmd \<and> fr_vp_addr (ps_complete d' out) = vp \<and>
      unat (fr_data_len (ps_complete d' out)) = length pl \<and>
      fr_data (ps_complete d' out) = pl @ drop (length pl) (fr_data out)"
    using assms(5) by (simp add: ps_complete_def Let_def dl nth min_absorb1 del: One_nat_def)
  then show ?thesis using d' by blast
qed


text \<open>A sequence of frames with the times of their bytes on the wire, and what a receiver reads.\<close>

definition frames_wire :: "(u8 \<times> u16 \<times> u8 list \<times> u32 list) list \<Rightarrow> (u32 \<times> u8) list" where
  "frames_wire frames = concat (map (\<lambda>(cmd, vp, pl, ts). zip ts (frame_bytes cmd vp pl)) frames)"

definition frame_view :: "dgus_frame \<Rightarrow> u8 \<times> u16 \<times> u8 list" where
  "frame_view f = (fr_cmd f, fr_vp_addr f, take (unat (fr_data_len f)) (fr_data f))"

lemma feed_frames:
  assumes "dg_parse_state d = PS_IDLE" "length (dg_frame_buf d) = 32" "length (fr_data out) = 23"
    and "\<forall>(cmd, vp, pl, ts) \<in> set frames. 1 \<le> length pl \<and> length pl \<le> 23 \<and>
           frame_times_ok ts (frame_bytes cmd vp pl)"
  shows "\<exists>fs d' out'. feed (frames_wire frames) d out = (fs, d', out') \<and>
    map frame_view fs = map (\<lambda>(cmd, vp, pl, ts). (cmd, vp, pl)) frames \<and>
    dg_parse_state d' = PS_IDLE \<and> dg_rx_drop_count d' = dg_rx_drop_count d"
  using assms
proof (induction frames arbitrary: d out)
  case (Cons fr frames)
  obtain cmd vp pl ts where fr: "fr = (cmd, vp, pl, ts)" by (cases fr) auto
  obtain d1 f where 1: "feed (zip ts (frame_bytes cmd vp pl)) d out = ([f], d1, f)"
    "fr_cmd f = cmd" "fr_vp_addr f = vp" "unat (fr_data_len f) = length pl"
    "fr_data f = pl @ drop (length pl) (fr_data out)" "dg_parse_state d1 = PS_IDLE"
    "length (dg_frame_buf d1) = 32" "dg_rx_drop_count d1 = dg_rx_drop_count d"
    using feed_frame [of d out pl ts cmd vp] Cons.prems fr by auto
  have "length (fr_data f) = 23" using 1(5) Cons.prems(3,4) fr by simp
  from Cons.IH [OF 1(6,7) this] Cons.prems(4) obtain fs d2 out2 where 2:
    "feed (frames_wire frames) d1 f = (fs, d2, out2)"
    "map frame_view fs = map (\<lambda>(cmd, vp, pl, ts). (cmd, vp, pl)) frames"
    "dg_parse_state d2 = PS_IDLE" "dg_rx_drop_count d2 = dg_rx_drop_count d1"
    by auto
  have "feed (frames_wire (fr # frames)) d out = (f # fs, d2, out2)"
    using 1(1) 2(1) by (simp add: feed_append frames_wire_def fr)
  moreover have "frame_view f = (cmd, vp, pl)" using 1 by (simp add: frame_view_def)
  ultimately show ?case using 1(8) 2 by (simp add: fr)
qed (simp add: frames_wire_def)

text \<open>
  C37: A frame the driver hands out is received back. Any frame of 1 to 23 payload bytes,
  built as \<open>send_frame\<close> builds it, that reaches an idle parser with each byte after the length
  at most 50 ms after the second sync byte, is delivered exactly once, with its command,
  address, length and payload; the parser is idle again and counts no drop, so a sequence of
  such frames arrives complete and in order.
\<close>

theorem dgus_frame_roundtrip:
  assumes "dg_parse_state d = PS_IDLE" "length (dg_frame_buf d) = 32" "length (fr_data out) = 23"
    and "\<forall>(cmd, vp, pl, ts) \<in> set frames. 1 \<le> length pl \<and> length pl \<le> 23 \<and>
           frame_times_ok ts (frame_bytes cmd vp pl)"
  shows "let (fs, d', out') = feed (frames_wire frames) d out in
    map frame_view fs = map (\<lambda>(cmd, vp, pl, ts). (cmd, vp, pl)) frames \<and>
    dg_parse_state d' = PS_IDLE \<and> dg_rx_drop_count d' = dg_rx_drop_count d"
  using feed_frames [OF assms] by auto

theorem dgus_frame_roundtrip_witness:
  "let (fs, d', out') = feed (frames_wire [(DGUS_CMD_RD, 0x1080, [1, 0, 7], replicate 9 5),
         (DGUS_CMD_WR, 0x1110, [0, 90], replicate 8 9)]) dgus_st_zero dgus_frame_zero
   in map frame_view fs = [(0x83, 0x1080, [1, 0, 7]), (0x82, 0x1110, [0, 90])]"
  using dgus_frame_roundtrip [of dgus_st_zero dgus_frame_zero
      "[(DGUS_CMD_RD, 0x1080, [1, 0, 7], replicate 9 5), (DGUS_CMD_WR, 0x1110, [0, 90], replicate 8 9)]"]
  by (auto simp: dgus_st_zero_def dgus_frame_zero_def frame_times_ok_def frame_bytes_def Let_def elapsed_def)

lemma feed_ok:
  assumes "parser_ok d" "length (fr_data out) = 23" "feed bs d out = (fs, d', out')"
  shows "parser_ok d' \<and> (\<forall>f \<in> set fs. length (fr_data f) = 23 \<and> 1 \<le> unat (fr_data_len f) \<and>
    unat (fr_data_len f) \<le> 23)"
  using assms
proof (induction bs arbitrary: d out fs)
  case (Cons tb bs)
  obtain t b where tb: "tb = (t, b)" by (cases tb)
  obtain got d1 out1 where 1: "parser_step t b d out = (got, d1, out1)" by (cases "parser_step t b d out")
  obtain fs2 where 2: "feed bs d1 out1 = (fs2, d', out')" "fs = (if got then out1 # fs2 else fs2)"
    using Cons.prems(3) 1 by (auto simp: tb Let_def split: prod.splits)
  note ok = parser_step_ok [OF Cons.prems(1,2) 1]
  then show ?case using Cons.IH [OF _ _ 2(1)] 2(2) by auto
qed simp

text \<open>
  The parser stays in bounds whatever arrives. From the boot state, for any bytes at
  any times, the index at which the next byte is stored stays below 26 of the 32 bytes of the
  buffer, and every frame delivered has between 1 and 23 payload bytes, so the copy into the
  caller's frame never truncates.
\<close>

theorem dgus_parser_in_bounds:
  "let (fs, d', out') = feed bs dgus_st_zero dgus_frame_zero in
     length (dg_frame_buf d') = 32 \<and>
     (if dg_parse_state d' = PS_COLLECTING then dg_frame_idx d' < 26 else True) \<and>
     list_all (\<lambda>f. 1 \<le> fr_data_len f \<and> fr_data_len f \<le> 23 \<and> length (fr_data f) = 23) fs"
proof -
  obtain fs d' out' where e: "feed bs dgus_st_zero dgus_frame_zero = (fs, d', out')"
    by (cases "feed bs dgus_st_zero dgus_frame_zero")
  have "parser_ok d' \<and> (\<forall>f \<in> set fs. length (fr_data f) = 23 \<and> 1 \<le> unat (fr_data_len f) \<and>
      unat (fr_data_len f) \<le> 23)"
    by (rule feed_ok [OF _ _ e]) (simp_all add: parser_ok_def dgus_st_zero_def dgus_frame_zero_def)
  then show ?thesis
    by (auto simp: e list_all_iff parser_ok_def word_le_nat_alt word_less_nat_alt)
qed

section \<open>After a broken frame\<close>

lemma feed_noise:
  assumes "dg_parse_state d = PS_IDLE" "DGUS_SYNC1 \<notin> set bs"
  shows "feed (zip ts bs) d out = ([], d, out)"
  using assms(2)
proof (induction bs arbitrary: ts)
  case (Cons b bs)
  then show ?case using assms(1) by (cases ts) (auto simp: parser_step_def)
qed simp

text \<open>
  C38: A frame cut short on the wire costs the next frame and no more. When the parser
  still waits for the rest of a frame and more than 50 ms after its sync bytes a new frame
  starts, the first byte of the new frame is spent on the time-out: the drop is counted and,
  if no later byte of that frame is 0x5A, the frame is lost; the frame that follows it is
  delivered intact.
\<close>

theorem dgus_resync_after_timeout:
  assumes "dg_parse_state d = PS_COLLECTING" "length (dg_frame_buf d) = 32" "length (fr_data out) = 23"
    and "50 < elapsed t0 (dg_frame_start_ms d)" "0x5A \<notin> set (tl (frame_bytes cmd1 vp1 pl1))"
    and "1 \<le> length pl" "length pl \<le> 23" "frame_times_ok ts (frame_bytes cmd vp pl)"
  shows "let (fs, d', out') = feed (zip (t0 # ts1) (frame_bytes cmd1 vp1 pl1) @
             zip ts (frame_bytes cmd vp pl)) d out
    in map frame_view fs = [(cmd, vp, pl)] \<and> dg_parse_state d' = PS_IDLE \<and>
       dg_rx_drop_count d' = dg_rx_drop_count d + 1"
proof -
  let ?d = "d\<lparr>dg_rx_drop_count := dg_rx_drop_count d + 1, dg_parse_state := PS_IDLE\<rparr>"
  obtain rest where r: "frame_bytes cmd1 vp1 pl1 = DGUS_SYNC1 # rest" "DGUS_SYNC1 \<notin> set rest"
    using assms(5) by (auto simp: frame_bytes_def)
  have noise: "feed (zip (t0 # ts1) (frame_bytes cmd1 vp1 pl1)) d out = ([], ?d, out)"
    using assms(1,4) r feed_noise [of ?d rest ts1 out]
    by (simp add: parser_step_def ps_collect_def)
  obtain d' f where f: "feed (zip ts (frame_bytes cmd vp pl)) ?d out = ([f], d', f)"
    "fr_cmd f = cmd" "fr_vp_addr f = vp" "unat (fr_data_len f) = length pl"
    "fr_data f = pl @ drop (length pl) (fr_data out)" "dg_parse_state d' = PS_IDLE"
    "dg_rx_drop_count d' = dg_rx_drop_count d + 1"
    using feed_frame [of ?d out pl ts cmd vp] assms by auto
  show ?thesis
    using f by (simp only: feed_append noise Let_def) (simp add: frame_view_def)
qed

theorem dgus_resync_after_timeout_witness:
  "let d = dgus_st_zero\<lparr>dg_parse_state := PS_COLLECTING, dg_frame_start_ms := 100,
             dg_bytes_remaining := 5\<rparr>;
       (fs, d', out') = feed (zip (160 # replicate 7 160) (frame_bytes 0x83 0x1080 [0, 1]) @
             zip (replicate 8 170) (frame_bytes 0x83 0x1072 [0, 3])) d dgus_frame_zero
    in map frame_view fs = [(0x83, 0x1072, [0, 3])] \<and> dg_rx_drop_count d' = 1"
  using dgus_resync_after_timeout [of "dgus_st_zero\<lparr>dg_parse_state := PS_COLLECTING,
      dg_frame_start_ms := 100, dg_bytes_remaining := 5\<rparr>" dgus_frame_zero 160 "0x83" "0x1080" "[0, 1]"
      "[0, 3]" "replicate 8 170" "0x83" "0x1072" "replicate 7 160"]
  by (auto simp: dgus_st_zero_def dgus_frame_zero_def frame_times_ok_def frame_bytes_def Let_def
      elapsed_def hi8_def lo8_def)

section \<open>What the builders send\<close>

text \<open>A complete command frame that fits the 32-byte transmit buffer.\<close>

definition wire_frame :: "u8 list \<Rightarrow> bool" where
  "wire_frame bs \<longleftrightarrow> 7 \<le> length bs \<and> length bs \<le> 29 \<and> bs ! 0 = DGUS_SYNC1 \<and> bs ! 1 = DGUS_SYNC2 \<and>
     unat (bs ! 2) = length bs - 3"

definition wire_ok :: "dgus_st \<Rightarrow> bool" where
  "wire_ok d \<longleftrightarrow> list_all wire_frame (dg_sent d)"

lemma sent_send_frame [simp]: "dg_sent (send_frame cmd vp pl d) = dg_sent d @ [frame_bytes cmd vp pl]"
  by (simp add: send_frame_def usart1_send_blocking_def Let_def split: list.split)

lemma send_frame_keeps [simp]:
  "dg_rx_ring (send_frame cmd vp pl d) = dg_rx_ring d"
  "dg_parse_state (send_frame cmd vp pl d) = dg_parse_state d"
  "dg_frame_buf (send_frame cmd vp pl d) = dg_frame_buf d"
  by (simp_all add: send_frame_def usart1_send_blocking_def Let_def split: list.split)

lemma wire_ok_send: "1 \<le> length pl \<Longrightarrow> length pl \<le> 23 \<Longrightarrow> wire_ok (send_frame cmd vp pl d) = wire_ok d"
  by (auto simp: wire_ok_def wire_frame_def frame_bytes_def unat_word_ariths unsigned_of_nat
      take_bit_nat_eq_self)

lemma wire_ok_builders [simp]:
  "wire_ok (dgus_reset_lcd d) = wire_ok d" "wire_ok (dgus_set_page page d) = wire_ok d"
  "wire_ok (dgus_write_u16 vp v d) = wire_ok d" "wire_ok (dgus_write_u32 vp w d) = wire_ok d"
  "wire_ok (dgus_read_var var d) = wire_ok d"
  by (simp_all add: dgus_reset_lcd_def dgus_set_page_def dgus_write_u16_def dgus_write_u32_def
      dgus_read_var_def wire_ok_send)

lemma wire_ok_text [simp]: "wire_ok (dgus_write_text vp txt d) = wire_ok d"
  by (simp add: dgus_write_text_def wire_ok_send)

lemma wire_ok_bytes [simp]: "buf \<noteq> [] \<Longrightarrow> wire_ok (dgus_write_bytes vp buf d) = wire_ok d"
  unfolding dgus_write_bytes_def by (rule wire_ok_send) (auto simp: neq_Nil_conv)

lemma wire_ok_array [simp]: "ws \<noteq> [] \<Longrightarrow> wire_ok (dgus_write_u16_array vp ws d) = wire_ok d"
proof -
  have "length (concat (map (\<lambda>w. [hi8 w, lo8 w]) xs)) = 2 * length xs" for xs
    by (induction xs) simp_all
  then show "ws \<noteq> [] \<Longrightarrow> wire_ok (dgus_write_u16_array vp ws d) = wire_ok d"
    unfolding dgus_write_u16_array_def
    by (intro wire_ok_send) (auto simp: min_def neq_Nil_conv)
qed

end
