(* ===== verification/Lcd_Str.thy ===== *)
theory Lcd_Str
  imports Sys_State Sys_Prelude
begin

text \<open>
  The strings of the panel, \<open>fw/src/app_lcd_str.c\<close>: times, energies, addresses and
  dotted IP addresses as bytes. A formatter is given the bytes it writes as its result; the
  reference \<open>dec\<close> is the plain decimal notation of a number.
\<close>

section \<open>The formatters\<close>

definition comm_speed_txt :: "u8 list list" where
  "comm_speed_txt = [[32, 50, 52, 48, 48, 32], [32, 52, 56, 48, 48, 32], [32, 57, 54, 48, 48, 32],
     [49, 57, 50, 48, 48, 32], [51, 56, 52, 48, 48, 32], [49, 49, 53, 50, 48, 48]]"

definition comm_parity_txt :: "u8 list list" where
  "comm_parity_txt = [[69, 86, 69, 78], [79, 68, 68, 32], [78, 79, 78, 69]]"

text \<open>One digit place: a leading zero is left out.\<close>

definition put_digit :: "u8 \<Rightarrow> u8 list \<times> bool \<Rightarrow> u8 list \<times> bool" where
  "put_digit nibble df =
     (if nibble \<noteq> 0 then (fst df @ [nibble + 0x30], True)
      else if snd df then (fst df @ [0x30], True)
      else df)"

text \<open>A digit place that writes nothing for a zero, whatever came before.\<close>

definition put_nonzero :: "u8 \<Rightarrow> u8 list \<times> bool \<Rightarrow> u8 list \<times> bool" where
  "put_nonzero nibble df = (if nibble \<noteq> 0 then (fst df @ [nibble + 0x30], True) else df)"

definition time2str :: "u16 \<Rightarrow> u8 list" where
  "time2str src =
     (let df = ([], False);
          nibble = ucast (src div 10000); temp_i = src mod 10000;
          df = put_nonzero nibble df;
          nibble = ucast (temp_i div 1000); temp_i = temp_i mod 1000;
          df = put_digit nibble df;
          nibble = ucast (temp_i div 100); temp_i = temp_i mod 100;
          ds = fst df @ [nibble + 0x30, 0x2E];
          nibble = ucast (temp_i div 10); temp_i = temp_i mod 10
      in ds @ [nibble + 0x30, ucast temp_i + 0x30, 0])"

definition energy2str :: "u32 \<Rightarrow> u8 list" where
  "energy2str src =
     (let df = ([], False);
          nibble = ucast (src div 100000); src = src mod 100000;
          df = put_nonzero nibble df;
          nibble = ucast (src div 10000); temp_i = ucast (src mod 10000) :: u16;
          df = put_nonzero nibble df;
          nibble = ucast (temp_i div 1000); temp_i = temp_i mod 1000;
          df = put_digit nibble df;
          nibble = ucast (temp_i div 100); temp_i = temp_i mod 100;
          df = put_digit nibble df;
          nibble = ucast (temp_i div 10); temp_i = temp_i mod 10;
          df = put_digit nibble df
      in fst df @ [ucast temp_i + 0x30, 0])"

definition conv_addr2str :: "u8 \<Rightarrow> u8 list" where
  "conv_addr2str addr =
     (if addr = 0 then [78, 79, 78, 69]
      else (let temp = addr mod 100 in [32, 0x30 + addr div 100, 0x30 + temp div 10, 0x30 + temp mod 10]))"

text \<open>The decimal notation the C library's \<open>%d\<close> gives a number that is not negative.\<close>

fun dec :: "nat \<Rightarrow> u8 list" where
  "dec n = (if n < 10 then [of_nat n + 0x30] else dec (n div 10) @ [of_nat (n mod 10) + 0x30])"

declare dec.simps [simp del]

definition ip_text :: "u8 list \<Rightarrow> u8 list" where
  "ip_text ip = dec (unat (ip ! 0)) @ 0x2E # dec (unat (ip ! 1)) @ 0x2E # dec (unat (ip ! 2)) @
     0x2E # dec (unat (ip ! 3))"

text \<open>At most 15 characters of the text, then zeros up to the 16 bytes of the buffer.\<close>

definition ip_to_string :: "u8 list \<Rightarrow> u8 list" where
  "ip_to_string ip = (let s = take 15 (ip_text ip) in s @ replicate (16 - length s) 0)"

text \<open>The copy that turns everything after the first zero into zeros.\<close>

definition lcd_data_pdd :: "u8 list \<Rightarrow> nat \<Rightarrow> u8 list" where
  "lcd_data_pdd src len =
     (let s = takeWhile (\<lambda>b. b \<noteq> 0) (take len src) in s @ replicate (len - length s) 0)"

section \<open>Digits\<close>

lemma dec_digits:
  "n < 10 \<Longrightarrow> dec n = [of_nat n + 0x30]"
  "10 \<le> n \<Longrightarrow> dec n = dec (n div 10) @ [of_nat (n mod 10) + 0x30]"
  by (subst dec.simps; simp)+

lemma dec_length: "n < 1000 \<Longrightarrow> length (dec n) \<le> 3 \<and> 0 < length (dec n)"
  by (cases "n < 10"; cases "n < 100") (simp_all add: dec_digits less_mult_imp_div_less)

lemma digit_byte:
  "n < 10 \<Longrightarrow> unat (of_nat n + 0x30 :: u8) = n + 48"
  by (simp add: unat_word_ariths unsigned_of_nat take_bit_nat_eq_self)

lemma ucast_digit:
  fixes w :: "'a::len word"
  assumes "unat w = n" "n < 256"
  shows "(ucast w :: u8) = of_nat n"
  using assms
  by (intro unsigned_word_eqI [where ?'a = nat])
    (simp add: unsigned_ucast_eq unsigned_of_nat take_bit_nat_eq_self)

lemma of_nat_digit_eq_0: "n < 256 \<Longrightarrow> (of_nat n :: u8) = 0 \<longleftrightarrow> n = 0"
  by (auto simp flip: unat_eq_zero simp: unsigned_of_nat take_bit_nat_eq_self)

lemma dec_snoc:
  "d < 10 \<Longrightarrow> dec (10 * m + d) = (if m = 0 then [of_nat d + 0x30] else dec m @ [of_nat d + 0x30])"
  by (subst dec.simps) auto

text \<open>The digits written so far stand for \<open>m\<close>; a place appends one.\<close>

definition digits :: "nat \<Rightarrow> u8 list \<times> bool" where
  "digits m = (if m = 0 then ([], False) else (dec m, True))"

lemma put_digit_digits: "d < 10 \<Longrightarrow> put_digit (of_nat d) (digits m) = digits (10 * m + d)"
  using of_nat_digit_eq_0 [of d] dec_snoc [of 0 m]
  by (cases "m = 0"; cases "d = 0") (simp_all add: put_digit_def digits_def dec_snoc dec_digits(1))

lemma put_nonzero_digits:
  "d < 10 \<Longrightarrow> put_nonzero (of_nat d) (digits m) = (if d = 0 then digits m else digits (10 * m + d))"
  using of_nat_digit_eq_0 [of d]
  by (cases "m = 0") (simp_all add: put_nonzero_def digits_def dec_snoc dec_digits(1))

lemma digits_last: "f < 10 \<Longrightarrow> fst (digits m) @ [of_nat f + 0x30] = dec (10 * m + f)"
  by (simp add: digits_def dec_snoc dec_digits(1))

lemma place: "0 < k \<Longrightarrow> 10 * (n div (10 * k)) + n mod (10 * k) div k = n div k" for n k :: nat
proof -
  assume k: "0 < k"
  have "n mod (k * 10) = k * (n div k mod 10) + n mod k" by (rule mod_mult2_eq)
  then have "n mod (10 * k) div k = n div k mod 10" using k by (simp add: mult.commute)
  moreover have "n div (10 * k) = n div k div 10" by (simp add: div_mult2_eq mult.commute [of 10])
  ultimately show ?thesis by simp
qed

lemmas places = place [of 10, simplified] place [of 100, simplified] place [of 1000, simplified]
  place [of 10000, simplified]

lemma digits_0: "([], False) = digits 0"
  by (simp add: digits_def)

text \<open>
  The times of the panel are exact: hundredths of a second print as the decimal number
  of whole seconds, a point, the two digits of the hundredths and the terminating zero.
\<close>

theorem time2str_exact:
  "time2str src = dec (unat src div 100) @ [0x2E] @
     [of_nat (unat src div 10 mod 10) + 0x30, of_nat (unat src mod 10) + 0x30, 0]"
proof -
  define n where "n = unat src"
  have n: "n < 65536" using unat_bounds(2) [of src] by (simp add: n_def)
  have w: "(ucast (src div 10000) :: u8) = of_nat (n div 10000)"
    "(ucast (src mod 10000 div 1000) :: u8) = of_nat (n mod 10000 div 1000)"
    "(ucast (src mod 10000 mod 1000 div 100) :: u8) = of_nat (n mod 1000 div 100)"
    "(ucast (src mod 10000 mod 1000 mod 100 div 10) :: u8) = of_nat (n mod 100 div 10)"
    "(ucast (src mod 10000 mod 1000 mod 100 mod 10) :: u8) = of_nat (n mod 10)"
    using n by (intro ucast_digit; simp add: unat_div unat_mod n_def less_mult_imp_div_less mod_mod_cancel)+
  have "time2str src = fst (put_digit (of_nat (n mod 10000 div 1000))
      (put_nonzero (of_nat (n div 10000)) (digits 0))) @ [of_nat (n mod 1000 div 100) + 0x30] @
      [0x2E, of_nat (n mod 100 div 10) + 0x30, of_nat (n mod 10) + 0x30, 0]"
    by (simp add: time2str_def Let_def w digits_0)
  also have "put_nonzero (of_nat (n div 10000)) (digits 0) = digits (n div 10000)"
    using n by (subst put_nonzero_digits) simp_all
  also have "put_digit (of_nat (n mod 10000 div 1000)) (digits (n div 10000)) = digits (n div 1000)"
    by (subst put_digit_digits) (simp_all add: places less_mult_imp_div_less)
  also have "fst (digits (n div 1000)) @ [of_nat (n mod 1000 div 100) + 0x30] @ xs =
      dec (n div 100) @ xs" for xs
    using digits_last [of "n mod 1000 div 100" "n div 1000"]
    by (simp add: places less_mult_imp_div_less)
  finally show ?thesis
    using mod_mult2_eq [of n 10 10] by (simp add: n_def [symmetric])
qed

text \<open>
  C40: The energies of the panel are exact up to 99999, and wrong above: from 100000 to
  109999, the zero in the place of the ten thousands is left out, so the number shown is 90000
  too small. The largest energy limit the configuration admits, which is also its factory
  value, is 100000 and shows as 10000.
\<close>

theorem energy2str_exact:
  assumes "src < 110000"
  shows "energy2str src = dec (if src < 100000 then unat src else unat src - 90000) @ [0]"
proof -
  define n where "n = unat src"
  have n: "n < 110000" using assms by (simp add: n_def word_less_nat_alt)
  have w: "(ucast (src div 100000) :: u8) = of_nat (n div 100000)"
    "(ucast (src mod 100000 div 10000) :: u8) = of_nat (n mod 100000 div 10000)"
    using n by (intro ucast_digit; simp add: unat_div unat_mod n_def less_mult_imp_div_less)+
  have t: "unat (ucast (src mod 100000 mod 10000) :: u16) = n mod 10000"
    by (simp add: unsigned_ucast_eq take_bit_nat_eq_self unat_mod n_def mod_mod_cancel)
  have v: "(ucast ((ucast (src mod 100000 mod 10000) :: u16) div 1000) :: u8) = of_nat (n mod 10000 div 1000)"
    "(ucast ((ucast (src mod 100000 mod 10000) :: u16) mod 1000 div 100) :: u8) = of_nat (n mod 1000 div 100)"
    "(ucast ((ucast (src mod 100000 mod 10000) :: u16) mod 1000 mod 100 div 10) :: u8) = of_nat (n mod 100 div 10)"
    "(ucast ((ucast (src mod 100000 mod 10000) :: u16) mod 1000 mod 100 mod 10) :: u8) = of_nat (n mod 10)"
    by (intro ucast_digit; simp add: unat_div unat_mod t less_mult_imp_div_less mod_mod_cancel)+
  define m where "m = (if n < 100000 then n div 1000 else n div 1000 - 90)"
  have "energy2str src = fst (put_digit (of_nat (n mod 100 div 10)) (put_digit (of_nat (n mod 1000 div 100))
      (put_digit (of_nat (n mod 10000 div 1000)) (put_nonzero (of_nat (n mod 100000 div 10000))
      (put_nonzero (of_nat (n div 100000)) (digits 0)))))) @ [of_nat (n mod 10) + 0x30, 0]"
    by (simp add: energy2str_def Let_def w v digits_0)
  also have "put_digit (of_nat (n mod 10000 div 1000)) (put_nonzero (of_nat (n mod 100000 div 10000))
      (put_nonzero (of_nat (n div 100000)) (digits 0))) = digits m"
  proof (cases "n < 100000")
    case True
    then have "put_nonzero (of_nat (n mod 100000 div 10000)) (put_nonzero (of_nat (n div 100000)) (digits 0)) =
        digits (n div 10000)"
      by (simp add: put_nonzero_digits put_nonzero_digits [of 0, simplified] less_mult_imp_div_less)
    then show ?thesis
      using True by (simp add: put_digit_digits places m_def less_mult_imp_div_less)
  next
    case False
    define k where "k = n - 100000"
    then have k: "n = 100000 + k" "k < 10000" using False n by simp_all
    have "(100000 + k) mod 10000 = k" "(100000 + k) div 100000 = 1"
      "(100000 + k) div 1000 = 100 + k div 1000"
      using k(2) mod_mult_self3 [of 10 10000 k] div_mult_self3 [of 1000 100 k]
        div_mult_self3 [of 100000 1 k]
      by simp_all
    moreover have "put_nonzero 1 (digits 0) = digits 1" "put_nonzero 0 (digits 1) = digits 1"
      using put_nonzero_digits [of 1 0] put_nonzero_digits [of 0 1] by simp_all
    ultimately show ?thesis
      using k(2) put_digit_digits [of "k div 1000" 1]
      by (simp add: k(1) m_def less_mult_imp_div_less)
  qed
  also have "put_digit (of_nat (n mod 1000 div 100)) (digits m) = digits (10 * m + n mod 1000 div 100)"
    by (rule put_digit_digits) (simp add: less_mult_imp_div_less)
  also have "put_digit (of_nat (n mod 100 div 10)) (digits (10 * m + n mod 1000 div 100)) =
      digits (10 * (10 * m + n mod 1000 div 100) + n mod 100 div 10)"
    by (rule put_digit_digits) (simp add: less_mult_imp_div_less)
  also have "fst (digits (10 * (10 * m + n mod 1000 div 100) + n mod 100 div 10)) @ [of_nat (n mod 10) + 0x30, 0] =
      dec (10 * (10 * (10 * m + n mod 1000 div 100) + n mod 100 div 10) + n mod 10) @ [0]"
    using digits_last [of "n mod 10" "10 * (10 * m + n mod 1000 div 100) + n mod 100 div 10"] by simp
  also have "10 * (10 * (10 * m + n mod 1000 div 100) + n mod 100 div 10) + n mod 10 =
      (if n < 100000 then n else n - 90000)"
  proof -
    have "10 * (10 * (10 * (n div 1000) + n mod 1000 div 100) + n mod 100 div 10) + n mod 10 = n"
      by (simp only: places [simplified]) simp
    moreover have "\<not> n < 100000 \<Longrightarrow> n div 1000 = (n div 1000 - 90) + 90" by linarith
    ultimately show ?thesis unfolding m_def by (cases "n < 100000") (simp_all, linarith)
  qed
  finally show ?thesis
    by (simp add: n_def word_less_nat_alt)
qed

theorem energy2str_exact_witness:
  "energy2str 99999 = dec 99999 @ [0] \<and> energy2str 100000 = dec 10000 @ [0]"
  using energy2str_exact [of 99999] energy2str_exact [of 100000] by simp

text \<open>The reading of a decimal number, for the round trips.\<close>

definition undec :: "u8 list \<Rightarrow> nat" where
  "undec ds = foldl (\<lambda>n d. 10 * n + (unat d - 48)) 0 ds"

lemma undec_dec: "undec (dec n) = n"
proof (induction n rule: dec.induct)
  case (1 n)
  have d: "unat (of_nat (n mod 10) + 0x30 :: u8) = n mod 10 + 48" by (rule digit_byte) simp
  show ?case
  proof (cases "n < 10")
    case True
    then show ?thesis using digit_byte [of n] by (simp add: dec_digits undec_def)
  next
    case False
    then have "undec (dec n) = 10 * undec (dec (n div 10)) + n mod 10"
      using d by (simp add: dec_digits undec_def)
    then show ?thesis using 1 False by simp
  qed
qed

lemma dec_digits_only: "d \<in> set (dec n) \<Longrightarrow> 48 \<le> unat d \<and> unat d \<le> 57"
proof (induction n rule: dec.induct)
  case (1 n)
  then show ?case
    using digit_byte [of n] digit_byte [of "n mod 10"]
    by (cases "n < 10") (auto simp: dec_digits)
qed


section \<open>Addresses\<close>

text \<open>The bytes up to the first point, and what follows it.\<close>

fun read_octets :: "nat \<Rightarrow> u8 list \<Rightarrow> nat list" where
  "read_octets 0 s = [undec (takeWhile (\<lambda>c. 48 \<le> unat c \<and> unat c \<le> 57) s)]"
| "read_octets (Suc k) s =
     undec (takeWhile (\<lambda>c. 48 \<le> unat c \<and> unat c \<le> 57) s) #
     read_octets k (tl (dropWhile (\<lambda>c. 48 \<le> unat c \<and> unat c \<le> 57) s))"

lemma take_dec: "\<not> (48 \<le> unat c \<and> unat c \<le> 57) \<Longrightarrow>
   takeWhile (\<lambda>c. 48 \<le> unat c \<and> unat c \<le> 57) (dec n @ c # s) = dec n \<and>
   dropWhile (\<lambda>c. 48 \<le> unat c \<and> unat c \<le> 57) (dec n @ c # s) = c # s"
  by (subst takeWhile_append2, use dec_digits_only in blast)
    (subst dropWhile_append2, use dec_digits_only in blast, simp)

lemma ip_text_length:
  assumes "length ip = 4" shows "7 \<le> length (ip_text ip)" "length (ip_text ip) \<le> 15"
proof -
  have "length (dec (unat (b :: u8))) \<le> 3 \<and> 1 \<le> length (dec (unat b))" for b
    using dec_length [of "unat b"] unat_bounds(1) [of b] by (auto simp: Suc_le_eq)
  from this [of "ip ! 0"] this [of "ip ! 1"] this [of "ip ! 2"] this [of "ip ! 3"]
  show "7 \<le> length (ip_text ip)" "length (ip_text ip) \<le> 15"
    unfolding ip_text_def by (simp_all only: length_append list.size, linarith+)
qed

text \<open>
  An IP address survives its notation. The text of any four octets fits the 16-byte
  buffer with a terminating zero, and reading it back octet by octet gives the address.
\<close>

theorem ip_to_string_roundtrip:
  assumes "length ip = 4"
  shows "length (ip_to_string ip) = 16 \<and> last (ip_to_string ip) = 0 \<and>
    read_octets 3 (ip_to_string ip) = map unat ip"
proof -
  note len = ip_text_length [OF assms]
  have s: "ip_to_string ip = ip_text ip @ replicate (16 - length (ip_text ip)) 0"
    using len by (simp add: ip_to_string_def Let_def)
  obtain z where z: "replicate (16 - length (ip_text ip)) (0 :: u8) = 0 # z"
    using len by (cases "16 - length (ip_text ip)") simp_all
  obtain a b c d where ip: "ip = [a, b, c, d]"
    using assms by (auto simp: length_Suc_conv eval_nat_numeral)
  have "read_octets 3 (ip_to_string ip) = map unat ip"
    unfolding s z by (simp add: ip_text_def ip take_dec undec_dec numeral_3_eq_3)
  then show ?thesis using len by (simp add: s last_append)
qed

theorem ip_to_string_roundtrip_witness:
  "read_octets 3 (ip_to_string [192, 168, 0, 255]) = [192, 168, 0, 255]"
  using ip_to_string_roundtrip [of "[192, 168, 0, 255]"] by simp

lemma conv_addr2str_length [simp]: "length (conv_addr2str a) = 4"
  by (simp add: conv_addr2str_def Let_def)

lemma formatter_lengths:
  "1 \<le> length (time2str t)" "1 \<le> length (energy2str e)" "length (ip_to_string ip) = 16"
  by (simp_all add: time2str_def energy2str_def ip_to_string_def Let_def)

lemma lcd_data_pdd_length: "length (lcd_data_pdd src len) = len"
proof -
  have "length (takeWhile (\<lambda>b. b \<noteq> 0) (take len src)) \<le> len"
    using length_takeWhile_le [of "\<lambda>b. b \<noteq> 0" "take len src"] by simp
  then show ?thesis by (simp add: lcd_data_pdd_def Let_def)
qed

end
