(* ===== verification/Horn_Buzzer_Glue.thy ===== *)
theory Horn_Buzzer_Glue
  imports Regulator_Runs
begin

text \<open>
  The glue of the horn-down mode and of the buzzer, \<open>fw/src/app_horn.c\<close> and
  \<open>fw/src/app_buzzer.c\<close>: a 10 ms tick steps the pure machine and drives the pin on a change
  of level; the horn mode also stops every run.
\<close>

section \<open>Horn mode\<close>

abbreviation (input) HORN_TICK_MS :: u32 where "HORN_TICK_MS \<equiv> 10"

definition app_horn_init :: "env \<Rightarrow> sys \<Rightarrow> sys" where
  "app_horn_init e s = s\<lparr>g_horn := \<lparr>hg_fsm = horn_fsm_init, hg_prev_ms = e_now e, hg_mode = 0,
     hg_sol_last = 0\<rparr>\<rparr>"

definition app_horn_set_mode :: "bool \<Rightarrow> sys \<Rightarrow> sys" where
  "app_horn_set_mode on s =
     (let m = b2u on;
          s = (if m \<noteq> hg_mode (g_horn s)
               then (io_sol_dn False s)\<lparr>g_horn := (g_horn s)\<lparr>hg_sol_last := 0\<rparr>\<rparr>
               else s)
      in s\<lparr>g_horn := (g_horn s)\<lparr>hg_mode := m\<rparr>\<rparr>)"

definition horn_read :: "env \<Rightarrow> sys \<Rightarrow> horn_in" where
  "horn_read e s = \<lparr>hi_mode = hg_mode (g_horn s), hi_key1 = e_key1 e, hi_key2 = e_key2 e,
     hi_estop = app_estop_active s\<rparr>"

definition app_horn_tick :: "env \<Rightarrow> sys \<Rightarrow> sys" where
  "app_horn_tick e s =
     (let now = e_now e in
      if elapsed now (hg_prev_ms (g_horn s)) < HORN_TICK_MS then s
      else
        (let s = s\<lparr>g_horn := (g_horn s)\<lparr>hg_prev_ms := now\<rparr>\<rparr>;
             (fsm, sol) = horn_fsm_step (horn_read e s) (hg_fsm (g_horn s));
             s = s\<lparr>g_horn := (g_horn s)\<lparr>hg_fsm := fsm\<rparr>\<rparr>;
             s = (if sol \<noteq> hg_sol_last (g_horn s)
                  then io_sol_dn (sol \<noteq> 0) (s\<lparr>g_horn := (g_horn s)\<lparr>hg_sol_last := sol\<rparr>\<rparr>)
                  else s)
         in if hg_mode (g_horn s) \<noteq> 0 then reg_force_stop now (app_reg_run_src s) s else s))"

section \<open>Buzzer\<close>

abbreviation (input) BUZZER_TICK_MS :: u32 where "BUZZER_TICK_MS \<equiv> 10"

definition app_buzzer_init :: "env \<Rightarrow> sys \<Rightarrow> sys" where
  "app_buzzer_init e s = io_buzzer False
     (s\<lparr>g_buzzer := \<lparr>bg_fsm = 0, bg_prev_ms = e_now e, bg_last = 0\<rparr>\<rparr>)"

definition app_buzzer_beep_ms :: "u16 \<Rightarrow> sys \<Rightarrow> sys" where
  "app_buzzer_beep_ms ms s =
     (let ticks = ms div 10;
          ticks = (if ms \<noteq> 0 \<and> ticks = 0 then 1 else ticks)
      in s\<lparr>g_buzzer := (g_buzzer s)\<lparr>bg_fsm := buzzer_fsm_beep ticks (bg_fsm (g_buzzer s))\<rparr>\<rparr>)"

definition app_buzzer_tick :: "env \<Rightarrow> sys \<Rightarrow> sys" where
  "app_buzzer_tick e s =
     (let now = e_now e in
      if elapsed now (bg_prev_ms (g_buzzer s)) < BUZZER_TICK_MS then s
      else
        (let (fsm, on) = buzzer_fsm_step () (bg_fsm (g_buzzer s));
             s = s\<lparr>g_buzzer := (g_buzzer s)\<lparr>bg_prev_ms := now, bg_fsm := fsm\<rparr>\<rparr>
         in if on \<noteq> bg_last (g_buzzer s)
            then io_buzzer (on \<noteq> 0) (s\<lparr>g_buzzer := (g_buzzer s)\<lparr>bg_last := on\<rparr>\<rparr>)
            else s))"

section \<open>What these operations leave alone\<close>

lemma release_keeps [simp]:
  "g_cfg (app_reg_command now US_CMD_RUN_RELEASE src s) = g_cfg s"
  "g_freq (app_reg_command now US_CMD_RUN_RELEASE src s) = g_freq s"
  "g_lcd (app_reg_command now US_CMD_RUN_RELEASE src s) = g_lcd s"
  "g_dgus (app_reg_command now US_CMD_RUN_RELEASE src s) = g_dgus s"
  "g_i2c (app_reg_command now US_CMD_RUN_RELEASE src s) = g_i2c s"
  "g_ovld (app_reg_command now US_CMD_RUN_RELEASE src s) = g_ovld s"
  "g_input (app_reg_command now US_CMD_RUN_RELEASE src s) = g_input s"
  "g_horn (app_reg_command now US_CMD_RUN_RELEASE src s) = g_horn s"
  "g_weld (app_reg_command now US_CMD_RUN_RELEASE src s) = g_weld s"
  "g_sr (app_reg_command now US_CMD_RUN_RELEASE src s) = g_sr s"
  "g_mb (app_reg_command now US_CMD_RUN_RELEASE src s) = g_mb s"
  "g_buzzer (app_reg_command now US_CMD_RUN_RELEASE src s) = g_buzzer s"
  "g_alarm (app_reg_command now US_CMD_RUN_RELEASE src s) = g_alarm s"
  "g_disp (app_reg_command now US_CMD_RUN_RELEASE src s) = g_disp s"
  "g_measure (app_reg_command now US_CMD_RUN_RELEASE src s) = g_measure s"
  "g_out (app_reg_command now US_CMD_RUN_RELEASE src s) = g_out s"
  "g_model (app_reg_command now US_CMD_RUN_RELEASE src s) = g_model s"
  "rg_us_run_status (g_reg (app_reg_command now US_CMD_RUN_RELEASE src s)) = US_IDLE"
  "rg_error_status (g_reg (app_reg_command now US_CMD_RUN_RELEASE src s)) = rg_error_status (g_reg s)"
  by (simp_all add: app_reg_command_def reg_cmd_release_def)

lemma force_stop_keeps [simp]:
  "g_cfg (reg_force_stop now src s) = g_cfg s" "g_freq (reg_force_stop now src s) = g_freq s"
  "g_lcd (reg_force_stop now src s) = g_lcd s"
  "g_dgus (reg_force_stop now src s) = g_dgus s" "g_ovld (reg_force_stop now src s) = g_ovld s"
  "g_input (reg_force_stop now src s) = g_input s" "g_horn (reg_force_stop now src s) = g_horn s"
  "g_weld (reg_force_stop now src s) = g_weld s" "g_sr (reg_force_stop now src s) = g_sr s"
  "g_mb (reg_force_stop now src s) = g_mb s" "g_out (reg_force_stop now src s) = g_out s"
  "g_buzzer (reg_force_stop now src s) = g_buzzer s" "g_i2c (reg_force_stop now src s) = g_i2c s"
  "g_measure (reg_force_stop now src s) = g_measure s" "g_alarm (reg_force_stop now src s) = g_alarm s"
  "g_disp (reg_force_stop now src s) = g_disp s" "g_model (reg_force_stop now src s) = g_model s"
  "rg_error_status (g_reg (reg_force_stop now src s)) = rg_error_status (g_reg s)"
  by (simp_all add: reg_force_stop_def)

lemma horn_tick_keeps [simp]:
  "g_cfg (app_horn_tick e s) = g_cfg s" "g_lcd (app_horn_tick e s) = g_lcd s"
  "g_dgus (app_horn_tick e s) = g_dgus s" "g_ovld (app_horn_tick e s) = g_ovld s"
  "g_input (app_horn_tick e s) = g_input s" "g_weld (app_horn_tick e s) = g_weld s"
  "g_sr (app_horn_tick e s) = g_sr s" "g_mb (app_horn_tick e s) = g_mb s"
  "g_measure (app_horn_tick e s) = g_measure s" "g_i2c (app_horn_tick e s) = g_i2c s"
  "hg_mode (g_horn (app_horn_tick e s)) = hg_mode (g_horn s)"
  by (simp_all add: app_horn_tick_def pin_defs Let_def case_prod_unfold)

section \<open>Properties\<close>

text \<open>
  C36: The horn mode excludes the ultrasonic. After every 10 ms tick in horn mode no run is
  in progress, whatever source had started one, and no START of any source begins another while
  the mode is on; the emergency stop makes the same tick request the horn's solenoid off.
\<close>

theorem horn_mode_excludes_runs:
  assumes "hg_mode (g_horn s) \<noteq> 0" "HORN_TICK_MS \<le> elapsed (e_now e) (hg_prev_ms (g_horn s))"
  shows "let s' = app_horn_tick e s in
     rg_us_run_status (g_reg s') = US_IDLE \<and>
     rg_us_run_status (g_reg (app_reg_command now US_CMD_START src s')) = US_IDLE \<and>
     (app_estop_active s \<noteq> 0 \<longrightarrow> hg_sol_last (g_horn s') = 0)"
proof -
  define t where "t = app_horn_tick e s"
  have idle: "rg_us_run_status (g_reg t) = US_IDLE"
    using assms
    by (simp add: t_def app_horn_tick_def Let_def case_prod_unfold not_less [symmetric] query_defs
        pin_defs reg_force_stop_def)
  have mode: "app_horn_mode_active t \<noteq> 0" using assms(1) by (simp add: t_def query_defs)
  have "rg_us_run_status (g_reg (app_reg_command now US_CMD_START src t)) = US_IDLE"
    using idle mode by (simp add: app_reg_command_def reg_cmd_start_def app_reg_start_allowed_def)
  moreover have "hg_sol_last (g_horn t) = 0" if "app_estop_active s \<noteq> 0"
    using assms that
    by (simp add: t_def app_horn_tick_def Let_def case_prod_unfold not_less [symmetric] pin_defs
        horn_read_def query_defs horn_step_bak) (simp add: horn_fsm_step_def Let_def)
  ultimately show ?thesis using idle by (simp add: t_def [symmetric] Let_def)
qed

theorem horn_mode_excludes_runs_witness:
  "let s = (sys_zero MODEL_STD)\<lparr>g_horn := \<lparr>hg_fsm = horn_fsm_init, hg_prev_ms = 0, hg_mode = 1,
             hg_sol_last = 0\<rparr>, g_reg := reg_state_zero\<lparr>rg_us_run_status := US_COMM\<rparr>\<rparr>
   in rg_us_run_status (g_reg (app_horn_tick (wit_env 10) s)) = US_IDLE"
  using horn_mode_excludes_runs [of "(sys_zero MODEL_STD)\<lparr>g_horn := \<lparr>hg_fsm = horn_fsm_init,
      hg_prev_ms = 0, hg_mode = 1, hg_sol_last = 0\<rparr>, g_reg := reg_state_zero\<lparr>rg_us_run_status := US_COMM\<rparr>\<rparr>"
      "wit_env 10"]
  by (simp add: Let_def wit_env_def elapsed_def)

end
