(* ===== verification/Lcd_Pages.thy ===== *)
theory Lcd_Pages
  imports Dgus_Lcd Lcd_Str Horn_Buzzer_Glue
begin

text \<open>
  The pages of the panel: \<open>fw/src/app_lcd.c\<close> (the hooks of the panel keys, the model
  string, the boot of the run page) and \<open>fw/src/app_lcd_render.c\<close> (what is written before
  each page change). The operations act on the system record; a frame goes out through the
  builders of \<open>Dgus_Lcd\<close>. The texts are those of the brand GDSONIC.
\<close>

section \<open>Addresses and pages\<close>

abbreviation (input) LCD_MODEL_SETUP :: u8 where "LCD_MODEL_SETUP \<equiv> 1"
abbreviation (input) LCD_RUN_MULTI :: u8 where "LCD_RUN_MULTI \<equiv> 3"
abbreviation (input) LCD_SETUP_MULTI :: u8 where "LCD_SETUP_MULTI \<equiv> 5"
abbreviation (input) LCD_RUN_HAND :: u8 where "LCD_RUN_HAND \<equiv> 3"
abbreviation (input) LCD_SETUP_HAND :: u8 where "LCD_SETUP_HAND \<equiv> 7"
abbreviation (input) LCD_RUN_STD :: u8 where "LCD_RUN_STD \<equiv> 9"
abbreviation (input) LCD_SETUP_STD1 :: u8 where "LCD_SETUP_STD1 \<equiv> 10"
abbreviation (input) LCD_SETUP_STD2D :: u8 where "LCD_SETUP_STD2D \<equiv> 12"
abbreviation (input) LCD_SETUP_STD2T :: u8 where "LCD_SETUP_STD2T \<equiv> 13"
abbreviation (input) LCD_SETUP_STD3 :: u8 where "LCD_SETUP_STD3 \<equiv> 15"
abbreviation (input) LCD_WARNING :: u8 where "LCD_WARNING \<equiv> 17"
abbreviation (input) LCD_SETUP_MH2 :: u8 where "LCD_SETUP_MH2 \<equiv> 19"
abbreviation (input) LCD_SETUP_MHC :: u8 where "LCD_SETUP_MHC \<equiv> 21"
abbreviation (input) LCD_SETUP_STDC :: u8 where "LCD_SETUP_STDC \<equiv> 23"
abbreviation (input) LCD_SETUP_MHE :: u8 where "LCD_SETUP_MHE \<equiv> 25"
abbreviation (input) LCD_SETUP_STDE :: u8 where "LCD_SETUP_STDE \<equiv> 27"

abbreviation (input) MODEL_NAME :: u16 where "MODEL_NAME \<equiv> 0x1000"
abbreviation (input) LV_WORK_CNT :: u16 where "LV_WORK_CNT \<equiv> 0x1006"
abbreviation (input) VAR_POWER :: u16 where "VAR_POWER \<equiv> 0x1110"
abbreviation (input) VAR_ENERGY :: u16 where "VAR_ENERGY \<equiv> 0x1113"
abbreviation (input) LV_OUTPUT :: u16 where "LV_OUTPUT \<equiv> 0x1170"
abbreviation (input) LV_TIME :: u16 where "LV_TIME \<equiv> 0x1184"
abbreviation (input) LV_ENERGY_EDIT :: u16 where "LV_ENERGY_EDIT \<equiv> 0x1202"
abbreviation (input) LV_DM_DELAY :: u16 where "LV_DM_DELAY \<equiv> 0x1203"
abbreviation (input) LV_DM_WELD :: u16 where "LV_DM_WELD \<equiv> 0x1204"
abbreviation (input) LV_DM_HOLD :: u16 where "LV_DM_HOLD \<equiv> 0x1205"
abbreviation (input) LV_TM_WELD :: u16 where "LV_TM_WELD \<equiv> 0x1206"
abbreviation (input) LV_TM_HOLD :: u16 where "LV_TM_HOLD \<equiv> 0x1207"
abbreviation (input) DISP_HORNDOWN :: u16 where "DISP_HORNDOWN \<equiv> 0x1209"
abbreviation (input) DISP_ENERGY_EN :: u16 where "DISP_ENERGY_EN \<equiv> 0x120a"
abbreviation (input) DISP_MULTI_EN :: u16 where "DISP_MULTI_EN \<equiv> 0x120b"
abbreviation (input) ICON_RESET :: u16 where "ICON_RESET \<equiv> 0x1150"
abbreviation (input) ICON_SEEK :: u16 where "ICON_SEEK \<equiv> 0x1151"
abbreviation (input) ICON_RUN :: u16 where "ICON_RUN \<equiv> 0x1152"
abbreviation (input) ICON_OL :: u16 where "ICON_OL \<equiv> 0x1153"
abbreviation (input) ICON_OUTERR :: u16 where "ICON_OUTERR \<equiv> 0x1154"
abbreviation (input) STD_SETUP_PARAM :: u16 where "STD_SETUP_PARAM \<equiv> 0x1020"
abbreviation (input) DATA_SAVE :: u16 where "DATA_SAVE \<equiv> 0x1050"
abbreviation (input) MODEL_FREQ :: u16 where "MODEL_FREQ \<equiv> 0x1060"
abbreviation (input) MODEL_TYPE :: u16 where "MODEL_TYPE \<equiv> 0x1070"
abbreviation (input) KEY_MULTI :: u16 where "KEY_MULTI \<equiv> 0x1080"
abbreviation (input) SETUP_MODEL :: u16 where "SETUP_MODEL \<equiv> 0x1084"
abbreviation (input) ENERGY_EN :: u16 where "ENERGY_EN \<equiv> 0x1085"
abbreviation (input) SETUP_PARAM_MOOHAN :: u16 where "SETUP_PARAM_MOOHAN \<equiv> 0x1094"
abbreviation (input) SETUP_PARAM :: u16 where "SETUP_PARAM \<equiv> 0x1100"
abbreviation (input) COMM_ADDR :: u16 where "COMM_ADDR \<equiv> 0x1071"
abbreviation (input) COMM_SPEED :: u16 where "COMM_SPEED \<equiv> 0x1072"
abbreviation (input) COMM_PARITY :: u16 where "COMM_PARITY \<equiv> 0x1073"
abbreviation (input) COMM_ADDR_TXT :: u16 where "COMM_ADDR_TXT \<equiv> 0x1460"
abbreviation (input) COMM_SPEED_TXT :: u16 where "COMM_SPEED_TXT \<equiv> 0x1464"
abbreviation (input) COMM_PARITY_TXT :: u16 where "COMM_PARITY_TXT \<equiv> 0x146a"
abbreviation (input) COMM_IP_TXT :: u16 where "COMM_IP_TXT \<equiv> 0x1470"
abbreviation (input) COMM_NM_TXT :: u16 where "COMM_NM_TXT \<equiv> 0x1480"
abbreviation (input) COMM_GW_TXT :: u16 where "COMM_GW_TXT \<equiv> 0x1490"
abbreviation (input) KEY_ERROR_RESET :: u16 where "KEY_ERROR_RESET \<equiv> 0x1408"
abbreviation (input) LV_OUT_POWER :: u16 where "LV_OUT_POWER \<equiv> 0x1200"
abbreviation (input) LV_MAX_ON_TIME :: u16 where "LV_MAX_ON_TIME \<equiv> 0x1201"
abbreviation (input) LV_ENERGY_VAL :: u16 where "LV_ENERGY_VAL \<equiv> 0x1212"
abbreviation (input) DISP_RUN_MODE :: u16 where "DISP_RUN_MODE \<equiv> 0x120c"
abbreviation (input) DISP_SAFTY :: u16 where "DISP_SAFTY \<equiv> 0x120d"
abbreviation (input) DISP_REMOTE :: u16 where "DISP_REMOTE \<equiv> 0x120e"
abbreviation (input) LV_LIMIT_OUT_T :: u16 where "LV_LIMIT_OUT_T \<equiv> 0x120f"
abbreviation (input) LV_RUN_MODE :: u16 where "LV_RUN_MODE \<equiv> 0x1210"
abbreviation (input) LV_MO_OUT1 :: u16 where "LV_MO_OUT1 \<equiv> 0x1400"
abbreviation (input) LV_MO_OUT2 :: u16 where "LV_MO_OUT2 \<equiv> 0x1401"
abbreviation (input) LV_MO_TIME1 :: u16 where "LV_MO_TIME1 \<equiv> 0x1402"
abbreviation (input) LV_MO_TIME2 :: u16 where "LV_MO_TIME2 \<equiv> 0x1403"
abbreviation (input) DISP_STD_DATA1 :: u16 where "DISP_STD_DATA1 \<equiv> 0x1300"
abbreviation (input) DISP_STD_DATA2 :: u16 where "DISP_STD_DATA2 \<equiv> 0x1310"
abbreviation (input) DISP_STD_DATA3 :: u16 where "DISP_STD_DATA3 \<equiv> 0x1320"
abbreviation (input) DISP_VERSION :: u16 where "DISP_VERSION \<equiv> 0x1330"
abbreviation (input) VP_ERROR_MSG :: u16 where "VP_ERROR_MSG \<equiv> 0x1350"
abbreviation (input) MULTI_EN :: u16 where "MULTI_EN \<equiv> 0x140a"
abbreviation (input) LV_COMM_MODE :: u16 where "LV_COMM_MODE \<equiv> 0x140b"
abbreviation (input) DISP_COMM_MODE :: u16 where "DISP_COMM_MODE \<equiv> 0x140c"
abbreviation (input) DISP_EN_DHCP :: u16 where "DISP_EN_DHCP \<equiv> 0x140d"
abbreviation (input) LV_ETHER_KEY :: u16 where "LV_ETHER_KEY \<equiv> 0x140f"
abbreviation (input) VAR_CAL_VAL :: u16 where "VAR_CAL_VAL \<equiv> 0x1410"
abbreviation (input) VAR_FREQ_CAL_VAL :: u16 where "VAR_FREQ_CAL_VAL \<equiv> 0x1412"
abbreviation (input) MODE_DELAY :: u8 where "MODE_DELAY \<equiv> 0"
abbreviation (input) MODE_TRIGGER :: u8 where "MODE_TRIGGER \<equiv> 1"
abbreviation (input) LCD_ETHER_INPUT_NONE :: u8 where "LCD_ETHER_INPUT_NONE \<equiv> 0xFF"
abbreviation (input) LCD_ETHER_INPUT_IP :: u8 where "LCD_ETHER_INPUT_IP \<equiv> 0"
abbreviation (input) LCD_ETHER_INPUT_NM :: u8 where "LCD_ETHER_INPUT_NM \<equiv> 1"
abbreviation (input) LCD_ETHER_INPUT_GW :: u8 where "LCD_ETHER_INPUT_GW \<equiv> 2"

text \<open>A string literal as the bytes the C compiler gives it, without the final zero.\<close>

definition chars :: "string \<Rightarrow> u8 list" where
  "chars cs = map (\<lambda>c. of_nat (of_char c)) cs"

abbreviation (input) tx_u16 :: "u16 \<Rightarrow> u16 \<Rightarrow> sys \<Rightarrow> sys" where
  "tx_u16 vp v \<equiv> g_dgus_update (dgus_write_u16 vp v)"
abbreviation (input) tx_u32 :: "u16 \<Rightarrow> u32 \<Rightarrow> sys \<Rightarrow> sys" where
  "tx_u32 vp v \<equiv> g_dgus_update (dgus_write_u32 vp v)"
abbreviation (input) tx_bytes :: "u16 \<Rightarrow> u8 list \<Rightarrow> sys \<Rightarrow> sys" where
  "tx_bytes vp bs \<equiv> g_dgus_update (dgus_write_bytes vp bs)"
abbreviation (input) tx_array :: "u16 \<Rightarrow> u16 list \<Rightarrow> sys \<Rightarrow> sys" where
  "tx_array vp ws \<equiv> g_dgus_update (dgus_write_u16_array vp ws)"
abbreviation (input) tx_text :: "u16 \<Rightarrow> u8 list \<Rightarrow> sys \<Rightarrow> sys" where
  "tx_text vp bs \<equiv> g_dgus_update (dgus_write_text vp bs)"
abbreviation (input) tx_page :: "u8 \<Rightarrow> sys \<Rightarrow> sys" where
  "tx_page p \<equiv> g_dgus_update (dgus_set_page p)"

definition flag16 :: "bool \<Rightarrow> u16" where "flag16 b = (if b then 1 else 0)"


section \<open>The hooks of the panel keys\<close>

definition app_lcd_hook_set_pot :: "u8 \<Rightarrow> sys \<Rightarrow> sys" where
  "app_lcd_hook_set_pot out_power =
     g_i2c_update (i2c_pot_set_dac (pot_dac_from_power out_power))"

definition app_lcd_hook_us_command :: "u32 \<Rightarrow> us_cmd \<Rightarrow> sys \<Rightarrow> sys" where
  "app_lcd_hook_us_command now cmd s = app_reg_command now cmd US_TOUCH s"

text \<open>The tick of the Modbus glue compares the live configuration itself: only a log here.\<close>

definition app_lcd_hook_comm_reconfigure :: "u8 \<Rightarrow> u8 \<Rightarrow> u8 \<Rightarrow> sys \<Rightarrow> sys" where
  "app_lcd_hook_comm_reconfigure speed_idx parity_idx address s = s"

definition app_lcd_hook_ether_apply :: "sys \<Rightarrow> sys" where
  "app_lcd_hook_ether_apply = g_lcd_update (\<lambda>l. l\<lparr>ls_ether_dirty := True\<rparr>)"

definition app_lcd_ether_dirty_take :: "sys \<Rightarrow> bool \<times> sys" where
  "app_lcd_ether_dirty_take s =
     (ls_ether_dirty (g_lcd s), g_lcd_update (\<lambda>l. l\<lparr>ls_ether_dirty := False\<rparr>) s)"

definition app_lcd_hook_horn :: "bool \<Rightarrow> sys \<Rightarrow> sys" where
  "app_lcd_hook_horn down s = app_horn_set_mode down s"

section \<open>The model\<close>

definition app_lcd_run_page :: "app_config \<Rightarrow> u8" where
  "app_lcd_run_page cfg =
     (if model_type cfg = 0 then LCD_RUN_HAND
      else if model_type cfg = 1 then LCD_RUN_MULTI
      else LCD_RUN_STD)"

definition model_str :: "u8 \<Rightarrow> u8 \<Rightarrow> u8 list" where
  "model_str freq type =
     chars ''GDS-'' @
     chars (if freq = 0 then ''15'' else if freq = 1 then ''20'' else if freq = 2 then ''30''
            else if freq = 3 then ''35'' else if freq = 4 then ''40'' else if freq = 5 then ''50''
            else ''15'') @
     chars (if type = 0 then ''H'' else if type = 1 then ''M'' else if type = 2 then ''S'' else ''H'') @
     chars ''   '' @ [0]"

definition app_lcd_send_model_str :: "u8 \<Rightarrow> u8 \<Rightarrow> sys \<Rightarrow> sys" where
  "app_lcd_send_model_str freq type = tx_bytes MODEL_NAME (model_str freq type)"

section \<open>The text lines of the STD run page\<close>

definition std_work_line :: "app_config \<Rightarrow> u16 \<Rightarrow> u8 list" where
  "std_work_line cfg weld_time =
     (if energy_ctrl cfg then chars ''E : '' @ energy2str (limit_energy cfg)
      else chars ''W : '' @ time2str (if multi_ctrl cfg then limit_mo_time1 cfg + limit_mo_time2 cfg
                                      else weld_time))"

definition app_lcd_run_std_refresh :: "sys \<Rightarrow> sys" where
  "app_lcd_run_std_refresh s =
     (let cfg = g_cfg s;
          s = tx_u16 LV_DM_DELAY (limit_delay_time1 cfg) s;
          s = tx_u16 DISP_RUN_MODE (ucast (run_mode cfg)) s;
          s = tx_u16 DISP_SAFTY (ucast (f_safty cfg)) s;
          s = tx_u16 LV_LIMIT_OUT_T (limit_out_time cfg) s
      in if run_mode cfg = MODE_DELAY
         then (let s = tx_bytes DISP_STD_DATA1 (chars ''D : '' @ time2str (limit_delay_time1 cfg)) s;
                   s = tx_bytes DISP_STD_DATA2 (std_work_line cfg (limit_delay_time2 cfg)) s
               in tx_bytes DISP_STD_DATA3 (chars ''H : '' @ time2str (limit_delay_time3 cfg)) s)
         else if run_mode cfg = MODE_TRIGGER
         then (let s = tx_bytes DISP_STD_DATA1 (chars ''SENSOR OFF'' @ [0]) s;
                   s = tx_bytes DISP_STD_DATA2 (std_work_line cfg (limit_trigger_time2 cfg)) s
               in tx_bytes DISP_STD_DATA3 (chars ''H : '' @ time2str (limit_trigger_time3 cfg)) s)
         else s)"

section \<open>The page changes\<close>

definition version_msg :: "product_model \<Rightarrow> u8 list" where
  "version_msg md = chars (case md of MODEL_REMOTE \<Rightarrow> ''V3.1.0R!_260911     ''
     | MODEL_STD \<Rightarrow> ''V3.0.0_260911       '')"

definition render_setup_main :: "sys \<Rightarrow> sys" where
  "render_setup_main s =
     (let cfg = g_cfg s;
          s = tx_bytes DISP_VERSION (version_msg (g_model s)) s;
          s = tx_u16 LV_MAX_ON_TIME (limit_on_time cfg) s;
          s = tx_u16 LV_OUT_POWER (ucast (output_power cfg)) s;
          s = app_lcd_hook_set_pot (output_power cfg) s;
          s = tx_u32 LV_ENERGY_VAL (limit_energy cfg) s;
          s = tx_u16 LV_ENERGY_EDIT (ucast (limit_energy cfg)) s;
          s = tx_u16 DISP_ENERGY_EN (flag16 (energy_ctrl cfg)) s;
          s = tx_u16 LV_LIMIT_OUT_T (limit_out_time cfg) s
      in g_lcd_update (\<lambda>l. l\<lparr>ls_temp_parity_idx := comm_parity_idx cfg, ls_temp_address := comm_address cfg,
           ls_temp_speed_idx := comm_speed_idx cfg, ls_temp_cnt_reset := 0, ls_temp_comm_mode := 0xFF\<rparr>) s)"

text \<open>The first entry of a comm page copies the addresses of the configuration into the shadows.\<close>

definition comm_seed :: "sys \<Rightarrow> sys" where
  "comm_seed s =
     (let cfg = g_cfg s;
          s = g_lcd_update (\<lambda>l. l\<lparr>ls_temp_comm_mode := comm_mode cfg, ls_temp_ether_ip := ether_ip cfg,
                ls_temp_ether_nm := ether_nm cfg, ls_temp_ether_gw := ether_gw cfg\<rparr>) s;
          s = tx_bytes COMM_IP_TXT (ip_to_string (ls_temp_ether_ip (g_lcd s))) s;
          s = tx_bytes COMM_NM_TXT (ip_to_string (ls_temp_ether_nm (g_lcd s))) s;
          s = tx_bytes COMM_GW_TXT (ip_to_string (ls_temp_ether_gw (g_lcd s))) s
      in g_lcd_update (\<lambda>l. l\<lparr>ls_ether_current_number := 0, ls_ether_current_octet := 0,
           ls_ether_has_input := 0, ls_ether_ip_input_complete := 0, ls_ether_buffer_pos := 0,
           ls_ether_what_input := LCD_ETHER_INPUT_NONE\<rparr>) s)"

definition render_comm_page :: "sys \<Rightarrow> sys" where
  "render_comm_page s =
     (let cfg = g_cfg s;
          s = tx_u16 COMM_ADDR (ucast (comm_address cfg)) s;
          s = tx_u16 COMM_SPEED (ucast (comm_speed_idx cfg)) s;
          s = tx_u16 COMM_PARITY (ucast (comm_parity_idx cfg)) s;
          s = g_lcd_update (\<lambda>l. l\<lparr>ls_temp_parity_idx := comm_parity_idx cfg,
                ls_temp_address := comm_address cfg, ls_temp_speed_idx := comm_speed_idx cfg\<rparr>) s;
          s = tx_bytes COMM_ADDR_TXT (conv_addr2str (comm_address cfg)) s;
          s = tx_bytes COMM_SPEED_TXT (comm_speed_txt ! unat (comm_speed_idx cfg)) s;
          s = tx_bytes COMM_PARITY_TXT (comm_parity_txt ! unat (comm_parity_idx cfg)) s
      in if ls_temp_comm_mode (g_lcd s) = 0xFF then comm_seed s else s)"

definition render_comm_tail :: "u8 \<Rightarrow> sys \<Rightarrow> sys" where
  "render_comm_tail page s =
     (let m = ls_temp_comm_mode (g_lcd s);
          s = tx_u16 DISP_COMM_MODE (if m = 0 then 0 else 1) s
      in if page = LCD_SETUP_MHE \<or> page = LCD_SETUP_STDE
         then tx_u16 DISP_EN_DHCP (if m = 0 then 0 else ucast m - 1) s
         else s)"

text \<open>What a page shows is written first, page by page.\<close>

definition render_page :: "u8 \<Rightarrow> sys \<Rightarrow> sys" where
  "render_page page s =
     (let cfg = g_cfg s; unseed = g_lcd_update (\<lambda>l. l\<lparr>ls_temp_comm_mode := 0xFF\<rparr>) in
      if page = LCD_RUN_STD then app_lcd_run_std_refresh s
      else if page = LCD_SETUP_HAND \<or> page = LCD_SETUP_MULTI \<or> page = LCD_SETUP_STD1
      then render_setup_main s
      else if page = LCD_SETUP_STD2D
      then unseed (tx_u16 LV_DM_HOLD (limit_delay_time3 cfg)
             (tx_u16 LV_DM_WELD (limit_delay_time2 cfg) (tx_u16 LV_DM_DELAY (limit_delay_time1 cfg) s)))
      else if page = LCD_SETUP_STD2T
      then unseed (tx_u16 LV_TM_HOLD (limit_trigger_time3 cfg)
             (tx_u16 LV_TM_WELD (limit_trigger_time2 cfg) s))
      else if page = LCD_SETUP_STD3 \<or> page = LCD_SETUP_MH2
      then (let s = tx_u16 DISP_MULTI_EN (flag16 (multi_ctrl cfg)) s;
                s = tx_u16 LV_MO_OUT1 (limit_mo_out1 cfg) s;
                s = tx_u16 LV_MO_OUT2 (limit_mo_out2 cfg) s;
                s = tx_u16 LV_MO_TIME1 (limit_mo_time1 cfg) s
            in unseed (tx_u16 LV_MO_TIME2 (limit_mo_time2 cfg) s))
      else if page = LCD_SETUP_STDC \<or> page = LCD_SETUP_MHC
      then (let s = render_comm_page s
            in tx_u16 DISP_COMM_MODE (if 0 < ls_temp_comm_mode (g_lcd s) then 1 else 0) s)
      else if page = LCD_SETUP_STDE \<or> page = LCD_SETUP_MHE
      then (let s = render_comm_page s; m = ls_temp_comm_mode (g_lcd s)
            in if m = 0 then tx_u16 DISP_EN_DHCP 0 (tx_u16 DISP_COMM_MODE 0 s)
               else tx_u16 DISP_EN_DHCP (ucast m - 1) (tx_u16 DISP_COMM_MODE 1 s))
      else s)"

definition app_lcd_change_page :: "u32 \<Rightarrow> u8 \<Rightarrow> sys \<Rightarrow> sys" where
  "app_lcd_change_page now page s =
     (let s = tx_u16 DISP_ENERGY_EN (flag16 (energy_ctrl (g_cfg s))) s;
          s = tx_u16 DISP_MULTI_EN (flag16 (multi_ctrl (g_cfg s))) s;
          s = render_page page s;
          s = tx_page page s;
          s = g_lcd_update (\<lambda>l. l\<lparr>ls_last_set_page_ms := now\<rparr>) s
      in if page = LCD_SETUP_MHC \<or> page = LCD_SETUP_STDC \<or> page = LCD_SETUP_MHE \<or> page = LCD_SETUP_STDE
         then render_comm_tail page s else s)"

definition app_lcd_weld_sensor_text :: "bool \<Rightarrow> sys \<Rightarrow> sys" where
  "app_lcd_weld_sensor_text on =
     tx_bytes DISP_STD_DATA1 (if on then chars ''SENSOR ON'' @ [0] else chars ''SENSOR OFF'' @ [0])"

definition app_lcd_var_init :: "sys \<Rightarrow> sys" where
  "app_lcd_var_init s = tx_array (SETUP_MODEL + 1) [0x0000, 0x0002]
     (tx_array (KEY_MULTI + 1) [0x0003, 0x0004] s)"

section \<open>The start of the run page\<close>

definition ref_levels :: "u8 \<Rightarrow> lcd_app_state \<Rightarrow> lcd_app_state" where
  "ref_levels freq l = l\<lparr>ls_ref_lv_1 := 50,
     ls_ref_lv_10 := (if freq = 0 then 1000 else if freq = 1 then 600 else 400),
     ls_ref_lv_20 := (if freq = 0 then 2000 else if freq = 1 then 1200 else 700)\<rparr>"

definition app_lcd_init_mode :: "u32 \<Rightarrow> sys \<Rightarrow> sys" where
  "app_lcd_init_mode now s =
     (let cfg = g_cfg s; run_page = app_lcd_run_page cfg;
          s = app_lcd_send_model_str (model_freq cfg) (model_type cfg) s;
          s = g_lcd_update (\<lambda>l. ref_levels (model_freq cfg) (l\<lparr>ls_lcd_status := run_page,
                ls_sys_mode := model_type cfg, ls_temp_comm_mode := 0xFF\<rparr>)) s;
          s = tx_u16 ICON_RESET 0 s;
          s = tx_u16 ICON_SEEK 0 s;
          s = tx_u16 ICON_RUN 0 s;
          s = tx_u16 LV_DM_DELAY (limit_delay_time1 cfg) s;
          s = tx_u16 LV_DM_WELD (limit_delay_time2 cfg) s;
          s = tx_u16 LV_DM_HOLD (limit_delay_time3 cfg) s;
          s = tx_u16 LV_TM_WELD (limit_trigger_time2 cfg) s;
          s = tx_u16 LV_TM_HOLD (limit_trigger_time3 cfg) s;
          s = tx_u32 LV_WORK_CNT (work_cnt cfg) s;
          s = tx_u16 LV_ENERGY_EDIT (ucast (limit_energy cfg div 10)) s;
          s = tx_u16 DISP_HORNDOWN 0 s
      in app_lcd_change_page now run_page s)"

section \<open>What the pages leave alone\<close>

text \<open>
  The panel operations write frames, the panel state and the potentiometer; each keeps the
  other components, and every frame they send fits the transmit buffer.
\<close>

lemma chars_append_nonempty [simp]: "chars cs \<noteq> [] \<longleftrightarrow> cs \<noteq> []"
  by (simp add: chars_def)

lemma formatter_nonempty [simp]: "time2str t \<noteq> []" "energy2str e \<noteq> []" "ip_to_string ip \<noteq> []"
  "conv_addr2str a \<noteq> []" "std_work_line cfg t \<noteq> []" "version_msg md \<noteq> []"
  using formatter_lengths(1) [of t] formatter_lengths(2) [of e] formatter_lengths(3) [of ip]
  by (auto simp: std_work_line_def version_msg_def conv_addr2str_def Let_def split: product_model.split)

lemma comm_txt_nonempty:
  "i \<le> 5 \<Longrightarrow> comm_speed_txt ! unat (i :: u8) \<noteq> []" "j \<le> 2 \<Longrightarrow> comm_parity_txt ! unat (j :: u8) \<noteq> []"
proof -
  have "comm_speed_txt ! n \<noteq> []" if "n \<le> 5" for n
  proof -
    have "n \<in> {0, 1, 2, 3, 4, 5}" using that by auto
    then show ?thesis by (auto simp: comm_speed_txt_def)
  qed
  then show "i \<le> 5 \<Longrightarrow> comm_speed_txt ! unat (i :: u8) \<noteq> []" by (simp add: word_le_nat_alt)
  have "comm_parity_txt ! n \<noteq> []" if "n \<le> 2" for n
  proof -
    have "n \<in> {0, 1, 2}" using that by auto
    then show ?thesis by (auto simp: comm_parity_txt_def)
  qed
  then show "j \<le> 2 \<Longrightarrow> comm_parity_txt ! unat (j :: u8) \<noteq> []" by (simp add: word_le_nat_alt)
qed

lemma hook_set_pot_keeps [simp]:
  "g_cfg (app_lcd_hook_set_pot p s) = g_cfg s" "g_lcd (app_lcd_hook_set_pot p s) = g_lcd s"
  "g_disp (app_lcd_hook_set_pot p s) = g_disp s" "g_dgus (app_lcd_hook_set_pot p s) = g_dgus s"
  "g_measure (app_lcd_hook_set_pot p s) = g_measure s"
  "g_reg (app_lcd_hook_set_pot p s) = g_reg s" "g_freq (app_lcd_hook_set_pot p s) = g_freq s"
  "g_weld (app_lcd_hook_set_pot p s) = g_weld s" "g_ovld (app_lcd_hook_set_pot p s) = g_ovld s"
  "g_input (app_lcd_hook_set_pot p s) = g_input s" "g_horn (app_lcd_hook_set_pot p s) = g_horn s"
  "g_sr (app_lcd_hook_set_pot p s) = g_sr s" "g_buzzer (app_lcd_hook_set_pot p s) = g_buzzer s"
  "g_alarm (app_lcd_hook_set_pot p s) = g_alarm s" "g_mb (app_lcd_hook_set_pot p s) = g_mb s"
  "g_out (app_lcd_hook_set_pot p s) = g_out s" "g_model (app_lcd_hook_set_pot p s) = g_model s"
  by (simp_all add: app_lcd_hook_set_pot_def)

lemma send_model_str_keeps [simp]:
  "g_cfg (app_lcd_send_model_str f t s) = g_cfg s"
  "g_lcd (app_lcd_send_model_str f t s) = g_lcd s"
  "g_disp (app_lcd_send_model_str f t s) = g_disp s"
  "g_measure (app_lcd_send_model_str f t s) = g_measure s"
  "g_reg (app_lcd_send_model_str f t s) = g_reg s"
  "g_freq (app_lcd_send_model_str f t s) = g_freq s"
  "g_i2c (app_lcd_send_model_str f t s) = g_i2c s"
  "g_weld (app_lcd_send_model_str f t s) = g_weld s"
  "g_ovld (app_lcd_send_model_str f t s) = g_ovld s"
  "g_input (app_lcd_send_model_str f t s) = g_input s"
  "g_horn (app_lcd_send_model_str f t s) = g_horn s"
  "g_sr (app_lcd_send_model_str f t s) = g_sr s"
  "g_buzzer (app_lcd_send_model_str f t s) = g_buzzer s"
  "g_alarm (app_lcd_send_model_str f t s) = g_alarm s"
  "g_mb (app_lcd_send_model_str f t s) = g_mb s" "g_out (app_lcd_send_model_str f t s) = g_out s"
  "g_model (app_lcd_send_model_str f t s) = g_model s"
  by (simp_all add: app_lcd_send_model_str_def)

lemma std_refresh_keeps [simp]:
  "g_cfg (app_lcd_run_std_refresh s) = g_cfg s" "g_lcd (app_lcd_run_std_refresh s) = g_lcd s"
  "g_disp (app_lcd_run_std_refresh s) = g_disp s"
  "g_measure (app_lcd_run_std_refresh s) = g_measure s"
  "g_reg (app_lcd_run_std_refresh s) = g_reg s" "g_freq (app_lcd_run_std_refresh s) = g_freq s"
  "g_i2c (app_lcd_run_std_refresh s) = g_i2c s" "g_weld (app_lcd_run_std_refresh s) = g_weld s"
  "g_ovld (app_lcd_run_std_refresh s) = g_ovld s"
  "g_input (app_lcd_run_std_refresh s) = g_input s"
  "g_horn (app_lcd_run_std_refresh s) = g_horn s" "g_sr (app_lcd_run_std_refresh s) = g_sr s"
  "g_buzzer (app_lcd_run_std_refresh s) = g_buzzer s"
  "g_alarm (app_lcd_run_std_refresh s) = g_alarm s" "g_mb (app_lcd_run_std_refresh s) = g_mb s"
  "g_out (app_lcd_run_std_refresh s) = g_out s" "g_model (app_lcd_run_std_refresh s) = g_model s"
  by (simp_all add: app_lcd_run_std_refresh_def Let_def)

lemma setup_main_keeps [simp]:
  "g_cfg (render_setup_main s) = g_cfg s" "g_disp (render_setup_main s) = g_disp s"
  "g_measure (render_setup_main s) = g_measure s" "g_reg (render_setup_main s) = g_reg s"
  "g_freq (render_setup_main s) = g_freq s" "g_weld (render_setup_main s) = g_weld s"
  "g_ovld (render_setup_main s) = g_ovld s" "g_input (render_setup_main s) = g_input s"
  "g_horn (render_setup_main s) = g_horn s" "g_sr (render_setup_main s) = g_sr s"
  "g_buzzer (render_setup_main s) = g_buzzer s" "g_alarm (render_setup_main s) = g_alarm s"
  "g_mb (render_setup_main s) = g_mb s" "g_out (render_setup_main s) = g_out s"
  "g_model (render_setup_main s) = g_model s"
  by (simp_all add: render_setup_main_def Let_def)

lemma comm_seed_keeps [simp]:
  "g_cfg (comm_seed s) = g_cfg s" "g_disp (comm_seed s) = g_disp s"
  "g_measure (comm_seed s) = g_measure s" "g_reg (comm_seed s) = g_reg s"
  "g_freq (comm_seed s) = g_freq s" "g_i2c (comm_seed s) = g_i2c s"
  "g_weld (comm_seed s) = g_weld s" "g_ovld (comm_seed s) = g_ovld s"
  "g_input (comm_seed s) = g_input s" "g_horn (comm_seed s) = g_horn s"
  "g_sr (comm_seed s) = g_sr s" "g_buzzer (comm_seed s) = g_buzzer s"
  "g_alarm (comm_seed s) = g_alarm s" "g_mb (comm_seed s) = g_mb s"
  "g_out (comm_seed s) = g_out s" "g_model (comm_seed s) = g_model s"
  by (simp_all add: comm_seed_def Let_def)

lemma comm_page_keeps [simp]:
  "g_cfg (render_comm_page s) = g_cfg s" "g_disp (render_comm_page s) = g_disp s"
  "g_measure (render_comm_page s) = g_measure s" "g_reg (render_comm_page s) = g_reg s"
  "g_freq (render_comm_page s) = g_freq s" "g_i2c (render_comm_page s) = g_i2c s"
  "g_weld (render_comm_page s) = g_weld s" "g_ovld (render_comm_page s) = g_ovld s"
  "g_input (render_comm_page s) = g_input s" "g_horn (render_comm_page s) = g_horn s"
  "g_sr (render_comm_page s) = g_sr s" "g_buzzer (render_comm_page s) = g_buzzer s"
  "g_alarm (render_comm_page s) = g_alarm s" "g_mb (render_comm_page s) = g_mb s"
  "g_out (render_comm_page s) = g_out s" "g_model (render_comm_page s) = g_model s"
  by (simp_all add: render_comm_page_def Let_def)

lemma comm_tail_keeps [simp]:
  "g_cfg (render_comm_tail p s) = g_cfg s" "g_lcd (render_comm_tail p s) = g_lcd s"
  "g_disp (render_comm_tail p s) = g_disp s" "g_measure (render_comm_tail p s) = g_measure s"
  "g_reg (render_comm_tail p s) = g_reg s" "g_freq (render_comm_tail p s) = g_freq s"
  "g_i2c (render_comm_tail p s) = g_i2c s" "g_weld (render_comm_tail p s) = g_weld s"
  "g_ovld (render_comm_tail p s) = g_ovld s" "g_input (render_comm_tail p s) = g_input s"
  "g_horn (render_comm_tail p s) = g_horn s" "g_sr (render_comm_tail p s) = g_sr s"
  "g_buzzer (render_comm_tail p s) = g_buzzer s" "g_alarm (render_comm_tail p s) = g_alarm s"
  "g_mb (render_comm_tail p s) = g_mb s" "g_out (render_comm_tail p s) = g_out s"
  "g_model (render_comm_tail p s) = g_model s"
  by (simp_all add: render_comm_tail_def Let_def)

lemma render_page_keeps [simp]:
  "g_cfg (render_page p s) = g_cfg s" "g_disp (render_page p s) = g_disp s"
  "g_measure (render_page p s) = g_measure s" "g_reg (render_page p s) = g_reg s"
  "g_freq (render_page p s) = g_freq s" "g_weld (render_page p s) = g_weld s"
  "g_ovld (render_page p s) = g_ovld s" "g_input (render_page p s) = g_input s"
  "g_horn (render_page p s) = g_horn s" "g_sr (render_page p s) = g_sr s"
  "g_buzzer (render_page p s) = g_buzzer s" "g_alarm (render_page p s) = g_alarm s"
  "g_mb (render_page p s) = g_mb s" "g_out (render_page p s) = g_out s"
  "g_model (render_page p s) = g_model s"
  by (simp_all add: render_page_def Let_def)

lemma change_page_keeps [simp]:
  "g_cfg (app_lcd_change_page now p s) = g_cfg s"
  "g_disp (app_lcd_change_page now p s) = g_disp s"
  "g_measure (app_lcd_change_page now p s) = g_measure s"
  "g_reg (app_lcd_change_page now p s) = g_reg s"
  "g_freq (app_lcd_change_page now p s) = g_freq s"
  "g_weld (app_lcd_change_page now p s) = g_weld s"
  "g_ovld (app_lcd_change_page now p s) = g_ovld s"
  "g_input (app_lcd_change_page now p s) = g_input s"
  "g_horn (app_lcd_change_page now p s) = g_horn s" "g_sr (app_lcd_change_page now p s) = g_sr s"
  "g_buzzer (app_lcd_change_page now p s) = g_buzzer s"
  "g_alarm (app_lcd_change_page now p s) = g_alarm s"
  "g_mb (app_lcd_change_page now p s) = g_mb s" "g_out (app_lcd_change_page now p s) = g_out s"
  "g_model (app_lcd_change_page now p s) = g_model s"
  by (simp_all add: app_lcd_change_page_def Let_def)

lemma sensor_text_keeps [simp]:
  "g_cfg (app_lcd_weld_sensor_text on s) = g_cfg s"
  "g_lcd (app_lcd_weld_sensor_text on s) = g_lcd s"
  "g_disp (app_lcd_weld_sensor_text on s) = g_disp s"
  "g_measure (app_lcd_weld_sensor_text on s) = g_measure s"
  "g_reg (app_lcd_weld_sensor_text on s) = g_reg s"
  "g_freq (app_lcd_weld_sensor_text on s) = g_freq s"
  "g_i2c (app_lcd_weld_sensor_text on s) = g_i2c s"
  "g_weld (app_lcd_weld_sensor_text on s) = g_weld s"
  "g_ovld (app_lcd_weld_sensor_text on s) = g_ovld s"
  "g_input (app_lcd_weld_sensor_text on s) = g_input s"
  "g_horn (app_lcd_weld_sensor_text on s) = g_horn s"
  "g_sr (app_lcd_weld_sensor_text on s) = g_sr s"
  "g_buzzer (app_lcd_weld_sensor_text on s) = g_buzzer s"
  "g_alarm (app_lcd_weld_sensor_text on s) = g_alarm s"
  "g_mb (app_lcd_weld_sensor_text on s) = g_mb s"
  "g_out (app_lcd_weld_sensor_text on s) = g_out s"
  "g_model (app_lcd_weld_sensor_text on s) = g_model s"
  by (simp_all add: app_lcd_weld_sensor_text_def)

lemma var_init_keeps [simp]:
  "g_cfg (app_lcd_var_init s) = g_cfg s" "g_lcd (app_lcd_var_init s) = g_lcd s"
  "g_disp (app_lcd_var_init s) = g_disp s" "g_measure (app_lcd_var_init s) = g_measure s"
  "g_reg (app_lcd_var_init s) = g_reg s" "g_freq (app_lcd_var_init s) = g_freq s"
  "g_i2c (app_lcd_var_init s) = g_i2c s" "g_weld (app_lcd_var_init s) = g_weld s"
  "g_ovld (app_lcd_var_init s) = g_ovld s" "g_input (app_lcd_var_init s) = g_input s"
  "g_horn (app_lcd_var_init s) = g_horn s" "g_sr (app_lcd_var_init s) = g_sr s"
  "g_buzzer (app_lcd_var_init s) = g_buzzer s" "g_alarm (app_lcd_var_init s) = g_alarm s"
  "g_mb (app_lcd_var_init s) = g_mb s" "g_out (app_lcd_var_init s) = g_out s"
  "g_model (app_lcd_var_init s) = g_model s"
  by (simp_all add: app_lcd_var_init_def)

lemma init_mode_keeps [simp]:
  "g_cfg (app_lcd_init_mode now s) = g_cfg s" "g_disp (app_lcd_init_mode now s) = g_disp s"
  "g_measure (app_lcd_init_mode now s) = g_measure s" "g_reg (app_lcd_init_mode now s) = g_reg s"
  "g_freq (app_lcd_init_mode now s) = g_freq s" "g_weld (app_lcd_init_mode now s) = g_weld s"
  "g_ovld (app_lcd_init_mode now s) = g_ovld s" "g_input (app_lcd_init_mode now s) = g_input s"
  "g_horn (app_lcd_init_mode now s) = g_horn s" "g_sr (app_lcd_init_mode now s) = g_sr s"
  "g_buzzer (app_lcd_init_mode now s) = g_buzzer s"
  "g_alarm (app_lcd_init_mode now s) = g_alarm s" "g_mb (app_lcd_init_mode now s) = g_mb s"
  "g_out (app_lcd_init_mode now s) = g_out s" "g_model (app_lcd_init_mode now s) = g_model s"
  by (simp_all add: app_lcd_init_mode_def Let_def)

text \<open>The selectors of the comm texts, which index the two tables.\<close>

definition comm_idx_ok :: "app_config \<Rightarrow> bool" where
  "comm_idx_ok cfg \<longleftrightarrow> comm_speed_idx cfg \<le> CFG_COMM_SPEED_IDX_MAX \<and> comm_parity_idx cfg \<le> CFG_COMM_PARITY_IDX_MAX"

lemma comm_page_wire:
  "comm_idx_ok (g_cfg s) \<Longrightarrow> wire_ok (g_dgus (render_comm_page s)) = wire_ok (g_dgus s)"
  by (simp add: render_comm_page_def comm_seed_def Let_def comm_idx_ok_def comm_txt_nonempty)

lemma std_refresh_wire [simp]: "wire_ok (g_dgus (app_lcd_run_std_refresh s)) = wire_ok (g_dgus s)"
  by (simp add: app_lcd_run_std_refresh_def Let_def)

lemma set_pot_wire [simp]: "wire_ok (g_dgus (render_setup_main s)) = wire_ok (g_dgus s)"
  by (simp add: render_setup_main_def Let_def)

lemma model_str_wire [simp]: "wire_ok (g_dgus (app_lcd_send_model_str f t s)) = wire_ok (g_dgus s)"
  by (simp add: app_lcd_send_model_str_def model_str_def)

lemma sensor_text_wire [simp]: "wire_ok (g_dgus (app_lcd_weld_sensor_text on s)) = wire_ok (g_dgus s)"
  by (simp add: app_lcd_weld_sensor_text_def)

lemma render_page_wire:
  "comm_idx_ok (g_cfg s) \<Longrightarrow> wire_ok (g_dgus (render_page p s)) = wire_ok (g_dgus s)"
  by (simp add: render_page_def Let_def comm_page_wire)

lemma change_page_wire:
  "comm_idx_ok (g_cfg s) \<Longrightarrow> wire_ok (g_dgus (app_lcd_change_page now p s)) = wire_ok (g_dgus s)"
  by (simp add: app_lcd_change_page_def Let_def render_page_wire render_comm_tail_def)

lemma init_mode_wire:
  "comm_idx_ok (g_cfg s) \<Longrightarrow> wire_ok (g_dgus (app_lcd_init_mode now s)) = wire_ok (g_dgus s)"
  by (simp add: app_lcd_init_mode_def Let_def change_page_wire)

text \<open>What a page change leaves in the panel state.\<close>

lemma change_page_lcd [simp]:
  "ls_lcd_status (g_lcd (app_lcd_change_page now p s)) = ls_lcd_status (g_lcd s)"
  "ls_sys_mode (g_lcd (app_lcd_change_page now p s)) = ls_sys_mode (g_lcd s)"
  "ls_error_status (g_lcd (app_lcd_change_page now p s)) = ls_error_status (g_lcd s)"
  "ls_run_key_down (g_lcd (app_lcd_change_page now p s)) = ls_run_key_down (g_lcd s)"
  by (simp_all add: app_lcd_change_page_def render_page_def render_setup_main_def render_comm_page_def
      comm_seed_def render_comm_tail_def Let_def)

end
