(* ===== verification/Lcd_Disp.thy ===== *)
theory Lcd_Disp
  imports Lcd_Pages
begin

text \<open>
  What the panel shows while it runs: \<open>fw/src/app_lcd_disp.c\<close> (the ten-step display
  machine with its two bars, the icons, the error page), the warning-page operations of
  \<open>fw/src/app_lcd_input.c\<close>, and the panel tick of \<open>fw/src/app_lcd.c\<close>.
\<close>

section \<open>The bars\<close>

text \<open>
  A bar is a list of 20 slots. The fill of a part is a proportion of its width, in the 32-bit
  arithmetic of the code, cut to a byte.
\<close>

definition bar_fill :: "u16 \<Rightarrow> u16 \<Rightarrow> u16 \<Rightarrow> u32 \<Rightarrow> u8" where
  "bar_fill amp low high width =
     (let span = high - low in
      if span \<noteq> 0 then ucast ((ucast amp - ucast low) * width div ucast span) else 0)"

text \<open>The slots \<open>from\<close> to \<open>from + n - 1\<close> get the value of \<open>f\<close> at their distance from \<open>from\<close>.\<close>

definition set_slots :: "nat \<Rightarrow> nat \<Rightarrow> (nat \<Rightarrow> u16) \<Rightarrow> u16 list \<Rightarrow> u16 list" where
  "set_slots from n f buf = take from buf @ map f [0..<n] @ drop (from + n) buf"

definition disp_marker :: "u8 \<Rightarrow> nat" where
  "disp_marker out_power =
     (let m = ucast (ucast out_power * 20 div 100 :: u16) :: u8 in unat (if 20 \<le> m then 19 else m))"

definition disp_bar :: "u16 \<Rightarrow> lcd_app_state \<Rightarrow> u16 list \<Rightarrow> u16 list" where
  "disp_bar amp st buf =
     (if 10 < amp
      then (let buf = buf[0 := 1] in
            if ls_ref_lv_1 st < amp
            then (let buf = buf[1 := 1] in
                  if ls_ref_lv_10 st < amp
                  then (if ls_ref_lv_20 st \<le> amp then set_slots 1 19 (\<lambda>_. 1) buf
                        else (let fill = bar_fill amp (ls_ref_lv_10 st) (ls_ref_lv_20 st) 10
                              in set_slots 10 10 (\<lambda>i. if i < unat fill then 1 else 0)
                                   (set_slots 2 8 (\<lambda>_. 1) buf)))
                  else (let fill = bar_fill amp (ls_ref_lv_1 st) (ls_ref_lv_10 st) 8
                        in set_slots 2 18 (\<lambda>i. if i < unat fill then 1 else 0) buf))
            else set_slots 1 19 (\<lambda>_. 0) buf)
      else set_slots 0 20 (\<lambda>_. 0) buf)"

definition disp_compute_output :: "u16 \<Rightarrow> u8 \<Rightarrow> lcd_app_state \<Rightarrow> u16 list \<Rightarrow> u16 list" where
  "disp_compute_output amp out_power st buf = (disp_bar amp st buf)[disp_marker out_power := 1]"

definition disp_compute_time :: "u8 \<Rightarrow> u16 list \<Rightarrow> u16 list" where
  "disp_compute_time current_time buf =
     set_slots 0 20 (\<lambda>i. if i < unat current_time then 1 else 0) buf"

section \<open>The measured values\<close>

definition disp_send_val :: "lcd_measure \<Rightarrow> sys \<Rightarrow> sys" where
  "disp_send_val m s =
     (let on = (me_us_on_status m \<noteq> 0);
          freq = (if on then me_curr_freq m else me_last_freq m);
          s = tx_array VAR_POWER
                [if on then me_max_power m else me_last_power m,
                 if on then me_max_amp m else me_last_amp m,
                 freq div 100] s
      in tx_u16 VAR_ENERGY (ucast (if on then me_curr_energy m else me_last_energy m)) s)"

section \<open>The display machine\<close>

text \<open>Whether Modbus requests have been decoded in the last second, from \<open>app_modbus.c\<close>.\<close>

definition app_modbus_remote_active :: "u32 \<Rightarrow> sys \<Rightarrow> bool" where
  "app_modbus_remote_active now s \<longleftrightarrow>
     mg_remote_seen (g_mb s) \<noteq> 0 \<and> elapsed now (mg_remote_ms (g_mb s)) < 1000"

definition chunk5 :: "nat \<Rightarrow> u16 list \<Rightarrow> u16 list" where
  "chunk5 i buf = take 5 (drop i buf)"

definition disp_icons :: "u32 \<Rightarrow> sys \<Rightarrow> sys" where
  "disp_icons now s =
     (let run_on = (me_us_run_status (g_measure s) \<noteq> US_IDLE);
          s = (if run_on \<noteq> ds_prev_run_on (g_disp s)
               then g_disp_update (\<lambda>d. d\<lparr>ds_prev_run_on := run_on\<rparr>) (tx_u16 ICON_RUN (flag16 run_on) s)
               else s);
          remote_on = app_modbus_remote_active now s
      in if remote_on \<noteq> ds_prev_remote_on (g_disp s)
         then g_disp_update (\<lambda>d. d\<lparr>ds_prev_remote_on := remote_on\<rparr>) (tx_u16 DISP_REMOTE (flag16 remote_on) s)
         else s)"

definition app_lcd_disp_step :: "u32 \<Rightarrow> sys \<Rightarrow> sys" where
  "app_lcd_disp_step now s =
     (let m = g_measure s;
          s = disp_icons now s;
          n = ds_step (g_disp s);
          level = ds_level_buf (g_disp s); time = ds_time_buf (g_disp s);
          next = g_disp_update (\<lambda>d. d\<lparr>ds_step := ds_step d + 1\<rparr>)
      in if n = 0
         then next (g_disp_update (\<lambda>d. d\<lparr>ds_level_buf := disp_compute_output (me_curr_amp m)
                (output_power (g_cfg s)) (g_lcd s) level\<rparr>) s)
         else if n = 1 then next (tx_array LV_OUTPUT (chunk5 0 level) s)
         else if n = 2 then next (tx_array (LV_OUTPUT + 5) (chunk5 5 level) s)
         else if n = 3 then next (tx_array (LV_OUTPUT + 10) (chunk5 10 level) s)
         else if n = 4 then next (tx_array (LV_OUTPUT + 15) (chunk5 15 level) s)
         else if n = 5
         then next (g_disp_update (\<lambda>d. d\<lparr>ds_time_buf := disp_compute_time (me_us_on_time_200m m) time\<rparr>) s)
         else if n = 6 then next (tx_array LV_TIME (chunk5 0 time) s)
         else if n = 7 then next (tx_array (LV_TIME + 5) (chunk5 5 time) (disp_send_val m s))
         else if n = 8 then next (tx_array (LV_TIME + 10) (chunk5 10 time) s)
         else g_disp_update (\<lambda>d. d\<lparr>ds_step := 0\<rparr>) (tx_array (LV_TIME + 15) (chunk5 15 time) s))"

section \<open>Icons and counters\<close>

definition app_lcd_icon :: "u16 \<Rightarrow> bool \<Rightarrow> sys \<Rightarrow> sys" where
  "app_lcd_icon icon_vp on = tx_u16 icon_vp (flag16 on)"

definition app_lcd_set_work_cnt :: "u32 \<Rightarrow> sys \<Rightarrow> sys" where
  "app_lcd_set_work_cnt cnt = tx_u32 LV_WORK_CNT cnt"

section \<open>The warning page\<close>

definition run_page_for_mode :: "u8 \<Rightarrow> u8" where
  "run_page_for_mode mode =
     (if mode = 0 then LCD_RUN_HAND else if mode = 1 then LCD_RUN_MULTI else LCD_RUN_STD)"

definition app_lcd_in_run_page :: "sys \<Rightarrow> u8" where
  "app_lcd_in_run_page s = b2u (ls_lcd_status (g_lcd s) = run_page_for_mode (ls_sys_mode (g_lcd s)))"

definition lcd_may_restore_run_page :: "sys \<Rightarrow> bool" where
  "lcd_may_restore_run_page s \<longleftrightarrow> app_estop_active s = 0 \<and> ls_error_status (g_lcd s) = 0"

definition lcd_goto :: "u8 \<Rightarrow> sys \<Rightarrow> sys" where
  "lcd_goto page s = tx_page page (g_lcd_update (\<lambda>l. l\<lparr>ls_lcd_status := page\<rparr>) s)"

text \<open>The panel leaves the warning page, or the reason shown there becomes the emergency stop.\<close>

definition lcd_restore_run_page :: "sys \<Rightarrow> sys" where
  "lcd_restore_run_page s =
     (if lcd_may_restore_run_page s then lcd_goto (run_page_for_mode (ls_sys_mode (g_lcd s))) s
      else if app_estop_active s \<noteq> 0 then tx_text VP_ERROR_MSG (chars ''E-STOP'') s
      else s)"

definition app_lcd_input_run_key_reanchor :: "u32 \<Rightarrow> sys \<Rightarrow> sys" where
  "app_lcd_input_run_key_reanchor now s =
     g_lcd_update (\<lambda>l. l\<lparr>ls_run_key_down := 0\<rparr>) (app_lcd_hook_us_command now US_CMD_RUN_RELEASE s)"

definition app_lcd_set_overload :: "bool \<Rightarrow> sys \<Rightarrow> sys" where
  "app_lcd_set_overload on s =
     (if on
      then tx_u16 ICON_OL 1 (tx_text VP_ERROR_MSG (chars ''OVER LOAD'')
             (g_lcd_update (\<lambda>l. l\<lparr>ls_error_status := ls_error_status l OR ERR_OVLD\<rparr>) s))
      else
        (let s = tx_u16 ICON_OL 0 (g_lcd_update (\<lambda>l. l\<lparr>ls_error_status := ls_error_status l AND NOT ERR_OVLD\<rparr>) s)
         in if ls_lcd_status (g_lcd s) = LCD_WARNING then lcd_restore_run_page s else s))"

definition app_lcd_set_estop :: "u32 \<Rightarrow> bool \<Rightarrow> sys \<Rightarrow> sys" where
  "app_lcd_set_estop now on s =
     (if on
      then app_lcd_input_run_key_reanchor now (lcd_goto LCD_WARNING (tx_text VP_ERROR_MSG (chars ''E-STOP'') s))
      else if lcd_may_restore_run_page s then lcd_goto (run_page_for_mode (ls_sys_mode (g_lcd s))) s
      else s)"

definition app_lcd_fault_cleared :: "sys \<Rightarrow> sys" where
  "app_lcd_fault_cleared s =
     (if ls_lcd_status (g_lcd s) \<noteq> LCD_WARNING then s else lcd_restore_run_page s)"

definition app_lcd_show_error :: "u32 \<Rightarrow> u8 \<Rightarrow> sys \<Rightarrow> sys" where
  "app_lcd_show_error now error_code s =
     (if error_code = 0 then s
      else
        (let msg = (if error_code AND ERR_OVLD \<noteq> 0 then chars ''OVER LOAD''
                    else if error_code AND ERR_OUTERR \<noteq> 0 then chars ''OUTPUT ERROR''
                    else if error_code AND ERR_OVTIME \<noteq> 0 then chars ''OVER TIME''
                    else chars ''E-STOP'')
         in app_lcd_input_run_key_reanchor now (lcd_goto LCD_WARNING (tx_text VP_ERROR_MSG msg s))))"

section \<open>The tick\<close>

definition app_lcd_tick :: "env \<Rightarrow> sys \<Rightarrow> sys" where
  "app_lcd_tick e s =
     (let now = e_now e;
          err = me_error_status (g_measure s);
          s = g_lcd_update (\<lambda>l. l\<lparr>ls_error_status := err\<rparr>) s;
          s = (if err \<noteq> 0 \<and> ds_prev_err (g_disp s) = 0 then app_lcd_show_error now err s
               else if err = 0 \<and> ds_prev_err (g_disp s) \<noteq> 0 then app_lcd_fault_cleared s
               else s);
          s = g_disp_update (\<lambda>d. d\<lparr>ds_prev_err := err\<rparr>) s
      in if 4 \<le> elapsed now (ds_prev_ms (g_disp s))
         then app_lcd_disp_step now (g_disp_update (\<lambda>d. d\<lparr>ds_prev_ms := now\<rparr>) s)
         else s)"

section \<open>What these operations leave alone\<close>

lemma hook_us_release [simp]:
  "app_lcd_hook_us_command now US_CMD_RUN_RELEASE s = app_reg_command now US_CMD_RUN_RELEASE US_TOUCH s"
  by (simp add: app_lcd_hook_us_command_def)

lemma disp_icons_keeps [simp]:
  "g_cfg (disp_icons now s) = g_cfg s" "g_lcd (disp_icons now s) = g_lcd s"
  "g_measure (disp_icons now s) = g_measure s" "g_reg (disp_icons now s) = g_reg s"
  "g_freq (disp_icons now s) = g_freq s" "g_i2c (disp_icons now s) = g_i2c s"
  "g_weld (disp_icons now s) = g_weld s" "g_ovld (disp_icons now s) = g_ovld s"
  "g_input (disp_icons now s) = g_input s" "g_horn (disp_icons now s) = g_horn s"
  "g_sr (disp_icons now s) = g_sr s" "g_buzzer (disp_icons now s) = g_buzzer s"
  "g_alarm (disp_icons now s) = g_alarm s" "g_mb (disp_icons now s) = g_mb s"
  "g_out (disp_icons now s) = g_out s" "g_model (disp_icons now s) = g_model s"
  "ds_step (g_disp (disp_icons now s)) = ds_step (g_disp s)"
  "ds_level_buf (g_disp (disp_icons now s)) = ds_level_buf (g_disp s)"
  "ds_time_buf (g_disp (disp_icons now s)) = ds_time_buf (g_disp s)"
  by (simp_all add: disp_icons_def Let_def)

lemma disp_step_keeps [simp]:
  "g_cfg (app_lcd_disp_step now s) = g_cfg s" "g_lcd (app_lcd_disp_step now s) = g_lcd s"
  "g_measure (app_lcd_disp_step now s) = g_measure s" "g_reg (app_lcd_disp_step now s) = g_reg s"
  "g_freq (app_lcd_disp_step now s) = g_freq s" "g_i2c (app_lcd_disp_step now s) = g_i2c s"
  "g_weld (app_lcd_disp_step now s) = g_weld s" "g_ovld (app_lcd_disp_step now s) = g_ovld s"
  "g_input (app_lcd_disp_step now s) = g_input s" "g_horn (app_lcd_disp_step now s) = g_horn s"
  "g_sr (app_lcd_disp_step now s) = g_sr s" "g_buzzer (app_lcd_disp_step now s) = g_buzzer s"
  "g_alarm (app_lcd_disp_step now s) = g_alarm s" "g_mb (app_lcd_disp_step now s) = g_mb s"
  "g_out (app_lcd_disp_step now s) = g_out s" "g_model (app_lcd_disp_step now s) = g_model s"
  by (simp_all add: app_lcd_disp_step_def disp_send_val_def Let_def)

lemma icon_keeps [simp]:
  "g_cfg (app_lcd_icon vp on s) = g_cfg s" "g_lcd (app_lcd_icon vp on s) = g_lcd s"
  "g_disp (app_lcd_icon vp on s) = g_disp s" "g_measure (app_lcd_icon vp on s) = g_measure s"
  "g_reg (app_lcd_icon vp on s) = g_reg s" "g_freq (app_lcd_icon vp on s) = g_freq s"
  "g_i2c (app_lcd_icon vp on s) = g_i2c s" "g_weld (app_lcd_icon vp on s) = g_weld s"
  "g_ovld (app_lcd_icon vp on s) = g_ovld s" "g_input (app_lcd_icon vp on s) = g_input s"
  "g_horn (app_lcd_icon vp on s) = g_horn s" "g_sr (app_lcd_icon vp on s) = g_sr s"
  "g_buzzer (app_lcd_icon vp on s) = g_buzzer s" "g_alarm (app_lcd_icon vp on s) = g_alarm s"
  "g_mb (app_lcd_icon vp on s) = g_mb s" "g_out (app_lcd_icon vp on s) = g_out s"
  "g_model (app_lcd_icon vp on s) = g_model s"
  by (simp_all add: app_lcd_icon_def)

lemma set_work_cnt_keeps [simp]:
  "g_cfg (app_lcd_set_work_cnt c s) = g_cfg s" "g_lcd (app_lcd_set_work_cnt c s) = g_lcd s"
  "g_disp (app_lcd_set_work_cnt c s) = g_disp s"
  "g_measure (app_lcd_set_work_cnt c s) = g_measure s"
  "g_reg (app_lcd_set_work_cnt c s) = g_reg s" "g_freq (app_lcd_set_work_cnt c s) = g_freq s"
  "g_i2c (app_lcd_set_work_cnt c s) = g_i2c s" "g_weld (app_lcd_set_work_cnt c s) = g_weld s"
  "g_ovld (app_lcd_set_work_cnt c s) = g_ovld s" "g_input (app_lcd_set_work_cnt c s) = g_input s"
  "g_horn (app_lcd_set_work_cnt c s) = g_horn s" "g_sr (app_lcd_set_work_cnt c s) = g_sr s"
  "g_buzzer (app_lcd_set_work_cnt c s) = g_buzzer s"
  "g_alarm (app_lcd_set_work_cnt c s) = g_alarm s" "g_mb (app_lcd_set_work_cnt c s) = g_mb s"
  "g_out (app_lcd_set_work_cnt c s) = g_out s" "g_model (app_lcd_set_work_cnt c s) = g_model s"
  by (simp_all add: app_lcd_set_work_cnt_def)

lemma lcd_goto_keeps [simp]:
  "g_cfg (lcd_goto p s) = g_cfg s" "g_disp (lcd_goto p s) = g_disp s"
  "g_measure (lcd_goto p s) = g_measure s" "g_reg (lcd_goto p s) = g_reg s"
  "g_freq (lcd_goto p s) = g_freq s" "g_i2c (lcd_goto p s) = g_i2c s"
  "g_weld (lcd_goto p s) = g_weld s" "g_ovld (lcd_goto p s) = g_ovld s"
  "g_input (lcd_goto p s) = g_input s" "g_horn (lcd_goto p s) = g_horn s"
  "g_sr (lcd_goto p s) = g_sr s" "g_buzzer (lcd_goto p s) = g_buzzer s"
  "g_alarm (lcd_goto p s) = g_alarm s" "g_mb (lcd_goto p s) = g_mb s"
  "g_out (lcd_goto p s) = g_out s" "g_model (lcd_goto p s) = g_model s"
  by (simp_all add: lcd_goto_def)

lemma restore_keeps [simp]:
  "g_cfg (lcd_restore_run_page s) = g_cfg s" "g_disp (lcd_restore_run_page s) = g_disp s"
  "g_measure (lcd_restore_run_page s) = g_measure s" "g_reg (lcd_restore_run_page s) = g_reg s"
  "g_freq (lcd_restore_run_page s) = g_freq s" "g_i2c (lcd_restore_run_page s) = g_i2c s"
  "g_weld (lcd_restore_run_page s) = g_weld s" "g_ovld (lcd_restore_run_page s) = g_ovld s"
  "g_input (lcd_restore_run_page s) = g_input s" "g_horn (lcd_restore_run_page s) = g_horn s"
  "g_sr (lcd_restore_run_page s) = g_sr s" "g_buzzer (lcd_restore_run_page s) = g_buzzer s"
  "g_alarm (lcd_restore_run_page s) = g_alarm s" "g_mb (lcd_restore_run_page s) = g_mb s"
  "g_out (lcd_restore_run_page s) = g_out s" "g_model (lcd_restore_run_page s) = g_model s"
  by (simp_all add: lcd_restore_run_page_def)

lemma reanchor_keeps [simp]:
  "g_cfg (app_lcd_input_run_key_reanchor now s) = g_cfg s"
  "g_disp (app_lcd_input_run_key_reanchor now s) = g_disp s"
  "g_dgus (app_lcd_input_run_key_reanchor now s) = g_dgus s"
  "g_measure (app_lcd_input_run_key_reanchor now s) = g_measure s"
  "g_freq (app_lcd_input_run_key_reanchor now s) = g_freq s"
  "g_i2c (app_lcd_input_run_key_reanchor now s) = g_i2c s"
  "g_weld (app_lcd_input_run_key_reanchor now s) = g_weld s"
  "g_ovld (app_lcd_input_run_key_reanchor now s) = g_ovld s"
  "g_input (app_lcd_input_run_key_reanchor now s) = g_input s"
  "g_horn (app_lcd_input_run_key_reanchor now s) = g_horn s"
  "g_sr (app_lcd_input_run_key_reanchor now s) = g_sr s"
  "g_buzzer (app_lcd_input_run_key_reanchor now s) = g_buzzer s"
  "g_alarm (app_lcd_input_run_key_reanchor now s) = g_alarm s"
  "g_mb (app_lcd_input_run_key_reanchor now s) = g_mb s"
  "g_out (app_lcd_input_run_key_reanchor now s) = g_out s"
  "g_model (app_lcd_input_run_key_reanchor now s) = g_model s"
  "rg_us_run_status (g_reg (app_lcd_input_run_key_reanchor now s)) = US_IDLE"
  "rg_error_status (g_reg (app_lcd_input_run_key_reanchor now s)) = rg_error_status (g_reg s)"
  by (simp_all add: app_lcd_input_run_key_reanchor_def)

lemma set_overload_keeps [simp]:
  "g_cfg (app_lcd_set_overload on s) = g_cfg s" "g_disp (app_lcd_set_overload on s) = g_disp s"
  "g_measure (app_lcd_set_overload on s) = g_measure s"
  "g_reg (app_lcd_set_overload on s) = g_reg s" "g_freq (app_lcd_set_overload on s) = g_freq s"
  "g_i2c (app_lcd_set_overload on s) = g_i2c s" "g_weld (app_lcd_set_overload on s) = g_weld s"
  "g_ovld (app_lcd_set_overload on s) = g_ovld s"
  "g_input (app_lcd_set_overload on s) = g_input s"
  "g_horn (app_lcd_set_overload on s) = g_horn s" "g_sr (app_lcd_set_overload on s) = g_sr s"
  "g_buzzer (app_lcd_set_overload on s) = g_buzzer s"
  "g_alarm (app_lcd_set_overload on s) = g_alarm s" "g_mb (app_lcd_set_overload on s) = g_mb s"
  "g_out (app_lcd_set_overload on s) = g_out s" "g_model (app_lcd_set_overload on s) = g_model s"
  by (simp_all add: app_lcd_set_overload_def Let_def)

lemma set_estop_keeps [simp]:
  "g_cfg (app_lcd_set_estop now on s) = g_cfg s" "g_disp (app_lcd_set_estop now on s) = g_disp s"
  "g_measure (app_lcd_set_estop now on s) = g_measure s"
  "g_freq (app_lcd_set_estop now on s) = g_freq s" "g_i2c (app_lcd_set_estop now on s) = g_i2c s"
  "g_weld (app_lcd_set_estop now on s) = g_weld s"
  "g_ovld (app_lcd_set_estop now on s) = g_ovld s"
  "g_input (app_lcd_set_estop now on s) = g_input s"
  "g_horn (app_lcd_set_estop now on s) = g_horn s" "g_sr (app_lcd_set_estop now on s) = g_sr s"
  "g_buzzer (app_lcd_set_estop now on s) = g_buzzer s"
  "g_alarm (app_lcd_set_estop now on s) = g_alarm s" "g_mb (app_lcd_set_estop now on s) = g_mb s"
  "g_out (app_lcd_set_estop now on s) = g_out s"
  "g_model (app_lcd_set_estop now on s) = g_model s"
  by (simp_all add: app_lcd_set_estop_def)

lemma fault_cleared_keeps [simp]:
  "g_cfg (app_lcd_fault_cleared s) = g_cfg s" "g_disp (app_lcd_fault_cleared s) = g_disp s"
  "g_measure (app_lcd_fault_cleared s) = g_measure s" "g_reg (app_lcd_fault_cleared s) = g_reg s"
  "g_freq (app_lcd_fault_cleared s) = g_freq s" "g_i2c (app_lcd_fault_cleared s) = g_i2c s"
  "g_weld (app_lcd_fault_cleared s) = g_weld s" "g_ovld (app_lcd_fault_cleared s) = g_ovld s"
  "g_input (app_lcd_fault_cleared s) = g_input s" "g_horn (app_lcd_fault_cleared s) = g_horn s"
  "g_sr (app_lcd_fault_cleared s) = g_sr s" "g_buzzer (app_lcd_fault_cleared s) = g_buzzer s"
  "g_alarm (app_lcd_fault_cleared s) = g_alarm s" "g_mb (app_lcd_fault_cleared s) = g_mb s"
  "g_out (app_lcd_fault_cleared s) = g_out s" "g_model (app_lcd_fault_cleared s) = g_model s"
  by (simp_all add: app_lcd_fault_cleared_def)

lemma show_error_keeps [simp]:
  "g_cfg (app_lcd_show_error now err s) = g_cfg s"
  "g_disp (app_lcd_show_error now err s) = g_disp s"
  "g_measure (app_lcd_show_error now err s) = g_measure s"
  "g_freq (app_lcd_show_error now err s) = g_freq s"
  "g_i2c (app_lcd_show_error now err s) = g_i2c s"
  "g_weld (app_lcd_show_error now err s) = g_weld s"
  "g_ovld (app_lcd_show_error now err s) = g_ovld s"
  "g_input (app_lcd_show_error now err s) = g_input s"
  "g_horn (app_lcd_show_error now err s) = g_horn s"
  "g_sr (app_lcd_show_error now err s) = g_sr s"
  "g_buzzer (app_lcd_show_error now err s) = g_buzzer s"
  "g_alarm (app_lcd_show_error now err s) = g_alarm s"
  "g_mb (app_lcd_show_error now err s) = g_mb s" "g_out (app_lcd_show_error now err s) = g_out s"
  "g_model (app_lcd_show_error now err s) = g_model s"
  by (simp_all add: app_lcd_show_error_def Let_def)

lemma lcd_tick_keeps [simp]:
  "g_cfg (app_lcd_tick e s) = g_cfg s" "g_measure (app_lcd_tick e s) = g_measure s"
  "g_freq (app_lcd_tick e s) = g_freq s" "g_i2c (app_lcd_tick e s) = g_i2c s"
  "g_weld (app_lcd_tick e s) = g_weld s" "g_ovld (app_lcd_tick e s) = g_ovld s"
  "g_input (app_lcd_tick e s) = g_input s" "g_horn (app_lcd_tick e s) = g_horn s"
  "g_sr (app_lcd_tick e s) = g_sr s" "g_buzzer (app_lcd_tick e s) = g_buzzer s"
  "g_alarm (app_lcd_tick e s) = g_alarm s" "g_mb (app_lcd_tick e s) = g_mb s"
  "g_out (app_lcd_tick e s) = g_out s" "g_model (app_lcd_tick e s) = g_model s"
  by (simp_all add: app_lcd_tick_def Let_def)

text \<open>Every frame they send is well formed.\<close>

lemma chunk5_nonempty [simp]: "length buf = 20 \<Longrightarrow> i \<le> 15 \<Longrightarrow> chunk5 i buf \<noteq> []"
  by (simp add: chunk5_def)

lemma set_slots_length [simp]: "from + n \<le> length buf \<Longrightarrow> length (set_slots from n f buf) = length buf"
  by (simp add: set_slots_def)

lemma bar_lengths [simp]:
  "length buf = 20 \<Longrightarrow> length (disp_compute_output amp p st buf) = 20"
  "length buf = 20 \<Longrightarrow> length (disp_compute_time t buf) = 20"
  by (simp_all add: disp_compute_output_def disp_bar_def disp_compute_time_def Let_def)

definition disp_ok :: "disp_st \<Rightarrow> bool" where
  "disp_ok d \<longleftrightarrow> length (ds_level_buf d) = 20 \<and> length (ds_time_buf d) = 20"

lemma disp_ok_updates [simp]:
  "disp_ok (d\<lparr>ds_prev_ms := x\<rparr>) = disp_ok d" "disp_ok (d\<lparr>ds_prev_err := y\<rparr>) = disp_ok d"
  by (simp_all add: disp_ok_def)

lemma disp_icons_wire [simp]: "wire_ok (g_dgus (disp_icons now s)) = wire_ok (g_dgus s)"
  by (simp add: disp_icons_def Let_def)

lemma disp_step_wire:
  assumes "disp_ok (g_disp s)"
  shows "wire_ok (g_dgus (app_lcd_disp_step now s)) = wire_ok (g_dgus s)"
    and "disp_ok (g_disp (app_lcd_disp_step now s))"
  using assms by (simp_all add: app_lcd_disp_step_def disp_send_val_def Let_def disp_ok_def)

lemma panel_ops_wire [simp]:
  "wire_ok (g_dgus (app_lcd_icon vp on s)) = wire_ok (g_dgus s)"
  "wire_ok (g_dgus (app_lcd_set_work_cnt c s)) = wire_ok (g_dgus s)"
  "wire_ok (g_dgus (lcd_goto p s)) = wire_ok (g_dgus s)"
  "wire_ok (g_dgus (lcd_restore_run_page s)) = wire_ok (g_dgus s)"
  "wire_ok (g_dgus (app_lcd_set_overload on s)) = wire_ok (g_dgus s)"
  "wire_ok (g_dgus (app_lcd_set_estop now on s)) = wire_ok (g_dgus s)"
  "wire_ok (g_dgus (app_lcd_fault_cleared s)) = wire_ok (g_dgus s)"
  "wire_ok (g_dgus (app_lcd_show_error now err s)) = wire_ok (g_dgus s)"
  by (simp_all add: app_lcd_icon_def app_lcd_set_work_cnt_def lcd_goto_def lcd_restore_run_page_def
      app_lcd_set_overload_def app_lcd_set_estop_def app_lcd_fault_cleared_def app_lcd_show_error_def Let_def)

lemma lcd_tick_wire:
  assumes "disp_ok (g_disp s)"
  shows "wire_ok (g_dgus (app_lcd_tick e s)) = wire_ok (g_dgus s)" "disp_ok (g_disp (app_lcd_tick e s))"
  using assms by (simp_all add: app_lcd_tick_def Let_def disp_step_wire)

section \<open>Properties\<close>

text \<open>The number of slots the output bar lights for a display current, for each generator frequency.\<close>

definition bar_len :: "u8 \<Rightarrow> nat \<Rightarrow> nat" where
  "bar_len freq amp =
     (let mid = (if freq = 0 then 1000 else if freq = 1 then 600 else 400);
          full = (if freq = 0 then 2000 else if freq = 1 then 1200 else 700)
      in if amp \<le> 10 then 0
         else if amp \<le> 50 then 1
         else if amp \<le> mid then 2 + (amp - 50) * 8 div (mid - 50)
         else if amp < full then 10 + (amp - mid) * 10 div (full - mid)
         else 20)"

lemma set_slots_nth:
  "from + n \<le> length buf \<Longrightarrow> i < length buf \<Longrightarrow>
   set_slots from n f buf ! i = (if from \<le> i \<and> i < from + n then f (i - from) else buf ! i)"
  by (auto simp: set_slots_def nth_append)

lemma bar_fill_exact:
  assumes "low < amp" "amp \<le> high" "unat width \<le> 10"
  shows "unat (bar_fill amp low high width) = (unat amp - unat low) * unat width div (unat high - unat low)"
proof -
  have l: "unat low < unat amp" "unat amp \<le> unat high"
    using assms by (simp_all add: word_less_nat_alt word_le_nat_alt)
  have span: "unat (high - low) = unat high - unat low"
    using l by (intro unat_sub) (simp add: word_le_nat_alt)
  then have nz: "high - low \<noteq> 0" using l by (auto simp flip: unat_eq_zero)
  have d: "unat (ucast amp - ucast low :: u32) = unat amp - unat low"
    using l by (subst unat_sub) (simp_all add: word_le_nat_alt unat_casts)
  have ub: "unat amp - unat low < 65536" using unat_bounds(2) [of amp] by simp
  have "(unat amp - unat low) * unat width \<le> 65535 * 10"
    using ub assms(3) by (intro mult_le_mono) simp_all
  then have m: "unat ((ucast amp - ucast low) * width :: u32) = (unat amp - unat low) * unat width"
    by (subst unat_mult_small) (simp_all add: d)
  have q: "(unat amp - unat low) * unat width div (unat high - unat low) \<le> 10"
  proof -
    have "(unat amp - unat low) * unat width \<le> (unat high - unat low) * unat width"
      using l by (intro mult_right_mono) simp_all
    then have "(unat amp - unat low) * unat width div (unat high - unat low) \<le>
        (unat high - unat low) * unat width div (unat high - unat low)"
      by (rule div_le_mono)
    then show ?thesis using l assms(3) by simp
  qed
  show ?thesis
    using nz q by (simp add: bar_fill_def Let_def unat_casts unat_div m span)
qed


lemma disp_bar_length [simp]: "length buf = 20 \<Longrightarrow> length (disp_bar amp st buf) = 20"
  by (simp add: disp_bar_def Let_def)

lemma disp_bar_nth:
  fixes st :: lcd_app_state
  defines "lo \<equiv> ls_ref_lv_1 st" and "mid \<equiv> ls_ref_lv_10 st" and "full \<equiv> ls_ref_lv_20 st"
  assumes "length buf = 20" "i < 20" "10 \<le> lo" "lo < mid" "mid < full"
  shows "disp_bar amp st buf ! i =
    (if amp \<le> 10 then 0
     else if amp \<le> lo then (if i < 1 then 1 else 0)
     else if amp \<le> mid then (if i < 2 + unat (bar_fill amp lo mid 8) then 1 else 0)
     else if amp < full then (if i < 10 + unat (bar_fill amp mid full 10) then 1 else 0)
     else 1)"
proof -
  consider (a) "amp \<le> 10" | (b) "10 < amp" "amp \<le> lo" | (c) "10 < amp" "lo < amp" "amp \<le> mid"
    | (d) "10 < amp" "lo < amp" "mid < amp" "amp < full"
    | (e) "10 < amp" "lo < amp" "mid < amp" "full \<le> amp"
    using assms(6-8) by fastforce
  then show ?thesis
  proof cases
    case a
    then show ?thesis using assms(4,5) by (simp add: disp_bar_def set_slots_nth leD)
  next
    case b
    then have "disp_bar amp st buf = set_slots 1 19 (\<lambda>_. 0) (buf[0 := 1])"
      by (simp add: disp_bar_def lo_def Let_def leD)
    moreover have "\<not> amp \<le> 10" using b by simp
    ultimately show ?thesis
      using b(2) assms(4,5) by (simp add: set_slots_nth nth_list_update)
  next
    case c
    then have "disp_bar amp st buf = set_slots 2 18 (\<lambda>i. if i < unat (bar_fill amp lo mid 8) then 1 else 0)
        (buf[0 := 1, 1 := 1])"
      by (simp add: disp_bar_def lo_def mid_def Let_def leD)
    moreover have "\<not> amp \<le> 10" "\<not> amp \<le> lo" using c by simp_all
    ultimately show ?thesis
      using c(3) assms(4,5) by (simp add: set_slots_nth nth_list_update) linarith
  next
    case d
    moreover have "\<not> full \<le> amp" using d by simp
    ultimately have "disp_bar amp st buf = set_slots 10 10 (\<lambda>i. if i < unat (bar_fill amp mid full 10) then 1 else 0)
        (set_slots 2 8 (\<lambda>_. 1) (buf[0 := 1, 1 := 1]))"
      by (simp add: disp_bar_def lo_def mid_def full_def Let_def)
    moreover have "\<not> amp \<le> 10" "\<not> amp \<le> lo" "\<not> amp \<le> mid" using d by simp_all
    ultimately show ?thesis
      using d(4) assms(4,5) by (simp add: set_slots_nth nth_list_update) linarith
  next
    case e
    then have "disp_bar amp st buf = set_slots 1 19 (\<lambda>_. 1) (buf[0 := 1, 1 := 1])"
      by (simp add: disp_bar_def lo_def mid_def full_def Let_def)
    moreover have "\<not> amp \<le> 10" "\<not> amp \<le> lo" "\<not> amp \<le> mid" "\<not> amp < full" using e by simp_all
    ultimately show ?thesis
      using assms(4,5) by (simp add: set_slots_nth nth_list_update)
  qed
qed

text \<open>
  The output bar is exact. Whatever the bar showed before, the compute step fills
  exactly the first \<open>bar_len\<close> of the 20 slots, by the thresholds of the generator frequency, and
  lights the slot of the set point besides; all other slots are dark.
\<close>

theorem output_bar_exact:
  assumes "length buf = 20"
  shows "disp_compute_output amp p (ref_levels freq st) buf =
    map (\<lambda>i. if i < bar_len freq (unat amp) \<or> i = disp_marker p then 1 else 0) [0..<20]"
proof (rule nth_equalityI)
  fix i
  assume "i < length (disp_compute_output amp p (ref_levels freq st) buf)"
  then have i: "i < 20" using assms by simp
  define mid full :: u16 where "mid = (if freq = 0 then 1000 else if freq = 1 then 600 else 400)"
    and "full = (if freq = 0 then 2000 else if freq = 1 then 1200 else 700)"
  have um: "unat mid = (if freq = 0 then 1000 else if freq = 1 then 600 else 400)"
    "unat full = (if freq = 0 then 2000 else if freq = 1 then 1200 else 700)"
    by (simp_all add: mid_def full_def)
  have lv: "ls_ref_lv_1 (ref_levels freq st) = 50" "ls_ref_lv_10 (ref_levels freq st) = mid"
    "ls_ref_lv_20 (ref_levels freq st) = full" "50 < mid" "mid < full"
    by (simp_all add: ref_levels_def mid_def full_def)
  have bl: "bar_len freq (unat amp) = (if unat amp \<le> 10 then 0 else if unat amp \<le> 50 then 1
      else if unat amp \<le> unat mid then 2 + (unat amp - 50) * 8 div (unat mid - 50)
      else if unat amp < unat full then 10 + (unat amp - unat mid) * 10 div (unat full - unat mid) else 20)"
    by (simp add: bar_len_def um)
  have w: "amp \<le> 10 \<longleftrightarrow> unat amp \<le> 10" "amp \<le> 50 \<longleftrightarrow> unat amp \<le> 50" "amp \<le> mid \<longleftrightarrow> unat amp \<le> unat mid"
    "amp < full \<longleftrightarrow> unat amp < unat full"
    by (simp_all add: word_le_nat_alt word_less_nat_alt)
  have f1: "unat (bar_fill amp 50 mid 8) = (unat amp - 50) * 8 div (unat mid - 50)"
    if "\<not> unat amp \<le> 50" "unat amp \<le> unat mid"
    using bar_fill_exact [of 50 amp mid 8] that by (simp add: word_le_nat_alt word_less_nat_alt)
  have f2: "unat (bar_fill amp mid full 10) = (unat amp - unat mid) * 10 div (unat full - unat mid)"
    if "\<not> unat amp \<le> unat mid" "unat amp < unat full"
    using bar_fill_exact [of mid amp full 10] that by (simp add: word_le_nat_alt word_less_nat_alt)
  have "disp_bar amp (ref_levels freq st) buf ! i = (if i < bar_len freq (unat amp) then 1 else 0)"
    using disp_bar_nth [of buf i "ref_levels freq st" amp] assms i f1 f2
    unfolding lv bl w by (simp add: lv)
  then show "disp_compute_output amp p (ref_levels freq st) buf ! i =
      map (\<lambda>i. if i < bar_len freq (unat amp) \<or> i = disp_marker p then 1 else 0) [0..<20] ! i"
    using assms i by (cases "i = disp_marker p") (simp_all add: disp_compute_output_def)
qed (use assms in simp)


theorem output_bar_exact_witness:
  "let buf = disp_compute_output 600 80 (ref_levels 1 lcd_app_state_zero) (replicate 20 0)
   in buf ! 0 = 1 \<and> buf ! 9 = 1 \<and> buf ! 10 = 0 \<and> buf ! 16 = 1 \<and> buf ! 19 = 0"
  using output_bar_exact [of "replicate 20 0" 600 80 1 lcd_app_state_zero]
  by (simp add: bar_len_def disp_marker_def Let_def)

end
