(* ===== verification/Lcd_Comm.thy ===== *)
theory Lcd_Comm
  imports Lcd_Disp
begin

text \<open>
  The comm and Ethernet pages of the panel, \<open>fw/src/app_lcd_comm.c\<close>: the edits of the
  shadows, the octet-by-octet entry of an address, and DATA SAVE, which commits the shadows to
  the live configuration and the FRAM or rolls the configuration back from it.
\<close>

abbreviation (input) COMM_SERIAL :: u8 where "COMM_SERIAL \<equiv> 0"
abbreviation (input) COMM_ETH_STATIC :: u8 where "COMM_ETH_STATIC \<equiv> 1"
abbreviation (input) COMM_ETH_DHCP :: u8 where "COMM_ETH_DHCP \<equiv> 2"
abbreviation (input) ETHER_KEY_IP :: u8 where "ETHER_KEY_IP \<equiv> 0x49"
abbreviation (input) ETHER_KEY_NM :: u8 where "ETHER_KEY_NM \<equiv> 0x4D"
abbreviation (input) ETHER_KEY_GW :: u8 where "ETHER_KEY_GW \<equiv> 0x47"
abbreviation (input) ETHER_KEY_DOT :: u8 where "ETHER_KEY_DOT \<equiv> 0x44"
abbreviation (input) ETHER_KEY_BKSP :: u8 where "ETHER_KEY_BKSP \<equiv> 0x42"
abbreviation (input) ETHER_KEY_ENTER :: u8 where "ETHER_KEY_ENTER \<equiv> 0x45"

section \<open>Shadow edits\<close>

definition handle_comm_addr :: "u16 \<Rightarrow> sys \<Rightarrow> sys" where
  "handle_comm_addr data16 s =
     (let s = g_lcd_update (\<lambda>l. l\<lparr>ls_temp_address := ucast data16\<rparr>) s
      in tx_bytes COMM_ADDR_TXT (conv_addr2str (ls_temp_address (g_lcd s))) s)"

definition handle_comm_speed :: "u16 \<Rightarrow> sys \<Rightarrow> sys" where
  "handle_comm_speed data16 s =
     (let idx = ucast data16 in
      if CFG_COMM_SPEED_IDX_MAX < idx then s
      else tx_bytes COMM_SPEED_TXT (comm_speed_txt ! unat idx)
             (g_lcd_update (\<lambda>l. l\<lparr>ls_temp_speed_idx := idx\<rparr>) s))"

definition handle_comm_parity :: "u16 \<Rightarrow> sys \<Rightarrow> sys" where
  "handle_comm_parity data16 s =
     (let idx = ucast data16 in
      if CFG_COMM_PARITY_IDX_MAX < idx then s
      else tx_bytes COMM_PARITY_TXT (comm_parity_txt ! unat idx)
             (g_lcd_update (\<lambda>l. l\<lparr>ls_temp_parity_idx := idx\<rparr>) s))"

definition swap_page :: "u8 \<Rightarrow> u8 \<Rightarrow> u8 \<Rightarrow> u8 \<Rightarrow> sys \<Rightarrow> sys" where
  "swap_page a a' b b' = g_lcd_update (\<lambda>l. l\<lparr>ls_lcd_status :=
     (if ls_lcd_status l = a then a' else if ls_lcd_status l = b then b' else ls_lcd_status l)\<rparr>)"

definition handle_comm_mode :: "u32 \<Rightarrow> u16 \<Rightarrow> sys \<Rightarrow> sys" where
  "handle_comm_mode now data16 s =
     (let mode = (\<lambda>m. g_lcd_update (\<lambda>l. l\<lparr>ls_temp_comm_mode := m\<rparr>)) in
      if data16 = 0
      then (let s = mode COMM_SERIAL s;
                s = tx_u16 DISP_COMM_MODE (ucast (ls_temp_comm_mode (g_lcd s))) s;
                s = swap_page LCD_SETUP_MHE LCD_SETUP_MHC LCD_SETUP_STDE LCD_SETUP_STDC s
            in app_lcd_change_page now (ls_lcd_status (g_lcd s)) s)
      else
        (let s = (if data16 = 1 then mode COMM_ETH_STATIC (tx_u16 DISP_COMM_MODE 1 s)
                  else if ls_temp_comm_mode (g_lcd s) = COMM_ETH_STATIC
                  then tx_u16 DISP_EN_DHCP 1 (mode COMM_ETH_DHCP s)
                  else if ls_temp_comm_mode (g_lcd s) = COMM_ETH_DHCP
                  then tx_u16 DISP_EN_DHCP 0 (mode COMM_ETH_STATIC s)
                  else s);
             s = swap_page LCD_SETUP_MHC LCD_SETUP_MHE LCD_SETUP_STDC LCD_SETUP_STDE s
         in app_lcd_change_page now (ls_lcd_status (g_lcd s)) s))"

section \<open>The entry of an address\<close>

text \<open>A character and the terminating zero behind the cursor, while there is room.\<close>

definition ether_put :: "u8 \<Rightarrow> lcd_app_state \<Rightarrow> lcd_app_state" where
  "ether_put c l =
     (if ls_ether_buffer_pos l < 15
      then l\<lparr>ls_ether_input_buffer := (ls_ether_input_buffer l)
                [unat (ls_ether_buffer_pos l) := c, unat (ls_ether_buffer_pos l + 1) := 0],
             ls_ether_buffer_pos := ls_ether_buffer_pos l + 1\<rparr>
      else l)"

definition ether_digit :: "u8 \<Rightarrow> lcd_app_state \<Rightarrow> lcd_app_state" where
  "ether_digit key l =
     (let n = ls_ether_current_number l * 10 + ucast key;
          l = l\<lparr>ls_ether_current_number := (if 255 < n then 255 else n)\<rparr>
      in (ether_put (key + 0x30) l)\<lparr>ls_ether_has_input := 1\<rparr>)"

definition ether_dot :: "lcd_app_state \<Rightarrow> lcd_app_state" where
  "ether_dot l =
     (if ls_ether_has_input l \<noteq> 0 \<and> ls_ether_current_octet l < 3
      then ether_put 0x2E
             (l\<lparr>ls_ether_temp_ip := (ls_ether_temp_ip l)[unat (ls_ether_current_octet l) :=
                  ucast (ls_ether_current_number l)],
                ls_ether_current_octet := ls_ether_current_octet l + 1,
                ls_ether_current_number := 0, ls_ether_has_input := 0\<rparr>)
      else l)"

definition ether_backspace :: "lcd_app_state \<Rightarrow> lcd_app_state" where
  "ether_backspace l =
     (if 0 < ls_ether_buffer_pos l
      then
        (let l = (if ls_ether_input_buffer l ! unat (ls_ether_buffer_pos l - 1) = 0x2E
                  then if 0 < ls_ether_current_octet l
                       then (let o' = ls_ether_current_octet l - 1
                             in l\<lparr>ls_ether_current_octet := o',
                                  ls_ether_current_number := ucast (ls_ether_temp_ip l ! unat o'),
                                  ls_ether_has_input := 1\<rparr>)
                       else l
                  else (let n = ls_ether_current_number l div 10
                        in l\<lparr>ls_ether_current_number := n, ls_ether_has_input := b2u (0 < n)\<rparr>));
             p = ls_ether_buffer_pos l - 1
         in l\<lparr>ls_ether_buffer_pos := p, ls_ether_input_buffer := (ls_ether_input_buffer l)[unat p := 0]\<rparr>)
      else l)"

definition ether_enter :: "lcd_app_state \<Rightarrow> lcd_app_state" where
  "ether_enter l =
     (let l = (if ls_ether_has_input l \<noteq> 0
               then l\<lparr>ls_ether_temp_ip := (ls_ether_temp_ip l)[unat (ls_ether_current_octet l) :=
                        ucast (ls_ether_current_number l)]\<rparr>
               else l)
      in l\<lparr>ls_ether_ip_input_complete := 1\<rparr>)"

definition process_ip_char :: "u8 \<Rightarrow> lcd_app_state \<Rightarrow> lcd_app_state" where
  "process_ip_char key l =
     (if key \<le> 9 then ether_digit key l
      else if key = ETHER_KEY_DOT then ether_dot l
      else if key = ETHER_KEY_BKSP then ether_backspace l
      else if key = ETHER_KEY_ENTER then ether_enter l
      else l)"

definition ether_select_field :: "u8 \<Rightarrow> u8 list \<Rightarrow> lcd_app_state \<Rightarrow> lcd_app_state" where
  "ether_select_field field shadow l =
     (let buf = ip_to_string shadow
      in l\<lparr>ls_ether_what_input := field, ls_ether_input_buffer := buf,
           ls_ether_buffer_pos := of_nat (length (takeWhile (\<lambda>c. c \<noteq> 0) buf)),
           ls_ether_temp_ip := shadow, ls_ether_current_octet := 3,
           ls_ether_current_number := ucast (ls_temp_ether_ip l ! 3), ls_ether_has_input := 1\<rparr>)"

text \<open>The completed address goes to the selected shadow.\<close>

definition ether_store :: "lcd_app_state \<Rightarrow> lcd_app_state" where
  "ether_store l =
     (if ls_ether_ip_input_complete l \<noteq> 0
      then (let l = l\<lparr>ls_ether_ip_input_complete := 0\<rparr> in
            if ls_ether_what_input l = LCD_ETHER_INPUT_IP then l\<lparr>ls_temp_ether_ip := ls_ether_temp_ip l\<rparr>
            else if ls_ether_what_input l = LCD_ETHER_INPUT_NM then l\<lparr>ls_temp_ether_nm := ls_ether_temp_ip l\<rparr>
            else l\<lparr>ls_temp_ether_gw := ls_ether_temp_ip l\<rparr>)
      else l)"

definition ether_echo :: "u16 \<Rightarrow> (lcd_app_state \<Rightarrow> u8 list) \<Rightarrow> sys \<Rightarrow> sys" where
  "ether_echo vp sel s =
     (let s = g_lcd_update (\<lambda>l. l\<lparr>ls_ether_input_buffer := ip_to_string (sel l)\<rparr>) s
      in tx_bytes vp (lcd_data_pdd (ls_ether_input_buffer (g_lcd s)) 16) s)"

definition handle_ether_key :: "u16 \<Rightarrow> sys \<Rightarrow> sys" where
  "handle_ether_key data16 s =
     (let key = ucast data16 in
      if key = ETHER_KEY_IP \<or> key = ETHER_KEY_NM \<or> key = ETHER_KEY_GW
      then
        (let s = ether_echo COMM_IP_TXT ls_temp_ether_ip s;
             s = ether_echo COMM_NM_TXT ls_temp_ether_nm s;
             s = ether_echo COMM_GW_TXT ls_temp_ether_gw s
         in g_lcd_update (\<lambda>l.
              if key = ETHER_KEY_IP then ether_select_field LCD_ETHER_INPUT_IP (ls_temp_ether_ip l) l
              else if key = ETHER_KEY_NM then ether_select_field LCD_ETHER_INPUT_NM (ls_temp_ether_nm l) l
              else ether_select_field LCD_ETHER_INPUT_GW (ls_temp_ether_gw l) l) s)
      else
        (let s = g_lcd_update (\<lambda>l. ether_store (process_ip_char key l)) s
         in tx_bytes (COMM_IP_TXT + 0x10 * ucast (ls_ether_what_input (g_lcd s)))
              (lcd_data_pdd (ls_ether_input_buffer (g_lcd s)) 16) s))"

section \<open>DATA SAVE\<close>

definition commit_comm_serial_shadows :: "sys \<Rightarrow> sys" where
  "commit_comm_serial_shadows s =
     (let l = g_lcd s; cfg = g_cfg s in
      if ls_temp_address l \<noteq> comm_address cfg \<or> ls_temp_speed_idx l \<noteq> comm_speed_idx cfg \<or>
         ls_temp_parity_idx l \<noteq> comm_parity_idx cfg
      then app_lcd_hook_comm_reconfigure (ls_temp_speed_idx l) (ls_temp_parity_idx l) (ls_temp_address l)
             (g_cfg_update (\<lambda>c. c\<lparr>comm_address := ls_temp_address l, comm_speed_idx := ls_temp_speed_idx l,
                comm_parity_idx := ls_temp_parity_idx l\<rparr>) s)
      else s)"

definition commit_comm_mode_and_ether :: "sys \<Rightarrow> sys" where
  "commit_comm_mode_and_ether s =
     (let l = g_lcd s; cfg = g_cfg s in
      if ls_temp_comm_mode l = 0xFF then s
      else
        (let mode_changed = (ls_temp_comm_mode l \<noteq> comm_mode cfg);
             ether_changed = (ls_temp_ether_ip l \<noteq> ether_ip cfg \<or> ls_temp_ether_nm l \<noteq> ether_nm cfg \<or>
                              ls_temp_ether_gw l \<noteq> ether_gw cfg);
             s = (if mode_changed then g_cfg_update (\<lambda>c. c\<lparr>comm_mode := ls_temp_comm_mode l\<rparr>) s else s);
             s = (if ether_changed
                  then g_cfg_update (\<lambda>c. c\<lparr>ether_ip := ls_temp_ether_ip l, ether_nm := ls_temp_ether_nm l,
                         ether_gw := ls_temp_ether_gw l\<rparr>) s
                  else s)
         in if ether_changed \<or> mode_changed then app_lcd_hook_ether_apply s else s))"

definition commit_cnt_reset :: "sys \<Rightarrow> sys" where
  "commit_cnt_reset s =
     (if ls_temp_cnt_reset (g_lcd s) = 1
      then g_lcd_update (\<lambda>l. l\<lparr>ls_temp_cnt_reset := 0\<rparr>)
             (tx_u32 LV_WORK_CNT 0 (g_cfg_update (\<lambda>c. c\<lparr>work_cnt := 0\<rparr>) s))
      else s)"

abbreviation (input) std_setup_page :: "u8 \<Rightarrow> bool" where
  "std_setup_page p \<equiv> p = LCD_SETUP_STD1 \<or> p = LCD_SETUP_STD2D \<or> p = LCD_SETUP_STD2T \<or>
     p = LCD_SETUP_STD3 \<or> p = LCD_SETUP_STDC \<or> p = LCD_SETUP_STDE"

abbreviation (input) set_status :: "u8 \<Rightarrow> sys \<Rightarrow> sys" where
  "set_status p \<equiv> g_lcd_update (\<lambda>l. l\<lparr>ls_lcd_status := p\<rparr>)"

text \<open>The part of the save that depends on the page.\<close>

definition save_by_page :: "sys \<Rightarrow> sys" where
  "save_by_page s =
     (let p = ls_lcd_status (g_lcd s); cfg = g_cfg s in
      if p = LCD_MODEL_SETUP
      then g_lcd_update (\<lambda>l. l\<lparr>ls_sys_mode := model_type cfg,
             ls_lcd_status := run_page_for_mode (model_type cfg)\<rparr>) s
      else if p = LCD_SETUP_MULTI \<or> (p = LCD_SETUP_MH2 \<and> model_type cfg = 1) \<or> p = LCD_SETUP_MHC \<or>
              p = LCD_SETUP_MHE
      then set_status LCD_RUN_MULTI (commit_comm_serial_shadows (commit_comm_mode_and_ether
             (app_lcd_hook_set_pot (output_power cfg) s)))
      else if p = LCD_SETUP_HAND \<or> (p = LCD_SETUP_MH2 \<and> model_type cfg = 0)
      then set_status LCD_RUN_MULTI (commit_comm_serial_shadows (app_lcd_hook_set_pot (output_power cfg) s))
      else if std_setup_page p
      then (let s = app_lcd_hook_set_pot (output_power cfg) s;
                s = commit_cnt_reset s;
                s = app_lcd_hook_horn (ls_temp_horndown (g_lcd s) = 1) s;
                s = commit_comm_mode_and_ether s;
                s = commit_comm_serial_shadows s
            in set_status LCD_RUN_STD s)
      else s)"

definition data_save_commit :: "u32 \<Rightarrow> sys \<Rightarrow> sys" where
  "data_save_commit now s =
     (let s = save_by_page s;
          s = g_i2c_update (app_config_save_all (g_cfg s)) s
      in app_lcd_change_page now (ls_lcd_status (g_lcd s)) s)"

definition data_save_cancel :: "u32 \<Rightarrow> sys \<Rightarrow> sys" where
  "data_save_cancel now s =
     (let was_model_setup = (ls_lcd_status (g_lcd s) = LCD_MODEL_SETUP);
          (r, cfg, i2c) = app_config_load (g_i2c s);
          s = s\<lparr>g_cfg := cfg, g_i2c := i2c\<rparr>;
          s = g_lcd_update (\<lambda>l. l\<lparr>ls_temp_comm_mode := 0xFF\<rparr>) s;
          s = (if was_model_setup
               then app_lcd_send_model_str (model_freq cfg) (model_type cfg)
                      (g_lcd_update (\<lambda>l. l\<lparr>ls_sys_mode := model_type cfg\<rparr>) s)
               else s);
          p = ls_lcd_status (g_lcd s);
          s = (if was_model_setup \<or> p = LCD_SETUP_MULTI \<or> p = LCD_SETUP_HAND \<or> p = LCD_SETUP_MH2 \<or>
                  p = LCD_SETUP_MHC \<or> p = LCD_SETUP_MHE
               then set_status LCD_RUN_MULTI s
               else if std_setup_page p
               then set_status LCD_RUN_STD (g_lcd_update (\<lambda>l. l\<lparr>ls_temp_horndown := 0\<rparr>) s)
               else s)
      in app_lcd_change_page now (ls_lcd_status (g_lcd s)) s)"

end
