(* ===== verification/Lcd_Input.thy ===== *)
theory Lcd_Input
  imports Lcd_Comm
begin

text \<open>
  The keys of the panel, \<open>fw/src/app_lcd_input.c\<close>: the dispatch of a received frame to the
  edit of a value, a page change, an ultrasonic command, the save and the comm pages; the
  reconstruction of the run key from one event per edge; the long press; the re-start of the
  panel in operation.
\<close>

abbreviation (input) KEY_HOLD_MS :: u32 where "KEY_HOLD_MS \<equiv> 2000"

section \<open>Keys\<close>

definition setup1_page_for_mode :: "u8 \<Rightarrow> u8" where
  "setup1_page_for_mode mode =
     (if mode = 0 then LCD_SETUP_HAND else if mode = 1 then LCD_SETUP_MULTI else LCD_SETUP_STD1)"

definition run_key_start :: "u32 \<Rightarrow> sys \<Rightarrow> sys" where
  "run_key_start now s =
     (let s = app_lcd_hook_us_command now US_CMD_START s
      in app_lcd_hook_set_pot (output_power (g_cfg s)) s)"

definition handle_key_multi :: "u32 \<Rightarrow> u16 \<Rightarrow> sys \<Rightarrow> sys" where
  "handle_key_multi now data16 s =
     (if data16 = 1
      then (let s = app_lcd_hook_us_command now US_CMD_RESET s in
            if ls_error_status (g_lcd s) AND (ERR_OVLD OR ERR_OUTERR) \<noteq> 0
            then (let s = g_lcd_update (\<lambda>l. l\<lparr>ls_error_status :=
                            ls_error_status l AND NOT (ERR_OVLD OR ERR_OUTERR)\<rparr>) s
                  in lcd_restore_run_page (tx_u16 ICON_OUTERR 0 (tx_u16 ICON_OL 0 s)))
            else s)
      else if data16 = 2 then app_lcd_hook_us_command now US_CMD_SEEK s
      else if data16 = 3 then run_key_start now s
      else if data16 = 4 then app_lcd_hook_us_command now US_CMD_RUN_RELEASE s
      else if data16 = 0
      then (let s = g_lcd_update (\<lambda>l. l\<lparr>ls_run_key_down := ls_run_key_down l XOR 1\<rparr>) s
            in if ls_run_key_down (g_lcd s) \<noteq> 0 then run_key_start now s
               else app_lcd_hook_us_command now US_CMD_RUN_RELEASE s)
      else s)"

definition handle_key_error_reset :: "u32 \<Rightarrow> u16 \<Rightarrow> sys \<Rightarrow> sys" where
  "handle_key_error_reset now data16 s =
     (if data16 \<noteq> 1 then s
      else (let s = app_lcd_hook_us_command now US_CMD_RESET s in
            if ls_error_status (g_lcd s) AND ERR_OVTIME \<noteq> 0
            then lcd_restore_run_page (g_lcd_update (\<lambda>l. l\<lparr>ls_error_status := 0\<rparr>) s)
            else s))"

definition long_press_released :: "u32 \<Rightarrow> u16 \<Rightarrow> u16 \<Rightarrow> lcd_app_state \<Rightarrow> bool \<times> lcd_app_state" where
  "long_press_released now vp data16 l =
     (if data16 = 0
      then if ls_key_press_vp l \<noteq> vp
           then (False, l\<lparr>ls_key_press_vp := vp, ls_key_press_ms := now\<rparr>)
           else (KEY_HOLD_MS \<le> elapsed now (ls_key_press_ms l), l\<lparr>ls_key_press_vp := 0\<rparr>)
      else if data16 = 2
      then (ls_key_press_vp l = vp \<and> KEY_HOLD_MS \<le> elapsed now (ls_key_press_ms l),
            l\<lparr>ls_key_press_vp := 0\<rparr>)
      else (False, l))"

section \<open>Pages\<close>

definition enter_model_setup :: "sys \<Rightarrow> sys" where
  "enter_model_setup s =
     (let cfg = g_cfg s;
          s = lcd_goto LCD_MODEL_SETUP s;
          s = app_lcd_send_model_str (model_freq cfg) (model_type cfg) s;
          s = tx_u16 MODEL_FREQ (ucast (model_freq cfg)) s;
          s = tx_u16 MODEL_TYPE (ucast (model_type cfg)) s;
          s = tx_u16 VAR_CAL_VAL (cal_val cfg) s
      in tx_u16 VAR_FREQ_CAL_VAL (freq_cal_val cfg) s)"

definition goto_setup1 :: "sys \<Rightarrow> sys" where
  "goto_setup1 s =
     (let p = ls_lcd_status (g_lcd s); cfg = g_cfg s;
          q = (if p = LCD_SETUP_MH2 \<or> p = LCD_SETUP_MHC \<or> p = LCD_SETUP_MHE
               then if model_type cfg = 0 then LCD_SETUP_HAND
                    else if model_type cfg = 1 then LCD_SETUP_MULTI
                    else p
               else LCD_SETUP_STD1)
      in lcd_goto q s)"

definition lcd_change_to :: "u32 \<Rightarrow> u8 \<Rightarrow> sys \<Rightarrow> sys" where
  "lcd_change_to now q s = app_lcd_change_page now q (set_status q s)"

definition goto_setup2 :: "u32 \<Rightarrow> sys \<Rightarrow> sys" where
  "goto_setup2 now s =
     (let p = ls_lcd_status (g_lcd s);
          q = (if p = LCD_SETUP_STD1 \<or> p = LCD_SETUP_STD3 \<or> p = LCD_SETUP_STDC \<or> p = LCD_SETUP_STDE
               then if run_mode (g_cfg s) = MODE_DELAY then LCD_SETUP_STD2D else LCD_SETUP_STD2T
               else if p = LCD_SETUP_MULTI \<or> p = LCD_SETUP_HAND \<or> p = LCD_SETUP_MHC \<or> p = LCD_SETUP_MHE
               then LCD_SETUP_MH2
               else p)
      in lcd_change_to now q s)"

definition handle_std_setup_param :: "u32 \<Rightarrow> u16 \<Rightarrow> sys \<Rightarrow> sys" where
  "handle_std_setup_param now data16 s =
     (let p = ls_lcd_status (g_lcd s); cfg = g_cfg s in
      if data16 = 1 then goto_setup1 s
      else if data16 = 2 then goto_setup2 now s
      else if data16 = 3
      then (let q = (if p = LCD_SETUP_STD1 \<or> p = LCD_SETUP_STD2D \<or> p = LCD_SETUP_STD2T \<or>
                        p = LCD_SETUP_STDC \<or> p = LCD_SETUP_STDE
                     then LCD_SETUP_STD3
                     else if p = LCD_SETUP_MULTI \<or> p = LCD_SETUP_HAND \<or> p = LCD_SETUP_MH2
                     then if comm_mode cfg = 0 then LCD_SETUP_MHC else LCD_SETUP_MHE
                     else p)
            in lcd_change_to now q s)
      else if data16 = 4
      then lcd_change_to now (if comm_mode cfg = 0 then LCD_SETUP_STDC else LCD_SETUP_STDE) s
      else if data16 = 5
      then if work_cnt cfg \<noteq> 0 then g_lcd_update (\<lambda>l. l\<lparr>ls_temp_cnt_reset := 1\<rparr>) s else s
      else s)"

definition handle_setup_param_enter :: "u32 \<Rightarrow> sys \<Rightarrow> sys" where
  "handle_setup_param_enter now s =
     (let s = lcd_change_to now (setup1_page_for_mode (ls_sys_mode (g_lcd s))) s;
          s = tx_u16 DISP_HORNDOWN (ucast (app_horn_mode_active s)) s
      in g_lcd_update (\<lambda>l. l\<lparr>ls_temp_horndown := app_horn_mode_active s\<rparr>) s)"

definition handle_run_mode :: "u32 \<Rightarrow> u16 \<Rightarrow> sys \<Rightarrow> sys" where
  "handle_run_mode now data16 s =
     (if data16 = 1
      then lcd_change_to now LCD_SETUP_STD2D (g_cfg_update (\<lambda>c. c\<lparr>run_mode := MODE_DELAY\<rparr>) s)
      else if data16 = 2
      then lcd_change_to now LCD_SETUP_STD2T (g_cfg_update (\<lambda>c. c\<lparr>run_mode := MODE_TRIGGER\<rparr>) s)
      else s)"

definition handle_sys_pic_now :: "u32 \<Rightarrow> u16 \<Rightarrow> sys \<Rightarrow> sys" where
  "handle_sys_pic_now now data16 s =
     (if data16 = 0 \<and> ls_boot_complete (g_lcd s) \<and> 200 \<le> elapsed now (ls_last_set_page_ms (g_lcd s))
      then (let s = app_lcd_input_run_key_reanchor now s;
                s = app_lcd_var_init s;
                s = app_lcd_send_model_str (model_freq (g_cfg s)) (model_type (g_cfg s)) s
            in app_lcd_init_mode now s)
      else s)"

section \<open>Edited values\<close>

text \<open>A clamped value goes back to the panel when the clamp changed it.\<close>

definition echo_if_clamped :: "u16 \<Rightarrow> u16 \<Rightarrow> u16 \<Rightarrow> sys \<Rightarrow> sys" where
  "echo_if_clamped vp v c s = (if c \<noteq> v then tx_u16 vp c s else s)"

definition clamp_echo_max :: "u16 \<Rightarrow> u16 \<Rightarrow> u16 \<Rightarrow> (u16 \<Rightarrow> app_config \<Rightarrow> app_config) \<Rightarrow> sys \<Rightarrow> sys" where
  "clamp_echo_max vp v m upd s =
     (let c = cfg_clamp_max v m in g_cfg_update (upd c) (echo_if_clamped vp v c s))"

definition clamp_echo_power :: "u16 \<Rightarrow> u16 \<Rightarrow> (u16 \<Rightarrow> app_config \<Rightarrow> app_config) \<Rightarrow> sys \<Rightarrow> sys" where
  "clamp_echo_power vp v upd s =
     (let c = cfg_clamp_power v in g_cfg_update (upd c) (echo_if_clamped vp v c s))"

text \<open>The second multi-output time never stays below the first.\<close>

definition mo_time_order :: "sys \<Rightarrow> sys" where
  "mo_time_order s =
     (let cfg = g_cfg s in
      if limit_mo_time2 cfg < limit_mo_time1 cfg
      then tx_u16 LV_MO_TIME2 (limit_mo_time1 cfg)
             (g_cfg_update (\<lambda>c. c\<lparr>limit_mo_time2 := limit_mo_time1 c\<rparr>) s)
      else s)"

definition edit_model :: "(app_config \<Rightarrow> app_config) \<Rightarrow> sys \<Rightarrow> sys" where
  "edit_model upd s =
     (let s = g_cfg_update upd s
      in app_lcd_send_model_str (model_freq (g_cfg s)) (model_type (g_cfg s)) s)"

definition edit_limits :: "u16 \<Rightarrow> u16 \<Rightarrow> sys \<Rightarrow> sys option" where
  "edit_limits vp data16 s =
     (if vp = MODEL_FREQ then Some (edit_model (\<lambda>c. c\<lparr>model_freq := ucast data16\<rparr>) s)
      else if vp = MODEL_TYPE then Some (edit_model (\<lambda>c. c\<lparr>model_type := ucast data16\<rparr>) s)
      else if vp = VAR_CAL_VAL then Some (g_cfg_update (\<lambda>c. c\<lparr>cal_val := data16\<rparr>) s)
      else if vp = VAR_FREQ_CAL_VAL then Some (g_cfg_update (\<lambda>c. c\<lparr>freq_cal_val := data16\<rparr>) s)
      else if vp = LV_DM_DELAY
      then Some (clamp_echo_max LV_DM_DELAY data16 500 (\<lambda>v c. c\<lparr>limit_delay_time1 := v\<rparr>) s)
      else if vp = LV_DM_WELD
      then Some (clamp_echo_max LV_DM_WELD data16 500 (\<lambda>v c. c\<lparr>limit_delay_time2 := v\<rparr>) s)
      else if vp = LV_DM_HOLD
      then Some (clamp_echo_max LV_DM_HOLD data16 2000 (\<lambda>v c. c\<lparr>limit_delay_time3 := v\<rparr>) s)
      else if vp = LV_TM_WELD
      then Some (clamp_echo_max LV_TM_WELD data16 500 (\<lambda>v c. c\<lparr>limit_trigger_time2 := v\<rparr>) s)
      else if vp = LV_TM_HOLD
      then Some (clamp_echo_max LV_TM_HOLD data16 2000 (\<lambda>v c. c\<lparr>limit_trigger_time3 := v\<rparr>) s)
      else if vp = LV_MO_OUT1
      then Some (clamp_echo_power LV_MO_OUT1 data16 (\<lambda>v c. c\<lparr>limit_mo_out1 := v\<rparr>) s)
      else if vp = LV_MO_OUT2
      then Some (clamp_echo_power LV_MO_OUT2 data16 (\<lambda>v c. c\<lparr>limit_mo_out2 := v\<rparr>) s)
      else if vp = LV_MO_TIME1 then Some (mo_time_order (g_cfg_update (\<lambda>c. c\<lparr>limit_mo_time1 := data16\<rparr>) s))
      else if vp = LV_MO_TIME2 then Some (mo_time_order (g_cfg_update (\<lambda>c. c\<lparr>limit_mo_time2 := data16\<rparr>) s))
      else if vp = LV_OUT_POWER
      then Some (clamp_echo_power LV_OUT_POWER data16 (\<lambda>v c. c\<lparr>output_power := ucast v\<rparr>) s)
      else if vp = LV_MAX_ON_TIME
      then Some (clamp_echo_max LV_MAX_ON_TIME data16 2000 (\<lambda>v c. c\<lparr>limit_on_time := v\<rparr>) s)
      else if vp = LV_ENERGY_EDIT then Some (g_cfg_update (\<lambda>c. c\<lparr>limit_energy := ucast data16\<rparr>) s)
      else if vp = LV_LIMIT_OUT_T
      then Some (clamp_echo_max LV_LIMIT_OUT_T data16 10 (\<lambda>v c. c\<lparr>limit_out_time := ucast (ucast v :: u8)\<rparr>) s)
      else if vp = DISP_SAFTY then Some (g_cfg_update (\<lambda>c. c\<lparr>f_safty := b2u (data16 = 1)\<rparr>) s)
      else if vp = ENERGY_EN
      then Some (if data16 = 1
                 then (let s = g_cfg_update (\<lambda>c. c\<lparr>energy_ctrl := \<not> energy_ctrl c\<rparr>) s
                       in tx_u16 DISP_ENERGY_EN (flag16 (energy_ctrl (g_cfg s))) s)
                 else s)
      else if vp = MULTI_EN
      then Some (if data16 = 1
                 then (let s = g_cfg_update (\<lambda>c. c\<lparr>multi_ctrl := \<not> multi_ctrl c\<rparr>) s
                       in tx_u16 DISP_MULTI_EN (flag16 (multi_ctrl (g_cfg s))) s)
                 else s)
      else if vp = DISP_HORNDOWN
      then Some (g_lcd_update (\<lambda>l. l\<lparr>ls_temp_horndown := b2u (data16 = 1)\<rparr>) s)
      else None)"

section \<open>The dispatch\<close>

definition on_long_press :: "u32 \<Rightarrow> u16 \<Rightarrow> u16 \<Rightarrow> (sys \<Rightarrow> sys) \<Rightarrow> sys \<Rightarrow> sys" where
  "on_long_press now vp data16 act s =
     (let (fired, l) = long_press_released now vp data16 (g_lcd s);
          s = s\<lparr>g_lcd := l\<rparr>
      in if fired then act s else s)"

definition dispatch_key :: "u32 \<Rightarrow> u16 \<Rightarrow> u16 \<Rightarrow> sys \<Rightarrow> sys" where
  "dispatch_key now vp data16 s =
     (if vp = SETUP_PARAM then handle_setup_param_enter now s
      else if vp = SETUP_PARAM_MOOHAN then on_long_press now vp data16 (handle_setup_param_enter now) s
      else if vp = SETUP_MODEL then on_long_press now vp data16 enter_model_setup s
      else if vp = STD_SETUP_PARAM then handle_std_setup_param now data16 s
      else if vp = LV_RUN_MODE then handle_run_mode now data16 s
      else if vp = KEY_MULTI then handle_key_multi now data16 s
      else if vp = KEY_ERROR_RESET then handle_key_error_reset now data16 s
      else if vp = DATA_SAVE then if data16 = 1 then data_save_commit now s else data_save_cancel now s
      else if vp = COMM_ADDR then handle_comm_addr data16 s
      else if vp = COMM_SPEED then handle_comm_speed data16 s
      else if vp = COMM_PARITY then handle_comm_parity data16 s
      else if vp = LV_COMM_MODE then handle_comm_mode now data16 s
      else if vp = LV_ETHER_KEY then handle_ether_key data16 s
      else if vp = SYS_PIC_NOW then handle_sys_pic_now now data16 s
      else s)"

definition app_lcd_input_dispatch :: "u32 \<Rightarrow> dgus_frame \<Rightarrow> sys \<Rightarrow> sys" where
  "app_lcd_input_dispatch now f s =
     (if fr_cmd f \<noteq> DGUS_CMD_RD then s
      else if fr_data_len f < 3 then s
      else
        (let data16 = be16 (fr_data f ! 1) (fr_data f ! 2)
         in case edit_limits (fr_vp_addr f) data16 s of
              Some s' \<Rightarrow> s'
            | None \<Rightarrow> dispatch_key now (fr_vp_addr f) data16 s))"

end
