(* ===== verification/Panel.thy ===== *)
theory Panel
  imports Lcd_Input
begin

text \<open>
  The invariant of the panel: the table indices, the address buffers, the cursor and the
  octet counter stay in range through every edit, key, save, roll-back and tick, and every frame
  sent is well formed. Here each operation of the panel is shown to keep it; App_Loop shows that it
  holds in every state the firmware can reach.
\<close>

section \<open>The invariant\<close>

definition shadows_ok :: "lcd_app_state \<Rightarrow> bool" where
  "shadows_ok l \<longleftrightarrow> unat (ls_temp_speed_idx l) \<le> 5 \<and> unat (ls_temp_parity_idx l) \<le> 2 \<and>
     length (ls_temp_ether_ip l) = 4 \<and> length (ls_temp_ether_nm l) = 4 \<and> length (ls_temp_ether_gw l) = 4 \<and>
     length (ls_ether_temp_ip l) = 4 \<and> length (ls_ether_input_buffer l) = 16 \<and>
     unat (ls_ether_buffer_pos l) \<le> 15 \<and> unat (ls_ether_current_octet l) \<le> 3 \<and>
     unat (ls_ether_current_number l) \<le> 255"

definition panel_inv :: "sys \<Rightarrow> bool" where
  "panel_inv s \<longleftrightarrow> cfg_ok (g_cfg s) \<and> wire_ok (g_dgus s) \<and> disp_ok (g_disp s) \<and> shadows_ok (g_lcd s)"

lemma cfg_idx_ok: "cfg_ok c \<Longrightarrow> comm_idx_ok c"
  by (simp add: cfg_ok_def comm_idx_ok_def word_le_nat_alt)

lemma shadows_updates [simp]:
  "shadows_ok (l\<lparr>ls_lcd_status := x1\<rparr>) = shadows_ok l"
  "shadows_ok (l\<lparr>ls_sys_mode := x1\<rparr>) = shadows_ok l"
  "shadows_ok (l\<lparr>ls_error_status := x1\<rparr>) = shadows_ok l"
  "shadows_ok (l\<lparr>ls_key_press_ms := x4\<rparr>) = shadows_ok l"
  "shadows_ok (l\<lparr>ls_key_press_vp := x2\<rparr>) = shadows_ok l"
  "shadows_ok (l\<lparr>ls_temp_comm_mode := x1\<rparr>) = shadows_ok l"
  "shadows_ok (l\<lparr>ls_temp_address := x1\<rparr>) = shadows_ok l"
  "shadows_ok (l\<lparr>ls_temp_cnt_reset := x1\<rparr>) = shadows_ok l"
  "shadows_ok (l\<lparr>ls_temp_horndown := x1\<rparr>) = shadows_ok l"
  "shadows_ok (l\<lparr>ls_run_key_down := x1\<rparr>) = shadows_ok l"
  "shadows_ok (l\<lparr>ls_last_set_page_ms := x4\<rparr>) = shadows_ok l"
  "shadows_ok (l\<lparr>ls_ether_dirty := b\<rparr>) = shadows_ok l"
  "shadows_ok (l\<lparr>ls_boot_complete := b\<rparr>) = shadows_ok l"
  "shadows_ok (ref_levels f l) = shadows_ok l"
  by (simp_all add: shadows_ok_def ref_levels_def)

section \<open>Pages\<close>

lemma change_page_shadows:
  assumes "cfg_ok (g_cfg s)" "shadows_ok (g_lcd s)"
  shows "shadows_ok (g_lcd (app_lcd_change_page now p s))"
proof -
  have 1: "shadows_ok (g_lcd (render_setup_main s))" if "cfg_ok (g_cfg s)" "shadows_ok (g_lcd s)" for s
    using that by (simp add: render_setup_main_def Let_def shadows_ok_def cfg_ok_def)
  have 2: "shadows_ok (g_lcd (render_comm_page s))" if "cfg_ok (g_cfg s)" "shadows_ok (g_lcd s)" for s
    using that by (simp add: render_comm_page_def comm_seed_def Let_def shadows_ok_def cfg_ok_def)
  have "shadows_ok (g_lcd (render_page p s))" if "cfg_ok (g_cfg s)" "shadows_ok (g_lcd s)" for p s
    using that by (simp add: render_page_def Let_def 1 2)
  then show ?thesis using assms by (simp add: app_lcd_change_page_def Let_def render_comm_tail_def)
qed

lemma panel_change_page: "panel_inv s \<Longrightarrow> panel_inv (app_lcd_change_page now p s)"
  by (simp add: panel_inv_def change_page_shadows change_page_wire cfg_idx_ok)

lemma panel_init_mode: "panel_inv s \<Longrightarrow> panel_inv (app_lcd_init_mode now s)"
  unfolding app_lcd_init_mode_def Let_def
  by (rule panel_change_page) (simp add: panel_inv_def)

lemma panel_sends [simp]:
  "panel_inv (g_dgus_update (dgus_write_u16 vp v) s) = panel_inv s"
  "panel_inv (g_dgus_update (dgus_write_u32 vp w) s) = panel_inv s"
  "panel_inv (g_dgus_update (dgus_write_text vp t) s) = panel_inv s"
  "panel_inv (g_dgus_update (dgus_set_page p) s) = panel_inv s"
  "bs \<noteq> [] \<Longrightarrow> panel_inv (g_dgus_update (dgus_write_bytes vp bs) s) = panel_inv s"
  "ws \<noteq> [] \<Longrightarrow> panel_inv (g_dgus_update (dgus_write_u16_array vp ws) s) = panel_inv s"
  by (simp_all add: panel_inv_def)

lemma panel_dgus [simp]: "(\<And>d. wire_ok (f d) = wire_ok d) \<Longrightarrow> panel_inv (g_dgus_update f s) = panel_inv s"
  by (simp add: panel_inv_def)

lemma panel_lcd: "(\<And>l. shadows_ok l \<Longrightarrow> shadows_ok (f l)) \<Longrightarrow> panel_inv s \<Longrightarrow> panel_inv (g_lcd_update f s)"
  by (simp add: panel_inv_def)

lemma panel_cfg: "(\<And>c. cfg_ok c \<Longrightarrow> cfg_ok (f c)) \<Longrightarrow> panel_inv s \<Longrightarrow> panel_inv (g_cfg_update f s)"
  by (simp add: panel_inv_def)

lemma panel_cong:
  "panel_inv s \<Longrightarrow> g_cfg s' = g_cfg s \<Longrightarrow> g_dgus s' = g_dgus s \<Longrightarrow> g_disp s' = g_disp s \<Longrightarrow>
   g_lcd s' = g_lcd s \<Longrightarrow> panel_inv s'"
  by (simp add: panel_inv_def)

lemma command_ui [simp]:
  "g_cfg (app_reg_command now cmd src s) = g_cfg s" "g_dgus (app_reg_command now cmd src s) = g_dgus s"
  "g_disp (app_reg_command now cmd src s) = g_disp s" "g_lcd (app_reg_command now cmd src s) = g_lcd s"
  by (cases cmd; simp add: app_reg_command_def reg_cmd_start_def reg_cmd_release_def
      app_seek_reset_request_def)+

lemma panel_command [simp]: "panel_inv (app_reg_command now cmd src s) = panel_inv s"
  by (simp add: panel_inv_def)

lemma panel_us_command [simp]: "panel_inv (app_lcd_hook_us_command now cmd s) = panel_inv s"
  by (simp add: app_lcd_hook_us_command_def)

lemma panel_hooks [simp]:
  "panel_inv (app_lcd_hook_set_pot p s) = panel_inv s"
  "panel_inv (app_lcd_send_model_str f t s) = panel_inv s"
  "panel_inv (app_lcd_hook_comm_reconfigure a b c s) = panel_inv s"
  "panel_inv (app_lcd_hook_ether_apply s) = panel_inv s"
  by (simp_all add: panel_inv_def app_lcd_hook_comm_reconfigure_def app_lcd_hook_ether_apply_def)

lemma horn_set_mode_ui [simp]:
  "g_cfg (app_horn_set_mode on s) = g_cfg s" "g_dgus (app_horn_set_mode on s) = g_dgus s"
  "g_disp (app_horn_set_mode on s) = g_disp s" "g_lcd (app_horn_set_mode on s) = g_lcd s"
  "g_reg (app_horn_set_mode on s) = g_reg s"
  by (simp_all add: app_horn_set_mode_def pin_defs Let_def)

lemma panel_horn [simp]: "panel_inv (app_lcd_hook_horn on s) = panel_inv s"
  by (simp add: panel_inv_def app_lcd_hook_horn_def)

section \<open>Comm pages\<close>

lemma tables_nonempty:
  "unat (i :: u8) \<le> 5 \<Longrightarrow> comm_speed_txt ! unat i \<noteq> []" "unat (j :: u8) \<le> 2 \<Longrightarrow> comm_parity_txt ! unat j \<noteq> []"
  using comm_txt_nonempty(1) [of i] comm_txt_nonempty(2) [of j] by (simp_all add: word_le_nat_alt)

lemma panel_comm_edits:
  assumes "panel_inv s"
  shows "panel_inv (handle_comm_addr d s)" "panel_inv (handle_comm_speed d s)" "panel_inv (handle_comm_parity d s)"
    "panel_inv (handle_comm_mode now d s)"
proof -
  show "panel_inv (handle_comm_addr d s)"
    using assms by (simp add: handle_comm_addr_def Let_def panel_lcd)
  show "panel_inv (handle_comm_speed d s)"
    using assms by (auto simp: handle_comm_speed_def Let_def not_less word_le_nat_alt tables_nonempty
        intro!: panel_lcd) (simp add: shadows_ok_def)
  show "panel_inv (handle_comm_parity d s)"
    using assms by (auto simp: handle_comm_parity_def Let_def not_less word_le_nat_alt tables_nonempty
        intro!: panel_lcd) (simp add: shadows_ok_def)
  have m: "panel_inv (g_lcd_update (\<lambda>l. l\<lparr>ls_temp_comm_mode := x\<rparr>) t) = panel_inv t" for x t
    by (simp add: panel_inv_def)
  have w: "panel_inv (swap_page a b c e t) = panel_inv t" for a b c e t
    by (simp add: panel_inv_def swap_page_def)
  show "panel_inv (handle_comm_mode now d s)"
    using assms by (auto simp: handle_comm_mode_def Let_def m w intro!: panel_change_page)
qed

lemma ether_put_shadows: "shadows_ok l \<Longrightarrow> shadows_ok (ether_put c l)"
proof -
  assume l: "shadows_ok l"
  have "unat (ls_ether_buffer_pos l + 1) \<le> 15" if "ls_ether_buffer_pos l < 15"
    using that by (subst unat_add_small) (simp_all add: word_less_nat_alt)
  then show ?thesis using l by (simp add: ether_put_def shadows_ok_def)
qed

lemma process_ip_shadows: "shadows_ok l \<Longrightarrow> shadows_ok (process_ip_char key l)"
proof -
  assume l: "shadows_ok l"
  have dec: "unat (w - 1) \<le> unat w" if "0 < w" for w :: u8 using unat_dec [OF that] by simp
  have digit: "shadows_ok (ether_digit key l)"
  proof -
    define n :: u16 where "n = (if 255 < ls_ether_current_number l * 10 + ucast key then 255
      else ls_ether_current_number l * 10 + ucast key)"
    have "unat n \<le> 255" by (simp add: n_def word_le_nat_alt [of _ 255, simplified, symmetric] word_less_nat_alt)
    then have "shadows_ok (l\<lparr>ls_ether_current_number := n\<rparr>)" using l by (simp add: shadows_ok_def)
    from ether_put_shadows [OF this, of "key + 0x30"] show ?thesis
      by (simp add: ether_digit_def Let_def n_def [symmetric] shadows_ok_def)
  qed
  have dot: "shadows_ok (ether_dot l)"
  proof (cases "ls_ether_has_input l \<noteq> 0 \<and> ls_ether_current_octet l < 3")
    case True
    then have "unat (ls_ether_current_octet l + 1) \<le> 3"
      by (subst unat_add_small) (simp_all add: word_less_nat_alt)
    then show ?thesis
      using l True by (auto simp: ether_dot_def intro!: ether_put_shadows) (simp add: shadows_ok_def)
  next
    case False
    then show ?thesis using l by (auto simp: ether_dot_def)
  qed
  have bksp: "shadows_ok (ether_backspace l)"
    using l dec [of "ls_ether_buffer_pos l"] dec [of "ls_ether_current_octet l"]
      unat_bounds(1) [of "ls_ether_temp_ip l ! unat (ls_ether_current_octet l - 1)"]
      div_le_dividend [of "unat (ls_ether_current_number l)" 10]
    by (auto simp: ether_backspace_def Let_def shadows_ok_def unat_casts unat_div)
  have "shadows_ok (ether_enter l)" using l by (simp add: ether_enter_def Let_def shadows_ok_def)
  with l digit dot bksp show ?thesis by (simp add: process_ip_char_def)
qed

lemma takeWhile_short: "x \<in> set xs \<Longrightarrow> \<not> P x \<Longrightarrow> length (takeWhile P xs) < length xs"
  by (induction xs) auto

lemma ip_cursor: "unat (of_nat (length (takeWhile (\<lambda>c. c \<noteq> 0) (ip_to_string ip))) :: u8) \<le> 15"
proof -
  have "0 \<in> set (ip_to_string ip)" by (simp add: ip_to_string_def Let_def)
  then have "length (takeWhile (\<lambda>c. c \<noteq> 0) (ip_to_string ip)) < length (ip_to_string ip)"
    by (rule takeWhile_short) simp
  moreover have "length (ip_to_string ip) = 16" by (simp add: ip_to_string_def)
  ultimately show ?thesis by (simp add: unsigned_of_nat take_bit_nat_eq_self)
qed

lemma lcd_data_pdd_nonempty [simp]: "lcd_data_pdd b 16 \<noteq> []"
  using lcd_data_pdd_length [of b 16] by auto

lemma panel_ether_key: "panel_inv s \<Longrightarrow> panel_inv (handle_ether_key d s)"
proof -
  assume s: "panel_inv s"
  have echo: "panel_inv (ether_echo vp sel t)" if "panel_inv t" for vp sel t
    unfolding ether_echo_def Let_def
    by (simp, rule panel_lcd [OF _ that]) (simp add: shadows_ok_def ip_to_string_def)
  have sel: "shadows_ok (ether_select_field f ip l)" if "shadows_ok l" "length ip = 4" for f ip l
    using that ip_cursor [of ip] unat_bounds(1) [of "ls_temp_ether_ip l ! 3"]
    by (simp add: ether_select_field_def Let_def shadows_ok_def unat_casts ip_to_string_def)
  have store: "shadows_ok (ether_store l)" if "shadows_ok l" for l
    using that by (simp add: ether_store_def Let_def shadows_ok_def)
  show ?thesis
    unfolding handle_ether_key_def Let_def
    using s by (auto intro!: panel_lcd sel store process_ip_shadows echo) (auto simp: shadows_ok_def)
qed

section \<open>Saving and cancelling\<close>

lemma panel_commits:
  assumes "panel_inv s"
  shows "panel_inv (commit_comm_serial_shadows s)" "panel_inv (commit_comm_mode_and_ether s)"
    "panel_inv (commit_cnt_reset s)"
proof -
  show "panel_inv (commit_comm_serial_shadows s)"
    using assms by (auto simp: commit_comm_serial_shadows_def app_lcd_hook_comm_reconfigure_def Let_def panel_inv_def cfg_ok_def shadows_ok_def)
  show "panel_inv (commit_comm_mode_and_ether s)"
    using assms by (auto simp: commit_comm_mode_and_ether_def app_lcd_hook_ether_apply_def Let_def panel_inv_def cfg_ok_def shadows_ok_def)
  show "panel_inv (commit_cnt_reset s)"
    using assms by (auto simp: commit_cnt_reset_def panel_inv_def cfg_ok_def)
qed

lemma panel_status [simp]: "panel_inv (g_lcd_update (\<lambda>l. l\<lparr>ls_lcd_status := p\<rparr>) s) = panel_inv s"
  by (simp add: panel_inv_def)

lemma panel_i2c [simp]: "panel_inv (g_i2c_update f s) = panel_inv s"
  by (simp add: panel_inv_def)

lemma panel_save: "panel_inv s \<Longrightarrow> panel_inv (data_save_commit now s)"
proof -
  assume s: "panel_inv s"
  have "panel_inv (save_by_page s)"
    using s by (auto simp: save_by_page_def Let_def intro!: panel_commits panel_lcd)
  then show ?thesis by (auto simp: data_save_commit_def Let_def intro!: panel_change_page)
qed

lemma panel_cancel: "panel_inv s \<Longrightarrow> panel_inv (data_save_cancel now s)"
  using load_cfg_ok [of "g_i2c s"]
  unfolding data_save_cancel_def Let_def case_prod_unfold
  by (intro panel_change_page) (auto simp: panel_inv_def)

section \<open>The dispatch\<close>

lemma panel_restore: "panel_inv s \<Longrightarrow> panel_inv (lcd_restore_run_page s)"
  by (simp add: lcd_restore_run_page_def lcd_goto_def panel_inv_def)

lemma panel_goto: "panel_inv s \<Longrightarrow> panel_inv (lcd_goto p s)"
  by (simp add: lcd_goto_def panel_inv_def)

lemma panel_change_to: "panel_inv s \<Longrightarrow> panel_inv (lcd_change_to now p s)"
  unfolding lcd_change_to_def by (rule panel_change_page) simp

lemma panel_keys:
  assumes "panel_inv s"
  shows "panel_inv (handle_key_multi now d s)" "panel_inv (handle_key_error_reset now d s)"
    "panel_inv (enter_model_setup s)" "panel_inv (handle_std_setup_param now d s)"
    "panel_inv (handle_setup_param_enter now s)" "panel_inv (handle_run_mode now d s)"
    "panel_inv (handle_sys_pic_now now d s)"
proof -
  show "panel_inv (handle_key_multi now d s)"
    using assms by (auto simp: handle_key_multi_def run_key_start_def Let_def intro!: panel_restore panel_lcd)
  show "panel_inv (handle_key_error_reset now d s)"
    using assms by (auto simp: handle_key_error_reset_def Let_def intro!: panel_restore panel_lcd)
  show "panel_inv (enter_model_setup s)"
    using assms by (simp add: enter_model_setup_def Let_def panel_goto)
  show "panel_inv (handle_std_setup_param now d s)"
    using assms
    by (auto simp: handle_std_setup_param_def goto_setup1_def goto_setup2_def Let_def
        intro!: panel_goto panel_change_to panel_lcd)
  show "panel_inv (handle_setup_param_enter now s)"
    unfolding handle_setup_param_enter_def Let_def
    by (rule panel_lcd) (simp_all add: panel_change_to assms)
  show "panel_inv (handle_run_mode now d s)"
    using assms by (auto simp: handle_run_mode_def cfg_ok_def intro!: panel_change_to panel_cfg)
  show "panel_inv (handle_sys_pic_now now d s)"
    using assms
    by (auto simp: handle_sys_pic_now_def Let_def app_lcd_input_run_key_reanchor_def app_lcd_var_init_def
        intro!: panel_init_mode panel_lcd)
qed

lemma panel_clamps:
  assumes "panel_inv s"
  shows "(\<And>c v. cfg_ok c \<Longrightarrow> cfg_ok (upd v c)) \<Longrightarrow> panel_inv (clamp_echo_max vp d m upd s)"
    and "(\<And>c v. cfg_ok c \<Longrightarrow> 50 \<le> unat v \<Longrightarrow> unat v \<le> 100 \<Longrightarrow> cfg_ok (upd v c)) \<Longrightarrow>
      panel_inv (clamp_echo_power vp d upd s)"
    and "panel_inv (mo_time_order s)"
proof -
  have echo: "panel_inv (echo_if_clamped vp d c s)" for c using assms by (simp add: echo_if_clamped_def)
  show "panel_inv (clamp_echo_max vp d m upd s)" if "\<And>c v. cfg_ok c \<Longrightarrow> cfg_ok (upd v c)"
    unfolding clamp_echo_max_def Let_def using that echo by (intro panel_cfg) simp_all
  have "50 \<le> unat (cfg_clamp_power d)" "unat (cfg_clamp_power d) \<le> 100"
    by (simp_all add: unat_clamp_power)
  then show "panel_inv (clamp_echo_power vp d upd s)"
    if "\<And>c v. cfg_ok c \<Longrightarrow> 50 \<le> unat v \<Longrightarrow> unat v \<le> 100 \<Longrightarrow> cfg_ok (upd v c)"
    unfolding clamp_echo_power_def Let_def using that echo by (intro panel_cfg) simp_all
  show "panel_inv (mo_time_order s)"
    using assms by (auto simp: mo_time_order_def Let_def cfg_ok_def intro!: panel_cfg)
qed

lemma opt_if: "P a \<Longrightarrow> pred_option P b \<Longrightarrow> pred_option P (if c then Some a else b)"
  by simp

lemma panel_edits: "panel_inv s \<Longrightarrow> pred_option panel_inv (edit_limits vp d s)"
proof -
  assume s: "panel_inv s"
  have en: "unat (ucast d :: u32) \<le> 100000" using unat_bounds(2) [of d] by (simp add: unat_casts)
  have pw: "unat (ucast v :: u8) = unat v" if "unat v \<le> 100" for v :: u16
    using that by (simp add: unat_casts)
  show ?thesis
    unfolding edit_limits_def edit_model_def Let_def
    by (intro opt_if) (use s en pw in \<open>auto simp: cfg_ok_def intro!: panel_clamps panel_cfg panel_lcd\<close>)
qed

lemma panel_long_press:
  "panel_inv s \<Longrightarrow> (\<And>t. panel_inv t \<Longrightarrow> panel_inv (act t)) \<Longrightarrow> panel_inv (on_long_press now vp d act s)"
  by (auto simp: on_long_press_def long_press_released_def Let_def panel_inv_def)

lemma panel_dispatch: "panel_inv s \<Longrightarrow> panel_inv (app_lcd_input_dispatch now f s)"
  using panel_edits [of s "fr_vp_addr f" "be16 (fr_data f ! 1) (fr_data f ! 2)"]
  by (auto simp: app_lcd_input_dispatch_def dispatch_key_def Let_def split: option.split
      intro!: panel_keys panel_long_press panel_save panel_cancel panel_comm_edits panel_ether_key)

lemma panel_tick: "panel_inv s \<Longrightarrow> panel_inv (app_lcd_tick e s)"
proof -
  assume s: "panel_inv s"
  have "shadows_ok (g_lcd (app_lcd_tick e s))"
    using s by (simp add: panel_inv_def app_lcd_tick_def app_lcd_show_error_def app_lcd_fault_cleared_def
        app_lcd_input_run_key_reanchor_def lcd_goto_def lcd_restore_run_page_def Let_def)
  then show ?thesis using s by (simp add: panel_inv_def lcd_tick_wire)
qed

lemma panel_events:
  assumes "panel_inv s"
  shows "panel_inv (app_lcd_set_overload on s)" "panel_inv (app_lcd_set_estop now on s)"
    "panel_inv (app_lcd_icon vp on s)" "panel_inv (app_lcd_set_work_cnt c s)"
    "panel_inv (app_lcd_weld_sensor_text on s)" "panel_inv (app_lcd_run_std_refresh s)"
  using assms
  by (simp_all add: app_lcd_set_overload_def app_lcd_set_estop_def app_lcd_icon_def
      app_lcd_set_work_cnt_def app_lcd_input_run_key_reanchor_def lcd_goto_def lcd_restore_run_page_def
      Let_def panel_inv_def app_lcd_weld_sensor_text_def)

end
