(* ===== verification/Seek_Reset_Glue.thy ===== *)
theory Seek_Reset_Glue
  imports Panel Horn_Buzzer_Glue
begin

text \<open>
  The glue of the SEEK/RESET sequencer, \<open>fw/src/app_seek_reset.c\<close>: a command latch, the
  10 ms gate, and the edges of the machine turned into the two lines to the oscillator board and
  the two icons of the panel.
\<close>

section \<open>Operations\<close>

abbreviation (input) SR_TICK_MS :: u32 where "SR_TICK_MS \<equiv> 10"

definition app_seek_reset_init :: "env \<Rightarrow> sys \<Rightarrow> sys" where
  "app_seek_reset_init e s = s\<lparr>g_sr := \<lparr>sg_fsm = seek_reset_fsm_init, sg_prev_ms = e_now e,
     sg_pending_cmd = SR_CMD_NONE\<rparr>\<rparr>"

definition app_seek_reset_hook_signal :: "u8 \<Rightarrow> bool \<Rightarrow> sys \<Rightarrow> sys" where
  "app_seek_reset_hook_signal which on =
     (if which = SR_CMD_RESET then board_reset on else board_seek on)"

definition sr_edge :: "u8 \<Rightarrow> u8 \<Rightarrow> u16 \<Rightarrow> bool \<Rightarrow> sys \<Rightarrow> sys" where
  "sr_edge edge which icon on s =
     (if edge \<noteq> 0 then app_lcd_icon icon on (app_seek_reset_hook_signal which on s) else s)"

definition sr_effects :: "seek_reset_out \<Rightarrow> sys \<Rightarrow> sys" where
  "sr_effects out s =
     (let s = sr_edge (sro_reset_icon out) SR_CMD_RESET ICON_RESET True s;
          s = sr_edge (sro_reset_icon_off out) SR_CMD_RESET ICON_RESET False s;
          s = sr_edge (sro_seek_icon out) SR_CMD_SEEK ICON_SEEK True s
      in sr_edge (sro_seek_icon_off out) SR_CMD_SEEK ICON_SEEK False s)"

definition app_seek_reset_tick :: "env \<Rightarrow> sys \<Rightarrow> sys" where
  "app_seek_reset_tick e s =
     (let now = e_now e in
      if elapsed now (sg_prev_ms (g_sr s)) < SR_TICK_MS then s
      else
        (let i = \<lparr>sri_cmd = sg_pending_cmd (g_sr s),
                  sri_run_active = b2u (me_us_run_status (app_reg_measure s) \<noteq> US_IDLE)\<rparr>;
             (fsm, out) = seek_reset_fsm_step i (sg_fsm (g_sr s));
             s = s\<lparr>g_sr := \<lparr>sg_fsm = fsm, sg_prev_ms = now, sg_pending_cmd = SR_CMD_NONE\<rparr>\<rparr>
         in sr_effects out s))"

section \<open>What the tick leaves alone\<close>

lemma sr_effects_keeps [simp]:
  "g_cfg (sr_effects out s) = g_cfg s" "g_lcd (sr_effects out s) = g_lcd s"
  "g_disp (sr_effects out s) = g_disp s" "g_measure (sr_effects out s) = g_measure s"
  "g_reg (sr_effects out s) = g_reg s" "g_freq (sr_effects out s) = g_freq s"
  "g_i2c (sr_effects out s) = g_i2c s" "g_weld (sr_effects out s) = g_weld s"
  "g_ovld (sr_effects out s) = g_ovld s" "g_input (sr_effects out s) = g_input s"
  "g_horn (sr_effects out s) = g_horn s" "g_sr (sr_effects out s) = g_sr s"
  "g_buzzer (sr_effects out s) = g_buzzer s" "g_alarm (sr_effects out s) = g_alarm s"
  "g_mb (sr_effects out s) = g_mb s" "g_model (sr_effects out s) = g_model s"
  by (simp_all add: sr_effects_def sr_edge_def app_lcd_icon_def app_seek_reset_hook_signal_def pin_defs Let_def)

lemma sr_tick_keeps [simp]:
  "g_cfg (app_seek_reset_tick e s) = g_cfg s" "g_lcd (app_seek_reset_tick e s) = g_lcd s"
  "g_disp (app_seek_reset_tick e s) = g_disp s"
  "g_measure (app_seek_reset_tick e s) = g_measure s" "g_reg (app_seek_reset_tick e s) = g_reg s"
  "g_freq (app_seek_reset_tick e s) = g_freq s" "g_i2c (app_seek_reset_tick e s) = g_i2c s"
  "g_weld (app_seek_reset_tick e s) = g_weld s" "g_ovld (app_seek_reset_tick e s) = g_ovld s"
  "g_input (app_seek_reset_tick e s) = g_input s" "g_horn (app_seek_reset_tick e s) = g_horn s"
  "g_buzzer (app_seek_reset_tick e s) = g_buzzer s"
  "g_alarm (app_seek_reset_tick e s) = g_alarm s" "g_mb (app_seek_reset_tick e s) = g_mb s"
  "g_model (app_seek_reset_tick e s) = g_model s"
  by (simp_all add: app_seek_reset_tick_def Let_def case_prod_unfold)

lemma sr_effects_pins [simp]:
  "out_sol_dn (g_out (sr_effects out s)) = out_sol_dn (g_out s)"
  "out_ovld_relay (g_out (sr_effects out s)) = out_ovld_relay (g_out s)"
  "out_buzzer (g_out (sr_effects out s)) = out_buzzer (g_out s)"
  "out_usout (g_out (sr_effects out s)) = out_usout (g_out s)"
  "out_osc4 (g_out (sr_effects out s)) = out_osc4 (g_out s)"
  "out_reset (g_out (sr_effects out s)) =
     (if sro_reset_icon_off out \<noteq> 0 then False
      else if sro_reset_icon out \<noteq> 0 then True else out_reset (g_out s))"
  "out_seek (g_out (sr_effects out s)) =
     (if sro_seek_icon_off out \<noteq> 0 then False
      else if sro_seek_icon out \<noteq> 0 then True else out_seek (g_out s))"
  by (simp_all add: sr_effects_def sr_edge_def app_lcd_icon_def app_seek_reset_hook_signal_def
      pin_defs Let_def)

lemma sr_tick_pins [simp]:
  "out_sol_dn (g_out (app_seek_reset_tick e s)) = out_sol_dn (g_out s)"
  "out_ovld_relay (g_out (app_seek_reset_tick e s)) = out_ovld_relay (g_out s)"
  "out_buzzer (g_out (app_seek_reset_tick e s)) = out_buzzer (g_out s)"
  "out_usout (g_out (app_seek_reset_tick e s)) = out_usout (g_out s)"
  "out_osc4 (g_out (app_seek_reset_tick e s)) = out_osc4 (g_out s)"
  by (simp_all add: app_seek_reset_tick_def Let_def case_prod_unfold)

section \<open>The lines follow the machine\<close>

definition sr_lines_ok :: "sys \<Rightarrow> bool" where
  "sr_lines_ok s \<longleftrightarrow> sr_inv (sg_fsm (g_sr s)) \<and>
     out_reset (g_out s) = (sr_state (sg_fsm (g_sr s)) = SR_RESET) \<and>
     out_seek (g_out s) = (sr_state (sg_fsm (g_sr s)) = SR_SEEK)"

lemma sr_never_both_edges:
  "sro_reset_icon (snd (seek_reset_fsm_step i s)) = 0 \<or> sro_reset_icon_off (snd (seek_reset_fsm_step i s)) = 0"
  "sro_seek_icon (snd (seek_reset_fsm_step i s)) = 0 \<or> sro_seek_icon_off (snd (seek_reset_fsm_step i s)) = 0"
  by (auto simp: sr_defs Let_def)

lemma sr_lines_tick: "sr_lines_ok s \<Longrightarrow> sr_lines_ok (app_seek_reset_tick e s)"
proof -
  assume ok: "sr_lines_ok s"
  show ?thesis
  proof (cases "elapsed (e_now e) (sg_prev_ms (g_sr s)) < SR_TICK_MS")
    case True
    then show ?thesis using ok by (simp add: app_seek_reset_tick_def)
  next
    case False
    define i where "i = \<lparr>sri_cmd = sg_pending_cmd (g_sr s),
      sri_run_active = b2u (me_us_run_status (app_reg_measure s) \<noteq> US_IDLE)\<rparr>"
    have inv: "sr_inv (sg_fsm (g_sr s))" using ok by (simp add: sr_lines_ok_def)
    note act = sr_reset_line.active_step [OF inv, of i] sr_seek_line.active_step [OF inv, of i]
    show ?thesis
      using False ok sr_never_both_edges [of i "sg_fsm (g_sr s)"] act sr.inv_step [OF inv, of i]
      by (auto simp: app_seek_reset_tick_def sr_lines_ok_def Let_def case_prod_unfold i_def [symmetric])
  qed
qed

end
