(* ===== verification/Weld_Glue.thy ===== *)
theory Weld_Glue
  imports Seek_Reset_Glue
begin

text \<open>
  The glue of the weld cycle, \<open>fw/src/app_weld.c\<close>: the 10 ms cadence without drift, the
  gates that freeze the cycle (setup pages, horn mode), the two-key trigger, the composed abort,
  and the effects of a step: the cylinder, the amplitude, the ultrasonic command, the fault and
  the work counter.
\<close>

section \<open>Operations\<close>

abbreviation (input) WELD_TICK_MS :: u32 where "WELD_TICK_MS \<equiv> 10"

definition app_weld_init :: "env \<Rightarrow> sys \<Rightarrow> sys" where
  "app_weld_init e s = s\<lparr>g_weld := \<lparr>wg_fsm = weld_fsm_init, wg_trig = weld_trigger_fsm_init,
     wg_prev_ms = e_now e, wg_start_pending = 0, wg_sol_last = 0, wg_sens_dn_bak = e_sens_dn e\<rparr>\<rparr>"

definition app_weld_request_start :: "sys \<Rightarrow> sys" where
  "app_weld_request_start s = s\<lparr>g_weld := (g_weld s)\<lparr>wg_start_pending := 1\<rparr>\<rparr>"

definition app_weld_hook_sol_dn :: "bool \<Rightarrow> sys \<Rightarrow> sys" where
  "app_weld_hook_sol_dn on = io_sol_dn on"

definition app_weld_hook_set_amp :: "u8 \<Rightarrow> sys \<Rightarrow> sys" where
  "app_weld_hook_set_amp dac s = s\<lparr>g_i2c := i2c_pot_set_dac dac (g_i2c s)\<rparr>"

definition app_weld_hook_fault :: "sys \<Rightarrow> sys" where
  "app_weld_hook_fault = app_reg_raise_ovtime"

text \<open>The cylinder is written only when its level changes against the last one written.\<close>

definition weld_drive_sol :: "u8 \<Rightarrow> sys \<Rightarrow> sys" where
  "weld_drive_sol sol s =
     (if sol \<noteq> wg_sol_last (g_weld s)
      then app_weld_hook_sol_dn (sol \<noteq> 0) (s\<lparr>g_weld := (g_weld s)\<lparr>wg_sol_last := sol\<rparr>\<rparr>)
      else s)"

definition app_weld_abort_now :: "u32 \<Rightarrow> sys \<Rightarrow> sys" where
  "app_weld_abort_now now s =
     (let (fsm, out) = weld_fsm_step (weld_in_zero\<lparr>wi_abort := 1\<rparr>) (wg_fsm (g_weld s));
          s = s\<lparr>g_weld := (g_weld s)\<lparr>wg_fsm := fsm\<rparr>\<rparr>;
          s = weld_drive_sol (wo_sol_dn out) s
      in if wo_weld_stop out \<noteq> 0 then app_reg_command now US_CMD_RUN_RELEASE US_CYCLE s else s)"

text \<open>The cadence: the due time advances by 10 ms, and catches up when more than 100 ms behind.\<close>

definition weld_next_due :: "u32 \<Rightarrow> u32 \<Rightarrow> u32" where
  "weld_next_due now prev =
     (let prev = prev + WELD_TICK_MS in if 10 * WELD_TICK_MS < elapsed now prev then now else prev)"

definition weld_trig_read :: "env \<Rightarrow> sys \<Rightarrow> weld_trig_in" where
  "weld_trig_read e s = \<lparr>wti_key1 = e_key1 e, wti_key2 = e_key2 e, wti_sens_up = e_sens_up e,
     wti_sens_dn = e_sens_dn e, wti_f_safty = f_safty (g_cfg s),
     wti_weld_state = weld_fsm_status (wg_fsm (g_weld s))\<rparr>"

definition weld_sensor_mirror :: "u8 \<Rightarrow> sys \<Rightarrow> sys" where
  "weld_sensor_mirror dn s =
     (if dn \<noteq> wg_sens_dn_bak (g_weld s)
      then (let s = (if run_mode (g_cfg s) \<noteq> 0 then app_lcd_weld_sensor_text (dn = 0) s else s)
            in s\<lparr>g_weld := (g_weld s)\<lparr>wg_sens_dn_bak := dn\<rparr>\<rparr>)
      else s)"

text \<open>A pulse of the trigger starts a cycle only from READY and only when a run may start.\<close>

definition weld_gate_start :: "weld_trig_out \<Rightarrow> sys \<Rightarrow> sys" where
  "weld_gate_start tout s =
     (if wto_start_pulse tout \<noteq> 0 \<and> weld_fsm_status (wg_fsm (g_weld s)) = WELD_READY \<and>
         app_reg_start_allowed s
      then s\<lparr>g_weld := (g_weld s)\<lparr>wg_start_pending := 1,
                wg_trig := weld_trigger_fsm_cycle_started (wg_trig (g_weld s))\<rparr>\<rparr>
      else s)"

definition weld_abort_cond :: "weld_trig_out \<Rightarrow> sys \<Rightarrow> bool" where
  "weld_abort_cond tout s \<longleftrightarrow> app_estop_active s \<noteq> 0 \<or> app_overload_active s \<noteq> 0 \<or>
     me_error_status (app_reg_measure s) \<noteq> 0 \<or> wto_safety_abort_pulse tout \<noteq> 0"

definition clamp_mo :: "u16 \<Rightarrow> u16" where
  "clamp_mo v = (if 100 < v then 100 else if v < 50 then 50 else v)"

definition weld_read :: "weld_trig_out \<Rightarrow> sys \<Rightarrow> weld_in" where
  "weld_read tout s =
     (let cfg = g_cfg s in
      \<lparr>wi_start = wg_start_pending (g_weld s), wi_run_mode = run_mode cfg,
       wi_limit_delay_time1 = limit_delay_time1 cfg, wi_limit_delay_time2 = limit_delay_time2 cfg,
       wi_limit_delay_time3 = limit_delay_time3 cfg, wi_output_power = output_power cfg,
       wi_energy_ctrl = b2u (energy_ctrl cfg), wi_curr_energy = me_curr_energy (app_reg_measure s),
       wi_limit_energy = limit_energy cfg, wi_limit_out_time = limit_out_time cfg,
       wi_multi_ctrl = b2u (multi_ctrl cfg), wi_limit_mo_out1 = ucast (clamp_mo (limit_mo_out1 cfg)),
       wi_limit_mo_out2 = ucast (clamp_mo (limit_mo_out2 cfg)), wi_limit_mo_time1 = limit_mo_time1 cfg,
       wi_limit_mo_time2 = limit_mo_time2 cfg, wi_abort = b2u (weld_abort_cond tout s),
       wi_limit_trigger_time2 = limit_trigger_time2 cfg, wi_limit_trigger_time3 = limit_trigger_time3 cfg,
       wi_dn_edge = wto_dn_edge tout, wi_up_edge = wto_up_edge tout\<rparr>)"

definition weld_effects :: "u32 \<Rightarrow> weld_out \<Rightarrow> sys \<Rightarrow> sys" where
  "weld_effects now out s =
     (let s = weld_drive_sol (wo_sol_dn out) s;
          s = (if wo_weld_start out \<noteq> 0
               then app_reg_command now US_CMD_START US_CYCLE (app_weld_hook_set_amp (wo_amplitude out) s)
               else s);
          s = (if wo_amp_change out \<noteq> 0 then app_weld_hook_set_amp (wo_amplitude out) s else s);
          s = (if wo_weld_stop out \<noteq> 0 then app_reg_command now US_CMD_RUN_RELEASE US_CYCLE s else s);
          s = (if wo_weld_fault out \<noteq> 0 then app_weld_hook_fault s else s)
      in if wo_cycle_done out \<noteq> 0
         then (let s = g_cfg_update (\<lambda>c. c\<lparr>work_cnt := work_cnt c + 1\<rparr>) s;
                   s = g_i2c_update (app_config_save_all (g_cfg s)) s
               in app_lcd_set_work_cnt (work_cnt (g_cfg s)) s)
         else s)"

text \<open>
  One unfrozen tick: the scan of keys and sensors, then the step of the machine on the
  configuration and its effects. The pending start is consumed before the step.
\<close>

definition weld_scan :: "env \<Rightarrow> sys \<Rightarrow> weld_trig_out \<times> sys" where
  "weld_scan e s =
     (let (trig, tout) = weld_trigger_fsm_step (weld_trig_read e s) (wg_trig (g_weld s));
          s = s\<lparr>g_weld := (g_weld s)\<lparr>wg_trig := trig\<rparr>\<rparr>;
          s = weld_sensor_mirror (e_sens_dn e) s
      in (tout, weld_gate_start tout s))"

definition weld_cycle_step :: "env \<Rightarrow> sys \<Rightarrow> sys" where
  "weld_cycle_step e s =
     (let (tout, s) = weld_scan e s;
          i = weld_read tout s;
          (fsm, out) = weld_fsm_step i (wg_fsm (g_weld s));
          s = s\<lparr>g_weld := (g_weld s)\<lparr>wg_start_pending := 0, wg_fsm := fsm\<rparr>\<rparr>
      in weld_effects (e_now e) out s)"

definition app_weld_tick :: "env \<Rightarrow> sys \<Rightarrow> sys" where
  "app_weld_tick e s =
     (let now = e_now e in
      if elapsed now (wg_prev_ms (g_weld s)) < WELD_TICK_MS then s
      else
        (let s = s\<lparr>g_weld := (g_weld s)\<lparr>wg_prev_ms := weld_next_due now (wg_prev_ms (g_weld s))\<rparr>\<rparr> in
         if app_lcd_in_run_page s = 0 then s
         else if app_horn_mode_active s \<noteq> 0 then s
         else weld_cycle_step e s))"

definition app_weld_sensor_active :: "env \<Rightarrow> u8" where
  "app_weld_sensor_active e = b2u (e_sens_dn e = 0)"

section \<open>What the operations leave alone\<close>

lemma command_keeps [simp]:
  "g_cfg (app_reg_command now cmd src s) = g_cfg s"
  "g_lcd (app_reg_command now cmd src s) = g_lcd s"
  "g_disp (app_reg_command now cmd src s) = g_disp s"
  "g_dgus (app_reg_command now cmd src s) = g_dgus s"
  "g_freq (app_reg_command now cmd src s) = g_freq s"
  "g_i2c (app_reg_command now cmd src s) = g_i2c s"
  "g_weld (app_reg_command now cmd src s) = g_weld s"
  "g_ovld (app_reg_command now cmd src s) = g_ovld s"
  "g_input (app_reg_command now cmd src s) = g_input s"
  "g_horn (app_reg_command now cmd src s) = g_horn s"
  "g_buzzer (app_reg_command now cmd src s) = g_buzzer s"
  "g_alarm (app_reg_command now cmd src s) = g_alarm s"
  "g_mb (app_reg_command now cmd src s) = g_mb s"
  "g_out (app_reg_command now cmd src s) = g_out s"
  "g_model (app_reg_command now cmd src s) = g_model s"
  by (cases cmd; simp add: app_reg_command_def reg_cmd_start_def reg_cmd_release_def app_seek_reset_request_def)+

lemma command_keeps_sr [simp]:
  "sg_fsm (g_sr (app_reg_command now cmd src s)) = sg_fsm (g_sr s)"
  "g_sr (app_reg_command now US_CMD_START src s) = g_sr s"
  "me_error_status (g_measure (app_reg_command now cmd src s)) = me_error_status (g_measure s)"
  "me_us_run_status (g_measure (app_reg_command now cmd src s)) = me_us_run_status (g_measure s)"
  by (cases cmd; simp add: app_reg_command_def reg_cmd_start_def reg_cmd_release_def
      app_seek_reset_request_def)+

lemma weld_drive_keeps [simp]:
  "g_cfg (weld_drive_sol sol s) = g_cfg s" "g_lcd (weld_drive_sol sol s) = g_lcd s"
  "g_disp (weld_drive_sol sol s) = g_disp s" "g_dgus (weld_drive_sol sol s) = g_dgus s"
  "g_measure (weld_drive_sol sol s) = g_measure s" "g_reg (weld_drive_sol sol s) = g_reg s"
  "g_freq (weld_drive_sol sol s) = g_freq s" "g_i2c (weld_drive_sol sol s) = g_i2c s"
  "g_ovld (weld_drive_sol sol s) = g_ovld s" "g_input (weld_drive_sol sol s) = g_input s"
  "g_horn (weld_drive_sol sol s) = g_horn s" "g_sr (weld_drive_sol sol s) = g_sr s"
  "g_buzzer (weld_drive_sol sol s) = g_buzzer s" "g_alarm (weld_drive_sol sol s) = g_alarm s"
  "g_mb (weld_drive_sol sol s) = g_mb s" "g_model (weld_drive_sol sol s) = g_model s"
  "wg_fsm (g_weld (weld_drive_sol sol s)) = wg_fsm (g_weld s)"
  "wg_sol_last (g_weld (weld_drive_sol sol s)) = sol"
  "wg_start_pending (g_weld (weld_drive_sol sol s)) = wg_start_pending (g_weld s)"
  "wg_trig (g_weld (weld_drive_sol sol s)) = wg_trig (g_weld s)"
  "out_usout (g_out (weld_drive_sol sol s)) = out_usout (g_out s)"
  "out_osc4 (g_out (weld_drive_sol sol s)) = out_osc4 (g_out s)"
  "out_reset (g_out (weld_drive_sol sol s)) = out_reset (g_out s)"
  "out_seek (g_out (weld_drive_sol sol s)) = out_seek (g_out s)"
  "out_ovld_relay (g_out (weld_drive_sol sol s)) = out_ovld_relay (g_out s)"
  "out_buzzer (g_out (weld_drive_sol sol s)) = out_buzzer (g_out s)"
  by (simp_all add: weld_drive_sol_def app_weld_hook_sol_dn_def pin_defs)

lemma set_amp_keeps [simp]:
  "g_cfg (app_weld_hook_set_amp dac s) = g_cfg s" "g_lcd (app_weld_hook_set_amp dac s) = g_lcd s"
  "g_disp (app_weld_hook_set_amp dac s) = g_disp s"
  "g_dgus (app_weld_hook_set_amp dac s) = g_dgus s"
  "g_measure (app_weld_hook_set_amp dac s) = g_measure s"
  "g_reg (app_weld_hook_set_amp dac s) = g_reg s"
  "g_freq (app_weld_hook_set_amp dac s) = g_freq s"
  "g_weld (app_weld_hook_set_amp dac s) = g_weld s"
  "g_ovld (app_weld_hook_set_amp dac s) = g_ovld s"
  "g_input (app_weld_hook_set_amp dac s) = g_input s"
  "g_horn (app_weld_hook_set_amp dac s) = g_horn s" "g_sr (app_weld_hook_set_amp dac s) = g_sr s"
  "g_buzzer (app_weld_hook_set_amp dac s) = g_buzzer s"
  "g_alarm (app_weld_hook_set_amp dac s) = g_alarm s"
  "g_mb (app_weld_hook_set_amp dac s) = g_mb s" "g_out (app_weld_hook_set_amp dac s) = g_out s"
  "g_model (app_weld_hook_set_amp dac s) = g_model s"
  by (simp_all add: app_weld_hook_set_amp_def)

lemma raise_ovtime_keeps [simp]:
  "g_cfg (app_reg_raise_ovtime s) = g_cfg s" "g_lcd (app_reg_raise_ovtime s) = g_lcd s"
  "g_disp (app_reg_raise_ovtime s) = g_disp s" "g_dgus (app_reg_raise_ovtime s) = g_dgus s"
  "g_measure (app_reg_raise_ovtime s) = g_measure s" "g_freq (app_reg_raise_ovtime s) = g_freq s"
  "g_i2c (app_reg_raise_ovtime s) = g_i2c s" "g_weld (app_reg_raise_ovtime s) = g_weld s"
  "g_ovld (app_reg_raise_ovtime s) = g_ovld s" "g_input (app_reg_raise_ovtime s) = g_input s"
  "g_horn (app_reg_raise_ovtime s) = g_horn s" "g_sr (app_reg_raise_ovtime s) = g_sr s"
  "g_buzzer (app_reg_raise_ovtime s) = g_buzzer s" "g_alarm (app_reg_raise_ovtime s) = g_alarm s"
  "g_mb (app_reg_raise_ovtime s) = g_mb s" "g_out (app_reg_raise_ovtime s) = g_out s"
  "g_model (app_reg_raise_ovtime s) = g_model s"
  by (simp_all add: app_reg_raise_ovtime_def)

lemma weld_effects_keeps [simp]:
  "g_lcd (weld_effects now out s) = g_lcd s" "g_disp (weld_effects now out s) = g_disp s"
  "g_freq (weld_effects now out s) = g_freq s" "g_ovld (weld_effects now out s) = g_ovld s"
  "g_input (weld_effects now out s) = g_input s" "g_horn (weld_effects now out s) = g_horn s"
  "g_buzzer (weld_effects now out s) = g_buzzer s" "g_alarm (weld_effects now out s) = g_alarm s"
  "g_mb (weld_effects now out s) = g_mb s" "g_model (weld_effects now out s) = g_model s"
  "wg_fsm (g_weld (weld_effects now out s)) = wg_fsm (g_weld s)"
  "wg_sol_last (g_weld (weld_effects now out s)) = wo_sol_dn out"
  "wg_start_pending (g_weld (weld_effects now out s)) = wg_start_pending (g_weld s)"
  "sg_fsm (g_sr (weld_effects now out s)) = sg_fsm (g_sr s)"
  "wg_trig (g_weld (weld_effects now out s)) = wg_trig (g_weld s)"
  "g_cfg (weld_effects now out s) = (if wo_cycle_done out \<noteq> 0 then (g_cfg s)\<lparr>work_cnt := work_cnt (g_cfg s) + 1\<rparr> else g_cfg s)"
  "g_out (weld_effects now out s) = g_out (weld_drive_sol (wo_sol_dn out) s)"
  "me_error_status (g_measure (weld_effects now out s)) = me_error_status (g_measure s)"
  "me_us_run_status (g_measure (weld_effects now out s)) = me_us_run_status (g_measure s)"
  by (simp_all add: weld_effects_def app_weld_hook_fault_def app_lcd_set_work_cnt_def Let_def)

lemma sensor_mirror_keeps [simp]:
  "g_cfg (weld_sensor_mirror dn s) = g_cfg s" "g_lcd (weld_sensor_mirror dn s) = g_lcd s"
  "g_disp (weld_sensor_mirror dn s) = g_disp s"
  "g_measure (weld_sensor_mirror dn s) = g_measure s" "g_reg (weld_sensor_mirror dn s) = g_reg s"
  "g_freq (weld_sensor_mirror dn s) = g_freq s" "g_i2c (weld_sensor_mirror dn s) = g_i2c s"
  "g_ovld (weld_sensor_mirror dn s) = g_ovld s" "g_input (weld_sensor_mirror dn s) = g_input s"
  "g_horn (weld_sensor_mirror dn s) = g_horn s" "g_sr (weld_sensor_mirror dn s) = g_sr s"
  "g_buzzer (weld_sensor_mirror dn s) = g_buzzer s"
  "g_alarm (weld_sensor_mirror dn s) = g_alarm s" "g_mb (weld_sensor_mirror dn s) = g_mb s"
  "g_out (weld_sensor_mirror dn s) = g_out s" "g_model (weld_sensor_mirror dn s) = g_model s"
  "wg_fsm (g_weld (weld_sensor_mirror dn s)) = wg_fsm (g_weld s)"
  "wg_sol_last (g_weld (weld_sensor_mirror dn s)) = wg_sol_last (g_weld s)"
  "wg_trig (g_weld (weld_sensor_mirror dn s)) = wg_trig (g_weld s)"
  "wg_start_pending (g_weld (weld_sensor_mirror dn s)) = wg_start_pending (g_weld s)"
  by (simp_all add: weld_sensor_mirror_def app_lcd_weld_sensor_text_def Let_def)

lemma gate_start_keeps [simp]:
  "g_cfg (weld_gate_start tout s) = g_cfg s" "g_lcd (weld_gate_start tout s) = g_lcd s"
  "g_disp (weld_gate_start tout s) = g_disp s" "g_dgus (weld_gate_start tout s) = g_dgus s"
  "g_measure (weld_gate_start tout s) = g_measure s" "g_reg (weld_gate_start tout s) = g_reg s"
  "g_freq (weld_gate_start tout s) = g_freq s" "g_i2c (weld_gate_start tout s) = g_i2c s"
  "g_ovld (weld_gate_start tout s) = g_ovld s" "g_input (weld_gate_start tout s) = g_input s"
  "g_horn (weld_gate_start tout s) = g_horn s" "g_sr (weld_gate_start tout s) = g_sr s"
  "g_buzzer (weld_gate_start tout s) = g_buzzer s" "g_alarm (weld_gate_start tout s) = g_alarm s"
  "g_mb (weld_gate_start tout s) = g_mb s" "g_out (weld_gate_start tout s) = g_out s"
  "g_model (weld_gate_start tout s) = g_model s"
  "wg_fsm (g_weld (weld_gate_start tout s)) = wg_fsm (g_weld s)"
  "wg_sol_last (g_weld (weld_gate_start tout s)) = wg_sol_last (g_weld s)"
  by (simp_all add: weld_gate_start_def)

lemma weld_scan_keeps [simp]:
  "g_cfg (snd (weld_scan e s)) = g_cfg s" "g_lcd (snd (weld_scan e s)) = g_lcd s"
  "g_disp (snd (weld_scan e s)) = g_disp s" "g_measure (snd (weld_scan e s)) = g_measure s"
  "g_reg (snd (weld_scan e s)) = g_reg s" "g_freq (snd (weld_scan e s)) = g_freq s"
  "g_i2c (snd (weld_scan e s)) = g_i2c s" "g_ovld (snd (weld_scan e s)) = g_ovld s"
  "g_input (snd (weld_scan e s)) = g_input s" "g_horn (snd (weld_scan e s)) = g_horn s"
  "g_sr (snd (weld_scan e s)) = g_sr s" "g_buzzer (snd (weld_scan e s)) = g_buzzer s"
  "g_alarm (snd (weld_scan e s)) = g_alarm s" "g_mb (snd (weld_scan e s)) = g_mb s"
  "g_out (snd (weld_scan e s)) = g_out s" "g_model (snd (weld_scan e s)) = g_model s"
  "wg_fsm (g_weld (snd (weld_scan e s))) = wg_fsm (g_weld s)"
  "wg_sol_last (g_weld (snd (weld_scan e s))) = wg_sol_last (g_weld s)"
  by (simp_all add: weld_scan_def Let_def case_prod_unfold)

section \<open>The invariant of the glue\<close>

text \<open>
  The machine is in its invariant, the level last written is the one it asks for, no start is
  left pending between ticks, and a run of the weld cycle exists only while the machine is in
  WELD past its first tick.
\<close>

definition weld_glue_ok :: "sys \<Rightarrow> bool" where
  "weld_glue_ok s \<longleftrightarrow> weld_inv (wg_fsm (g_weld s)) \<and>
     wg_sol_last (g_weld s) = w_sol_dn (wg_fsm (g_weld s)) \<and> wg_start_pending (g_weld s) = 0 \<and>
     (rg_us_run_status (g_reg s) = US_CYCLE \<longrightarrow> weld_us_on (wg_fsm (g_weld s)))"

lemma weld_out_sol: "wo_sol_dn (snd (weld_fsm_step i s)) = w_sol_dn (fst (weld_fsm_step i s))"
  by (simp add: weld_fsm_step_def weld_abort_body_def Let_def case_prod_unfold)

lemma command_run_status:
  "rg_us_run_status (g_reg (app_reg_command now US_CMD_RUN_RELEASE src s)) = US_IDLE"
  "rg_us_run_status (g_reg (app_reg_command now US_CMD_START src s)) \<in> {src, rg_us_run_status (g_reg s)}"
  "rg_us_run_status (g_reg (app_reg_command now US_CMD_SEEK src s)) = rg_us_run_status (g_reg s)"
  "rg_us_run_status (g_reg (app_reg_command now US_CMD_RESET src s)) = rg_us_run_status (g_reg s)"
  by (simp_all add: app_reg_command_def reg_cmd_start_def reg_cmd_release_def app_seek_reset_request_def)

lemma weld_effects_run:
  "rg_us_run_status (g_reg (weld_effects now out s)) =
    (if wo_weld_stop out \<noteq> 0 then US_IDLE
     else if wo_weld_start out \<noteq> 0
     then rg_us_run_status (g_reg (app_reg_command now US_CMD_START US_CYCLE
            (app_weld_hook_set_amp (wo_amplitude out) (weld_drive_sol (wo_sol_dn out) s))))
     else rg_us_run_status (g_reg s))"
  by (simp add: weld_effects_def app_weld_hook_fault_def app_lcd_set_work_cnt_def Let_def command_run_status)

lemma weld_effects_cycle:
  assumes "rg_us_run_status (g_reg (weld_effects now out s)) = US_CYCLE"
  shows "wo_weld_stop out = 0 \<and> (wo_weld_start out \<noteq> 0 \<or> rg_us_run_status (g_reg s) = US_CYCLE)"
  using assms by (auto simp: weld_effects_run split: if_splits)

lemma weld_effects_ok:
  assumes "weld_inv f" "wg_fsm (g_weld s) = fst (weld_fsm_step i f)"
    "wg_start_pending (g_weld s) = 0"
    "rg_us_run_status (g_reg s) = US_CYCLE \<longrightarrow> weld_us_on f"
  shows "weld_glue_ok (weld_effects now (snd (weld_fsm_step i f)) s)"
  using assms weld.inv_step [OF assms(1), of i] weld_us.active_step [OF assms(1), of i]
    weld_effects_cycle [of now "snd (weld_fsm_step i f)" s]
  by (auto simp: weld_glue_ok_def weld_out_sol)

lemma weld_cycle_ok: "weld_glue_ok s \<Longrightarrow> weld_glue_ok (weld_cycle_step e s)"
  unfolding weld_cycle_step_def Let_def case_prod_unfold
  by (rule weld_effects_ok) (simp_all add: weld_glue_ok_def)

lemma weld_tick_ok: "weld_glue_ok s \<Longrightarrow> weld_glue_ok (app_weld_tick e s)"
proof -
  assume ok: "weld_glue_ok s"
  have "weld_glue_ok (s\<lparr>g_weld := (g_weld s)\<lparr>wg_prev_ms := t\<rparr>\<rparr>)" for t
    using ok by (simp add: weld_glue_ok_def)
  from this weld_cycle_ok [OF this] show ?thesis
    using ok by (simp add: app_weld_tick_def Let_def)
qed

lemma weld_abort_now_ok: "weld_glue_ok s \<Longrightarrow> weld_glue_ok (app_weld_abort_now now s)"
proof -
  assume ok: "weld_glue_ok s"
  define i where "i = weld_in_zero\<lparr>wi_abort := 1\<rparr>"
  define f where "f = wg_fsm (g_weld s)"
  have inv: "weld_inv f" using ok by (simp add: weld_glue_ok_def f_def)
  show ?thesis
    using ok weld.inv_step [OF inv, of i] weld_us.active_step [OF inv, of i]
      weld_abort_tick(3) [OF inv, of i]
    by (auto simp: app_weld_abort_now_def weld_glue_ok_def Let_def case_prod_unfold weld_out_sol
        command_run_status i_def [symmetric] f_def [symmetric])
qed

text \<open>After the abort the machine is READY and the cylinder is not asked for.\<close>

lemma abort_now_parks:
  assumes "weld_glue_ok s"
  shows "w_run_status (wg_fsm (g_weld (app_weld_abort_now now s))) = WELD_READY"
    "wg_sol_last (g_weld (app_weld_abort_now now s)) = 0"
proof -
  define i where "i = weld_in_zero\<lparr>wi_abort := 1\<rparr>"
  define f where "f = wg_fsm (g_weld s)"
  have inv: "weld_inv f" using assms by (simp add: weld_glue_ok_def f_def)
  have ab: "wi_abort i \<noteq> 0" "wi_start i = 0" by (simp_all add: i_def weld_in_zero_def)
  have "w_run_status (fst (weld_fsm_step i f)) = WELD_READY"
  proof (cases "w_run_status f = WELD_READY")
    case True
    then show ?thesis
      using ab by (simp add: weld_fsm_step_def weld_dispatch_def weld_step_ready_def
          weld_latch_edges_def Let_def case_prod_unfold)
  qed (rule weld_abort_tick(5) [OF inv ab(1)])
  then show "w_run_status (wg_fsm (g_weld (app_weld_abort_now now s))) = WELD_READY"
    by (simp add: app_weld_abort_now_def Let_def case_prod_unfold i_def [symmetric] f_def [symmetric])
  show "wg_sol_last (g_weld (app_weld_abort_now now s)) = 0"
    using weld_abort_tick(2) [OF inv ab(1)]
    by (simp add: app_weld_abort_now_def Let_def case_prod_unfold i_def [symmetric] f_def [symmetric])
qed

section \<open>The other invariants\<close>

lemma weld_cycle_keeps [simp]:
  "g_lcd (weld_cycle_step e s) = g_lcd s" "g_disp (weld_cycle_step e s) = g_disp s"
  "g_freq (weld_cycle_step e s) = g_freq s" "g_ovld (weld_cycle_step e s) = g_ovld s"
  "g_input (weld_cycle_step e s) = g_input s" "g_horn (weld_cycle_step e s) = g_horn s"
  "g_buzzer (weld_cycle_step e s) = g_buzzer s" "g_alarm (weld_cycle_step e s) = g_alarm s"
  "g_mb (weld_cycle_step e s) = g_mb s" "g_model (weld_cycle_step e s) = g_model s"
  "sg_fsm (g_sr (weld_cycle_step e s)) = sg_fsm (g_sr s)"
  "me_error_status (g_measure (weld_cycle_step e s)) = me_error_status (g_measure s)"
  by (simp_all add: weld_cycle_step_def Let_def case_prod_unfold)

lemma weld_tick_keeps [simp]:
  "g_lcd (app_weld_tick e s) = g_lcd s" "g_disp (app_weld_tick e s) = g_disp s"
  "g_freq (app_weld_tick e s) = g_freq s" "g_ovld (app_weld_tick e s) = g_ovld s"
  "g_input (app_weld_tick e s) = g_input s" "g_horn (app_weld_tick e s) = g_horn s"
  "g_buzzer (app_weld_tick e s) = g_buzzer s" "g_alarm (app_weld_tick e s) = g_alarm s"
  "g_mb (app_weld_tick e s) = g_mb s" "g_model (app_weld_tick e s) = g_model s"
  "sg_fsm (g_sr (app_weld_tick e s)) = sg_fsm (g_sr s)"
  by (simp_all add: app_weld_tick_def Let_def case_prod_unfold)

lemma abort_now_keeps [simp]:
  "g_cfg (app_weld_abort_now now s) = g_cfg s" "g_lcd (app_weld_abort_now now s) = g_lcd s"
  "g_disp (app_weld_abort_now now s) = g_disp s" "g_dgus (app_weld_abort_now now s) = g_dgus s"
  "g_freq (app_weld_abort_now now s) = g_freq s" "g_i2c (app_weld_abort_now now s) = g_i2c s"
  "g_ovld (app_weld_abort_now now s) = g_ovld s" "g_input (app_weld_abort_now now s) = g_input s"
  "g_horn (app_weld_abort_now now s) = g_horn s"
  "g_buzzer (app_weld_abort_now now s) = g_buzzer s"
  "g_alarm (app_weld_abort_now now s) = g_alarm s" "g_mb (app_weld_abort_now now s) = g_mb s"
  "g_model (app_weld_abort_now now s) = g_model s"
  "sg_fsm (g_sr (app_weld_abort_now now s)) = sg_fsm (g_sr s)"
  by (simp_all add: app_weld_abort_now_def Let_def case_prod_unfold)

lemma reg_inv_same:
  "g_reg s' = g_reg s \<Longrightarrow> out_usout (g_out s') = out_usout (g_out s) \<Longrightarrow>
   out_osc4 (g_out s') = out_osc4 (g_out s) \<Longrightarrow> reg_inv s' = reg_inv s"
  by (simp add: reg_inv_def)

lemma reg_inv_weld_effects: "reg_inv s \<Longrightarrow> reg_inv (weld_effects now out s)"
proof -
  have d: "reg_inv (weld_drive_sol sol t) = reg_inv t" for sol t by (rule reg_inv_same) simp_all
  have a: "reg_inv (app_weld_hook_set_amp v t) = reg_inv t" for v t by (rule reg_inv_same) simp_all
  have f: "reg_inv t \<Longrightarrow> reg_inv (app_weld_hook_fault t)" for t
    by (simp add: app_weld_hook_fault_def reg_inv_fault)
  have c: "reg_inv (app_lcd_set_work_cnt n (g_i2c_update h (g_cfg_update k t))) = reg_inv t" for n h k t
    by (rule reg_inv_same) (simp_all add: app_lcd_set_work_cnt_def)
  assume "reg_inv s"
  then show ?thesis
    by (auto simp: weld_effects_def Let_def d a c intro!: f reg_inv_command)
qed

lemma reg_inv_weld_tick: "reg_inv s \<Longrightarrow> reg_inv (app_weld_tick e s)"
proof -
  have 1: "reg_inv t \<Longrightarrow> reg_inv (weld_cycle_step e t)" for t
  proof -
    assume "reg_inv t"
    then have "reg_inv (snd (weld_scan e t)\<lparr>g_weld := w\<rparr>)" for w
      by (subst reg_inv_same [where s = t]) simp_all
    then show ?thesis
      by (simp add: weld_cycle_step_def Let_def case_prod_unfold reg_inv_weld_effects)
  qed
  have 2: "reg_inv (t\<lparr>g_weld := w\<rparr>) = reg_inv t" for t w by (rule reg_inv_same) simp_all
  assume "reg_inv s"
  then show ?thesis by (simp add: app_weld_tick_def Let_def 1 2)
qed

lemma reg_inv_abort_now: "reg_inv s \<Longrightarrow> reg_inv (app_weld_abort_now now s)"
proof -
  have 1: "reg_inv (weld_drive_sol sol (t\<lparr>g_weld := w\<rparr>)) = reg_inv t" for sol t w
    by (rule reg_inv_same) simp_all
  assume "reg_inv s"
  then show ?thesis
    by (auto simp: app_weld_abort_now_def Let_def case_prod_unfold 1 intro!: reg_inv_command)
qed

lemma panel_inv_others:
  "g_cfg s' = g_cfg s \<Longrightarrow> g_lcd s' = g_lcd s \<Longrightarrow> g_disp s' = g_disp s \<Longrightarrow> g_dgus s' = g_dgus s \<Longrightarrow>
   panel_inv s' = panel_inv s"
  by (simp add: panel_inv_def)

lemma panel_weld_effects: "panel_inv s \<Longrightarrow> panel_inv (weld_effects now out s)"
proof -
  have d: "panel_inv (weld_drive_sol sol t) = panel_inv t" for sol t by (rule panel_inv_others) simp_all
  have a: "panel_inv (app_weld_hook_set_amp v t) = panel_inv t" for v t by (rule panel_inv_others) simp_all
  have f: "panel_inv (app_weld_hook_fault t) = panel_inv t" for t
    by (rule panel_inv_others) (simp_all add: app_weld_hook_fault_def)
  assume "panel_inv s"
  then show ?thesis
    by (auto simp: weld_effects_def Let_def d a f cfg_ok_def intro!: panel_cfg panel_events)
qed

lemma panel_weld_scan: "panel_inv s \<Longrightarrow> panel_inv (snd (weld_scan e s))"
proof -
  have g: "panel_inv (weld_gate_start t u) = panel_inv u" for t u by (rule panel_inv_others) simp_all
  have w: "panel_inv (t\<lparr>g_weld := w\<rparr>) = panel_inv t" for t w by (rule panel_inv_others) simp_all
  have m: "panel_inv t \<Longrightarrow> panel_inv (weld_sensor_mirror dn t)" for dn t
    by (simp add: weld_sensor_mirror_def Let_def w panel_events)
  assume "panel_inv s"
  then show ?thesis by (simp add: weld_scan_def Let_def case_prod_unfold g w m)
qed

lemma panel_weld_tick: "panel_inv s \<Longrightarrow> panel_inv (app_weld_tick e s)"
proof -
  have w: "panel_inv (t\<lparr>g_weld := w\<rparr>) = panel_inv t" for t w by (rule panel_inv_others) simp_all
  assume "panel_inv s"
  then show ?thesis
    by (simp add: app_weld_tick_def weld_cycle_step_def Let_def case_prod_unfold w
        panel_weld_effects panel_weld_scan)
qed

section \<open>Properties\<close>

lemma ready_stays:
  assumes "w_run_status f = WELD_READY" "wi_start i = 0"
  shows "w_run_status (fst (weld_fsm_step i f)) = WELD_READY"
  using assms
  by (simp add: weld_fsm_step_def weld_dispatch_def weld_step_ready_def weld_latch_edges_def Let_def
      case_prod_unfold)

lemma weld_scan_pending:
  "wg_start_pending (g_weld s) = 0 \<Longrightarrow> wg_start_pending (g_weld (snd (weld_scan e s))) \<noteq> 0 \<Longrightarrow>
   e_key1 e = 0 \<and> e_key2 e = 0 \<and> wt_in_cycle (wg_trig (g_weld s)) = 0 \<and>
   w_run_status (wg_fsm (g_weld s)) = WELD_READY \<and> app_reg_start_allowed s \<and>
   wt_in_cycle (wg_trig (g_weld (snd (weld_scan e s)))) = 1"
  by (auto simp: weld_scan_def weld_gate_start_def weld_trigger_fsm_step_def weld_trig_read_def
      weld_fsm_status_def weld_trigger_fsm_cycle_started_def app_reg_start_allowed_def query_defs
      Let_def case_prod_unfold split: if_splits)

text \<open>The due time alone has advanced.\<close>

definition weld_rearm :: "env \<Rightarrow> sys \<Rightarrow> sys" where
  "weld_rearm e s =
     s\<lparr>g_weld := (g_weld s)\<lparr>wg_prev_ms := weld_next_due (e_now e) (wg_prev_ms (g_weld s))\<rparr>\<rparr>"

lemma weld_leaves_ready:
  assumes "weld_glue_ok s" "w_run_status (wg_fsm (g_weld s)) = WELD_READY"
    and "w_run_status (wg_fsm (g_weld (app_weld_tick e s))) \<noteq> WELD_READY"
  obtains s1 i where "WELD_TICK_MS \<le> elapsed (e_now e) (wg_prev_ms (g_weld s))"
    "app_lcd_in_run_page s \<noteq> 0" "app_horn_mode_active s = 0" "app_reg_start_allowed s"
    "e_key1 e = 0" "e_key2 e = 0" "wt_in_cycle (wg_trig (g_weld s)) = 0"
    "app_weld_tick e s = weld_cycle_step e s1" "wt_in_cycle (wg_trig (g_weld (snd (weld_scan e s1)))) = 1"
    "wg_fsm (g_weld (app_weld_tick e s)) = fst (weld_fsm_step i (wg_fsm (g_weld s)))" "wi_start i \<noteq> 0"
proof -
  define due where "due = weld_next_due (e_now e) (wg_prev_ms (g_weld s))"
  define s1 where "s1 = s\<lparr>g_weld := (g_weld s)\<lparr>wg_prev_ms := due\<rparr>\<rparr>"
  have run: "WELD_TICK_MS \<le> elapsed (e_now e) (wg_prev_ms (g_weld s))" "app_lcd_in_run_page s \<noteq> 0"
    "app_horn_mode_active s = 0" and tick: "app_weld_tick e s = weld_cycle_step e s1"
    using assms(2,3)
    by (auto simp: app_weld_tick_def s1_def due_def Let_def query_defs app_lcd_in_run_page_def
        not_less split: if_splits)
  define i where "i = weld_read (fst (weld_scan e s1)) (snd (weld_scan e s1))"
  have fsm: "wg_fsm (g_weld (app_weld_tick e s)) = fst (weld_fsm_step i (wg_fsm (g_weld s)))"
    by (simp add: tick weld_cycle_step_def Let_def case_prod_unfold i_def) (simp add: s1_def)
  have start: "wi_start i \<noteq> 0"
    using ready_stays [OF assms(2), of i] assms(3) by (auto simp: fsm)
  then have "wg_start_pending (g_weld (snd (weld_scan e s1))) \<noteq> 0"
    by (simp add: i_def weld_read_def Let_def)
  moreover have "wg_start_pending (g_weld s1) = 0" using assms(1) by (simp add: s1_def weld_glue_ok_def)
  ultimately have gate: "e_key1 e = 0 \<and> e_key2 e = 0 \<and> wt_in_cycle (wg_trig (g_weld s1)) = 0 \<and>
      w_run_status (wg_fsm (g_weld s1)) = WELD_READY \<and> app_reg_start_allowed s1 \<and>
      wt_in_cycle (wg_trig (g_weld (snd (weld_scan e s1)))) = 1"
    by (rule weld_scan_pending [rotated])
  have allowed: "app_reg_start_allowed s1 = app_reg_start_allowed s"
    by (simp add: s1_def app_reg_start_allowed_def query_defs)
  show thesis
  proof (rule that [of s1 i])
    show "wt_in_cycle (wg_trig (g_weld s)) = 0" using gate by (simp add: s1_def)
    show "app_reg_start_allowed s" using gate allowed by blast
  qed (use run tick gate fsm start in auto)
qed

text \<open>The solenoid pin after a tick: commanded now, or left as it was.\<close>

lemma weld_drive_pin:
  "out_sol_dn (g_out (weld_drive_sol sol s)) \<Longrightarrow>
   sol \<noteq> 0 \<or> out_sol_dn (g_out s) \<and> wg_sol_last (g_weld s) = 0"
  by (auto simp: weld_drive_sol_def app_weld_hook_sol_dn_def io_sol_dn_def split: if_splits)

lemma weld_effects_pin:
  "out_sol_dn (g_out (weld_effects now out s)) = out_sol_dn (g_out (weld_drive_sol (wo_sol_dn out) s))"
  by (simp add: weld_effects_def app_weld_hook_fault_def Let_def)

lemma weld_effects_sol: "wg_sol_last (g_weld (weld_effects now out s)) = wo_sol_dn out"
  by (simp add: weld_effects_def app_weld_hook_fault_def weld_drive_sol_def app_weld_hook_sol_dn_def
      io_sol_dn_def Let_def)

lemma weld_tick_cases:
  assumes "P s" "P (weld_rearm e s)" "P (weld_cycle_step e (weld_rearm e s))"
  shows "P (app_weld_tick e s)"
  using assms by (simp add: app_weld_tick_def weld_rearm_def Let_def)

lemma weld_tick_pin:
  assumes "out_sol_dn (g_out (app_weld_tick e s))"
  shows "wg_sol_last (g_weld (app_weld_tick e s)) \<noteq> 0 \<or> out_sol_dn (g_out s) \<and> wg_sol_last (g_weld s) = 0"
proof -
  have step: "wg_sol_last (g_weld (weld_cycle_step e t)) \<noteq> 0 \<or> out_sol_dn (g_out t) \<and> wg_sol_last (g_weld t) = 0"
    if "out_sol_dn (g_out (weld_cycle_step e t))" for t
  proof -
    define i where "i = weld_read (fst (weld_scan e t)) (snd (weld_scan e t))"
    define fo where "fo = weld_fsm_step i (wg_fsm (g_weld (snd (weld_scan e t))))"
    define u where "u = (snd (weld_scan e t))\<lparr>g_weld := (g_weld (snd (weld_scan e t)))\<lparr>wg_start_pending := 0, wg_fsm := fst fo\<rparr>\<rparr>"
    have eq: "weld_cycle_step e t = weld_effects (e_now e) (snd fo) u"
      by (simp only: weld_cycle_step_def Let_def case_prod_unfold i_def fo_def u_def)
    have "g_out u = g_out t" "wg_sol_last (g_weld u) = wg_sol_last (g_weld t)" by (simp_all add: u_def)
    moreover have "out_sol_dn (g_out (weld_drive_sol (wo_sol_dn (snd fo)) u))"
      using that by (simp only: eq weld_effects_pin)
    ultimately show ?thesis using weld_drive_pin by (metis eq weld_effects_sol)
  qed
  have "out_sol_dn (g_out (app_weld_tick e s)) \<longrightarrow>
    wg_sol_last (g_weld (app_weld_tick e s)) \<noteq> 0 \<or> out_sol_dn (g_out s) \<and> wg_sol_last (g_weld s) = 0"
    by (rule weld_tick_cases) (use step [of "weld_rearm e s"] in \<open>auto simp: weld_rearm_def\<close>)
  with assms show ?thesis by simp
qed

text \<open>
  C16: A weld cycle starts only on its full condition. A tick that takes the machine out of
  READY finds both start keys pressed and released since the last cycle, a run page and no horn
  mode, and a machine in which an ultrasonic run may start at that moment: warm-up over, nothing
  running, no seek or reset, no fault, no overload and no emergency stop. It arms the trigger
  against a repeat, and the cylinder is not yet driven.
\<close>

theorem weld_cycle_start_gated:
  assumes "weld_glue_ok s" "w_run_status (wg_fsm (g_weld s)) = WELD_READY"
    and "w_run_status (wg_fsm (g_weld (app_weld_tick e s))) \<noteq> WELD_READY"
  shows "e_key1 e = 0 \<and> e_key2 e = 0 \<and> wt_in_cycle (wg_trig (g_weld s)) = 0 \<and>
    app_lcd_in_run_page s = 1 \<and> app_horn_mode_active s = 0 \<and> app_reg_start_allowed s \<and>
    WELD_TICK_MS \<le> elapsed (e_now e) (wg_prev_ms (g_weld s)) \<and>
    wt_in_cycle (wg_trig (g_weld (app_weld_tick e s))) = 1 \<and>
    w_run_status (wg_fsm (g_weld (app_weld_tick e s))) = WELD_CYL1 \<and>
    wg_sol_last (g_weld (app_weld_tick e s)) = 0"
proof -
  from weld_leaves_ready [OF assms] obtain s1 i where
    run: "WELD_TICK_MS \<le> elapsed (e_now e) (wg_prev_ms (g_weld s))" "app_lcd_in_run_page s \<noteq> 0"
      "app_horn_mode_active s = 0" and gate: "app_reg_start_allowed s" "e_key1 e = 0" "e_key2 e = 0"
      "wt_in_cycle (wg_trig (g_weld s)) = 0"
    and tick: "app_weld_tick e s = weld_cycle_step e s1"
    and armed: "wt_in_cycle (wg_trig (g_weld (snd (weld_scan e s1)))) = 1"
    and fsm: "wg_fsm (g_weld (app_weld_tick e s)) = fst (weld_fsm_step i (wg_fsm (g_weld s)))" .
  have trig: "wt_in_cycle (wg_trig (g_weld (app_weld_tick e s))) = 1"
    using armed by (simp add: tick weld_cycle_step_def Let_def case_prod_unfold)
  have cyl: "w_run_status (fst (weld_fsm_step i (wg_fsm (g_weld s)))) = WELD_CYL1"
    using assms(2,3) fsm
    by (auto simp: weld_fsm_step_def weld_dispatch_def weld_step_ready_def weld_latch_edges_def
        Let_def case_prod_unfold split: if_splits)
  have "w_sol_dn (wg_fsm (g_weld (app_weld_tick e s))) = 0"
    using assms(1,2)
    by (auto simp: fsm weld_fsm_step_def weld_dispatch_def weld_step_ready_def weld_latch_edges_def
        weld_glue_ok_def weld_inv_def press_down_def Let_def case_prod_unfold)
  then have "wg_sol_last (g_weld (app_weld_tick e s)) = 0"
    using weld_tick_ok [OF assms(1), of e] by (simp add: weld_glue_ok_def)
  with run gate trig cyl fsm show ?thesis by (auto simp: app_lcd_in_run_page_def)
qed

definition wit_weld :: sys where
  "wit_weld = (sys_zero MODEL_STD)\<lparr>g_lcd := lcd_app_state_zero\<lparr>ls_lcd_status := LCD_RUN_HAND\<rparr>\<rparr>"

theorem weld_cycle_start_gated_witness:
  "wt_in_cycle (wg_trig (g_weld (app_weld_tick ((wit_env 10)\<lparr>e_key1 := 0, e_key2 := 0\<rparr>) wit_weld))) = 1 \<and>
   app_reg_start_allowed wit_weld"
proof -
  let ?e = "(wit_env 10)\<lparr>e_key1 := 0, e_key2 := 0\<rparr>"
  have ok: "weld_glue_ok wit_weld"
    by (simp add: weld_glue_ok_def wit_weld_def sys_zero_def weld_inv_init reg_state_zero_def)
      (simp add: weld_fsm_init_def)
  have ready: "w_run_status (wg_fsm (g_weld wit_weld)) = WELD_READY"
    by (simp add: wit_weld_def sys_zero_def weld_fsm_init_def)
  have "w_run_status (wg_fsm (g_weld (app_weld_tick ?e wit_weld))) = WELD_CYL1"
    by (simp add: app_weld_tick_def weld_cycle_step_def weld_scan_def weld_gate_start_def weld_trigger_fsm_step_def
        weld_trig_read_def weld_read_def weld_sensor_mirror_def wit_env_def wit_weld_def sys_zero_def
        elapsed_def app_lcd_in_run_page_def run_page_for_mode_def query_defs lcd_app_state_zero_def
        weld_fsm_status_def weld_trigger_fsm_init_def app_reg_start_allowed_def reg_state_zero_def
        seek_reset_fsm_init_def seek_reset_fsm_state_def weld_abort_cond_def lcd_measure_zero_def
        weld_fsm_step_def weld_dispatch_def weld_step_ready_def weld_latch_edges_def weld_fsm_init_def
        weld_next_due_def weld_trigger_fsm_cycle_started_def Let_def case_prod_unfold)
  then show ?thesis using weld_cycle_start_gated [OF ok ready, of ?e] by simp
qed

end
