(* ===== verification/Fault_Glue.thy ===== *)
theory Fault_Glue
  imports Weld_Glue
begin

text \<open>
  The glue of the three disturbances: the overload (\<open>fw/src/app_overload.c\<close>), the keys of
  the connector with the emergency stop (\<open>fw/src/app_input.c\<close>) and the fault alarm
  (\<open>fw/src/app_fault_alarm.c\<close>). Each runs every 10 ms, stops the run it finds published, drives
  its pin, page and beep, and blinks the buzzer every 500 ms while it lasts.
\<close>

section \<open>Overload\<close>

abbreviation (input) OVLD_TICK_MS :: u32 where "OVLD_TICK_MS \<equiv> 10"
abbreviation (input) OVLD_BEEP_MS :: u16 where "OVLD_BEEP_MS \<equiv> 250"
abbreviation (input) OVLD_BLINK_MS :: u32 where "OVLD_BLINK_MS \<equiv> 500"

definition app_overload_init :: "env \<Rightarrow> sys \<Rightarrow> sys" where
  "app_overload_init e s = io_ovld_relay False
     (s\<lparr>g_ovld := \<lparr>og_ovld_fsm = overload_fsm_init, og_ovld_prev_ms = e_now e,
        og_ovld_blink_ms = e_now e, og_ovld_active = 0\<rparr>\<rparr>)"

text \<open>The run that was published last is stopped, by its own source.\<close>

definition stop_published :: "u32 \<Rightarrow> sys \<Rightarrow> sys" where
  "stop_published now s = reg_force_stop now (me_us_run_status (app_reg_measure s)) s"

definition ovld_assert :: "u32 \<Rightarrow> sys \<Rightarrow> sys" where
  "ovld_assert now s =
     (let s = app_lcd_set_overload True (io_ovld_relay True s)
      in app_buzzer_beep_ms OVLD_BEEP_MS (s\<lparr>g_ovld := (g_ovld s)\<lparr>og_ovld_blink_ms := now\<rparr>\<rparr>))"

definition ovld_hold :: "u32 \<Rightarrow> sys \<Rightarrow> sys" where
  "ovld_hold now s =
     (let s = stop_published now s in
      if OVLD_BLINK_MS \<le> elapsed now (og_ovld_blink_ms (g_ovld s))
      then app_buzzer_beep_ms OVLD_BEEP_MS (s\<lparr>g_ovld := (g_ovld s)\<lparr>og_ovld_blink_ms := now\<rparr>\<rparr>)
      else s)"

definition ovld_deassert :: "u32 \<Rightarrow> sys \<Rightarrow> sys" where
  "ovld_deassert now s =
     app_seek_reset_request US_CMD_RESET US_REMOTE
       (app_lcd_set_overload False (io_ovld_relay False (stop_published now s)))"

definition app_overload_tick :: "env \<Rightarrow> sys \<Rightarrow> sys" where
  "app_overload_tick e s =
     (let now = e_now e in
      if elapsed now (og_ovld_prev_ms (g_ovld s)) < OVLD_TICK_MS then s
      else
        (let (fsm, ev) = overload_fsm_step (e_overload e) (og_ovld_fsm (g_ovld s));
             s = s\<lparr>g_ovld := (g_ovld s)\<lparr>og_ovld_prev_ms := now, og_ovld_fsm := fsm,
                     og_ovld_active := b2u (ev AND OVLD_EV_ACTIVE \<noteq> 0)\<rparr>\<rparr>;
             s = (if ev AND OVLD_EV_ASSERT \<noteq> 0 then ovld_assert now s else s);
             s = (if og_ovld_active (g_ovld s) \<noteq> 0 then ovld_hold now s else s)
         in if ev AND OVLD_EV_DEASSERT \<noteq> 0 then ovld_deassert now s else s))"

section \<open>The connector keys and the emergency stop\<close>

abbreviation (input) INPUT_TICK_MS :: u32 where "INPUT_TICK_MS \<equiv> 10"
abbreviation (input) ESTOP_BEEP_MS :: u16 where "ESTOP_BEEP_MS \<equiv> 250"
abbreviation (input) ESTOP_BLINK_MS :: u32 where "ESTOP_BLINK_MS \<equiv> 500"

definition app_input_init :: "env \<Rightarrow> sys \<Rightarrow> sys" where
  "app_input_init e s = s\<lparr>g_input := \<lparr>ig_fsm = input_fsm_init, ig_prev_ms = e_now e,
     ig_blink_ms = e_now e, ig_estop_active = 0\<rparr>\<rparr>"

definition input_read :: "env \<Rightarrow> sys \<Rightarrow> input_in" where
  "input_read e s = \<lparr>ii_start = e_start e, ii_reset = e_reset e, ii_estop_seek = e_estop_seek e,
     ii_model_type = model_type (g_cfg s)\<rparr>"

definition estop_enter :: "u32 \<Rightarrow> sys \<Rightarrow> sys" where
  "estop_enter now s =
     (let s = app_lcd_set_estop now True (app_weld_abort_now now (io_sol_dn False s))
      in app_buzzer_beep_ms ESTOP_BEEP_MS (s\<lparr>g_input := (g_input s)\<lparr>ig_blink_ms := now\<rparr>\<rparr>))"

definition estop_hold :: "u32 \<Rightarrow> sys \<Rightarrow> sys" where
  "estop_hold now s =
     (let s = stop_published now s in
      if ESTOP_BLINK_MS \<le> elapsed now (ig_blink_ms (g_input s))
      then app_buzzer_beep_ms ESTOP_BEEP_MS (s\<lparr>g_input := (g_input s)\<lparr>ig_blink_ms := now\<rparr>\<rparr>)
      else s)"

definition input_commands :: "u32 \<Rightarrow> input_out \<Rightarrow> sys \<Rightarrow> sys" where
  "input_commands now ev s =
     (let cmd = (\<lambda>on c s. if on \<noteq> (0 :: u8) then app_reg_command now c US_REMOTE s else s);
          s = cmd (io_start_press ev) US_CMD_START s;
          s = cmd (io_start_release ev) US_CMD_RUN_RELEASE s;
          s = cmd (io_reset_press ev) US_CMD_RESET s
      in cmd (io_seek_press ev) US_CMD_SEEK s)"

definition app_input_tick :: "env \<Rightarrow> sys \<Rightarrow> sys" where
  "app_input_tick e s =
     (let now = e_now e in
      if elapsed now (ig_prev_ms (g_input s)) < INPUT_TICK_MS then s
      else
        (let (fsm, ev) = input_fsm_step (input_read e s) (ig_fsm (g_input s));
             prev_estop = ig_estop_active (g_input s);
             s = s\<lparr>g_input := (g_input s)\<lparr>ig_prev_ms := now, ig_fsm := fsm,
                     ig_estop_active := io_estop_active ev\<rparr>\<rparr>;
             s = (if io_estop_enter ev \<noteq> 0 then estop_enter now s else s);
             s = (if prev_estop \<noteq> 0 \<and> ig_estop_active (g_input s) = 0
                  then app_lcd_set_estop now False s else s)
         in if ig_estop_active (g_input s) \<noteq> 0 then estop_hold now s else input_commands now ev s))"

section \<open>The fault alarm\<close>

abbreviation (input) FAULT_TICK_MS :: u32 where "FAULT_TICK_MS \<equiv> 10"
abbreviation (input) FAULT_BEEP_MS :: u16 where "FAULT_BEEP_MS \<equiv> 250"
abbreviation (input) FAULT_BLINK_MS :: u32 where "FAULT_BLINK_MS \<equiv> 500"

definition app_fault_alarm_init :: "env \<Rightarrow> sys \<Rightarrow> sys" where
  "app_fault_alarm_init e s =
     s\<lparr>g_alarm := \<lparr>ag_prev_ms = e_now e, ag_blink_ms = e_now e, ag_prev_err = 0\<rparr>\<rparr>"

definition app_fault_alarm_tick :: "env \<Rightarrow> sys \<Rightarrow> sys" where
  "app_fault_alarm_tick e s =
     (let now = e_now e in
      if elapsed now (ag_prev_ms (g_alarm s)) < FAULT_TICK_MS then s
      else
        (let err = me_error_status (app_reg_measure s);
             beep = (\<lambda>s. app_buzzer_beep_ms FAULT_BEEP_MS (s\<lparr>g_alarm := (g_alarm s)\<lparr>ag_blink_ms := now\<rparr>\<rparr>));
             s = s\<lparr>g_alarm := (g_alarm s)\<lparr>ag_prev_ms := now\<rparr>\<rparr>;
             s = (if err \<noteq> 0 \<and> ag_prev_err (g_alarm s) = 0 then beep s
                  else if err \<noteq> 0
                  then if FAULT_BLINK_MS \<le> elapsed now (ag_blink_ms (g_alarm s)) then beep s else s
                  else s)
         in s\<lparr>g_alarm := (g_alarm s)\<lparr>ag_prev_err := err\<rparr>\<rparr>))"

section \<open>What the operations leave alone\<close>

lemma beep_keeps [simp]:
  "g_cfg (app_buzzer_beep_ms ms s) = g_cfg s" "g_lcd (app_buzzer_beep_ms ms s) = g_lcd s"
  "g_disp (app_buzzer_beep_ms ms s) = g_disp s" "g_dgus (app_buzzer_beep_ms ms s) = g_dgus s"
  "g_measure (app_buzzer_beep_ms ms s) = g_measure s" "g_reg (app_buzzer_beep_ms ms s) = g_reg s"
  "g_freq (app_buzzer_beep_ms ms s) = g_freq s" "g_i2c (app_buzzer_beep_ms ms s) = g_i2c s"
  "g_weld (app_buzzer_beep_ms ms s) = g_weld s" "g_ovld (app_buzzer_beep_ms ms s) = g_ovld s"
  "g_input (app_buzzer_beep_ms ms s) = g_input s" "g_horn (app_buzzer_beep_ms ms s) = g_horn s"
  "g_sr (app_buzzer_beep_ms ms s) = g_sr s" "g_alarm (app_buzzer_beep_ms ms s) = g_alarm s"
  "g_mb (app_buzzer_beep_ms ms s) = g_mb s" "g_out (app_buzzer_beep_ms ms s) = g_out s"
  "g_model (app_buzzer_beep_ms ms s) = g_model s"
  by (simp_all add: app_buzzer_beep_ms_def Let_def)

lemma restore_others [simp]:
  "g_cfg (lcd_restore_run_page s) = g_cfg s" "g_disp (lcd_restore_run_page s) = g_disp s"
  "g_measure (lcd_restore_run_page s) = g_measure s" "g_reg (lcd_restore_run_page s) = g_reg s"
  "g_freq (lcd_restore_run_page s) = g_freq s" "g_i2c (lcd_restore_run_page s) = g_i2c s"
  "g_weld (lcd_restore_run_page s) = g_weld s" "g_ovld (lcd_restore_run_page s) = g_ovld s"
  "g_input (lcd_restore_run_page s) = g_input s" "g_horn (lcd_restore_run_page s) = g_horn s"
  "g_sr (lcd_restore_run_page s) = g_sr s" "g_buzzer (lcd_restore_run_page s) = g_buzzer s"
  "g_alarm (lcd_restore_run_page s) = g_alarm s" "g_mb (lcd_restore_run_page s) = g_mb s"
  "g_out (lcd_restore_run_page s) = g_out s" "g_model (lcd_restore_run_page s) = g_model s"
  by (simp_all add: lcd_restore_run_page_def lcd_goto_def)

lemma set_overload_others [simp]:
  "g_cfg (app_lcd_set_overload on s) = g_cfg s" "g_disp (app_lcd_set_overload on s) = g_disp s"
  "g_measure (app_lcd_set_overload on s) = g_measure s"
  "g_reg (app_lcd_set_overload on s) = g_reg s" "g_freq (app_lcd_set_overload on s) = g_freq s"
  "g_i2c (app_lcd_set_overload on s) = g_i2c s" "g_weld (app_lcd_set_overload on s) = g_weld s"
  "g_ovld (app_lcd_set_overload on s) = g_ovld s"
  "g_input (app_lcd_set_overload on s) = g_input s"
  "g_horn (app_lcd_set_overload on s) = g_horn s" "g_sr (app_lcd_set_overload on s) = g_sr s"
  "g_buzzer (app_lcd_set_overload on s) = g_buzzer s"
  "g_alarm (app_lcd_set_overload on s) = g_alarm s" "g_mb (app_lcd_set_overload on s) = g_mb s"
  "g_out (app_lcd_set_overload on s) = g_out s" "g_model (app_lcd_set_overload on s) = g_model s"
  by (simp_all add: app_lcd_set_overload_def Let_def)

lemma set_estop_others [simp]:
  "g_cfg (app_lcd_set_estop now on s) = g_cfg s" "g_disp (app_lcd_set_estop now on s) = g_disp s"
  "g_freq (app_lcd_set_estop now on s) = g_freq s" "g_i2c (app_lcd_set_estop now on s) = g_i2c s"
  "g_weld (app_lcd_set_estop now on s) = g_weld s"
  "g_ovld (app_lcd_set_estop now on s) = g_ovld s"
  "g_input (app_lcd_set_estop now on s) = g_input s"
  "g_horn (app_lcd_set_estop now on s) = g_horn s"
  "g_buzzer (app_lcd_set_estop now on s) = g_buzzer s"
  "g_alarm (app_lcd_set_estop now on s) = g_alarm s" "g_mb (app_lcd_set_estop now on s) = g_mb s"
  "g_out (app_lcd_set_estop now on s) = g_out s"
  "g_model (app_lcd_set_estop now on s) = g_model s"
  "sg_fsm (g_sr (app_lcd_set_estop now on s)) = sg_fsm (g_sr s)"
  "me_us_run_status (g_measure (app_lcd_set_estop now on s)) = me_us_run_status (g_measure s)"
  "me_error_status (g_measure (app_lcd_set_estop now on s)) = me_error_status (g_measure s)"
  by (simp_all add: app_lcd_set_estop_def app_lcd_input_run_key_reanchor_def app_lcd_hook_us_command_def lcd_goto_def)

lemma request_keeps [simp]:
  "g_cfg (app_seek_reset_request cmd src s) = g_cfg s"
  "g_lcd (app_seek_reset_request cmd src s) = g_lcd s"
  "g_disp (app_seek_reset_request cmd src s) = g_disp s"
  "g_dgus (app_seek_reset_request cmd src s) = g_dgus s"
  "g_measure (app_seek_reset_request cmd src s) = g_measure s"
  "g_reg (app_seek_reset_request cmd src s) = g_reg s"
  "g_freq (app_seek_reset_request cmd src s) = g_freq s"
  "g_i2c (app_seek_reset_request cmd src s) = g_i2c s"
  "g_weld (app_seek_reset_request cmd src s) = g_weld s"
  "g_ovld (app_seek_reset_request cmd src s) = g_ovld s"
  "g_input (app_seek_reset_request cmd src s) = g_input s"
  "g_horn (app_seek_reset_request cmd src s) = g_horn s"
  "g_buzzer (app_seek_reset_request cmd src s) = g_buzzer s"
  "g_alarm (app_seek_reset_request cmd src s) = g_alarm s"
  "g_mb (app_seek_reset_request cmd src s) = g_mb s"
  "g_out (app_seek_reset_request cmd src s) = g_out s"
  "g_model (app_seek_reset_request cmd src s) = g_model s"
  "sg_fsm (g_sr (app_seek_reset_request cmd src s)) = sg_fsm (g_sr s)"
  by (simp_all add: app_seek_reset_request_def)

lemma stop_published_keeps [simp]:
  "g_cfg (stop_published now s) = g_cfg s" "g_lcd (stop_published now s) = g_lcd s"
  "g_disp (stop_published now s) = g_disp s" "g_dgus (stop_published now s) = g_dgus s"
  "g_measure (stop_published now s) = g_measure s" "g_freq (stop_published now s) = g_freq s"
  "g_i2c (stop_published now s) = g_i2c s" "g_weld (stop_published now s) = g_weld s"
  "g_ovld (stop_published now s) = g_ovld s" "g_input (stop_published now s) = g_input s"
  "g_horn (stop_published now s) = g_horn s" "g_sr (stop_published now s) = g_sr s"
  "g_buzzer (stop_published now s) = g_buzzer s" "g_alarm (stop_published now s) = g_alarm s"
  "g_mb (stop_published now s) = g_mb s" "g_out (stop_published now s) = g_out s"
  "g_model (stop_published now s) = g_model s"
  by (simp_all add: stop_published_def)

lemma overload_tick_keeps [simp]:
  "g_cfg (app_overload_tick e s) = g_cfg s" "g_disp (app_overload_tick e s) = g_disp s"
  "g_measure (app_overload_tick e s) = g_measure s" "g_freq (app_overload_tick e s) = g_freq s"
  "g_i2c (app_overload_tick e s) = g_i2c s" "g_weld (app_overload_tick e s) = g_weld s"
  "g_input (app_overload_tick e s) = g_input s" "g_horn (app_overload_tick e s) = g_horn s"
  "g_alarm (app_overload_tick e s) = g_alarm s" "g_mb (app_overload_tick e s) = g_mb s"
  "g_model (app_overload_tick e s) = g_model s"
  "sg_fsm (g_sr (app_overload_tick e s)) = sg_fsm (g_sr s)"
  "out_sol_dn (g_out (app_overload_tick e s)) = out_sol_dn (g_out s)"
  "out_buzzer (g_out (app_overload_tick e s)) = out_buzzer (g_out s)"
  "out_usout (g_out (app_overload_tick e s)) = out_usout (g_out s)"
  "out_osc4 (g_out (app_overload_tick e s)) = out_osc4 (g_out s)"
  "out_reset (g_out (app_overload_tick e s)) = out_reset (g_out s)"
  "out_seek (g_out (app_overload_tick e s)) = out_seek (g_out s)"
  by (simp_all add: app_overload_tick_def ovld_assert_def ovld_hold_def ovld_deassert_def io_ovld_relay_def Let_def case_prod_unfold)

lemma input_commands_keeps [simp]:
  "g_cfg (input_commands now ev s) = g_cfg s" "g_lcd (input_commands now ev s) = g_lcd s"
  "g_disp (input_commands now ev s) = g_disp s" "g_dgus (input_commands now ev s) = g_dgus s"
  "g_freq (input_commands now ev s) = g_freq s" "g_i2c (input_commands now ev s) = g_i2c s"
  "g_weld (input_commands now ev s) = g_weld s" "g_ovld (input_commands now ev s) = g_ovld s"
  "g_input (input_commands now ev s) = g_input s" "g_horn (input_commands now ev s) = g_horn s"
  "g_buzzer (input_commands now ev s) = g_buzzer s"
  "g_alarm (input_commands now ev s) = g_alarm s" "g_mb (input_commands now ev s) = g_mb s"
  "g_out (input_commands now ev s) = g_out s" "g_model (input_commands now ev s) = g_model s"
  "sg_fsm (g_sr (input_commands now ev s)) = sg_fsm (g_sr s)"
  by (simp_all add: input_commands_def Let_def)

lemma estop_enter_keeps [simp]:
  "g_cfg (estop_enter now s) = g_cfg s" "g_disp (estop_enter now s) = g_disp s"
  "g_freq (estop_enter now s) = g_freq s" "g_i2c (estop_enter now s) = g_i2c s"
  "g_ovld (estop_enter now s) = g_ovld s" "g_horn (estop_enter now s) = g_horn s"
  "g_alarm (estop_enter now s) = g_alarm s" "g_mb (estop_enter now s) = g_mb s"
  "g_model (estop_enter now s) = g_model s" "sg_fsm (g_sr (estop_enter now s)) = sg_fsm (g_sr s)"
  "ig_fsm (g_input (estop_enter now s)) = ig_fsm (g_input s)"
  "ig_estop_active (g_input (estop_enter now s)) = ig_estop_active (g_input s)"
  by (simp_all add: estop_enter_def io_sol_dn_def Let_def)

lemma estop_hold_keeps [simp]:
  "g_cfg (estop_hold now s) = g_cfg s" "g_lcd (estop_hold now s) = g_lcd s"
  "g_disp (estop_hold now s) = g_disp s" "g_dgus (estop_hold now s) = g_dgus s"
  "g_measure (estop_hold now s) = g_measure s" "g_freq (estop_hold now s) = g_freq s"
  "g_i2c (estop_hold now s) = g_i2c s" "g_weld (estop_hold now s) = g_weld s"
  "g_ovld (estop_hold now s) = g_ovld s" "g_horn (estop_hold now s) = g_horn s"
  "g_sr (estop_hold now s) = g_sr s" "g_alarm (estop_hold now s) = g_alarm s"
  "g_mb (estop_hold now s) = g_mb s" "g_out (estop_hold now s) = g_out s"
  "g_model (estop_hold now s) = g_model s"
  "ig_fsm (g_input (estop_hold now s)) = ig_fsm (g_input s)"
  "ig_estop_active (g_input (estop_hold now s)) = ig_estop_active (g_input s)"
  by (simp_all add: estop_hold_def Let_def)

lemma input_tick_keeps [simp]:
  "g_cfg (app_input_tick e s) = g_cfg s" "g_disp (app_input_tick e s) = g_disp s"
  "g_freq (app_input_tick e s) = g_freq s" "g_i2c (app_input_tick e s) = g_i2c s"
  "g_ovld (app_input_tick e s) = g_ovld s" "g_horn (app_input_tick e s) = g_horn s"
  "g_alarm (app_input_tick e s) = g_alarm s" "g_mb (app_input_tick e s) = g_mb s"
  "g_model (app_input_tick e s) = g_model s"
  "sg_fsm (g_sr (app_input_tick e s)) = sg_fsm (g_sr s)"
  by (simp_all add: app_input_tick_def Let_def case_prod_unfold)

lemma alarm_tick_keeps [simp]:
  "g_cfg (app_fault_alarm_tick e s) = g_cfg s" "g_lcd (app_fault_alarm_tick e s) = g_lcd s"
  "g_disp (app_fault_alarm_tick e s) = g_disp s" "g_dgus (app_fault_alarm_tick e s) = g_dgus s"
  "g_measure (app_fault_alarm_tick e s) = g_measure s"
  "g_reg (app_fault_alarm_tick e s) = g_reg s" "g_freq (app_fault_alarm_tick e s) = g_freq s"
  "g_i2c (app_fault_alarm_tick e s) = g_i2c s" "g_weld (app_fault_alarm_tick e s) = g_weld s"
  "g_ovld (app_fault_alarm_tick e s) = g_ovld s" "g_input (app_fault_alarm_tick e s) = g_input s"
  "g_horn (app_fault_alarm_tick e s) = g_horn s" "g_sr (app_fault_alarm_tick e s) = g_sr s"
  "g_mb (app_fault_alarm_tick e s) = g_mb s" "g_out (app_fault_alarm_tick e s) = g_out s"
  "g_model (app_fault_alarm_tick e s) = g_model s"
  by (simp_all add: app_fault_alarm_tick_def Let_def)

lemma abort_now_pins [simp]:
  "out_ovld_relay (g_out (app_weld_abort_now now s)) = out_ovld_relay (g_out s)"
  "out_buzzer (g_out (app_weld_abort_now now s)) = out_buzzer (g_out s)"
  "out_usout (g_out (app_weld_abort_now now s)) = out_usout (g_out s)"
  "out_osc4 (g_out (app_weld_abort_now now s)) = out_osc4 (g_out s)"
  "out_reset (g_out (app_weld_abort_now now s)) = out_reset (g_out s)"
  "out_seek (g_out (app_weld_abort_now now s)) = out_seek (g_out s)"
  by (simp_all add: app_weld_abort_now_def Let_def case_prod_unfold)

lemma input_tick_pins [simp]:
  "out_ovld_relay (g_out (app_input_tick e s)) = out_ovld_relay (g_out s)"
  "out_buzzer (g_out (app_input_tick e s)) = out_buzzer (g_out s)"
  "out_usout (g_out (app_input_tick e s)) = out_usout (g_out s)"
  "out_osc4 (g_out (app_input_tick e s)) = out_osc4 (g_out s)"
  "out_reset (g_out (app_input_tick e s)) = out_reset (g_out s)"
  "out_seek (g_out (app_input_tick e s)) = out_seek (g_out s)"
  by (simp_all add: app_input_tick_def estop_enter_def io_sol_dn_def Let_def case_prod_unfold)

section \<open>The invariants of the other files\<close>

lemma reg_inv_force_stop: "reg_inv s \<Longrightarrow> reg_inv (stop_published now s)"
proof -
  assume s: "reg_inv s"
  have "reg_inv (app_reg_command now US_CMD_RUN_RELEASE src s)" for src
    using s by (auto simp: reg_inv_def app_reg_command_def reg_cmd_release_def)
  then show ?thesis using s by (simp add: stop_published_def reg_force_stop_def)
qed

lemma reg_inv_glue [simp]:
  "reg_inv (app_buzzer_beep_ms ms s) = reg_inv s" "reg_inv (app_lcd_set_overload on s) = reg_inv s"
  "reg_inv (io_ovld_relay on s) = reg_inv s" "reg_inv (io_sol_dn on s) = reg_inv s"
  "reg_inv (g_ovld_update f s) = reg_inv s" "reg_inv (g_input_update f1 s) = reg_inv s"
  "reg_inv (g_alarm_update f2 s) = reg_inv s" "reg_inv (app_seek_reset_request cmd src s) = reg_inv s"
  "reg_inv (lcd_goto p s) = reg_inv s" "reg_inv (g_lcd_update f3 s) = reg_inv s"
  "reg_inv (g_dgus_update f4 s) = reg_inv s"
  by (rule reg_inv_same; simp add: pin_defs lcd_goto_def)+

lemma reg_inv_overload_tick: "reg_inv s \<Longrightarrow> reg_inv (app_overload_tick e s)"
  by (simp add: app_overload_tick_def ovld_assert_def ovld_hold_def ovld_deassert_def
      reg_inv_force_stop Let_def case_prod_unfold)

lemma reg_inv_set_estop: "reg_inv s \<Longrightarrow> reg_inv (app_lcd_set_estop now on s)"
  by (simp add: app_lcd_set_estop_def app_lcd_input_run_key_reanchor_def app_lcd_hook_us_command_def
      reg_inv_command)

lemma reg_inv_input_tick: "reg_inv s \<Longrightarrow> reg_inv (app_input_tick e s)"
  by (simp add: app_input_tick_def estop_enter_def estop_hold_def input_commands_def
      reg_inv_force_stop reg_inv_set_estop reg_inv_abort_now reg_inv_command Let_def case_prod_unfold)

lemma panel_glue [simp]:
  "panel_inv (app_buzzer_beep_ms ms s) = panel_inv s" "panel_inv (io_ovld_relay on s) = panel_inv s"
  "panel_inv (io_sol_dn on s) = panel_inv s" "panel_inv (g_ovld_update f s) = panel_inv s"
  "panel_inv (g_input_update f1 s) = panel_inv s" "panel_inv (g_alarm_update f2 s) = panel_inv s"
  "panel_inv (app_seek_reset_request cmd src s) = panel_inv s"
  "panel_inv (stop_published now s) = panel_inv s" "panel_inv (app_weld_abort_now now s) = panel_inv s"
  by (rule panel_inv_others; simp add: pin_defs)+

lemma panel_overload_tick: "panel_inv s \<Longrightarrow> panel_inv (app_overload_tick e s)"
  by (simp add: app_overload_tick_def ovld_assert_def ovld_hold_def ovld_deassert_def
      panel_events Let_def case_prod_unfold)

lemma panel_input_tick: "panel_inv s \<Longrightarrow> panel_inv (app_input_tick e s)"
  by (simp add: app_input_tick_def estop_enter_def estop_hold_def input_commands_def
      panel_events Let_def case_prod_unfold)

lemma weld_ok_same:
  "g_weld s' = g_weld s \<Longrightarrow> rg_us_run_status (g_reg s') = rg_us_run_status (g_reg s) \<Longrightarrow>
   weld_glue_ok s' = weld_glue_ok s"
  by (simp add: weld_glue_ok_def)

lemma weld_ok_command:
  "weld_glue_ok s \<Longrightarrow> src \<noteq> US_CYCLE \<or> cmd \<noteq> US_CMD_START \<Longrightarrow> weld_glue_ok (app_reg_command now cmd src s)"
  using command_run_status(2) [of now src s]
  by (cases cmd) (auto simp: weld_glue_ok_def command_run_status)

lemma weld_ok_stop: "weld_glue_ok s \<Longrightarrow> weld_glue_ok (stop_published now s)"
  by (simp add: stop_published_def reg_force_stop_def weld_ok_command)

lemma weld_ok_glue [simp]:
  "weld_glue_ok (app_buzzer_beep_ms ms s) = weld_glue_ok s" "weld_glue_ok (io_ovld_relay on s) = weld_glue_ok s"
  "weld_glue_ok (io_sol_dn on s) = weld_glue_ok s" "weld_glue_ok (g_ovld_update f s) = weld_glue_ok s"
  "weld_glue_ok (g_input_update f1 s) = weld_glue_ok s" "weld_glue_ok (g_lcd_update f3 s) = weld_glue_ok s"
  "weld_glue_ok (app_seek_reset_request cmd src s) = weld_glue_ok s"
  "weld_glue_ok (app_lcd_set_overload on s) = weld_glue_ok s" "weld_glue_ok (lcd_goto p s) = weld_glue_ok s"
  "weld_glue_ok (g_dgus_update f4 s) = weld_glue_ok s"
  by (rule weld_ok_same; simp add: pin_defs lcd_goto_def)+

lemma weld_ok_overload_tick: "weld_glue_ok s \<Longrightarrow> weld_glue_ok (app_overload_tick e s)"
  by (simp add: app_overload_tick_def ovld_assert_def ovld_hold_def ovld_deassert_def weld_ok_stop
      Let_def case_prod_unfold)

lemma weld_ok_set_estop: "weld_glue_ok s \<Longrightarrow> weld_glue_ok (app_lcd_set_estop now on s)"
  by (simp add: app_lcd_set_estop_def app_lcd_input_run_key_reanchor_def app_lcd_hook_us_command_def
      weld_ok_command)

lemma weld_ok_input_tick: "weld_glue_ok s \<Longrightarrow> weld_glue_ok (app_input_tick e s)"
  by (simp add: app_input_tick_def estop_enter_def estop_hold_def input_commands_def weld_ok_stop
      weld_ok_set_estop weld_abort_now_ok weld_ok_command Let_def case_prod_unfold)

section \<open>The emergency stop\<close>

text \<open>
  The glue flag is the output of the machine; while it is set the cylinder is released and the
  weld machine rests in READY.
\<close>

definition estop_ok :: "sys \<Rightarrow> bool" where
  "estop_ok s \<longleftrightarrow>
     (ig_estop_active (g_input s) \<noteq> 0) = (in_emsw_bak (ig_fsm (g_input s)) \<noteq> 0) \<and>
     (ig_estop_active (g_input s) \<noteq> 0 \<longrightarrow>
        \<not> out_sol_dn (g_out s) \<and> w_run_status (wg_fsm (g_weld s)) = WELD_READY)"

lemma input_estop_edges:
  "(io_estop_active (snd (input_fsm_step i f)) \<noteq> 0) = (in_emsw_bak (fst (input_fsm_step i f)) \<noteq> 0)"
  "io_estop_active (snd (input_fsm_step i f)) \<noteq> 0 \<Longrightarrow> io_estop_enter (snd (input_fsm_step i f)) = 0 \<Longrightarrow>
    in_emsw_bak f \<noteq> 0"
  "io_estop_active (snd (input_fsm_step i f)) = b2u (1 < ii_model_type i \<and> ii_estop_seek i \<noteq> 0)"
  by (auto simp: input_fsm_step_def input_out_zero_def Let_def not_le split: if_splits)

lemma drive_sol_up:
  "\<not> out_sol_dn (g_out s) \<Longrightarrow> \<not> out_sol_dn (g_out (weld_drive_sol 0 s))"
  by (simp add: weld_drive_sol_def app_weld_hook_sol_dn_def io_sol_dn_def)

lemma abort_now_pin_up:
  assumes "weld_inv (wg_fsm (g_weld s))" "\<not> out_sol_dn (g_out s)"
  shows "\<not> out_sol_dn (g_out (app_weld_abort_now now s))"
proof -
  have ab: "wi_abort (weld_in_zero\<lparr>wi_abort := 1\<rparr>) \<noteq> 0" by simp
  have pin: "\<not> out_sol_dn (g_out (weld_drive_sol 0 (s\<lparr>g_weld := w\<rparr>)))" for w
    using assms(2) by (intro drive_sol_up) simp
  show ?thesis
    by (simp add: app_weld_abort_now_def weld_abort_tick(2) [OF assms(1) ab] pin Let_def case_prod_unfold)
qed

lemma estop_enter_parks:
  assumes "weld_glue_ok s"
  shows "\<not> out_sol_dn (g_out (estop_enter now s))"
    "w_run_status (wg_fsm (g_weld (estop_enter now s))) = WELD_READY"
    "rg_us_run_status (g_reg (estop_enter now s)) = US_IDLE"
proof -
  have ok: "weld_glue_ok (io_sol_dn False s)" using assms by simp
  then have "\<not> out_sol_dn (g_out (app_weld_abort_now now (io_sol_dn False s)))"
    by (intro abort_now_pin_up) (simp_all add: weld_glue_ok_def io_sol_dn_def)
  then show "\<not> out_sol_dn (g_out (estop_enter now s))" by (simp add: estop_enter_def Let_def)
  show "w_run_status (wg_fsm (g_weld (estop_enter now s))) = WELD_READY"
    using abort_now_parks(1) [OF ok] by (simp add: estop_enter_def Let_def)
  show "rg_us_run_status (g_reg (estop_enter now s)) = US_IDLE"
    by (simp add: estop_enter_def app_lcd_set_estop_def app_lcd_input_run_key_reanchor_def
        app_lcd_hook_us_command_def command_run_status Let_def app_buzzer_beep_ms_def)
qed

lemma abort_now_sr [simp]: "g_sr (app_weld_abort_now now s) = g_sr s"
  by (simp add: app_weld_abort_now_def Let_def case_prod_unfold)

lemma stop_published_idle:
  "rg_us_run_status (g_reg s) = US_IDLE \<Longrightarrow> rg_us_run_status (g_reg (stop_published now s)) = US_IDLE"
  by (simp add: stop_published_def reg_force_stop_def)

lemma stop_published_fresh:
  "me_us_run_status (g_measure s) = rg_us_run_status (g_reg s) \<Longrightarrow>
   rg_us_run_status (g_reg (stop_published now s)) = US_IDLE"
  by (simp add: stop_published_def reg_force_stop_def query_defs)

lemma estop_hold_idle:
  "rg_us_run_status (g_reg s) = US_IDLE \<Longrightarrow> rg_us_run_status (g_reg (estop_hold now s)) = US_IDLE"
  "me_us_run_status (g_measure s) = rg_us_run_status (g_reg s) \<Longrightarrow>
   rg_us_run_status (g_reg (estop_hold now s)) = US_IDLE"
  by (simp_all add: estop_hold_def Let_def app_buzzer_beep_ms_def stop_published_idle
      stop_published_fresh)

text \<open>The scan of a tick, with the glue flag updated, and what follows from it.\<close>

definition input_scan :: "env \<Rightarrow> sys \<Rightarrow> input_out \<times> sys" where
  "input_scan e s =
     (let (fsm, ev) = input_fsm_step (input_read e s) (ig_fsm (g_input s))
      in (ev, s\<lparr>g_input := (g_input s)\<lparr>ig_prev_ms := e_now e, ig_fsm := fsm,
              ig_estop_active := io_estop_active ev\<rparr>\<rparr>))"

lemma input_scan_keeps [simp]:
  "g_weld (snd (input_scan e s)) = g_weld s" "g_out (snd (input_scan e s)) = g_out s"
  "g_reg (snd (input_scan e s)) = g_reg s" "g_measure (snd (input_scan e s)) = g_measure s"
  "ig_fsm (g_input (snd (input_scan e s))) = fst (input_fsm_step (input_read e s) (ig_fsm (g_input s)))"
  "ig_estop_active (g_input (snd (input_scan e s))) =
     io_estop_active (snd (input_fsm_step (input_read e s) (ig_fsm (g_input s))))"
  "fst (input_scan e s) = snd (input_fsm_step (input_read e s) (ig_fsm (g_input s)))"
  "weld_glue_ok (snd (input_scan e s)) = weld_glue_ok s"
  by (simp_all add: input_scan_def case_prod_unfold Let_def)

lemma input_tick_eq:
  "app_input_tick e s =
     (if elapsed (e_now e) (ig_prev_ms (g_input s)) < INPUT_TICK_MS then s
      else
        (let (ev, s1) = input_scan e s;
             s2 = (if io_estop_enter ev \<noteq> 0 then estop_enter (e_now e) s1 else s1);
             s3 = (if ig_estop_active (g_input s) \<noteq> 0 \<and> io_estop_active ev = 0
                   then app_lcd_set_estop (e_now e) False s2 else s2)
         in if io_estop_active ev \<noteq> 0 then estop_hold (e_now e) s3 else input_commands (e_now e) ev s3))"
proof -
  obtain fsm ev where p: "input_fsm_step (input_read e s) (ig_fsm (g_input s)) = (fsm, ev)" by (rule prod.exhaust)
  define s1 where "s1 = s\<lparr>g_input := (g_input s)\<lparr>ig_prev_ms := e_now e, ig_fsm := fsm,
    ig_estop_active := io_estop_active ev\<rparr>\<rparr>"
  define s2 where "s2 = (if io_estop_enter ev \<noteq> 0 then estop_enter (e_now e) s1 else s1)"
  define s3 where "s3 = (if ig_estop_active (g_input s) \<noteq> 0 \<and> io_estop_active ev = 0
    then app_lcd_set_estop (e_now e) False s2 else s2)"
  have 2: "ig_estop_active (g_input s2) = io_estop_active ev" by (simp add: s2_def s1_def)
  have 3: "ig_estop_active (g_input s3) = io_estop_active ev" by (simp add: s3_def 2)
  show ?thesis
    unfolding app_input_tick_def input_scan_def p prod.case Let_def s1_def [symmetric] s2_def [symmetric]
      2 s3_def [symmetric] 3 ..
qed

lemma estop_ok_input_tick:
  assumes "estop_ok s" "weld_glue_ok s"
  shows "estop_ok (app_input_tick e s)"
proof (cases "elapsed (e_now e) (ig_prev_ms (g_input s)) < INPUT_TICK_MS")
  case True
  then show ?thesis using assms(1) by (simp add: input_tick_eq)
next
  case False
  define ev where "ev = snd (input_fsm_step (input_read e s) (ig_fsm (g_input s)))"
  define s1 where "s1 = snd (input_scan e s)"
  have fst1: "fst (input_scan e s) = ev" by (simp add: ev_def)
  have flag: "ig_estop_active (g_input s1) = io_estop_active ev"
    "(io_estop_active ev \<noteq> 0) = (in_emsw_bak (ig_fsm (g_input s1)) \<noteq> 0)"
    by (simp_all add: s1_def ev_def input_estop_edges(1))
  show ?thesis
  proof (cases "io_estop_active ev \<noteq> 0")
    case active: True
    have tick: "app_input_tick e s = estop_hold (e_now e)
        (if io_estop_enter ev \<noteq> 0 then estop_enter (e_now e) s1 else s1)"
      using False active by (simp add: input_tick_eq ev_def [symmetric] s1_def [symmetric] Let_def case_prod_unfold)
    show ?thesis
    proof (cases "io_estop_enter ev \<noteq> 0")
      case True
      have "weld_glue_ok s1" using assms(2) by (simp add: s1_def)
      note parks = estop_enter_parks(1,2) [OF this, of "e_now e"]
      show ?thesis
        unfolding estop_ok_def tick
        using True parks flag active by simp
    next
      case no: False
      then have "in_emsw_bak (ig_fsm (g_input s)) \<noteq> 0"
        using active input_estop_edges(2) [of "input_read e s" "ig_fsm (g_input s)"] by (simp add: ev_def)
      then have "\<not> out_sol_dn (g_out s)" "w_run_status (wg_fsm (g_weld s)) = WELD_READY"
        using assms(1) by (simp_all add: estop_ok_def)
      then show ?thesis
        unfolding estop_ok_def tick
        using no flag active by (simp add: s1_def)
    qed
  next
    case inactive: False
    then have tick: "app_input_tick e s = input_commands (e_now e) ev
        (if ig_estop_active (g_input s) \<noteq> 0
         then app_lcd_set_estop (e_now e) False (if io_estop_enter ev \<noteq> 0 then estop_enter (e_now e) s1 else s1)
         else if io_estop_enter ev \<noteq> 0 then estop_enter (e_now e) s1 else s1)"
      using False by (simp add: input_tick_eq ev_def [symmetric] s1_def [symmetric] Let_def case_prod_unfold)
    show ?thesis
      unfolding estop_ok_def tick
      using flag inactive by simp
  qed
qed

lemma estop_ok_weld_tick:
  assumes "estop_ok s" "weld_glue_ok s"
  shows "estop_ok (app_weld_tick e s)"
proof (cases "ig_estop_active (g_input s) = 0")
  case True
  then show ?thesis using assms(1) by (simp add: estop_ok_def)
next
  case active: False
  then have s: "\<not> out_sol_dn (g_out s)" "w_run_status (wg_fsm (g_weld s)) = WELD_READY"
    using assms(1) by (simp_all add: estop_ok_def)
  have ready: "w_run_status (wg_fsm (g_weld (app_weld_tick e s))) = WELD_READY"
  proof (rule ccontr)
    assume "w_run_status (wg_fsm (g_weld (app_weld_tick e s))) \<noteq> WELD_READY"
    then show False
      using active by (elim weld_leaves_ready [OF assms(2) s(2)])
        (simp add: app_reg_start_allowed_def query_defs)
  qed
  have "wg_sol_last (g_weld (app_weld_tick e s)) = 0"
    using weld_tick_ok [OF assms(2), of e] ready
    by (auto simp: weld_glue_ok_def weld_inv_def press_down_def)
  then have "\<not> out_sol_dn (g_out (app_weld_tick e s))"
    using s(1) weld_tick_pin [of e s] by auto
  then show ?thesis using assms(1) ready by (simp add: estop_ok_def)
qed

lemma estop_ok_horn_tick:
  assumes "estop_ok s" shows "estop_ok (app_horn_tick e s)"
proof -
  have "out_sol_dn (g_out (app_horn_tick e s)) \<longrightarrow> out_sol_dn (g_out s)"
    if "app_estop_active s \<noteq> 0"
    using that
    by (simp add: app_horn_tick_def Let_def case_prod_unfold io_sol_dn_def horn_read_def query_defs
        horn_fsm_step_def)
  then show ?thesis using assms by (auto simp: estop_ok_def query_defs)
qed

text \<open>The relay follows the debounced overload, and so does the flag.\<close>

definition ovld_ok :: "sys \<Rightarrow> bool" where
  "ovld_ok s \<longleftrightarrow> ov_active (og_ovld_fsm (g_ovld s)) \<in> {0, 1} \<and>
     og_ovld_active (g_ovld s) = ov_active (og_ovld_fsm (g_ovld s)) \<and>
     out_ovld_relay (g_out s) = (og_ovld_active (g_ovld s) \<noteq> 0)"

lemma ovld_step_flag: "ov_active f \<in> {0, 1} \<Longrightarrow> ov_active (fst (overload_fsm_step raw f)) \<in> {0, 1}"
  by (auto simp: overload_fsm_step_def Let_def)

lemma ovld_step_event:
  assumes "ov_active f \<in> {0, 1}"
  shows "snd (overload_fsm_step raw f) =
    (let a = ov_active (fst (overload_fsm_step raw f)) in
     if a = 1 then (if ov_active f = 0 then 3 else 1) else (if ov_active f = 0 then 0 else 4))"
  using assms by (auto simp: overload_fsm_step_def Let_def)

lemma ovld_parts [simp]:
  "g_ovld (ovld_assert now s) = (g_ovld s)\<lparr>og_ovld_blink_ms := now\<rparr>"
  "og_ovld_active (g_ovld (ovld_hold now s)) = og_ovld_active (g_ovld s)"
  "og_ovld_fsm (g_ovld (ovld_hold now s)) = og_ovld_fsm (g_ovld s)"
  "g_ovld (ovld_deassert now s) = g_ovld s"
  "g_out (ovld_assert now s) = (g_out s)\<lparr>out_ovld_relay := True\<rparr>"
  "g_out (ovld_hold now s) = g_out s" "g_out (ovld_deassert now s) = (g_out s)\<lparr>out_ovld_relay := False\<rparr>"
  "g_reg (ovld_assert now s) = g_reg s" "g_measure (ovld_assert now s) = g_measure s"
  "sg_pending_cmd (g_sr (ovld_deassert now s)) = SR_CMD_RESET"
  by (simp_all add: ovld_assert_def ovld_hold_def ovld_deassert_def io_ovld_relay_def Let_def
      app_seek_reset_request_def app_buzzer_beep_ms_def app_lcd_set_overload_def lcd_restore_run_page_def lcd_goto_def)

text \<open>A tick in its three shapes: nothing, the overload held, the overload released.\<close>

lemma overload_tick_shape:
  fixes e :: env
  assumes "ovld_ok s"
  defines "a0 \<equiv> ov_active (og_ovld_fsm (g_ovld s))"
    and "f \<equiv> fst (overload_fsm_step (e_overload e) (og_ovld_fsm (g_ovld s)))"
  defines "s1 \<equiv> s\<lparr>g_ovld := (g_ovld s)\<lparr>og_ovld_prev_ms := e_now e, og_ovld_fsm := f, og_ovld_active := ov_active f\<rparr>\<rparr>"
  shows "app_overload_tick e s =
    (if elapsed (e_now e) (og_ovld_prev_ms (g_ovld s)) < OVLD_TICK_MS then s
     else if ov_active f = 1
     then ovld_hold (e_now e) (if a0 = 0 then ovld_assert (e_now e) s1 else s1)
     else if a0 = 0 then s1 else ovld_deassert (e_now e) s1)"
proof -
  have a: "ov_active (og_ovld_fsm (g_ovld s)) \<in> {0, 1}" using assms(1) by (simp add: ovld_ok_def)
  have f: "ov_active f \<in> {0, 1}" unfolding f_def by (rule ovld_step_flag [OF a])
  note ev = ovld_step_event [OF a, of "e_overload e", folded f_def]
  consider "ov_active f = 0" "a0 = 0" | "ov_active f = 0" "a0 = 1" | "ov_active f = 1" "a0 = 0"
    | "ov_active f = 1" "a0 = 1" using a f by (auto simp: a0_def)
  then show ?thesis
    by cases (simp_all add: app_overload_tick_def Let_def case_prod_unfold ev s1_def a0_def
        f_def [symmetric])
qed

lemma ovld_ok_tick:
  assumes "ovld_ok s" shows "ovld_ok (app_overload_tick e s)"
proof -
  have a: "ov_active (og_ovld_fsm (g_ovld s)) \<in> {0, 1}" using assms by (simp add: ovld_ok_def)
  then show ?thesis
    using assms ovld_step_flag [OF a, of "e_overload e"]
    unfolding overload_tick_shape [OF assms] ovld_ok_def
    by auto
qed

section \<open>Properties\<close>

lemma ovld_stops:
  "rg_us_run_status (g_reg (ovld_hold now s)) =
     (if me_us_run_status (g_measure s) \<noteq> US_IDLE then US_IDLE else rg_us_run_status (g_reg s))"
  "rg_us_run_status (g_reg (ovld_deassert now s)) =
     (if me_us_run_status (g_measure s) \<noteq> US_IDLE then US_IDLE else rg_us_run_status (g_reg s))"
  by (simp_all add: ovld_hold_def ovld_deassert_def Let_def app_buzzer_beep_ms_def io_ovld_relay_def
      app_seek_reset_request_def app_lcd_set_overload_def lcd_restore_run_page_def lcd_goto_def
      stop_published_def reg_force_stop_def command_run_status query_defs)

text \<open>
  C18: The overload shuts the welder down. In every due tick the relay contact and the overload
  flag follow the debounced fault. While it stands, and in the tick that finds it gone, the tick
  ends the run in progress if the regulator has published one, whatever its source; a run not yet
  published survives this tick and falls to the next one after the publication. From a tick that
  leaves the fault standing on, no sequence of commands from any sources starts a run before the
  next tick of the overload. The tick that finds the fault gone requests the automatic reset; one
  without a fault before or after leaves the regulator alone.
\<close>

theorem overload_shuts_down:
  assumes "ovld_ok s" "OVLD_TICK_MS \<le> elapsed (e_now e) (og_ovld_prev_ms (g_ovld s))"
  shows "let f0 = og_ovld_fsm (g_ovld s); f = fst (overload_fsm_step (e_overload e) f0);
             s' = app_overload_tick e s; run = rg_us_run_status (g_reg s)
    in out_ovld_relay (g_out s') = (ov_active f \<noteq> 0) \<and>
       (app_overload_active s' \<noteq> 0) = (ov_active f \<noteq> 0) \<and>
       rg_us_run_status (g_reg s') =
         (if (ov_active f \<noteq> 0 \<or> ov_active f0 \<noteq> 0) \<and> me_us_run_status (g_measure s) \<noteq> US_IDLE
          then US_IDLE else run) \<and>
       (ov_active f \<noteq> 0 \<longrightarrow>
          (\<forall>cs. rg_us_run_status (g_reg (fold (\<lambda>(now, cmd, src). app_reg_command now cmd src) cs s')) =
             (if occurs US_CMD_RUN_RELEASE cs then US_IDLE else rg_us_run_status (g_reg s')))) \<and>
       (ov_active f = 0 \<and> ov_active f0 \<noteq> 0 \<longrightarrow> sg_pending_cmd (g_sr s') = SR_CMD_RESET) \<and>
       (ov_active f = 0 \<and> ov_active f0 = 0 \<longrightarrow> g_reg s' = g_reg s)"
proof -
  let ?f = "fst (overload_fsm_step (e_overload e) (og_ovld_fsm (g_ovld s)))"
  let ?t = "app_overload_tick e s"
  have a: "ov_active (og_ovld_fsm (g_ovld s)) \<in> {0, 1}" using assms(1) by (simp add: ovld_ok_def)
  note f = ovld_step_flag [OF a, of "e_overload e"]
  have late: "\<not> elapsed (e_now e) (og_ovld_prev_ms (g_ovld s)) < OVLD_TICK_MS" using assms(2) by simp
  note shape = overload_tick_shape [OF assms(1), of e]
  have ok: "ovld_ok ?t" by (rule ovld_ok_tick [OF assms(1)])
  have active: "og_ovld_active (g_ovld ?t) = ov_active ?f"
    using f late by (auto simp: shape)
  have relay: "out_ovld_relay (g_out ?t) = (ov_active ?f \<noteq> 0)" using ok active by (simp add: ovld_ok_def)
  have run: "rg_us_run_status (g_reg ?t) =
      (if (ov_active ?f \<noteq> 0 \<or> ov_active (og_ovld_fsm (g_ovld s)) \<noteq> 0) \<and> me_us_run_status (g_measure s) \<noteq> US_IDLE
       then US_IDLE else rg_us_run_status (g_reg s))"
    using f a late by (auto simp: shape ovld_stops)
  have "locked ?t" if "ov_active ?f \<noteq> 0" using that active by (simp add: locked_def)
  note hold = blocked_history [OF disjI1, OF this, unfolded run_commands_def]
  have gone: "ov_active ?f = 0 \<Longrightarrow> ov_active (og_ovld_fsm (g_ovld s)) \<noteq> 0 \<Longrightarrow> sg_pending_cmd (g_sr ?t) = SR_CMD_RESET"
    "ov_active ?f = 0 \<Longrightarrow> ov_active (og_ovld_fsm (g_ovld s)) = 0 \<Longrightarrow> g_reg ?t = g_reg s"
    using late by (simp_all add: shape)
  have flag: "(app_overload_active ?t \<noteq> 0) = (ov_active ?f \<noteq> 0)" by (simp add: app_overload_active_def active)
  show ?thesis
    unfolding Let_def using relay flag run hold gone by blast
qed

definition wit_ovld :: sys where
  "wit_ovld = (sys_zero MODEL_STD)\<lparr>
     g_ovld := \<lparr>og_ovld_fsm = \<lparr>ov_count = 4, ov_active = 0\<rparr>, og_ovld_prev_ms = 0, og_ovld_blink_ms = 0,
       og_ovld_active = 0\<rparr>,
     g_reg := reg_state_zero\<lparr>rg_us_run_status := US_TOUCH\<rparr>,
     g_measure := lcd_measure_zero\<lparr>me_us_run_status := US_TOUCH\<rparr>\<rparr>"

theorem overload_shuts_down_witness:
  "let s' = app_overload_tick ((wit_env 10)\<lparr>e_overload := 1\<rparr>) wit_ovld in
   out_ovld_relay (g_out s') \<and> rg_us_run_status (g_reg s') = US_IDLE \<and>
   rg_us_run_status (g_reg (app_reg_command 12 US_CMD_START US_COMM s')) = US_IDLE"
proof -
  let ?e = "(wit_env 10)\<lparr>e_overload := 1\<rparr>"
  have "ovld_ok wit_ovld" "OVLD_TICK_MS \<le> elapsed (e_now ?e) (og_ovld_prev_ms (g_ovld wit_ovld))"
    by (simp_all add: wit_ovld_def ovld_ok_def sys_zero_def wit_env_def elapsed_def)
  from overload_shuts_down [OF this]
  have r: "out_ovld_relay (g_out (app_overload_tick ?e wit_ovld))"
    "rg_us_run_status (g_reg (app_overload_tick ?e wit_ovld)) = US_IDLE"
    "\<forall>cs. rg_us_run_status (g_reg (fold (\<lambda>(now, cmd, src). app_reg_command now cmd src) cs (app_overload_tick ?e wit_ovld))) =
       (if occurs US_CMD_RUN_RELEASE cs then US_IDLE else rg_us_run_status (g_reg (app_overload_tick ?e wit_ovld)))"
    by (simp_all add: wit_ovld_def wit_env_def overload_fsm_step_def Let_def)
  from r(3) [THEN spec, of "[(12, US_CMD_START, US_COMM)]"] r(1,2) show ?thesis
    by (simp add: Let_def occurs_def)
qed

text \<open>
  C17: The emergency stop parks the machine. On a model with the switch (type above 1) the 10 ms
  tick that finds the switch newly pressed ends the run in progress whatever its source, returns
  the weld machine to READY, releases the cylinder and refuses every START while the flag stands;
  the commands of the connector keys are not issued in that tick.
\<close>

theorem estop_parks_machine:
  assumes "weld_glue_ok s" "INPUT_TICK_MS \<le> elapsed (e_now e) (ig_prev_ms (g_input s))"
    and "1 < model_type (g_cfg s)" "e_estop_seek e \<noteq> 0" "in_emsw_bak (ig_fsm (g_input s)) = 0"
  shows "let s' = app_input_tick e s in
    app_estop_active s' \<noteq> 0 \<and> rg_us_run_status (g_reg s') = US_IDLE \<and>
    w_run_status (wg_fsm (g_weld s')) = WELD_READY \<and> \<not> out_sol_dn (g_out s') \<and>
    sg_pending_cmd (g_sr s') = sg_pending_cmd (g_sr s) \<and>
    rg_us_run_status (g_reg (app_reg_command now US_CMD_START src s')) = US_IDLE"
proof -
  define ev where "ev = snd (input_fsm_step (input_read e s) (ig_fsm (g_input s)))"
  define s1 where "s1 = snd (input_scan e s)"
  have fst1: "fst (input_scan e s) = ev" by (simp add: ev_def)
  have ev: "io_estop_active ev \<noteq> 0" "io_estop_enter ev \<noteq> 0"
    using assms(3-5)
    by (simp_all add: ev_def input_fsm_step_def input_read_def Let_def not_le [symmetric])
  have tick: "app_input_tick e s = estop_hold (e_now e) (estop_enter (e_now e) s1)"
    using assms(2) ev
    by (simp add: input_tick_eq ev_def [symmetric] s1_def [symmetric] Let_def case_prod_unfold not_less [symmetric])
  have ok: "weld_glue_ok s1" using assms(1) by (simp add: s1_def)
  note parks = estop_enter_parks [OF ok, of "e_now e"]
  have active: "app_estop_active (app_input_tick e s) \<noteq> 0"
    using ev by (simp add: query_defs tick) (simp add: s1_def ev_def)
  have idle: "rg_us_run_status (g_reg (app_input_tick e s)) = US_IDLE"
    unfolding tick by (rule estop_hold_idle(1) [OF parks(3)])
  have pend: "sg_pending_cmd (g_sr (app_input_tick e s)) = sg_pending_cmd (g_sr s)"
    by (simp add: tick estop_enter_def app_lcd_set_estop_def app_lcd_input_run_key_reanchor_def
        app_lcd_hook_us_command_def lcd_goto_def io_sol_dn_def Let_def) (simp add: s1_def input_scan_def Let_def case_prod_unfold)
  show ?thesis
    using active idle parks(1,2) pend
    by (simp add: Let_def tick app_reg_command_def reg_cmd_start_def app_reg_start_allowed_def)
qed

definition wit_estop :: sys where
  "wit_estop = (sys_zero MODEL_STD)\<lparr>g_cfg := app_config_factory_defaults\<lparr>model_type := 2\<rparr>,
     g_reg := reg_state_zero\<lparr>rg_us_run_status := US_COMM\<rparr>\<rparr>"

theorem estop_parks_machine_witness:
  "rg_us_run_status (g_reg (app_input_tick ((wit_env 10)\<lparr>e_estop_seek := 1\<rparr>) wit_estop)) = US_IDLE \<and>
   rg_us_run_status (g_reg wit_estop) = US_COMM"
proof -
  have "weld_glue_ok wit_estop"
    by (simp add: weld_glue_ok_def wit_estop_def sys_zero_def weld_inv_init) (simp add: weld_fsm_init_def)
  then show ?thesis
    using estop_parks_machine [of wit_estop "(wit_env 10)\<lparr>e_estop_seek := 1\<rparr>"]
    by (simp add: wit_estop_def sys_zero_def wit_env_def elapsed_def Let_def input_fsm_init_def)
qed

end
