(* ===== verification/Mb_Rtu.thy ===== *)
theory Mb_Rtu
  imports Sys_Prelude
begin

text \<open>
  The serial port of the Modbus slave, \<open>fw/drivers/usart6_mb.c\<close>: a 256-byte ring that the DMA
  fills by itself, read by polling. A frame ends when the write position has not moved for the
  silence of the line speed. The registers of the peripheral are modelled by what they hold:
  line settings, ring, write position, bytes sent.
\<close>

section \<open>State\<close>

abbreviation (input) MB_RX_DMA_SIZE :: nat where "MB_RX_DMA_SIZE \<equiv> 256"

datatype rtu_parity = UART_PARITY_EVEN | UART_PARITY_ODD | UART_PARITY_NONE

record rtu_port =
  rp_open :: bool
  rp_baud :: u32
  rp_gap_ms :: u8
  rp_parity :: rtu_parity
  rp_word_bits :: nat
  rp_dma_buf :: "u8 list"
  rp_dma_pos :: u16
  rp_tail :: u16
  rp_prev_head :: u16
  rp_last_rx_ms :: u32
  rp_sent :: "u8 list list"

definition rtu_port_zero :: rtu_port where
  "rtu_port_zero = \<lparr>rp_open = False, rp_baud = 19200, rp_gap_ms = 2, rp_parity = UART_PARITY_NONE,
     rp_word_bits = 8, rp_dma_buf = replicate 256 0, rp_dma_pos = 0, rp_tail = 0, rp_prev_head = 0,
     rp_last_rx_ms = 0, rp_sent = []\<rparr>"

definition mb_baud :: "u32 list" where
  "mb_baud = [2400, 4800, 9600, 19200, 38400, 115200]"

definition mb_gap_ms :: "u8 list" where
  "mb_gap_ms = [14, 7, 4, 2, 2, 2]"

text \<open>The hardware writes a received byte and advances; the position wraps with the ring.\<close>

definition dma_rx :: "u8 \<Rightarrow> rtu_port \<Rightarrow> rtu_port" where
  "dma_rx b p = p\<lparr>rp_dma_buf := (rp_dma_buf p)[unat (rp_dma_pos p) := b],
     rp_dma_pos := (rp_dma_pos p + 1) AND 0xFF\<rparr>"

section \<open>Operations\<close>

definition rx_head :: "rtu_port \<Rightarrow> u16" where
  "rx_head p = rp_dma_pos p AND 0xFF"

definition mb_uart_reinit :: "u8 \<Rightarrow> u8 \<Rightarrow> rtu_port \<Rightarrow> rtu_port" where
  "mb_uart_reinit speed_idx parity_idx p =
     (let p = p\<lparr>rp_baud := (if speed_idx < 6 then mb_baud ! unat speed_idx else 19200),
                rp_gap_ms := (if speed_idx < 6 then mb_gap_ms ! unat speed_idx else 2)\<rparr>
      in if parity_idx = 0 then p\<lparr>rp_parity := UART_PARITY_EVEN, rp_word_bits := 9\<rparr>
         else if parity_idx = 1 then p\<lparr>rp_parity := UART_PARITY_ODD, rp_word_bits := 9\<rparr>
         else p\<lparr>rp_parity := UART_PARITY_NONE, rp_word_bits := 8\<rparr>)"

definition usart6_mb_open :: "u32 \<Rightarrow> u8 \<Rightarrow> u8 \<Rightarrow> rtu_port \<Rightarrow> rtu_port" where
  "usart6_mb_open now speed_idx parity_idx p =
     (if rp_open p then p
      else (mb_uart_reinit speed_idx parity_idx p)\<lparr>rp_tail := 0, rp_prev_head := 0,
             rp_last_rx_ms := now, rp_dma_pos := 0, rp_open := True\<rparr>)"

definition usart6_mb_close :: "rtu_port \<Rightarrow> rtu_port" where
  "usart6_mb_close p = (if \<not> rp_open p then p else p\<lparr>rp_open := False\<rparr>)"

text \<open>
  The copy loop from the read index to the write position, with the number of turns as fuel:
  the indices are below 256, so 256 turns reach the position. It returns the read index, the
  bytes kept and the count of all bytes.
\<close>

fun rtu_drain :: "nat \<Rightarrow> u8 list \<Rightarrow> nat \<Rightarrow> u16 \<Rightarrow> u16 \<Rightarrow> u8 list \<Rightarrow> u16 \<Rightarrow> u16 \<times> u8 list \<times> u16" where
  "rtu_drain 0 buf maxlen head tail acc n = (tail, acc, n)"
| "rtu_drain (Suc fuel) buf maxlen head tail acc n =
     (if tail = head then (tail, acc, n)
      else (let b = buf ! unat tail;
                acc = (if unat n < maxlen then acc @ [b] else acc)
            in rtu_drain fuel buf maxlen head ((tail + 1) AND 0xFF) acc (n + 1)))"

definition usart6_mb_rx_frame :: "u32 \<Rightarrow> nat \<Rightarrow> rtu_port \<Rightarrow> u8 list \<times> rtu_port" where
  "usart6_mb_rx_frame now maxlen p =
     (if \<not> rp_open p then ([], p)
      else
        (let head = rx_head p in
         if head \<noteq> rp_prev_head p then ([], p\<lparr>rp_prev_head := head, rp_last_rx_ms := now\<rparr>)
         else if head = rp_tail p then ([], p)
         else if elapsed now (rp_last_rx_ms p) < ucast (rp_gap_ms p) then ([], p)
         else
           (let (tail, buf, n) = rtu_drain MB_RX_DMA_SIZE (rp_dma_buf p) maxlen head (rp_tail p) [] 0;
                p = p\<lparr>rp_tail := tail\<rparr>
            in if maxlen < unat n then ([], p) else (buf, p))))"

text \<open>
  The send blocks; \<open>echo\<close> is what the receiver picked up meanwhile and \<open>now\<close> the time after it.
  The read index jumps to the write position, so none of it is ever parsed.
\<close>

definition usart6_mb_send :: "u32 \<Rightarrow> u8 list \<Rightarrow> u8 list \<Rightarrow> rtu_port \<Rightarrow> rtu_port" where
  "usart6_mb_send now echo buf p =
     (if \<not> rp_open p then p
      else
        (let p = fold dma_rx echo (p\<lparr>rp_sent := rp_sent p @ [buf]\<rparr>)
         in p\<lparr>rp_tail := rx_head p, rp_prev_head := rx_head p, rp_last_rx_ms := now\<rparr>))"

section \<open>The ring\<close>

lemma and_FF: "unat (x AND 0xFF :: u16) = unat x mod 256"
proof -
  have "x AND 0xFF = take_bit 8 x" by (simp add: take_bit_eq_mask mask_eq_exp_minus_1)
  then show ?thesis by (simp add: unsigned_take_bit_eq take_bit_nat_def)
qed

lemma unat_next: "unat ((x + 1) AND 0xFF :: u16) = Suc (unat x) mod 256"
proof -
  have "unat (x + 1) = (unat x + 1) mod 65536" by (simp add: unat_word_ariths)
  moreover have "(unat x + 1) mod 65536 mod 256 = (unat x + 1) mod 256"
    by (rule mod_mod_cancel) simp
  ultimately show ?thesis by (simp add: and_FF)
qed

definition port_ok :: "rtu_port \<Rightarrow> bool" where
  "port_ok p \<longleftrightarrow> length (rp_dma_buf p) = 256 \<and> unat (rp_dma_pos p) < 256 \<and> unat (rp_tail p) < 256"

lemma head_pos: "port_ok p \<Longrightarrow> rx_head p = rp_dma_pos p"
  by (rule unsigned_word_eqI [where ?'a = nat]) (simp add: rx_head_def and_FF port_ok_def)

lemma dma_keeps [simp]:
  "rp_open (dma_rx b p) = rp_open p" "rp_gap_ms (dma_rx b p) = rp_gap_ms p"
  "rp_tail (dma_rx b p) = rp_tail p" "rp_prev_head (dma_rx b p) = rp_prev_head p"
  "rp_last_rx_ms (dma_rx b p) = rp_last_rx_ms p" "rp_sent (dma_rx b p) = rp_sent p"
  by (simp_all add: dma_rx_def)

lemma dma_ok: "port_ok p \<Longrightarrow> port_ok (dma_rx b p)"
  by (simp add: port_ok_def dma_rx_def unat_next)

lemma dma_burst_keeps [simp]:
  "rp_open (fold dma_rx bs p) = rp_open p" "rp_gap_ms (fold dma_rx bs p) = rp_gap_ms p"
  "rp_tail (fold dma_rx bs p) = rp_tail p" "rp_prev_head (fold dma_rx bs p) = rp_prev_head p"
  "rp_last_rx_ms (fold dma_rx bs p) = rp_last_rx_ms p" "rp_sent (fold dma_rx bs p) = rp_sent p"
  by (induction bs arbitrary: p) simp_all

lemma dma_burst_ok: "port_ok p \<Longrightarrow> port_ok (fold dma_rx bs p)"
  by (induction bs arbitrary: p) (simp_all add: dma_ok)

lemma ring_index_inj:
  assumes "i < j" "j < 256" shows "(h + i) mod 256 \<noteq> (h + j :: nat) mod 256"
proof
  assume "(h + i) mod 256 = (h + j) mod 256"
  then have "256 dvd (h + j) - (h + i)" using assms(1) by (metis add_left_mono less_imp_le mod_eq_dvd_iff_nat)
  then show False using assms by (auto dest: dvd_imp_le)
qed

lemma dma_burst:
  assumes "port_ok p" "length bs \<le> 256"
  shows "unat (rp_dma_pos (fold dma_rx bs p)) = (unat (rp_dma_pos p) + length bs) mod 256 \<and>
    (\<forall>i < length bs. rp_dma_buf (fold dma_rx bs p) ! ((unat (rp_dma_pos p) + i) mod 256) = bs ! i)"
  using assms(2)
proof (induction bs rule: rev_induct)
  case Nil
  then show ?case using assms(1) by (simp add: port_ok_def)
next
  case (snoc b bs)
  let ?q = "fold dma_rx bs p" and ?h = "unat (rp_dma_pos p)"
  have pos: "unat (rp_dma_pos ?q) = (?h + length bs) mod 256"
    and buf: "\<And>i. i < length bs \<Longrightarrow> rp_dma_buf ?q ! ((?h + i) mod 256) = bs ! i"
    using snoc by simp_all
  have len: "length (rp_dma_buf ?q) = 256" using dma_burst_ok [OF assms(1)] by (simp add: port_ok_def)
  have new: "rp_dma_buf (dma_rx b ?q) ! ((?h + i) mod 256) = (bs @ [b]) ! i" if "i < Suc (length bs)" for i
  proof (cases "i = length bs")
    case True
    then show ?thesis using len by (simp add: dma_rx_def pos)
  next
    case False
    then have i: "i < length bs" using that by simp
    then have "(?h + i) mod 256 \<noteq> (?h + length bs) mod 256"
      using snoc.prems by (intro ring_index_inj) simp_all
    then show ?thesis using i buf [OF i] by (simp add: dma_rx_def pos nth_append)
  qed
  have "unat (rp_dma_pos (dma_rx b ?q)) = (?h + length (bs @ [b])) mod 256"
    by (simp add: dma_rx_def unat_next pos mod_Suc_eq)
  with new show ?case by simp
qed

lemma drain_exact:
  assumes "length bs < 256" "length bs \<le> fuel" "unat tail < 256"
    and "unat head = (unat tail + length bs) mod 256" "unat n + length bs < 65536"
    and "\<forall>i < length bs. buf ! ((unat tail + i) mod 256) = bs ! i"
  shows "rtu_drain fuel buf maxlen head tail acc n =
    (head, acc @ take (maxlen - unat n) bs, n + of_nat (length bs))"
  using assms
proof (induction bs arbitrary: fuel tail acc n)
  case Nil
  then have "unat head = unat tail" by simp
  then have "tail = head" by (intro unsigned_word_eqI [where ?'a = nat]) simp
  then show ?case by (cases fuel) simp_all
next
  case (Cons b bs)
  obtain f where f: "fuel = Suc f" "length bs \<le> f" using Cons.prems(2) by (cases fuel) auto
  let ?t = "(tail + 1) AND 0xFF"
  have "unat head \<noteq> unat tail"
    using Cons.prems(1,3,4) ring_index_inj [of 0 "Suc (length bs)" "unat tail"] by auto
  then have ne: "tail \<noteq> head" by auto
  have t: "unat ?t = (unat tail + 1) mod 256" by (simp add: unat_next)
  have n: "unat (n + 1) = Suc (unat n)" using Cons.prems(5) by (simp add: unat_word_ariths)
  have b: "buf ! unat tail = b" using Cons.prems(3,6) by auto
  have shift: "(unat ?t + i) mod 256 = (unat tail + Suc i) mod 256" for i
    by (simp add: t mod_add_left_eq)
  have "rtu_drain f buf maxlen head ?t acc' (n + 1) =
      (head, acc' @ take (maxlen - unat (n + 1)) bs, n + 1 + of_nat (length bs))" for acc'
  proof (rule Cons.IH)
    show "unat head = (unat ?t + length bs) mod 256" using Cons.prems(4) by (simp only: shift) simp
    show "\<forall>i < length bs. buf ! ((unat ?t + i) mod 256) = bs ! i"
    proof (intro allI impI)
      fix i assume "i < length bs"
      then show "buf ! ((unat ?t + i) mod 256) = bs ! i"
        using Cons.prems(6) [rule_format, of "Suc i"] by (simp only: shift) simp
    qed
  qed (use Cons.prems f n in \<open>auto simp: unat_next\<close>)
  note IH = this
  show ?case
  proof (cases "unat n < maxlen")
    case True
    then have "maxlen - unat n = Suc (maxlen - unat (n + 1))" using n by simp
    then show ?thesis using True ne b by (simp add: f IH)
  next
    case False
    then show ?thesis using ne n by (simp add: f IH)
  qed
qed

text \<open>A burst that has come to rest, read after the silence or before it.\<close>

lemma burst_read:
  fixes start :: u32
  assumes "port_ok p" "rp_open p" "rp_tail p = rp_dma_pos p" "bs \<noteq> []" "length bs < 256"
  defines "q \<equiv> (fold dma_rx bs p)\<lparr>rp_prev_head := rp_dma_pos (fold dma_rx bs p), rp_last_rx_ms := start\<rparr>"
  shows "rp_dma_pos q \<noteq> rp_dma_pos p" "rx_head q = rp_dma_pos q"
    "usart6_mb_rx_frame now maxlen q =
       (if elapsed now start < ucast (rp_gap_ms p) then ([], q)
        else (if length bs \<le> maxlen then bs else [], q\<lparr>rp_tail := rp_dma_pos q\<rparr>))"
proof -
  let ?q = "fold dma_rx bs p"
  have ok: "port_ok ?q" by (rule dma_burst_ok [OF assms(1)])
  have pos: "unat (rp_dma_pos ?q) = (unat (rp_dma_pos p) + length bs) mod 256"
    and buf: "\<forall>i < length bs. rp_dma_buf ?q ! ((unat (rp_dma_pos p) + i) mod 256) = bs ! i"
    using dma_burst [OF assms(1), of bs] assms(5) by simp_all
  have small: "unat (rp_dma_pos p) < 256" using assms(1) by (simp add: port_ok_def)
  have "rp_dma_pos ?q \<noteq> rp_dma_pos p"
    using ring_index_inj [of 0 "length bs" "unat (rp_dma_pos p)"] assms(4,5) pos small by auto
  then show moved: "rp_dma_pos q \<noteq> rp_dma_pos p" by (simp add: q_def)
  show head: "rx_head q = rp_dma_pos q" using head_pos [OF ok] by (simp add: rx_head_def q_def)
  have drain: "rtu_drain 256 (rp_dma_buf ?q) maxlen (rp_dma_pos ?q) (rp_tail p) [] 0 =
      (rp_dma_pos ?q, take maxlen bs, of_nat (length bs))"
    using drain_exact [of bs 256 "rp_tail p" "rp_dma_pos ?q" 0 "rp_dma_buf ?q" maxlen "[]"]
      assms(3,5) pos buf small by simp
  note drain' = drain [unfolded assms(3)]
  have n: "unat (of_nat (length bs) :: u16) = length bs" using assms(5) by (simp add: unat_of_nat)
  show "usart6_mb_rx_frame now maxlen q =
       (if elapsed now start < ucast (rp_gap_ms p) then ([], q)
        else (if length bs \<le> maxlen then bs else [], q\<lparr>rp_tail := rp_dma_pos q\<rparr>))"
    using assms(2,3) moved head by (simp add: q_def usart6_mb_rx_frame_def Let_def drain' n)
qed

section \<open>Properties\<close>

text \<open>
  C19: A frame on the serial line arrives whole and once. On an open port with nothing pending, a
  burst of 1 to 255 bytes (anywhere in the ring, across its end too) is not returned by the poll
  that sees it arrive; a second poll before the silence of the line speed has passed returns
  nothing and changes nothing; one after it returns the burst byte for byte, or nothing if it
  is longer than the buffer, and leaves the port with nothing pending.
\<close>

theorem rtu_frame_exact:
  assumes "port_ok p" "rp_open p" "rp_tail p = rp_dma_pos p" "rp_prev_head p = rp_dma_pos p"
    and "bs \<noteq> []" "length bs < 256"
  shows "let (f1, p1) = usart6_mb_rx_frame t1 maxlen (fold dma_rx bs p);
             (f2, p2) = usart6_mb_rx_frame t2 maxlen p1
         in f1 = [] \<and>
            (if elapsed t2 t1 < ucast (rp_gap_ms p) then f2 = [] \<and> p2 = p1
             else f2 = (if length bs \<le> maxlen then bs else []) \<and>
                  rp_tail p2 = rp_dma_pos p2 \<and> rp_prev_head p2 = rp_dma_pos p2)"
proof -
  let ?q = "fold dma_rx bs p"
  let ?q1 = "?q\<lparr>rp_prev_head := rp_dma_pos ?q, rp_last_rx_ms := t1\<rparr>"
  note read = burst_read [OF assms(1-3,5,6), where start = t1]
  have "usart6_mb_rx_frame t1 maxlen ?q = ([], ?q1)"
    using assms(2,4) read(1,2) by (simp add: usart6_mb_rx_frame_def Let_def rx_head_def)
  with read(3) [where now = t2 and maxlen = maxlen] show ?thesis by simp
qed

theorem rtu_frame_exact_witness:
  "let p = rtu_port_zero\<lparr>rp_open := True, rp_dma_pos := 254, rp_tail := 254, rp_prev_head := 254\<rparr>;
       (f1, p1) = usart6_mb_rx_frame 10 125 (fold dma_rx [1, 6, 0, 7] p)
   in f1 = [] \<and> fst (usart6_mb_rx_frame 12 125 p1) = [1, 6, 0, 7]"
proof -
  define p where "p = rtu_port_zero\<lparr>rp_open := True, rp_dma_pos := 254, rp_tail := 254, rp_prev_head := 254\<rparr>"
  have "port_ok p" "rp_open p" "rp_tail p = rp_dma_pos p" "rp_prev_head p = rp_dma_pos p"
    by (simp_all add: p_def port_ok_def rtu_port_zero_def)
  from rtu_frame_exact [OF this, of "[1, 6, 0, 7]" 10 125 12]
  show ?thesis
    by (simp add: Let_def case_prod_unfold p_def [symmetric] elapsed_def)
      (simp add: p_def rtu_port_zero_def)
qed

end
