(* ===== verification/Modbus_Glue.thy ===== *)
theory Modbus_Glue
  imports Fault_Glue Mb_Rtu
begin

text \<open>
  The glue between the Modbus core and the controller, \<open>fw/src/app_modbus.c\<close>: the mirror of
  the live values into the register table, the gate of the remote enable, the else-if chain that
  applies a written register (one change per message, clamped, echoed to the panel, saved), the
  commands with the hold-to-run session, the commit of staged communication settings, and the
  occupation of the serial line. The tick that composes them is in theory \<open>Comm_Tick\<close>.
\<close>

section \<open>The register map\<close>

abbreviation (input) MB_REG_WORK_CNTH :: nat where "MB_REG_WORK_CNTH \<equiv> 0x00"
abbreviation (input) MB_IDX_WORK_CNTL :: nat where "MB_IDX_WORK_CNTL \<equiv> 0x01"
abbreviation (input) MB_REG_DISP_POWER :: nat where "MB_REG_DISP_POWER \<equiv> 0x02"
abbreviation (input) MB_REG_DISP_AMP :: nat where "MB_REG_DISP_AMP \<equiv> 0x03"
abbreviation (input) MB_REG_DISP_FREQ :: nat where "MB_REG_DISP_FREQ \<equiv> 0x04"
abbreviation (input) MB_REG_DISP_ENERGY :: nat where "MB_REG_DISP_ENERGY \<equiv> 0x05"
abbreviation (input) MB_REG_OUT_POWER :: nat where "MB_REG_OUT_POWER \<equiv> 0x06"
abbreviation (input) MB_REG_ON_TIME :: nat where "MB_REG_ON_TIME \<equiv> 0x07"
abbreviation (input) MB_REG_ENERGY :: nat where "MB_REG_ENERGY \<equiv> 0x08"
abbreviation (input) MB_REG_TIMEOVER :: nat where "MB_REG_TIMEOVER \<equiv> 0x09"
abbreviation (input) MB_REG_DELAY1 :: nat where "MB_REG_DELAY1 \<equiv> 0x0A"
abbreviation (input) MB_REG_DELAY2 :: nat where "MB_REG_DELAY2 \<equiv> 0x0B"
abbreviation (input) MB_REG_DELAY3 :: nat where "MB_REG_DELAY3 \<equiv> 0x0C"
abbreviation (input) MB_REG_TRIGGER2 :: nat where "MB_REG_TRIGGER2 \<equiv> 0x0D"
abbreviation (input) MB_REG_TRIGGER3 :: nat where "MB_REG_TRIGGER3 \<equiv> 0x0E"
abbreviation (input) MB_REG_MULTI_T1 :: nat where "MB_REG_MULTI_T1 \<equiv> 0x0F"
abbreviation (input) MB_REG_MULTI_T2 :: nat where "MB_REG_MULTI_T2 \<equiv> 0x10"
abbreviation (input) MB_REG_MULTI_O1 :: nat where "MB_REG_MULTI_O1 \<equiv> 0x11"
abbreviation (input) MB_REG_MULTI_O2 :: nat where "MB_REG_MULTI_O2 \<equiv> 0x12"
abbreviation (input) MB_REG_RUN_MODE :: nat where "MB_REG_RUN_MODE \<equiv> 0x13"
abbreviation (input) MB_REG_EN_ENERGY :: nat where "MB_REG_EN_ENERGY \<equiv> 0x14"
abbreviation (input) MB_REG_EN_MULTI :: nat where "MB_REG_EN_MULTI \<equiv> 0x15"
abbreviation (input) MB_REG_EN_SAFTY :: nat where "MB_REG_EN_SAFTY \<equiv> 0x16"
abbreviation (input) MB_REG_MODEL_FREQ :: nat where "MB_REG_MODEL_FREQ \<equiv> 0x17"
abbreviation (input) MB_REG_MODEL_TYPE :: nat where "MB_REG_MODEL_TYPE \<equiv> 0x18"
abbreviation (input) MB_REG_RESET :: nat where "MB_REG_RESET \<equiv> 0x19"
abbreviation (input) MB_REG_SEEK :: nat where "MB_REG_SEEK \<equiv> 0x1A"
abbreviation (input) MB_REG_START :: nat where "MB_REG_START \<equiv> 0x1B"
abbreviation (input) MB_REG_STOP :: nat where "MB_REG_STOP \<equiv> 0x1C"
abbreviation (input) MB_REG_STATUS :: nat where "MB_REG_STATUS \<equiv> 0x1D"
abbreviation (input) MB_REG_COMM_MODE :: nat where "MB_REG_COMM_MODE \<equiv> 0x21"
abbreviation (input) MB_REG_CFG_CTRL :: nat where "MB_REG_CFG_CTRL \<equiv> 0x28"
abbreviation (input) MB_REG_CFG_STAT :: nat where "MB_REG_CFG_STAT \<equiv> 0x29"
abbreviation (input) MB_REG_REMOTE_CAP :: nat where "MB_REG_REMOTE_CAP \<equiv> 0x2A"
abbreviation (input) MB_REG_REMOTE_EN :: nat where "MB_REG_REMOTE_EN \<equiv> 0x2B"
abbreviation (input) MB_REG_REMOTE_EN_LEFT :: nat where "MB_REG_REMOTE_EN_LEFT \<equiv> 0x2C"
abbreviation (input) MB_REG_CAL_VAL :: nat where "MB_REG_CAL_VAL \<equiv> 0x2E"
abbreviation (input) MB_REG_FREQ_CAL_VAL :: nat where "MB_REG_FREQ_CAL_VAL \<equiv> 0x2F"
abbreviation (input) MB_REG_HORN_CMD :: nat where "MB_REG_HORN_CMD \<equiv> 0x30"
abbreviation (input) MB_REG_CFG_CAP :: nat where "MB_REG_CFG_CAP \<equiv> 0x31"
abbreviation (input) MB_REG_FEAT_CAP :: nat where "MB_REG_FEAT_CAP \<equiv> 0x32"
abbreviation (input) MB_START_TAP :: u16 where "MB_START_TAP \<equiv> 1"
abbreviation (input) MB_START_HOLD :: u16 where "MB_START_HOLD \<equiv> 2"
abbreviation (input) MB_START_KEEP :: u16 where "MB_START_KEEP \<equiv> 3"
abbreviation (input) MB_COMM_MODE_SERIAL :: u8 where "MB_COMM_MODE_SERIAL \<equiv> 0"

text \<open>The registers of the nine staged settings.\<close>

definition k_stg_reg :: "nat list" where
  "k_stg_reg = [0x1E, 0x1F, 0x20, 0x22, 0x23, 0x24, 0x25, 0x26, 0x27]"

definition mb_reg :: "nat \<Rightarrow> sys \<Rightarrow> u16" where
  "mb_reg r s = holding (mg_core (g_mb s)) ! r"

definition mb_core_upd :: "(mb_core \<Rightarrow> mb_core) \<Rightarrow> sys \<Rightarrow> sys" where
  "mb_core_upd f s = s\<lparr>g_mb := (g_mb s)\<lparr>mg_core := f (mg_core (g_mb s))\<rparr>\<rparr>"

definition mb_set :: "nat \<Rightarrow> u16 \<Rightarrow> sys \<Rightarrow> sys" where
  "mb_set r v = mb_core_upd (\<lambda>c. c\<lparr>holding := (holding c)[r := v]\<rparr>)"

definition mb_stage :: "(cfg_stage \<Rightarrow> cfg_stage) \<Rightarrow> sys \<Rightarrow> sys" where
  "mb_stage f s = s\<lparr>g_mb := (g_mb s)\<lparr>mg_stg := f (mg_stg (g_mb s))\<rparr>\<rparr>"

definition mb_hold :: "(hold_wdt \<Rightarrow> hold_wdt) \<Rightarrow> sys \<Rightarrow> sys" where
  "mb_hold f s = s\<lparr>g_mb := (g_mb s)\<lparr>mg_hwd := f (mg_hwd (g_mb s))\<rparr>\<rparr>"

section \<open>The mirror\<close>

definition stg_mirror_val :: "app_config \<Rightarrow> nat \<Rightarrow> u16" where
  "stg_mirror_val cfg idx =
     (if idx = 0 then ucast (comm_address cfg)
      else if idx = 1 then ucast (comm_speed_idx cfg)
      else if idx = 2 then ucast (comm_parity_idx cfg)
      else if idx = 3 then be16 (ether_ip cfg ! 0) (ether_ip cfg ! 1)
      else if idx = 4 then be16 (ether_ip cfg ! 2) (ether_ip cfg ! 3)
      else if idx = 5 then be16 (ether_nm cfg ! 0) (ether_nm cfg ! 1)
      else if idx = 6 then be16 (ether_nm cfg ! 2) (ether_nm cfg ! 3)
      else if idx = 7 then be16 (ether_gw cfg ! 0) (ether_gw cfg ! 1)
      else be16 (ether_gw cfg ! 2) (ether_gw cfg ! 3))"

definition mirror_cfg_fields :: "app_config \<Rightarrow> u16 list \<Rightarrow> u16 list" where
  "mirror_cfg_fields cfg h = h[
     MB_REG_WORK_CNTH := ucast (drop_bit 16 (work_cnt cfg)),
     MB_IDX_WORK_CNTL := ucast (work_cnt cfg),
     MB_REG_DELAY1 := limit_delay_time1 cfg,
     MB_REG_DELAY2 := limit_delay_time2 cfg,
     MB_REG_DELAY3 := limit_delay_time3 cfg,
     MB_REG_TRIGGER2 := limit_trigger_time2 cfg,
     MB_REG_TRIGGER3 := limit_trigger_time3 cfg,
     MB_REG_OUT_POWER := ucast (output_power cfg),
     MB_REG_ON_TIME := limit_on_time cfg,
     MB_REG_ENERGY := ucast (limit_energy cfg),
     MB_REG_MULTI_T1 := limit_mo_time1 cfg,
     MB_REG_MULTI_T2 := limit_mo_time2 cfg,
     MB_REG_MULTI_O1 := limit_mo_out1 cfg,
     MB_REG_MULTI_O2 := limit_mo_out2 cfg,
     MB_REG_TIMEOVER := limit_out_time cfg]"

text \<open>The inputs of the status word.\<close>

definition status_in :: "env \<Rightarrow> sys \<Rightarrow> mb_status_in" where
  "status_in e s =
     (let m = app_reg_measure s; sr = seek_reset_fsm_state (sg_fsm (g_sr s))
      in \<lparr>si_running = b2u (me_us_run_status m \<noteq> US_IDLE), si_estop = app_estop_active s,
          si_ovld = app_overload_active s,
          si_ovtime = b2u (me_error_status m AND ERR_OVTIME \<noteq> 0),
          si_sensor = app_weld_sensor_active e, si_horn = app_horn_mode_active s,
          si_seek = b2u (sr = SR_SEEK), si_reset = b2u (sr = SR_RESET)\<rparr>)"

definition mirror_disp_status :: "env \<Rightarrow> sys \<Rightarrow> u16 list \<Rightarrow> u16 list" where
  "mirror_disp_status e s h =
     (let cfg = g_cfg s; m = app_reg_measure s; disp_on = me_us_on_status m \<noteq> 0
      in h[MB_REG_DISP_POWER := (if disp_on then me_max_power m else me_last_power m),
           MB_REG_DISP_AMP := (if disp_on then me_max_amp m else me_last_amp m),
           MB_REG_DISP_FREQ := (if disp_on then me_curr_freq m else me_last_freq m),
           MB_REG_DISP_ENERGY := (if disp_on then ucast (me_curr_energy m) else ucast (me_last_energy m)),
           MB_REG_MODEL_FREQ := ucast (model_freq cfg),
           MB_REG_MODEL_TYPE := ucast (model_type cfg),
           MB_REG_RUN_MODE := ucast (run_mode cfg),
           MB_REG_EN_ENERGY := flag16 (energy_ctrl cfg),
           MB_REG_EN_MULTI := flag16 (multi_ctrl cfg),
           MB_REG_EN_SAFTY := ucast (f_safty cfg),
           MB_REG_CAL_VAL := cal_val cfg,
           MB_REG_FREQ_CAL_VAL := freq_cal_val cfg,
           MB_REG_STATUS := mb_status_bits (status_in e s)])"

definition mirror_staged :: "app_config \<Rightarrow> cfg_stage \<Rightarrow> u16 list \<Rightarrow> u16 list" where
  "mirror_staged cfg stg h =
     fold (\<lambda>i h. if cfg_stage_dirty stg i = 0 then h[k_stg_reg ! i := stg_mirror_val cfg i] else h)
       [0..<9] h"

definition mirror_stage_and_gate :: "sys \<Rightarrow> u16 list \<Rightarrow> u16 list" where
  "mirror_stage_and_gate s h =
     (let h = h[MB_REG_COMM_MODE := ucast (comm_mode (g_cfg s)),
                MB_REG_CFG_STAT := ucast (cs_stat (mg_stg (g_mb s))),
                MB_REG_CFG_CAP := 0xFA01,
                MB_REG_FEAT_CAP := 0x0001,
                MB_REG_HORN_CMD := ucast (app_horn_mode_active s)];
          h = mirror_staged (g_cfg s) (mg_stg (g_mb s)) h
      in case g_model s of
           MODEL_REMOTE \<Rightarrow> h[MB_REG_REMOTE_CAP := 0x5201,
                             MB_REG_REMOTE_EN := ucast (mg_ren_state (g_mb s)),
                             MB_REG_REMOTE_EN_LEFT := 0]
         | MODEL_STD \<Rightarrow> h)"

definition mirror_live :: "env \<Rightarrow> sys \<Rightarrow> sys" where
  "mirror_live e s =
     mb_core_upd (\<lambda>c. c\<lparr>holding := mirror_stage_and_gate s (mirror_disp_status e s
        (mirror_cfg_fields (g_cfg s) (holding c)))\<rparr>) s"

section \<open>The remote gate and the request stamp\<close>

definition app_modbus_note_remote :: "u32 \<Rightarrow> sys \<Rightarrow> sys" where
  "app_modbus_note_remote now s = s\<lparr>g_mb := (g_mb s)\<lparr>mg_remote_ms := now, mg_remote_seen := 1\<rparr>\<rparr>"

definition remote_en_step :: "env \<Rightarrow> sys \<Rightarrow> sys" where
  "remote_en_step e s =
     (case g_model s of
        MODEL_STD \<Rightarrow> s\<lparr>g_mb := (g_mb s)\<lparr>mg_ren_state := REN_ENABLED\<rparr>\<rparr>
      | MODEL_REMOTE \<Rightarrow>
          (let i = \<lparr>ri_now_ms = e_now e, ri_sw = b2u (e_remote_en e \<noteq> 0),
                    ri_last_req_ms = mg_remote_ms (g_mb s), ri_req_valid = mg_remote_seen (g_mb s),
                    ri_estop = app_estop_active s\<rparr>;
               (fsm, st) = remote_en_fsm_step i (mg_ren_fsm (g_mb s))
           in s\<lparr>g_mb := (g_mb s)\<lparr>mg_ren_fsm := fsm, mg_ren_state := st\<rparr>\<rparr>))"

definition app_remote_en_state :: "sys \<Rightarrow> u8" where
  "app_remote_en_state s = mg_ren_state (g_mb s)"

section \<open>A written register\<close>

definition gate_reject_body :: "u32 \<Rightarrow> sys \<Rightarrow> sys" where
  "gate_reject_body now s =
     (let s = mb_set MB_REG_START 0 (mb_set MB_REG_SEEK 0 (mb_set MB_REG_RESET 0 s));
          s = (if mb_reg MB_REG_STOP s = 1 then app_reg_command now US_CMD_RUN_RELEASE US_COMM s else s)
      in mb_set MB_REG_CFG_CTRL 0 (mb_set MB_REG_STOP 0 s))"

definition start_cmd_body :: "u32 \<Rightarrow> u16 \<Rightarrow> sys \<Rightarrow> sys" where
  "start_cmd_body now sv s =
     (if sv = MB_START_TAP
      then app_lcd_hook_set_pot (output_power (g_cfg s)) (app_reg_command now US_CMD_START US_COMM s)
      else if sv = MB_START_HOLD
      then if app_reg_start_allowed s
           then mb_hold (hold_wdt_arm now)
                  (app_lcd_hook_set_pot (output_power (g_cfg s))
                     (app_reg_command now US_CMD_START US_COMM s))
           else if hold_wdt_armed (mg_hwd (g_mb s)) \<noteq> 0 then mb_hold (hold_wdt_keep now) s
           else s
      else if sv = MB_START_KEEP then mb_hold (hold_wdt_keep now) s
      else s)"

definition stg_apply_to_cfg :: "cfg_stage \<Rightarrow> u16 \<Rightarrow> app_config \<Rightarrow> app_config" where
  "stg_apply_to_cfg stg d cfg =
     (let on = (\<lambda>i. d AND push_bit i 1 \<noteq> 0); v = (\<lambda>i. cs_val stg ! i);
          cfg = (if on 0 then cfg\<lparr>comm_address := ucast (v 0)\<rparr> else cfg);
          cfg = (if on 1 then cfg\<lparr>comm_speed_idx := ucast (v 1)\<rparr> else cfg);
          cfg = (if on 2 then cfg\<lparr>comm_parity_idx := ucast (v 2)\<rparr> else cfg);
          cfg = (if on 3 then cfg\<lparr>ether_ip := (ether_ip cfg)[0 := hi8 (v 3), 1 := lo8 (v 3)]\<rparr> else cfg);
          cfg = (if on 4 then cfg\<lparr>ether_ip := (ether_ip cfg)[2 := hi8 (v 4), 3 := lo8 (v 4)]\<rparr> else cfg);
          cfg = (if on 5 then cfg\<lparr>ether_nm := (ether_nm cfg)[0 := hi8 (v 5), 1 := lo8 (v 5)]\<rparr> else cfg);
          cfg = (if on 6 then cfg\<lparr>ether_nm := (ether_nm cfg)[2 := hi8 (v 6), 3 := lo8 (v 6)]\<rparr> else cfg);
          cfg = (if on 7 then cfg\<lparr>ether_gw := (ether_gw cfg)[0 := hi8 (v 7), 1 := lo8 (v 7)]\<rparr> else cfg)
      in if on 8 then cfg\<lparr>ether_gw := (ether_gw cfg)[2 := hi8 (v 8), 3 := lo8 (v 8)]\<rparr> else cfg)"

definition cfg_ctrl_commit_body :: "u16 \<Rightarrow> sys \<Rightarrow> sys" where
  "cfg_ctrl_commit_body d s =
     (let s = g_cfg_update (stg_apply_to_cfg (mg_stg (g_mb s)) d) s
      in if d AND CFG_STG_ETHER_MASK \<noteq> 0 then app_lcd_hook_ether_apply s else s)"

text \<open>
  The chain, from its end: each part hands over to the next when none of its comparisons
  fires. The flag of the result is \<open>save\<close>.
\<close>

definition apply_staged :: "u32 \<Rightarrow> sys \<Rightarrow> sys" where
  "apply_staged now s =
     (case find (\<lambda>i. of_nat (k_stg_reg ! i) = last_write_addr (mg_core (g_mb s))) [0..<9] of
        None \<Rightarrow> s
      | Some i \<Rightarrow> mb_stage (cfg_stage_write i (mb_reg (k_stg_reg ! i) s) now) s)"

text \<open>One field edited and echoed to the panel.\<close>

definition edit :: "(app_config \<Rightarrow> app_config) \<Rightarrow> (sys \<Rightarrow> sys) \<Rightarrow> sys \<Rightarrow> sys \<times> bool" where
  "edit f echo s = (echo (g_cfg_update f s), True)"

definition apply_model :: "u32 \<Rightarrow> sys \<Rightarrow> sys \<times> bool" where
  "apply_model now s =
     (let c = g_cfg s in
      if mb_reg MB_REG_MODEL_FREQ s \<noteq> ucast (model_freq c) then
        (let v = ucast (mb_reg MB_REG_MODEL_FREQ s) in
         edit (\<lambda>c. c\<lparr>model_freq := v\<rparr>)
           (\<lambda>s. tx_u16 MODEL_FREQ (ucast v) (app_lcd_send_model_str v (model_type c) s)) s)
      else if mb_reg MB_REG_MODEL_TYPE s \<noteq> ucast (model_type c) then
        (let v = ucast (mb_reg MB_REG_MODEL_TYPE s) in
         edit (\<lambda>c. c\<lparr>model_type := v\<rparr>)
           (\<lambda>s. tx_u16 MODEL_TYPE (ucast v) (app_lcd_send_model_str (model_freq c) v s)) s)
      else if mb_reg MB_REG_CAL_VAL s \<noteq> cal_val c then
        (let v = cfg_cal_from_wire (mb_reg MB_REG_CAL_VAL s) in
         edit (\<lambda>c. c\<lparr>cal_val := v\<rparr>) (tx_u16 VAR_CAL_VAL v) s)
      else if mb_reg MB_REG_FREQ_CAL_VAL s \<noteq> freq_cal_val c then
        (let v = cfg_cal_from_wire (mb_reg MB_REG_FREQ_CAL_VAL s) in
         edit (\<lambda>c. c\<lparr>freq_cal_val := v\<rparr>) (tx_u16 VAR_FREQ_CAL_VAL v) s)
      else if mb_work_cnt_reset_req (mg_core (g_mb s)) (work_cnt c) \<noteq> 0 then
        edit (\<lambda>c. c\<lparr>work_cnt := 0\<rparr>) (app_lcd_set_work_cnt 0) s
      else (apply_staged now s, False))"

definition apply_modes :: "u32 \<Rightarrow> sys \<Rightarrow> sys \<times> bool" where
  "apply_modes now s =
     (let c = g_cfg s; en = mb_reg MB_REG_EN_ENERGY s; mu = mb_reg MB_REG_EN_MULTI s in
      if mb_reg MB_REG_RUN_MODE s \<noteq> ucast (run_mode c) then
        edit (\<lambda>c. c\<lparr>run_mode := ucast (mb_reg MB_REG_RUN_MODE s)\<rparr>) (\<lambda>s. s) s
      else if en = 0 \<and> energy_ctrl c \<or> en = 1 \<and> \<not> energy_ctrl c then
        edit (\<lambda>c. c\<lparr>energy_ctrl := (en = 1)\<rparr>) (tx_u16 DISP_ENERGY_EN (flag16 (en = 1))) s
      else if mu = 0 \<and> multi_ctrl c \<or> mu = 1 \<and> \<not> multi_ctrl c then
        edit (\<lambda>c. c\<lparr>multi_ctrl := (mu = 1)\<rparr>) (tx_u16 DISP_MULTI_EN (flag16 (mu = 1))) s
      else if mb_reg MB_REG_EN_SAFTY s \<noteq> ucast (f_safty c) then
        (let sf = b2u (mb_reg MB_REG_EN_SAFTY s = 1) in
         if sf \<noteq> f_safty c
         then edit (\<lambda>c. c\<lparr>f_safty := sf\<rparr>) (tx_u16 DISP_SAFTY (ucast sf)) s
         else (s, False))
      else if mb_reg MB_REG_HORN_CMD s \<noteq> ucast (app_horn_mode_active s) then
        (let s = app_horn_set_mode (mb_reg MB_REG_HORN_CMD s \<noteq> 0) s
         in (tx_u16 DISP_HORNDOWN (ucast (app_horn_mode_active s)) s, False))
      else apply_model now s)"

definition apply_outputs :: "u32 \<Rightarrow> sys \<Rightarrow> sys \<times> bool" where
  "apply_outputs now s =
     (let c = g_cfg s in
      if mb_reg MB_REG_OUT_POWER s \<noteq> ucast (output_power c) then
        (let v = ucast (cfg_clamp_power (mb_reg MB_REG_OUT_POWER s)) in
         edit (\<lambda>c. c\<lparr>output_power := v\<rparr>) (tx_u16 LV_OUT_POWER (ucast v)) s)
      else if mb_reg MB_REG_ON_TIME s \<noteq> limit_on_time c then
        (let v = cfg_clamp_max (mb_reg MB_REG_ON_TIME s) 2000 in
         edit (\<lambda>c. c\<lparr>limit_on_time := v\<rparr>) (tx_u16 LV_MAX_ON_TIME v) s)
      else if mb_reg MB_REG_ENERGY s \<noteq> ucast (limit_energy c) then
        (let v = ucast (mb_reg MB_REG_ENERGY s) in
         edit (\<lambda>c. c\<lparr>limit_energy := v\<rparr>)
           (\<lambda>s. tx_u16 LV_ENERGY_EDIT (ucast v) (tx_u32 LV_ENERGY_VAL v s)) s)
      else if mb_reg MB_REG_MULTI_T1 s \<noteq> limit_mo_time1 c then
        (let v = cfg_clamp_max (mb_reg MB_REG_MULTI_T1 s) 2000 in
         edit (\<lambda>c. c\<lparr>limit_mo_time1 := v\<rparr>) (tx_u16 LV_MO_TIME1 v) s)
      else if mb_reg MB_REG_MULTI_T2 s \<noteq> limit_mo_time2 c then
        (let v = cfg_clamp_max (mb_reg MB_REG_MULTI_T2 s) 2000 in
         edit (\<lambda>c. c\<lparr>limit_mo_time2 := v\<rparr>) (tx_u16 LV_MO_TIME2 v) s)
      else if mb_reg MB_REG_MULTI_O1 s \<noteq> limit_mo_out1 c then
        (let v = cfg_clamp_power (mb_reg MB_REG_MULTI_O1 s) in
         edit (\<lambda>c. c\<lparr>limit_mo_out1 := v\<rparr>) (tx_u16 LV_MO_OUT1 v) s)
      else if mb_reg MB_REG_MULTI_O2 s \<noteq> limit_mo_out2 c then
        (let v = cfg_clamp_power (mb_reg MB_REG_MULTI_O2 s) in
         edit (\<lambda>c. c\<lparr>limit_mo_out2 := v\<rparr>) (tx_u16 LV_MO_OUT2 v) s)
      else if mb_reg MB_REG_TIMEOVER s \<noteq> limit_out_time c then
        (let v = cfg_clamp_max (mb_reg MB_REG_TIMEOVER s) 10 in
         edit (\<lambda>c. c\<lparr>limit_out_time := v\<rparr>) (tx_u16 LV_LIMIT_OUT_T v) s)
      else apply_modes now s)"

definition apply_timings :: "u32 \<Rightarrow> sys \<Rightarrow> sys \<times> bool" where
  "apply_timings now s =
     (let c = g_cfg s in
      if mb_reg MB_REG_DELAY1 s \<noteq> limit_delay_time1 c then
        (let v = cfg_clamp_max (mb_reg MB_REG_DELAY1 s) 500 in
         edit (\<lambda>c. c\<lparr>limit_delay_time1 := v\<rparr>) (tx_u16 LV_DM_DELAY v) s)
      else if mb_reg MB_REG_DELAY2 s \<noteq> limit_delay_time2 c then
        (let v = cfg_clamp_max (mb_reg MB_REG_DELAY2 s) 500 in
         edit (\<lambda>c. c\<lparr>limit_delay_time2 := v\<rparr>) (tx_u16 LV_DM_WELD v) s)
      else if mb_reg MB_REG_DELAY3 s \<noteq> limit_delay_time3 c then
        (let v = cfg_clamp_max (mb_reg MB_REG_DELAY3 s) 2000 in
         edit (\<lambda>c. c\<lparr>limit_delay_time3 := v\<rparr>) (tx_u16 LV_DM_HOLD v) s)
      else if mb_reg MB_REG_TRIGGER2 s \<noteq> limit_trigger_time2 c then
        (let v = cfg_clamp_max (mb_reg MB_REG_TRIGGER2 s) 500 in
         edit (\<lambda>c. c\<lparr>limit_trigger_time2 := v\<rparr>) (tx_u16 LV_TM_WELD v) s)
      else if mb_reg MB_REG_TRIGGER3 s \<noteq> limit_trigger_time3 c then
        (let v = cfg_clamp_max (mb_reg MB_REG_TRIGGER3 s) 2000 in
         edit (\<lambda>c. c\<lparr>limit_trigger_time3 := v\<rparr>) (tx_u16 LV_TM_HOLD v) s)
      else apply_outputs now s)"

definition apply_cfg_ctrl :: "mb_link \<Rightarrow> u16 \<Rightarrow> sys \<Rightarrow> sys \<times> bool" where
  "apply_cfg_ctrl link ctrl s =
     (if ctrl = 1
      then (let d = cs_dirty (mg_stg (g_mb s));
                (stg, ok) = cfg_stage_commit link (me_us_on_status (app_reg_measure s)) (mg_stg (g_mb s));
                s = mb_stage (\<lambda>_. stg) s
            in if ok \<noteq> 0 then (cfg_ctrl_commit_body d s, True) else (s, False))
      else if ctrl = 2 then (mb_stage cfg_stage_discard s, False)
      else (s, False))"

definition apply_chain :: "u32 \<Rightarrow> mb_link \<Rightarrow> sys \<Rightarrow> sys \<times> bool" where
  "apply_chain now link s =
     (if mb_reg MB_REG_RESET s = 1
      then (mb_set MB_REG_RESET 0 (app_reg_command now US_CMD_RESET US_COMM s), False)
      else if mb_reg MB_REG_SEEK s = 1
      then (mb_set MB_REG_SEEK 0 (app_reg_command now US_CMD_SEEK US_COMM s), False)
      else if mb_reg MB_REG_START s \<noteq> 0
      then (start_cmd_body now (mb_reg MB_REG_START s) (mb_set MB_REG_START 0 s), False)
      else if mb_reg MB_REG_STOP s = 1
      then (mb_set MB_REG_STOP 0 (app_reg_command now US_CMD_RUN_RELEASE US_COMM s), False)
      else if mb_reg MB_REG_CFG_CTRL s \<noteq> 0
      then apply_cfg_ctrl link (mb_reg MB_REG_CFG_CTRL s) (mb_set MB_REG_CFG_CTRL 0 s)
      else apply_timings now s)"

definition app_modbus_apply_writes :: "u32 \<Rightarrow> mb_link \<Rightarrow> sys \<Rightarrow> sys" where
  "app_modbus_apply_writes now link s =
     (if mg_ren_state (g_mb s) \<noteq> REN_ENABLED then gate_reject_body now s
      else
        (let (s, save) = apply_chain now link s
         in if save
            then app_lcd_run_std_refresh (g_i2c_update (app_config_save_all (g_cfg s)) s)
            else s))"

section \<open>The serial line\<close>

definition apply_config :: "env \<Rightarrow> rtu_port \<times> sys \<Rightarrow> rtu_port \<times> sys" where
  "apply_config e ps =
     (let (p, s) = ps; cfg = g_cfg s; mb = g_mb s;
          want = (comm_mode cfg = MB_COMM_MODE_SERIAL \<and> comm_address cfg \<noteq> 0)
      in if want \<and> mg_owned mb \<noteq> 0 \<and> comm_speed_idx cfg = mg_speed_idx mb \<and>
            comm_parity_idx cfg = mg_parity_idx mb
         then if comm_address cfg \<noteq> mg_addr mb
              then (p, s\<lparr>g_mb := mb\<lparr>mg_addr := comm_address cfg,
                        mg_core := (mg_core mb)\<lparr>device_addr := comm_address cfg\<rparr>\<rparr>\<rparr>)
              else (p, s)
         else if \<not> want \<and> mg_owned mb = 0 then (p, s)
         else
           (let (p, s) = (if mg_owned mb \<noteq> 0
                          then (usart6_mb_close p, s\<lparr>g_mb := (g_mb s)\<lparr>mg_owned := 0\<rparr>\<rparr>)
                          else (p, s))
            in if want
               then (usart6_mb_open (e_now e) (comm_speed_idx cfg) (comm_parity_idx cfg) p,
                     mirror_live e (s\<lparr>g_mb := (g_mb s)\<lparr>mg_stg := cfg_stage_discard (mg_stg (g_mb s)),
                       mg_core := mb_core_init (comm_address cfg), mg_owned := 1,
                       mg_speed_idx := comm_speed_idx cfg, mg_parity_idx := comm_parity_idx cfg,
                       mg_addr := comm_address cfg\<rparr>\<rparr>))
               else (p, s)))"

definition app_modbus_init :: "env \<Rightarrow> rtu_port \<times> sys \<Rightarrow> rtu_port \<times> sys" where
  "app_modbus_init e ps =
     (let (p, s) = ps; mb = (g_mb s)\<lparr>mg_owned := 0, mg_speed_idx := 0, mg_parity_idx := 0, mg_addr := 0\<rparr>;
          mb = (case g_model s of
                  MODEL_REMOTE \<Rightarrow> mb\<lparr>mg_ren_fsm := remote_en_fsm_init, mg_ren_state := REN_DISABLED\<rparr>
                | MODEL_STD \<Rightarrow> mb\<lparr>mg_ren_state := REN_ENABLED\<rparr>);
          mb = mb\<lparr>mg_hwd := hold_wdt_init (mg_hwd mb), mg_stg := cfg_stage_init,
                  mg_core := mb_core_init 0\<rparr>
      in apply_config e (p, s\<lparr>g_mb := mb\<rparr>))"

end
