(* ===== verification/Panel_Client.thy ===== *)
theory Panel_Client
  imports Panel
begin

text \<open>
  What the panel may touch. Through its pages, keys, save, roll-back and tick, the panel changes
  its own records, the configuration, the FRAM and the digital potentiometer, and sends frames;
  on the rest of the machine it acts only through the run command of the regulator and the mode
  switch of the horn. A predicate over the machine that these respect therefore survives
  everything the panel does.
\<close>

section \<open>What a send leaves alone\<close>

text \<open>The receive side of the panel link: the ring and the parser.\<close>

definition rx_part :: "dgus_st \<Rightarrow> dgus_st" where
  "rx_part d = d\<lparr>dg_sent := [], dg_tx_timeouts := [], dg_tx_timeout_count := 0\<rparr>"

lemma rx_part_fields:
  assumes "rx_part d' = rx_part d"
  shows "dg_rx_ring d' = dg_rx_ring d" "dg_parse_state d' = dg_parse_state d"
    "dg_frame_buf d' = dg_frame_buf d" "dg_frame_idx d' = dg_frame_idx d"
    "dg_bytes_remaining d' = dg_bytes_remaining d" "parser_ok d' = parser_ok d"
proof -
  have "dg_rx_ring (rx_part d) = dg_rx_ring d" "dg_parse_state (rx_part d) = dg_parse_state d"
    "dg_frame_buf (rx_part d) = dg_frame_buf d" "dg_frame_idx (rx_part d) = dg_frame_idx d"
    "dg_bytes_remaining (rx_part d) = dg_bytes_remaining d" "parser_ok (rx_part d) = parser_ok d" for d
    by (simp_all add: rx_part_def parser_ok_def)
  then show "dg_rx_ring d' = dg_rx_ring d" "dg_parse_state d' = dg_parse_state d"
    "dg_frame_buf d' = dg_frame_buf d" "dg_frame_idx d' = dg_frame_idx d"
    "dg_bytes_remaining d' = dg_bytes_remaining d" "parser_ok d' = parser_ok d"
    using assms by metis+
qed

lemma rx_part_send [simp]: "rx_part (send_frame cmd vp pl d) = rx_part d"
  by (simp add: rx_part_def send_frame_def usart1_send_blocking_def Let_def split: list.split)

lemma rx_part_builders [simp]:
  "rx_part (dgus_set_page page d) = rx_part d" "rx_part (dgus_write_u16 vp v d) = rx_part d"
  "rx_part (dgus_write_u32 vp w d) = rx_part d" "rx_part (dgus_write_bytes vp bs d) = rx_part d"
  "rx_part (dgus_write_u16_array vp ws d) = rx_part d" "rx_part (dgus_write_text vp bs d) = rx_part d"
  "rx_part (dgus_read_var var d) = rx_part d"
  by (simp_all add: dgus_set_page_def dgus_write_u16_def dgus_write_u32_def dgus_write_bytes_def
      dgus_write_u16_array_def dgus_write_text_def dgus_read_var_def)

section \<open>The interface\<close>

locale panel_client =
  fixes P :: "sys \<Rightarrow> bool"
  assumes lcd: "P (g_lcd_update f s) = P s"
    and disp: "P (g_disp_update f2 s) = P s"
    and cfg: "P (g_cfg_update f3 s) = P s"
    and i2c: "P (g_i2c_update f4 s) = P s"
    and tx: "(\<And>d. rx_part (f5 d) = rx_part d) \<Longrightarrow> P (g_dgus_update f5 s) = P s"
    and command: "P s \<Longrightarrow> P (app_reg_command now cmd US_TOUCH s)"
    and horn: "P s \<Longrightarrow> P (app_horn_set_mode on s)"
begin

lemmas ops = lcd disp cfg i2c tx

lemma tx_if: "P (if b then x else y) = (if b then P x else P y)"
  by simp

lemma pages:
  "P (app_lcd_hook_set_pot p s) = P s" "P (app_lcd_send_model_str a b s) = P s"
  "P (app_lcd_run_std_refresh s) = P s" "P (app_lcd_hook_ether_apply s) = P s"
  "P (app_lcd_weld_sensor_text on s) = P s" "P (app_lcd_var_init s) = P s"
  by (simp_all add: ops app_lcd_hook_set_pot_def app_lcd_send_model_str_def
      app_lcd_run_std_refresh_def app_lcd_hook_ether_apply_def app_lcd_weld_sensor_text_def
      app_lcd_var_init_def Let_def)

lemma render: "P (render_page p s) = P s"
proof -
  have "P (comm_seed s) = P s" for s by (simp add: ops comm_seed_def Let_def)
  then have "P (render_comm_page s) = P s" for s by (simp add: ops render_comm_page_def Let_def)
  moreover have "P (render_setup_main s) = P s" for s by (simp add: ops pages render_setup_main_def Let_def)
  ultimately show ?thesis by (simp add: ops pages render_page_def Let_def)
qed

lemma change_page: "P (app_lcd_change_page now p s) = P s"
  by (simp add: ops render app_lcd_change_page_def render_comm_tail_def Let_def)

lemma init_mode: "P (app_lcd_init_mode now s) = P s"
  by (simp add: ops pages change_page app_lcd_init_mode_def Let_def)

lemma disp_step: "P (app_lcd_disp_step now s) = P s"
  by (simp add: ops app_lcd_disp_step_def disp_send_val_def disp_icons_def Let_def)

lemma events:
  "P (app_lcd_icon vp on s) = P s" "P (app_lcd_set_work_cnt c s) = P s" "P (lcd_goto p s) = P s"
  "P (lcd_restore_run_page s) = P s" "P (app_lcd_set_overload on s) = P s"
  "P s \<Longrightarrow> P (app_lcd_input_run_key_reanchor now s)" "P s \<Longrightarrow> P (app_lcd_set_estop now on s)"
  by (simp_all add: ops command app_lcd_hook_us_command_def app_lcd_icon_def app_lcd_set_work_cnt_def lcd_goto_def lcd_restore_run_page_def
      app_lcd_input_run_key_reanchor_def app_lcd_set_overload_def app_lcd_set_estop_def Let_def)

lemma tick: "P s \<Longrightarrow> P (app_lcd_tick e s)"
  by (simp add: ops events disp_step app_lcd_tick_def app_lcd_fault_cleared_def app_lcd_show_error_def Let_def)

lemma comm_edits:
  "P (handle_comm_addr d s) = P s" "P (handle_comm_speed d s) = P s" "P (handle_comm_parity d s) = P s"
  "P (handle_comm_mode now d s) = P s" "P (handle_ether_key d s) = P s"
  by (simp_all add: ops change_page handle_comm_addr_def handle_comm_speed_def handle_comm_parity_def
      handle_comm_mode_def swap_page_def handle_ether_key_def ether_echo_def Let_def)

lemma commits:
  "P (commit_comm_serial_shadows s) = P s" "P (commit_comm_mode_and_ether s) = P s" "P (commit_cnt_reset s) = P s"
  by (simp_all add: ops pages commit_comm_serial_shadows_def commit_comm_mode_and_ether_def
      commit_cnt_reset_def app_lcd_hook_comm_reconfigure_def Let_def)

lemma save: "P s \<Longrightarrow> P (data_save_commit now s)"
  by (simp add: ops pages change_page commits horn app_lcd_hook_horn_def data_save_commit_def
      save_by_page_def Let_def)

lemma cancel: "P (data_save_cancel now s) = P s"
  by (simp add: ops pages change_page data_save_cancel_def Let_def case_prod_unfold)

lemma run_keys:
  "P s \<Longrightarrow> P (app_lcd_hook_us_command now cmd s)" "P s \<Longrightarrow> P (handle_key_multi now d s)"
  "P s \<Longrightarrow> P (handle_key_error_reset now d s)"
  by (simp_all add: ops pages events command app_lcd_hook_us_command_def run_key_start_def
      handle_key_multi_def handle_key_error_reset_def Let_def)

lemma setup_keys:
  "P (enter_model_setup s) = P s" "P (handle_std_setup_param now d s) = P s"
  "P (handle_setup_param_enter now s) = P s" "P (handle_run_mode now d s) = P s"
  "P s \<Longrightarrow> P (handle_sys_pic_now now d s)"
  by (simp_all add: ops pages events change_page init_mode enter_model_setup_def handle_std_setup_param_def
      goto_setup1_def goto_setup2_def lcd_change_to_def handle_setup_param_enter_def handle_run_mode_def
      handle_sys_pic_now_def Let_def)

lemma clamps:
  "P (clamp_echo_max vp d m upd s) = P s" "P (clamp_echo_power vp d upd s) = P s"
  "P (mo_time_order s) = P s" "P (edit_model upd2 s) = P s"
  by (simp_all add: ops pages clamp_echo_max_def clamp_echo_power_def echo_if_clamped_def
      mo_time_order_def edit_model_def Let_def)

lemma edits: "P s \<Longrightarrow> pred_option P (edit_limits vp d s)"
  unfolding edit_limits_def Let_def
  by (intro opt_if) (simp_all add: ops clamps)

lemma long_press: "P s \<Longrightarrow> (\<And>t. P t \<Longrightarrow> P (act t)) \<Longrightarrow> P (on_long_press now vp d act s)"
  by (simp add: on_long_press_def ops Let_def case_prod_unfold)

lemma dispatch: "P s \<Longrightarrow> P (app_lcd_input_dispatch now f s)"
  using edits [of s "fr_vp_addr f" "be16 (fr_data f ! 1) (fr_data f ! 2)"]
  by (auto simp: app_lcd_input_dispatch_def dispatch_key_def run_keys setup_keys save cancel comm_edits
      Let_def intro!: long_press split: option.split)

end

text \<open>The receive side itself is such a predicate: no operation of the panel takes bytes from the ring.\<close>

interpretation rx_side: panel_client "\<lambda>s. rx_part (g_dgus s) = r"
  by unfold_locales simp_all

end
