(* ===== verification/Modbus_Writes.thy ===== *)
theory Modbus_Writes
  imports Modbus_Glue Panel_Client
begin

text \<open>
  What a written register does. The locale \<open>write_ops\<close> is the contract of the glue towards the
  other files: a property of the system that survives each primitive operation the glue uses
  survives every write. Its instances carry the invariants of the regulator, the panel, the press,
  the pins and the disturbances over the Modbus port.
\<close>

section \<open>A commit keeps the configuration in range\<close>

lemma commit_keeps_cfg:
  assumes "snd (cfg_stage_commit link r stg) \<noteq> 0" "cfg_ok c"
  shows "cfg_ok (stg_apply_to_cfg stg (cs_dirty stg) c)"
proof -
  let ?d = "cs_dirty stg" and ?v = "\<lambda>i. cs_val stg ! i"
  have r: "?d AND push_bit 1 1 \<noteq> 0 \<Longrightarrow> ?v 1 \<le> 5" "?d AND push_bit 2 1 \<noteq> 0 \<Longrightarrow> ?v 2 \<le> 2"
    using assms(1) by (auto simp: cfg_stage_commit_def Let_def not_less split: if_splits)
  have b: "unat (ucast v :: u8) \<le> k" if "v \<le> of_nat k" "k \<le> 5" for v :: u16 and k
  proof -
    have "unat v \<le> k" using that by (simp add: word_le_nat_alt unat_of_nat)
    then show ?thesis using that(2) by (simp add: unat_casts)
  qed
  have sp: "cfg_ok (if ?d AND push_bit 1 1 \<noteq> 0 then t\<lparr>comm_speed_idx := ucast (?v 1)\<rparr> else t)"
    if "cfg_ok t" for t
    using that r(1) b [of "?v 1" 5] by (simp add: cfg_ok_def)
  have pa: "cfg_ok (if ?d AND push_bit 2 1 \<noteq> 0 then t\<lparr>comm_parity_idx := ucast (?v 2)\<rparr> else t)"
    if "cfg_ok t" for t
    using that r(2) b [of "?v 2" 2] by (simp add: cfg_ok_def)
  have ip: "cfg_ok (t\<lparr>comm_address := x\<rparr>)" "cfg_ok (t\<lparr>ether_ip := (ether_ip t)[i := y, j := z]\<rparr>)"
    "cfg_ok (t\<lparr>ether_nm := (ether_nm t)[i := y, j := z]\<rparr>)"
    "cfg_ok (t\<lparr>ether_gw := (ether_gw t)[i := y, j := z]\<rparr>)"
    if "cfg_ok t" for t x y z i j
    using that by (simp_all add: cfg_ok_def)
  have let_cfg: "cfg_ok x \<Longrightarrow> (\<And>y. cfg_ok y \<Longrightarrow> cfg_ok (f y)) \<Longrightarrow> cfg_ok (Let x f)" for x f
    by (simp add: Let_def)
  have let_fun: "cfg_ok (f g) \<Longrightarrow> cfg_ok (Let g f)" for g :: "nat \<Rightarrow> 'a" and f by (simp add: Let_def)
  have br: "cfg_ok a \<Longrightarrow> cfg_ok t \<Longrightarrow> cfg_ok (if w then a else t)" for w a t by simp
  show ?thesis
    unfolding stg_apply_to_cfg_def by (intro let_fun let_cfg sp pa br ip assms(2))
qed

lemma stg_apply_val: "cs_val stg' = cs_val stg \<Longrightarrow> stg_apply_to_cfg stg' d c = stg_apply_to_cfg stg d c"
  by (simp only: stg_apply_to_cfg_def)

lemma commit_val: "cs_val (fst (cfg_stage_commit link r stg)) = cs_val stg"
  by (simp add: cfg_stage_commit_def Let_def)

section \<open>The operations of the glue as primitives\<close>

text \<open>The edits of the chain alone: fields, panel echoes, horn mode, staging.\<close>

locale edit_ops =
  fixes P :: "sys \<Rightarrow> bool"
  assumes stage: "P s \<Longrightarrow> P (mb_stage f1 s)"
    and horn: "P s \<Longrightarrow> P (app_horn_set_mode on s)"
    and sends: "P s \<Longrightarrow> (\<And>d. wire_ok d \<Longrightarrow> wire_ok (f3 d)) \<Longrightarrow> (\<And>d. rx_part (f3 d) = rx_part d) \<Longrightarrow>
      P (g_dgus_update f3 s)"
    and cfg: "P s \<Longrightarrow> (\<And>c. cfg_ok c \<Longrightarrow> cfg_ok (f4 c)) \<Longrightarrow> P (g_cfg_update f4 s)"
begin

lemma staged: "P s \<Longrightarrow> P (apply_staged now s)"
  by (simp add: apply_staged_def stage split: option.split)

lemma model_name: "P s \<Longrightarrow> P (app_lcd_send_model_str f t s)"
  by (simp add: app_lcd_send_model_str_def sends model_str_def)

lemma edits:
  assumes "P s" "\<And>c. cfg_ok c \<Longrightarrow> cfg_ok (f c)" "\<And>t. P t \<Longrightarrow> P (echo t)"
  shows "P (fst (edit f echo s))"
  using assms cfg by (simp add: edit_def)

lemma branch: "P (fst a) \<Longrightarrow> P (fst b) \<Longrightarrow> P (fst (if c then a else b))"
  by simp

lemma model: "P s \<Longrightarrow> P (fst (apply_model now s))"
  unfolding apply_model_def Let_def
  by (intro branch edits) (simp_all add: cfg_ok_def sends model_name app_lcd_set_work_cnt_def staged
      del: comp_apply)

lemma modes: "P s \<Longrightarrow> P (fst (apply_modes now s))"
  unfolding apply_modes_def Let_def
  by (intro branch edits) (simp_all add: cfg_ok_def sends horn model)

lemma outputs: "P s \<Longrightarrow> P (fst (apply_outputs now s))"
proof -
  assume s: "P s"
  have pw: "cfg_ok (c\<lparr>output_power := ucast (cfg_clamp_power v)\<rparr>)" if "cfg_ok c" for c v
  proof -
    have "unat (ucast (cfg_clamp_power v) :: u8) = unat (cfg_clamp_power v)"
      by (simp add: unat_casts unat_clamp_power)
    then show ?thesis using that by (simp add: cfg_ok_def unat_clamp_power)
  qed
  have en: "cfg_ok (c\<lparr>limit_energy := ucast (v :: u16)\<rparr>)" if "cfg_ok c" for c v
    using that unat_bounds(2) [of v] by (simp add: cfg_ok_def unat_casts)
  show ?thesis
    unfolding apply_outputs_def Let_def
    by (intro branch edits) (use s in \<open>simp_all add: pw en sends modes\<close>, simp_all add: cfg_ok_def)
qed

lemma timings: "P s \<Longrightarrow> P (fst (apply_timings now s))"
  unfolding apply_timings_def Let_def
  by (intro branch edits) (simp_all add: cfg_ok_def sends outputs)

end

text \<open>All operations: the commands of a run, the potentiometer and the save, the register table.\<close>

locale write_ops = edit_ops +
  assumes mb: "P s \<Longrightarrow> P (g_mb_update f s)"
    and command: "P s \<Longrightarrow> P (app_reg_command now cmd US_COMM s)"
    and pot: "P s \<Longrightarrow> P (g_i2c_update f2 s)"
    and ether: "P s \<Longrightarrow> P (app_lcd_hook_ether_apply s)"
begin

lemma mb_ops:
  assumes "P s"
  shows "P (mb_core_upd f s)" "P (mb_set r v s)" "P (mb_stage f1 s)" "P (mb_hold f2 s)"
    "P (mirror_live e s)" "P (app_modbus_note_remote now s)" "P (remote_en_step e s)"
    "P (apply_staged now s)"
  using assms mb [of s "\<lambda>_. x" for x]
  by (auto simp: mb_core_upd_def mb_set_def mb_stage_def mb_hold_def mirror_live_def
      app_modbus_note_remote_def remote_en_step_def apply_staged_def Let_def case_prod_unfold
      split: product_model.split option.split)

lemma refresh: "P s \<Longrightarrow> P (app_lcd_run_std_refresh s)"
  by (simp add: app_lcd_run_std_refresh_def sends Let_def)

lemma gate: "P s \<Longrightarrow> P (gate_reject_body now s)"
  by (simp add: gate_reject_body_def mb_ops command Let_def)

lemma start: "P s \<Longrightarrow> P (start_cmd_body now sv s)"
  by (simp add: start_cmd_body_def app_lcd_hook_set_pot_def mb_ops command pot)

lemma cfg_ctrl:
  assumes "P s" shows "P (fst (apply_cfg_ctrl link ctrl s))"
proof -
  let ?stg = "mg_stg (g_mb s)"
  let ?c = "cfg_stage_commit link (me_us_on_status (app_reg_measure s)) ?stg"
  let ?t = "mb_stage (\<lambda>_. fst ?c) s"
  have body: "P (cfg_ctrl_commit_body (cs_dirty ?stg) ?t)" if "snd ?c \<noteq> 0"
  proof -
    have stg: "mg_stg (g_mb ?t) = fst ?c" by (simp add: mb_stage_def)
    have "P (g_cfg_update (stg_apply_to_cfg (fst ?c) (cs_dirty ?stg)) ?t)"
      by (intro cfg mb_ops assms) (simp add: stg_apply_val [OF commit_val] commit_keeps_cfg [OF that])
    then show ?thesis by (simp add: cfg_ctrl_commit_body_def stg Let_def ether)
  qed
  show ?thesis
    using assms body by (simp add: apply_cfg_ctrl_def mb_ops Let_def case_prod_unfold)
qed

lemma chain: "P s \<Longrightarrow> P (fst (apply_chain now link s))"
  by (simp add: apply_chain_def mb_ops command start cfg_ctrl timings)

lemma writes: "P s \<Longrightarrow> P (app_modbus_apply_writes now link s)"
  using chain [of s now link]
  by (simp add: app_modbus_apply_writes_def gate refresh pot Let_def case_prod_unfold)

lemma config: "P (snd ps) \<Longrightarrow> P (snd (apply_config e ps))"
  using mb [of "snd ps" "\<lambda>_. x" for x]
  by (cases ps) (simp add: apply_config_def mb_ops Let_def)

end

section \<open>The invariants of the other files\<close>

lemma horn_set_mode_keeps [simp]:
  "g_measure (app_horn_set_mode on s) = g_measure s" "g_freq (app_horn_set_mode on s) = g_freq s"
  "g_i2c (app_horn_set_mode on s) = g_i2c s" "g_weld (app_horn_set_mode on s) = g_weld s"
  "g_ovld (app_horn_set_mode on s) = g_ovld s" "g_input (app_horn_set_mode on s) = g_input s"
  "g_sr (app_horn_set_mode on s) = g_sr s" "g_buzzer (app_horn_set_mode on s) = g_buzzer s"
  "g_alarm (app_horn_set_mode on s) = g_alarm s" "g_mb (app_horn_set_mode on s) = g_mb s"
  "g_model (app_horn_set_mode on s) = g_model s"
  "hg_mode (g_horn (app_horn_set_mode on s)) = b2u on"
  "out_ovld_relay (g_out (app_horn_set_mode on s)) = out_ovld_relay (g_out s)"
  "out_buzzer (g_out (app_horn_set_mode on s)) = out_buzzer (g_out s)"
  "out_usout (g_out (app_horn_set_mode on s)) = out_usout (g_out s)"
  "out_osc4 (g_out (app_horn_set_mode on s)) = out_osc4 (g_out s)"
  "out_reset (g_out (app_horn_set_mode on s)) = out_reset (g_out s)"
  "out_seek (g_out (app_horn_set_mode on s)) = out_seek (g_out s)"
  by (simp_all add: app_horn_set_mode_def io_sol_dn_def Let_def)

lemma horn_set_mode_pin:
  "out_sol_dn (g_out (app_horn_set_mode on s)) \<Longrightarrow>
   out_sol_dn (g_out s) \<and> hg_sol_last (g_horn (app_horn_set_mode on s)) = hg_sol_last (g_horn s)"
  by (auto simp: app_horn_set_mode_def io_sol_dn_def Let_def split: if_splits)

lemma ether_apply_keeps [simp]:
  "g_cfg (app_lcd_hook_ether_apply s) = g_cfg s" "g_reg (app_lcd_hook_ether_apply s) = g_reg s"
  "g_weld (app_lcd_hook_ether_apply s) = g_weld s" "g_ovld (app_lcd_hook_ether_apply s) = g_ovld s"
  "g_input (app_lcd_hook_ether_apply s) = g_input s" "g_horn (app_lcd_hook_ether_apply s) = g_horn s"
  "g_sr (app_lcd_hook_ether_apply s) = g_sr s" "g_mb (app_lcd_hook_ether_apply s) = g_mb s"
  "g_out (app_lcd_hook_ether_apply s) = g_out s" "g_measure (app_lcd_hook_ether_apply s) = g_measure s"
  "g_i2c (app_lcd_hook_ether_apply s) = g_i2c s"
  by (simp_all add: app_lcd_hook_ether_apply_def)

text \<open>The cylinder is down only when one of its two drivers last commanded it down.\<close>

definition press_pin_ok :: "sys \<Rightarrow> bool" where
  "press_pin_ok s \<longleftrightarrow>
     (out_sol_dn (g_out s) \<longrightarrow> wg_sol_last (g_weld s) \<noteq> 0 \<or> hg_sol_last (g_horn s) \<noteq> 0)"

lemma mb_stage_keeps [simp]:
  "g_cfg (mb_stage f s) = g_cfg s" "g_lcd (mb_stage f s) = g_lcd s"
  "g_disp (mb_stage f s) = g_disp s" "g_dgus (mb_stage f s) = g_dgus s"
  "g_measure (mb_stage f s) = g_measure s" "g_reg (mb_stage f s) = g_reg s"
  "g_freq (mb_stage f s) = g_freq s" "g_i2c (mb_stage f s) = g_i2c s"
  "g_weld (mb_stage f s) = g_weld s" "g_ovld (mb_stage f s) = g_ovld s"
  "g_input (mb_stage f s) = g_input s" "g_horn (mb_stage f s) = g_horn s"
  "g_sr (mb_stage f s) = g_sr s" "g_buzzer (mb_stage f s) = g_buzzer s"
  "g_alarm (mb_stage f s) = g_alarm s" "g_out (mb_stage f s) = g_out s"
  "g_model (mb_stage f s) = g_model s" "mg_core (g_mb (mb_stage f s)) = mg_core (g_mb s)"
  "mg_hwd (g_mb (mb_stage f s)) = mg_hwd (g_mb s)"
  "mg_stg (g_mb (mb_stage f s)) = f (mg_stg (g_mb s))"
  "mg_ren_state (g_mb (mb_stage f s)) = mg_ren_state (g_mb s)"
  by (simp_all add: mb_stage_def)

lemma mb_hold_keeps [simp]:
  "g_cfg (mb_hold f s) = g_cfg s" "g_lcd (mb_hold f s) = g_lcd s"
  "g_disp (mb_hold f s) = g_disp s" "g_dgus (mb_hold f s) = g_dgus s"
  "g_measure (mb_hold f s) = g_measure s" "g_reg (mb_hold f s) = g_reg s"
  "g_freq (mb_hold f s) = g_freq s" "g_i2c (mb_hold f s) = g_i2c s"
  "g_weld (mb_hold f s) = g_weld s" "g_ovld (mb_hold f s) = g_ovld s"
  "g_input (mb_hold f s) = g_input s" "g_horn (mb_hold f s) = g_horn s"
  "g_sr (mb_hold f s) = g_sr s" "g_buzzer (mb_hold f s) = g_buzzer s"
  "g_alarm (mb_hold f s) = g_alarm s" "g_out (mb_hold f s) = g_out s"
  "g_model (mb_hold f s) = g_model s" "mg_core (g_mb (mb_hold f s)) = mg_core (g_mb s)"
  "mg_hwd (g_mb (mb_hold f s)) = f (mg_hwd (g_mb s))"
  "mg_stg (g_mb (mb_hold f s)) = mg_stg (g_mb s)"
  "mg_ren_state (g_mb (mb_hold f s)) = mg_ren_state (g_mb s)"
  by (simp_all add: mb_hold_def)

interpretation reg_w: write_ops reg_inv
proof unfold_locales
  show "reg_inv s \<Longrightarrow> reg_inv (app_reg_command now cmd US_COMM s)" for s now cmd
    by (rule reg_inv_command) simp_all
qed (simp_all cong: reg_inv_same)

interpretation panel_w: write_ops panel_inv
  by unfold_locales (simp_all add: panel_inv_def app_lcd_hook_ether_apply_def)

interpretation weld_w: write_ops weld_glue_ok
proof unfold_locales
  show "weld_glue_ok s \<Longrightarrow> weld_glue_ok (app_reg_command now cmd US_COMM s)" for s now cmd
    by (rule weld_ok_command) simp_all
qed (simp_all add: weld_glue_ok_def)

interpretation sr_w: write_ops sr_lines_ok
  by unfold_locales (simp_all add: sr_lines_ok_def)

interpretation ovld_w: write_ops ovld_ok
  by unfold_locales (simp_all add: ovld_ok_def)

interpretation estop_w: write_ops estop_ok
  using horn_set_mode_pin by unfold_locales (auto simp: estop_ok_def)

interpretation pin_w: write_ops press_pin_ok
proof unfold_locales
  show "press_pin_ok s \<Longrightarrow> press_pin_ok (app_horn_set_mode on s)" for s on
    using horn_set_mode_pin [of on s] by (auto simp: press_pin_ok_def)
qed (simp_all add: press_pin_ok_def)

section \<open>The register table\<close>

definition mb_inv :: "sys \<Rightarrow> bool" where
  "mb_inv s \<longleftrightarrow> mb_tables_ok (mg_core (g_mb s)) \<and> stage_inv (mg_stg (g_mb s))"

text \<open>No command waits in the table: what is left after every message.\<close>

definition cmds_clear :: "sys \<Rightarrow> bool" where
  "cmds_clear s \<longleftrightarrow> mb_reg MB_REG_RESET s \<noteq> 1 \<and> mb_reg MB_REG_SEEK s \<noteq> 1 \<and>
     mb_reg MB_REG_START s = 0 \<and> mb_reg MB_REG_STOP s \<noteq> 1 \<and> mb_reg MB_REG_CFG_CTRL s = 0"

lemma mb_upd_keeps [simp]:
  "g_cfg (mb_core_upd f s) = g_cfg s" "g_i2c (mb_core_upd f s) = g_i2c s"
  "g_reg (mb_core_upd f s) = g_reg s" "g_measure (mb_core_upd f s) = g_measure s"
  "g_sr (mb_core_upd f s) = g_sr s" "g_horn (mb_core_upd f s) = g_horn s"
  "g_input (mb_core_upd f s) = g_input s" "g_ovld (mb_core_upd f s) = g_ovld s"
  "g_model (mb_core_upd f s) = g_model s" "g_out (mb_core_upd f s) = g_out s"
  "g_weld (mb_core_upd f s) = g_weld s" "g_lcd (mb_core_upd f s) = g_lcd s"
  "g_dgus (mb_core_upd f s) = g_dgus s"
  "mg_core (g_mb (mb_core_upd f s)) = f (mg_core (g_mb s))"
  "mg_stg (g_mb (mb_core_upd f s)) = mg_stg (g_mb s)"
  "mg_hwd (g_mb (mb_core_upd f s)) = mg_hwd (g_mb s)"
  "mg_ren_state (g_mb (mb_core_upd f s)) = mg_ren_state (g_mb s)"
  by (simp_all add: mb_core_upd_def)

lemma mb_set_keeps [simp]:
  "g_cfg (mb_set r v s) = g_cfg s" "g_i2c (mb_set r v s) = g_i2c s" "g_reg (mb_set r v s) = g_reg s"
  "g_measure (mb_set r v s) = g_measure s" "g_sr (mb_set r v s) = g_sr s"
  "g_horn (mb_set r v s) = g_horn s" "g_input (mb_set r v s) = g_input s"
  "g_ovld (mb_set r v s) = g_ovld s" "g_model (mb_set r v s) = g_model s"
  "g_out (mb_set r v s) = g_out s" "g_dgus (mb_set r v s) = g_dgus s" "g_lcd (mb_set r v s) = g_lcd s"
  "g_weld (mb_set r v s) = g_weld s"
  "mg_stg (g_mb (mb_set r v s)) = mg_stg (g_mb s)" "mg_hwd (g_mb (mb_set r v s)) = mg_hwd (g_mb s)"
  "mg_ren_state (g_mb (mb_set r v s)) = mg_ren_state (g_mb s)"
  "last_write_addr (mg_core (g_mb (mb_set r v s))) = last_write_addr (mg_core (g_mb s))"
  "length (holding (mg_core (g_mb (mb_set r v s)))) = length (holding (mg_core (g_mb s)))"
  by (simp_all add: mb_set_def)

lemma mb_reg_set [simp]:
  "mb_reg r (mb_set q v s) =
     (if r = q \<and> q < length (holding (mg_core (g_mb s))) then v else mb_reg r s)"
  by (auto simp: mb_reg_def mb_set_def not_less list_update_beyond)

lemma mb_reg_command [simp]: "mb_reg r (app_reg_command now cmd src s) = mb_reg r s"
  by (simp add: mb_reg_def)

text \<open>The staged part of the mirror touches the staged registers only.\<close>

lemma fold_upd_length: "length (fold (\<lambda>i h. if b i then h[k i := x i] else h) is h) = length h"
  by (induction "is" arbitrary: h) simp_all

lemma fold_upd_other:
  "\<forall>i \<in> set is. k i \<noteq> r \<Longrightarrow> fold (\<lambda>i h. if b i then h[k i := x i] else h) is h ! r = h ! r"
  by (induction "is" arbitrary: h) simp_all

lemma mirror_staged_length: "length (mirror_staged cfg stg h) = length h"
  unfolding mirror_staged_def by (rule fold_upd_length)

lemma mirror_staged_other: "r \<notin> set k_stg_reg \<Longrightarrow> mirror_staged cfg stg h ! r = h ! r"
  unfolding mirror_staged_def by (rule fold_upd_other) (auto simp: k_stg_reg_def nth_Cons')

lemma mirror_length [simp]:
  "length (holding (mg_core (g_mb (mirror_live e s)))) = length (holding (mg_core (g_mb s)))"
  by (simp add: mirror_live_def mirror_stage_and_gate_def mirror_disp_status_def
      mirror_cfg_fields_def mirror_staged_length Let_def split: product_model.split)

lemma mirror_reg:
  assumes "length (holding (mg_core (g_mb s))) = 51" "r \<notin> set k_stg_reg" "r \<notin> {0x2A, 0x2B, 0x2C}"
  shows "mb_reg r (mirror_live e s) =
    (mirror_disp_status e s (mirror_cfg_fields (g_cfg s) (holding (mg_core (g_mb s)))))[
       0x21 := ucast (comm_mode (g_cfg s)), 0x29 := ucast (cs_stat (mg_stg (g_mb s))),
       0x31 := 0xFA01, 0x32 := 1, 0x30 := ucast (app_horn_mode_active s)] ! r"
  using assms(2,3)
  by (simp add: mb_reg_def mirror_live_def mirror_stage_and_gate_def mirror_staged_other Let_def
      split: product_model.split)

lemma mirror_values:
  assumes "length (holding (mg_core (g_mb s))) = 51"
  shows "mb_reg 0x01 (mirror_live e s) = ucast (work_cnt (g_cfg s))"
    "mb_reg 0x06 (mirror_live e s) = ucast (output_power (g_cfg s))"
    "mb_reg 0x07 (mirror_live e s) = limit_on_time (g_cfg s)"
    "mb_reg 0x08 (mirror_live e s) = ucast (limit_energy (g_cfg s))"
    "mb_reg 0x09 (mirror_live e s) = limit_out_time (g_cfg s)"
    "mb_reg 0x0A (mirror_live e s) = limit_delay_time1 (g_cfg s)"
    "mb_reg 0x0B (mirror_live e s) = limit_delay_time2 (g_cfg s)"
    "mb_reg 0x0C (mirror_live e s) = limit_delay_time3 (g_cfg s)"
    "mb_reg 0x0D (mirror_live e s) = limit_trigger_time2 (g_cfg s)"
    "mb_reg 0x0E (mirror_live e s) = limit_trigger_time3 (g_cfg s)"
    "mb_reg 0x0F (mirror_live e s) = limit_mo_time1 (g_cfg s)"
    "mb_reg 0x10 (mirror_live e s) = limit_mo_time2 (g_cfg s)"
    "mb_reg 0x11 (mirror_live e s) = limit_mo_out1 (g_cfg s)"
    "mb_reg 0x12 (mirror_live e s) = limit_mo_out2 (g_cfg s)"
    "mb_reg 0x13 (mirror_live e s) = ucast (run_mode (g_cfg s))"
    "mb_reg 0x14 (mirror_live e s) = flag16 (energy_ctrl (g_cfg s))"
    "mb_reg 0x15 (mirror_live e s) = flag16 (multi_ctrl (g_cfg s))"
    "mb_reg 0x16 (mirror_live e s) = ucast (f_safty (g_cfg s))"
    "mb_reg 0x17 (mirror_live e s) = ucast (model_freq (g_cfg s))"
    "mb_reg 0x18 (mirror_live e s) = ucast (model_type (g_cfg s))"
    "mb_reg 0x2E (mirror_live e s) = cal_val (g_cfg s)"
    "mb_reg 0x2F (mirror_live e s) = freq_cal_val (g_cfg s)"
    "mb_reg 0x30 (mirror_live e s) = ucast (app_horn_mode_active s)"
  by (subst mirror_reg; simp add: assms k_stg_reg_def mirror_disp_status_def mirror_cfg_fields_def Let_def)+

lemma mirror_commands:
  assumes "length (holding (mg_core (g_mb s))) = 51" "r \<in> {0x19, 0x1A, 0x1B, 0x1C, 0x28}"
  shows "mb_reg r (mirror_live e s) = mb_reg r s"
  using assms(2)
  by (elim insertE emptyE; subst mirror_reg; simp add: assms(1) k_stg_reg_def mirror_disp_status_def
      mirror_cfg_fields_def Let_def mb_reg_def)

section \<open>One write, one field\<close>

text \<open>
  The register map as the remote side knows it: per register what a read shows of the
  configuration, what a written value sets, brought into the range of its field, and when the
  stored value is itself one that the register can show and a write can set.
\<close>

definition reg_map :: "(nat \<times> (app_config \<Rightarrow> u16) \<times> (u16 \<Rightarrow> app_config \<Rightarrow> app_config) \<times> (app_config \<Rightarrow> bool)) list" where
  "reg_map = [
     (0x01, \<lambda>c. ucast (work_cnt c),
        \<lambda>v c. if v = 0 then c\<lparr>work_cnt := 0\<rparr> else c,
        \<lambda>c. True),
     (0x06, \<lambda>c. ucast (output_power c),
        \<lambda>v c. c\<lparr>output_power := ucast (cfg_clamp_power v)\<rparr>,
        \<lambda>c. 50 \<le> output_power c \<and> output_power c \<le> 100),
     (0x07, limit_on_time,
        \<lambda>v c. c\<lparr>limit_on_time := cfg_clamp_max v 2000\<rparr>,
        \<lambda>c. limit_on_time c \<le> 2000),
     (0x08, \<lambda>c. ucast (limit_energy c),
        \<lambda>v c. c\<lparr>limit_energy := ucast v\<rparr>,
        \<lambda>c. limit_energy c < 65536),
     (0x09, limit_out_time,
        \<lambda>v c. c\<lparr>limit_out_time := cfg_clamp_max v 10\<rparr>,
        \<lambda>c. limit_out_time c \<le> 10),
     (0x0A, limit_delay_time1,
        \<lambda>v c. c\<lparr>limit_delay_time1 := cfg_clamp_max v 500\<rparr>,
        \<lambda>c. limit_delay_time1 c \<le> 500),
     (0x0B, limit_delay_time2,
        \<lambda>v c. c\<lparr>limit_delay_time2 := cfg_clamp_max v 500\<rparr>,
        \<lambda>c. limit_delay_time2 c \<le> 500),
     (0x0C, limit_delay_time3,
        \<lambda>v c. c\<lparr>limit_delay_time3 := cfg_clamp_max v 2000\<rparr>,
        \<lambda>c. limit_delay_time3 c \<le> 2000),
     (0x0D, limit_trigger_time2,
        \<lambda>v c. c\<lparr>limit_trigger_time2 := cfg_clamp_max v 500\<rparr>,
        \<lambda>c. limit_trigger_time2 c \<le> 500),
     (0x0E, limit_trigger_time3,
        \<lambda>v c. c\<lparr>limit_trigger_time3 := cfg_clamp_max v 2000\<rparr>,
        \<lambda>c. limit_trigger_time3 c \<le> 2000),
     (0x0F, limit_mo_time1,
        \<lambda>v c. c\<lparr>limit_mo_time1 := cfg_clamp_max v 2000\<rparr>,
        \<lambda>c. limit_mo_time1 c \<le> 2000),
     (0x10, limit_mo_time2,
        \<lambda>v c. c\<lparr>limit_mo_time2 := cfg_clamp_max v 2000\<rparr>,
        \<lambda>c. limit_mo_time2 c \<le> 2000),
     (0x11, limit_mo_out1,
        \<lambda>v c. c\<lparr>limit_mo_out1 := cfg_clamp_power v\<rparr>,
        \<lambda>c. 50 \<le> limit_mo_out1 c \<and> limit_mo_out1 c \<le> 100),
     (0x12, limit_mo_out2,
        \<lambda>v c. c\<lparr>limit_mo_out2 := cfg_clamp_power v\<rparr>,
        \<lambda>c. 50 \<le> limit_mo_out2 c \<and> limit_mo_out2 c \<le> 100),
     (0x13, \<lambda>c. ucast (run_mode c),
        \<lambda>v c. c\<lparr>run_mode := ucast v\<rparr>,
        \<lambda>c. True),
     (0x14, \<lambda>c. flag16 (energy_ctrl c),
        \<lambda>v c. if v \<in> {0, 1} then c\<lparr>energy_ctrl := (v = 1)\<rparr> else c,
        \<lambda>c. True),
     (0x15, \<lambda>c. flag16 (multi_ctrl c),
        \<lambda>v c. if v \<in> {0, 1} then c\<lparr>multi_ctrl := (v = 1)\<rparr> else c,
        \<lambda>c. True),
     (0x16, \<lambda>c. ucast (f_safty c),
        \<lambda>v c. c\<lparr>f_safty := b2u (v = 1)\<rparr>,
        \<lambda>c. f_safty c \<le> 1),
     (0x17, \<lambda>c. ucast (model_freq c),
        \<lambda>v c. c\<lparr>model_freq := ucast v\<rparr>,
        \<lambda>c. True),
     (0x18, \<lambda>c. ucast (model_type c),
        \<lambda>v c. c\<lparr>model_type := ucast v\<rparr>,
        \<lambda>c. True),
     (0x2E, cal_val,
        \<lambda>v c. c\<lparr>cal_val := cfg_cal_from_wire v\<rparr>,
        \<lambda>c. -1000 \<le> sint (cal_val c) \<and> sint (cal_val c) \<le> 1000),
     (0x2F, freq_cal_val,
        \<lambda>v c. c\<lparr>freq_cal_val := cfg_cal_from_wire v\<rparr>,
        \<lambda>c. -1000 \<le> sint (freq_cal_val c) \<and> sint (freq_cal_val c) \<le> 1000)]"

definition reg_promise :: "nat \<Rightarrow> u16 \<Rightarrow> app_config \<Rightarrow> app_config" where
  "reg_promise a v c = (case map_of reg_map a of None \<Rightarrow> c | Some (shown, set_to, fits) \<Rightarrow> set_to v c)"

definition reg_fits :: "nat \<Rightarrow> app_config \<Rightarrow> bool" where
  "reg_fits a c = (case map_of reg_map a of None \<Rightarrow> True | Some (shown, set_to, fits) \<Rightarrow> fits c)"

text \<open>The map read register by register.\<close>

lemma promises:
  "reg_promise 0x01 v c = (if v = 0 then c\<lparr>work_cnt := 0\<rparr> else c)"
  "reg_promise 0x06 v c = (c\<lparr>output_power := ucast (cfg_clamp_power v)\<rparr>)"
  "reg_promise 0x07 v c = (c\<lparr>limit_on_time := cfg_clamp_max v 2000\<rparr>)"
  "reg_promise 0x08 v c = (c\<lparr>limit_energy := ucast v\<rparr>)"
  "reg_promise 0x09 v c = (c\<lparr>limit_out_time := cfg_clamp_max v 10\<rparr>)"
  "reg_promise 0x0A v c = (c\<lparr>limit_delay_time1 := cfg_clamp_max v 500\<rparr>)"
  "reg_promise 0x0B v c = (c\<lparr>limit_delay_time2 := cfg_clamp_max v 500\<rparr>)"
  "reg_promise 0x0C v c = (c\<lparr>limit_delay_time3 := cfg_clamp_max v 2000\<rparr>)"
  "reg_promise 0x0D v c = (c\<lparr>limit_trigger_time2 := cfg_clamp_max v 500\<rparr>)"
  "reg_promise 0x0E v c = (c\<lparr>limit_trigger_time3 := cfg_clamp_max v 2000\<rparr>)"
  "reg_promise 0x0F v c = (c\<lparr>limit_mo_time1 := cfg_clamp_max v 2000\<rparr>)"
  "reg_promise 0x10 v c = (c\<lparr>limit_mo_time2 := cfg_clamp_max v 2000\<rparr>)"
  "reg_promise 0x11 v c = (c\<lparr>limit_mo_out1 := cfg_clamp_power v\<rparr>)"
  "reg_promise 0x12 v c = (c\<lparr>limit_mo_out2 := cfg_clamp_power v\<rparr>)"
  "reg_promise 0x13 v c = (c\<lparr>run_mode := ucast v\<rparr>)"
  "reg_promise 0x14 v c = (if v \<in> {0, 1} then c\<lparr>energy_ctrl := (v = 1)\<rparr> else c)"
  "reg_promise 0x15 v c = (if v \<in> {0, 1} then c\<lparr>multi_ctrl := (v = 1)\<rparr> else c)"
  "reg_promise 0x16 v c = (c\<lparr>f_safty := b2u (v = 1)\<rparr>)"
  "reg_promise 0x17 v c = (c\<lparr>model_freq := ucast v\<rparr>)"
  "reg_promise 0x18 v c = (c\<lparr>model_type := ucast v\<rparr>)"
  "reg_promise 0x2E v c = (c\<lparr>cal_val := cfg_cal_from_wire v\<rparr>)"
  "reg_promise 0x2F v c = (c\<lparr>freq_cal_val := cfg_cal_from_wire v\<rparr>)"
  by (simp_all add: reg_promise_def reg_map_def)

lemma fit_conditions:
  "reg_fits 0x06 c = (50 \<le> output_power c \<and> output_power c \<le> 100)"
  "reg_fits 0x07 c = (limit_on_time c \<le> 2000)"
  "reg_fits 0x08 c = (limit_energy c < 65536)"
  "reg_fits 0x09 c = (limit_out_time c \<le> 10)"
  "reg_fits 0x0A c = (limit_delay_time1 c \<le> 500)"
  "reg_fits 0x0B c = (limit_delay_time2 c \<le> 500)"
  "reg_fits 0x0C c = (limit_delay_time3 c \<le> 2000)"
  "reg_fits 0x0D c = (limit_trigger_time2 c \<le> 500)"
  "reg_fits 0x0E c = (limit_trigger_time3 c \<le> 2000)"
  "reg_fits 0x0F c = (limit_mo_time1 c \<le> 2000)"
  "reg_fits 0x10 c = (limit_mo_time2 c \<le> 2000)"
  "reg_fits 0x11 c = (50 \<le> limit_mo_out1 c \<and> limit_mo_out1 c \<le> 100)"
  "reg_fits 0x12 c = (50 \<le> limit_mo_out2 c \<and> limit_mo_out2 c \<le> 100)"
  "reg_fits 0x16 c = (f_safty c \<le> 1)"
  "reg_fits 0x2E c = (-1000 \<le> sint (cal_val c) \<and> sint (cal_val c) \<le> 1000)"
  "reg_fits 0x2F c = (-1000 \<le> sint (freq_cal_val c) \<and> sint (freq_cal_val c) \<le> 1000)"
  by (simp_all add: reg_fits_def reg_map_def)

lemma reg_map_none:
  "a \<notin> {0x01, 0x06, 0x07, 0x08, 0x09, 0x0A, 0x0B, 0x0C, 0x0D, 0x0E, 0x0F, 0x10, 0x11,
      0x12, 0x13, 0x14, 0x15, 0x16, 0x17, 0x18, 0x2E, 0x2F} \<Longrightarrow>
   map_of reg_map a = None"
  by (simp add: reg_map_def)

lemma byte_id: "ucast (ucast b :: u16) = (b :: u8)"
  using unat_bounds(1) [of b] by (intro word_unat_eq_iff [THEN iffD2]) (simp add: unat_casts)

text \<open>The staged setting behind a register.\<close>

definition stage_write :: "nat \<Rightarrow> u16 \<Rightarrow> u32 \<Rightarrow> cfg_stage \<Rightarrow> cfg_stage" where
  "stage_write a v now stg =
     (case find (\<lambda>i. k_stg_reg ! i = a) [0..<9] of None \<Rightarrow> stg | Some i \<Rightarrow> cfg_stage_write i v now stg)"

text \<open>The master's write of \<open>v\<close> to \<open>a\<close> in the table, as the core performs it.\<close>

definition put_reg :: "nat \<Rightarrow> u16 \<Rightarrow> sys \<Rightarrow> sys" where
  "put_reg a v = mb_core_upd (\<lambda>c. c\<lparr>holding := (holding c)[a := v], last_write_addr := of_nat a\<rparr>)"

lemma put_reg_keeps [simp]:
  "g_cfg (put_reg a v s) = g_cfg s" "g_horn (put_reg a v s) = g_horn s" "g_i2c (put_reg a v s) = g_i2c s"
  "g_reg (put_reg a v s) = g_reg s" "g_out (put_reg a v s) = g_out s" "mg_stg (g_mb (put_reg a v s)) = mg_stg (g_mb s)"
  "mg_ren_state (g_mb (put_reg a v s)) = mg_ren_state (g_mb s)"
  "last_write_addr (mg_core (g_mb (put_reg a v s))) = of_nat a"
  by (simp_all add: put_reg_def)

lemma mirror_keeps [simp]:
  "g_cfg (mirror_live e s) = g_cfg s" "g_horn (mirror_live e s) = g_horn s"
  "g_i2c (mirror_live e s) = g_i2c s" "g_reg (mirror_live e s) = g_reg s"
  "g_sr (mirror_live e s) = g_sr s" "g_measure (mirror_live e s) = g_measure s"
  "g_input (mirror_live e s) = g_input s" "g_ovld (mirror_live e s) = g_ovld s"
  "g_out (mirror_live e s) = g_out s"
  "mg_ren_state (g_mb (mirror_live e s)) = mg_ren_state (g_mb s)"
  "mg_stg (g_mb (mirror_live e s)) = mg_stg (g_mb s)" "mg_hwd (g_mb (mirror_live e s)) = mg_hwd (g_mb s)"
  by (simp_all add: mirror_live_def)

lemma put_reg_reg:
  "a < length (holding (mg_core (g_mb s))) \<Longrightarrow>
   mb_reg r (put_reg a v s) = (if r = a then v else mb_reg r s)"
  by (simp add: put_reg_def mb_reg_def)

lemma flag16_eq [simp]: "flag16 b = 0 \<longleftrightarrow> \<not> b" "flag16 b = 1 \<longleftrightarrow> b"
  by (simp_all add: flag16_def)

lemma horn_query [simp]: "app_horn_mode_active (put_reg a v s) = app_horn_mode_active s"
  "app_horn_mode_active (mirror_live e s) = app_horn_mode_active s"
  by (simp_all add: query_defs)

lemma apply_staged_cfg [simp]: "g_cfg (apply_staged now s) = g_cfg s" "g_i2c (apply_staged now s) = g_i2c s"
  by (simp_all add: apply_staged_def mb_stage_def split: option.split)

lemma work_cnt_req:
  "a < length (holding (mg_core (g_mb s))) \<Longrightarrow> a \<le> 50 \<Longrightarrow>
   mb_work_cnt_reset_req (mg_core (g_mb (put_reg a v s))) w = b2u (a = 1 \<and> v = 0 \<and> w \<noteq> 0)"
proof -
  assume a: "a < length (holding (mg_core (g_mb s)))" "a \<le> 50"
  have "unat (of_nat a :: u16) = a" using a(2) by (simp add: unat_of_nat)
  then have "(of_nat a = (1 :: u16)) = (a = 1)" by (metis of_nat_1 unat_1)
  then show ?thesis using a by (simp add: mb_work_cnt_reset_req_def put_reg_def) (auto simp: b2u_def)
qed

lemma edit_cfg: "(\<And>t. g_cfg (echo t) = g_cfg t) \<Longrightarrow> g_cfg (fst (edit f echo s)) = f (g_cfg s)"
  by (simp add: edit_def)

lemma cfg_if: "g_cfg (fst (if b then x else y)) = (if b then g_cfg (fst x) else g_cfg (fst y))"
  by simp

lemma tx_cfg: "g_cfg (g_dgus_update f s) = g_cfg s" by simp

lemma cmp_at: "((if r = a then v else live) \<noteq> live) = (a = r \<and> v \<noteq> live)" by auto

lemma chain_without_command:
  assumes "length (holding (mg_core (g_mb s))) = 51" "cmds_clear s" "a < 51"
    and "a \<notin> {0x19, 0x1A, 0x1B, 0x1C, 0x28}"
  shows "apply_chain now link (put_reg a v (mirror_live e s)) = apply_timings now (put_reg a v (mirror_live e s))"
proof -
  have len: "length (holding (mg_core (g_mb (mirror_live e s)))) = 51" using assms(1) by simp
  note reg = put_reg_reg [of a "mirror_live e s" _ v, unfolded len, OF assms(3)]
  show ?thesis
    using assms(2,4) by (simp add: apply_chain_def reg mirror_commands [OF assms(1)] cmds_clear_def)
qed

lemma chain_meets_spec:
  assumes "length (holding (mg_core (g_mb s))) = 51" "cmds_clear s" "a < 51"
    and "a \<notin> {0x19, 0x1A, 0x1B, 0x1C, 0x28}"
  shows "g_cfg (fst (apply_chain now link (put_reg a v (mirror_live e s)))) =
    (if a \<noteq> 1 \<and> v = mb_reg a (mirror_live e s) then g_cfg s else reg_promise a v (g_cfg s))"
proof -
  let ?s = "put_reg a v (mirror_live e s)" and ?c = "g_cfg s"
  have len: "length (holding (mg_core (g_mb (mirror_live e s)))) = 51" using assms(1) by simp
  note reg = put_reg_reg [of a "mirror_live e s" _ v, unfolded len, OF assms(3)]
  note val = mirror_values [OF assms(1)]
  note cmds = chain_without_command [OF assms, of now link v e]
  have req: "mb_work_cnt_reset_req (mg_core (g_mb ?s)) w = b2u (a = 1 \<and> v = 0 \<and> w \<noteq> 0)" for w
    using work_cnt_req [of a "mirror_live e s" v w, unfolded len] assms(3) by simp
  have cfg: "g_cfg ?s = ?c" by simp
  note sim = Let_def cfg_if edit_cfg tx_cfg reg val cmp_at cfg
  have timings: "g_cfg (fst (apply_timings now ?s)) =
      (if a = 0x0A \<and> v \<noteq> limit_delay_time1 ?c then ?c\<lparr>limit_delay_time1 := cfg_clamp_max v 500\<rparr>
       else if a = 0x0B \<and> v \<noteq> limit_delay_time2 ?c then ?c\<lparr>limit_delay_time2 := cfg_clamp_max v 500\<rparr>
       else if a = 0x0C \<and> v \<noteq> limit_delay_time3 ?c then ?c\<lparr>limit_delay_time3 := cfg_clamp_max v 2000\<rparr>
       else if a = 0x0D \<and> v \<noteq> limit_trigger_time2 ?c then ?c\<lparr>limit_trigger_time2 := cfg_clamp_max v 500\<rparr>
       else if a = 0x0E \<and> v \<noteq> limit_trigger_time3 ?c then ?c\<lparr>limit_trigger_time3 := cfg_clamp_max v 2000\<rparr>
       else g_cfg (fst (apply_outputs now ?s)))"
    by (simp only: apply_timings_def sim) (intro if_cong refl; simp)
  have outputs: "g_cfg (fst (apply_outputs now ?s)) =
      (if a = 0x06 \<and> v \<noteq> ucast (output_power ?c) then ?c\<lparr>output_power := ucast (cfg_clamp_power v)\<rparr>
       else if a = 0x07 \<and> v \<noteq> limit_on_time ?c then ?c\<lparr>limit_on_time := cfg_clamp_max v 2000\<rparr>
       else if a = 0x08 \<and> v \<noteq> ucast (limit_energy ?c) then ?c\<lparr>limit_energy := ucast v\<rparr>
       else if a = 0x0F \<and> v \<noteq> limit_mo_time1 ?c then ?c\<lparr>limit_mo_time1 := cfg_clamp_max v 2000\<rparr>
       else if a = 0x10 \<and> v \<noteq> limit_mo_time2 ?c then ?c\<lparr>limit_mo_time2 := cfg_clamp_max v 2000\<rparr>
       else if a = 0x11 \<and> v \<noteq> limit_mo_out1 ?c then ?c\<lparr>limit_mo_out1 := cfg_clamp_power v\<rparr>
       else if a = 0x12 \<and> v \<noteq> limit_mo_out2 ?c then ?c\<lparr>limit_mo_out2 := cfg_clamp_power v\<rparr>
       else if a = 0x09 \<and> v \<noteq> limit_out_time ?c then ?c\<lparr>limit_out_time := cfg_clamp_max v 10\<rparr>
       else g_cfg (fst (apply_modes now ?s)))"
    by (simp only: apply_outputs_def sim) (intro if_cong refl; simp)
  have model: "g_cfg (fst (apply_model now ?s)) =
      (if a = 0x17 \<and> v \<noteq> ucast (model_freq ?c) then ?c\<lparr>model_freq := ucast v\<rparr>
       else if a = 0x18 \<and> v \<noteq> ucast (model_type ?c) then ?c\<lparr>model_type := ucast v\<rparr>
       else if a = 0x2E \<and> v \<noteq> cal_val ?c then ?c\<lparr>cal_val := cfg_cal_from_wire v\<rparr>
       else if a = 0x2F \<and> v \<noteq> freq_cal_val ?c then ?c\<lparr>freq_cal_val := cfg_cal_from_wire v\<rparr>
       else if a = 1 \<and> v = 0 \<and> work_cnt ?c \<noteq> 0 then ?c\<lparr>work_cnt := 0\<rparr> else ?c)"
    by (simp only: apply_model_def sim send_model_str_keeps set_work_cnt_keeps req fst_conv
        apply_staged_cfg b2u_simps) (intro if_cong refl; auto)
  have modes: "g_cfg (fst (apply_modes now ?s)) =
      (if a = 0x13 \<and> v \<noteq> ucast (run_mode ?c) then ?c\<lparr>run_mode := ucast v\<rparr>
       else if a = 0x14 \<and> (v = 0 \<and> energy_ctrl ?c \<or> v = 1 \<and> \<not> energy_ctrl ?c)
       then ?c\<lparr>energy_ctrl := (v = 1)\<rparr>
       else if a = 0x15 \<and> (v = 0 \<and> multi_ctrl ?c \<or> v = 1 \<and> \<not> multi_ctrl ?c)
       then ?c\<lparr>multi_ctrl := (v = 1)\<rparr>
       else if a = 0x16 \<and> v \<noteq> ucast (f_safty ?c)
       then (if b2u (v = 1) \<noteq> f_safty ?c then ?c\<lparr>f_safty := b2u (v = 1)\<rparr> else ?c)
       else if a = 0x30 \<and> v \<noteq> ucast (app_horn_mode_active s) then ?c
       else g_cfg (fst (apply_model now ?s)))"
    by (simp only: apply_modes_def sim horn_query) (intro if_cong refl; auto)
  note parts = cmds timings outputs modes model
  show ?thesis
  proof (cases "a \<in> {0x01, 0x06, 0x07, 0x08, 0x09, 0x0A, 0x0B, 0x0C, 0x0D, 0x0E, 0x0F, 0x10, 0x11,
      0x12, 0x13, 0x14, 0x15, 0x16, 0x17, 0x18, 0x2E, 0x2F}")
    case True
    then show ?thesis
      unfolding parts by (elim insertE emptyE; simp add: promises val del: One_nat_def)
  next
    case False
    then show ?thesis unfolding parts by (simp add: reg_promise_def reg_map_none)
  qed
qed

text \<open>Where the stored value fits its register, writing what a read shows is as good as any write.\<close>

lemma cal_fits: "-1000 \<le> sint w \<Longrightarrow> sint w \<le> 1000 \<Longrightarrow> cfg_cal_from_wire w = w"
  by (simp add: cfg_cal_from_wire_def Let_def)

lemma clamps_fit:
  "v \<le> m \<Longrightarrow> cfg_clamp_max v m = v" "50 \<le> v \<Longrightarrow> v \<le> 100 \<Longrightarrow> cfg_clamp_power v = v"
  by (simp_all add: cfg_clamp_max_def cfg_clamp_power_def not_less [symmetric])

lemma power_fits: "50 \<le> (p :: u8) \<Longrightarrow> p \<le> 100 \<Longrightarrow> ucast (cfg_clamp_power (ucast p)) = p"
  by (subst clamps_fit) (simp_all add: word_le_nat_alt unat_casts byte_id)

lemma energy_fits: "(w :: u32) < 65536 \<Longrightarrow> ucast (ucast w :: u16) = w"
  by (rule word_unat_eq_iff [THEN iffD2]) (simp add: unat_casts word_less_nat_alt)

lemma safty_fits: "(f :: u8) \<le> 1 \<Longrightarrow> b2u (ucast f = (1 :: u16)) = f"
proof -
  assume "f \<le> 1"
  then have "unat f = 0 \<or> unat f = 1" by (auto simp: word_le_nat_alt)
  then have "f = 0 \<or> f = 1" by (metis unat_eq_zero unat_1 word_unat_eq_iff)
  then show ?thesis by (auto simp: b2u_def)
qed

lemma flag_fits: "(flag16 b = 1) = b" "flag16 b = 0 \<or> flag16 b = 1"
  by (simp_all add: flag16_def)

lemma promise_of_shown:
  assumes "length (holding (mg_core (g_mb s))) = 51" "reg_fits a (g_cfg s)" "a \<noteq> 1"
  shows "reg_promise a (mb_reg a (mirror_live e s)) (g_cfg s) = g_cfg s"
proof (cases "a \<in> {0x01, 0x06, 0x07, 0x08, 0x09, 0x0A, 0x0B, 0x0C, 0x0D, 0x0E, 0x0F, 0x10, 0x11,
      0x12, 0x13, 0x14, 0x15, 0x16, 0x17, 0x18, 0x2E, 0x2F}")
  case True
  then show ?thesis
    using assms(2,3)
    by (elim insertE emptyE; simp add: promises fit_conditions mirror_values [OF assms(1)] byte_id
        cal_fits clamps_fit power_fits energy_fits safty_fits)
next
  case False
  then show ?thesis by (simp add: reg_promise_def reg_map_none)
qed

lemma shown_same:
  assumes "map_of reg_map a \<noteq> None \<or> a = 0x30" "g_cfg t = g_cfg s" "app_horn_mode_active t = app_horn_mode_active s"
    and "length (holding (mg_core (g_mb s))) = 51" "length (holding (mg_core (g_mb t))) = 51"
  shows "mb_reg a (mirror_live e t) = mb_reg a (mirror_live e s)"
proof -
  have "a \<in> {0x01, 0x06, 0x07, 0x08, 0x09, 0x0A, 0x0B, 0x0C, 0x0D, 0x0E, 0x0F, 0x10, 0x11,
      0x12, 0x13, 0x14, 0x15, 0x16, 0x17, 0x18, 0x2E, 0x2F, 0x30}"
    using assms(1) by (rule contrapos_pp) (simp add: reg_map_none)
  then show ?thesis
    by (elim insertE emptyE; simp add: mirror_values assms del: One_nat_def)
qed

text \<open>The edits touch neither the regulator nor the session, the save or the register table.\<close>

interpretation kept: edit_ops "\<lambda>t. g_reg t = g_reg s0 \<and> g_measure t = g_measure s0 \<and> g_sr t = g_sr s0 \<and>
    g_i2c t = g_i2c s0 \<and> mg_hwd (g_mb t) = mg_hwd (g_mb s0) \<and> mg_core (g_mb t) = mg_core (g_mb s0) \<and>
    mg_ren_state (g_mb t) = mg_ren_state (g_mb s0)" for s0
  by unfold_locales simp_all

lemmas timings_keep = kept.timings [of s s now for s now, simplified]

text \<open>A configuration changed without \<open>save\<close> does not exist.\<close>

definition saved_or_same :: "sys \<Rightarrow> sys \<times> bool \<Rightarrow> bool" where
  "saved_or_same s r \<longleftrightarrow> snd r \<or> g_cfg (fst r) = g_cfg s"

lemma saved_if: "saved_or_same s a \<Longrightarrow> saved_or_same s b \<Longrightarrow> saved_or_same s (if c then a else b)"
  by simp

lemma saved_edit: "saved_or_same s (edit f echo s)"
  by (simp add: saved_or_same_def edit_def)

lemma saved_timings: "saved_or_same s (apply_timings now s)"
  unfolding apply_timings_def apply_outputs_def apply_modes_def apply_model_def Let_def
  by (intro saved_if saved_edit) (simp_all add: saved_or_same_def)

text \<open>The edits leave the commands in the table alone; the command arms clear theirs.\<close>

lemma cmds_clear_same: "mg_core (g_mb t) = mg_core (g_mb s) \<Longrightarrow> cmds_clear t = cmds_clear s"
  by (simp add: cmds_clear_def mb_reg_def)

lemma writes_keep_core:
  "mg_core (g_mb (app_lcd_hook_set_pot p s)) = mg_core (g_mb s)"
  "mg_core (g_mb (start_cmd_body now sv s)) = mg_core (g_mb s)"
  "mg_core (g_mb (fst (apply_cfg_ctrl link ctrl s))) = mg_core (g_mb s)"
  by (simp_all add: app_lcd_hook_set_pot_def start_cmd_body_def apply_cfg_ctrl_def cfg_ctrl_commit_body_def
      Let_def case_prod_unfold)

lemma mb_reg_core: "mg_core (g_mb t) = mg_core (g_mb s) \<Longrightarrow> mb_reg r t = mb_reg r s"
  by (simp add: mb_reg_def)

lemma mb_reg_parts [simp]:
  "mb_reg r (start_cmd_body now sv s) = mb_reg r s"
  "mb_reg r (fst (apply_cfg_ctrl link ctrl s)) = mb_reg r s"
  "mb_reg r (fst (apply_timings now s)) = mb_reg r s"
  by (rule mb_reg_core; simp add: writes_keep_core timings_keep)+

text \<open>At most the register just written holds a command; the chain consumes it.\<close>

lemma chain_clears:
  assumes "length (holding (mg_core (g_mb s))) = 51"
    and "\<And>r. r \<noteq> a \<Longrightarrow> r \<in> {0x19, 0x1A, 0x1C} \<Longrightarrow> mb_reg r s \<noteq> 1"
    and "\<And>r. r \<noteq> a \<Longrightarrow> r \<in> {0x1B, 0x28} \<Longrightarrow> mb_reg r s = 0"
  shows "cmds_clear (fst (apply_chain now link s))"
proof -
  have c: "a \<noteq> 0x19 \<longrightarrow> mb_reg 0x19 s \<noteq> 1" "a \<noteq> 0x1A \<longrightarrow> mb_reg 0x1A s \<noteq> 1" "a \<noteq> 0x1C \<longrightarrow> mb_reg 0x1C s \<noteq> 1"
    "a \<noteq> 0x1B \<longrightarrow> mb_reg 0x1B s = 0" "a \<noteq> 0x28 \<longrightarrow> mb_reg 0x28 s = 0"
    using assms(2,3) by (auto)
  consider "a = 0x19" | "a = 0x1A" | "a = 0x1B" | "a = 0x1C" | "a = 0x28"
    | "a \<notin> {0x19, 0x1A, 0x1B, 0x1C, 0x28}" by blast
  then show ?thesis
    using c assms(1) by cases (auto simp: cmds_clear_def apply_chain_def)
qed

lemma write_clears:
  assumes "length (holding (mg_core (g_mb s))) = 51" "cmds_clear s"
  shows "cmds_clear (app_modbus_apply_writes now link (put_reg a v s))"
proof -
  let ?s = "put_reg a v s"
  have len: "length (holding (mg_core (g_mb ?s))) = 51" using assms(1) by (simp add: put_reg_def)
  have other: "mb_reg r ?s = mb_reg r s" if "r \<noteq> a" for r
    using that by (simp add: put_reg_def mb_reg_def)
  have chain: "cmds_clear (fst (apply_chain now link ?s))"
    by (rule chain_clears [OF len, of a]) (use other assms(2) in \<open>auto simp: cmds_clear_def\<close>)
  have gate: "cmds_clear (gate_reject_body now ?s)"
    using len by (simp add: gate_reject_body_def cmds_clear_def Let_def)
  show ?thesis
  proof (cases "mg_ren_state (g_mb ?s) = REN_ENABLED")
    case True
    have "mg_core (g_mb (app_modbus_apply_writes now link ?s)) = mg_core (g_mb (fst (apply_chain now link ?s)))"
      using True by (simp add: app_modbus_apply_writes_def Let_def case_prod_unfold del: put_reg_keeps)
    then show ?thesis using chain cmds_clear_same by blast
  next
    case False
    then show ?thesis using gate by (simp add: app_modbus_apply_writes_def del: put_reg_keeps)
  qed
qed

lemma mirror_clears:
  "length (holding (mg_core (g_mb s))) = 51 \<Longrightarrow> cmds_clear (mirror_live e s) = cmds_clear s"
  by (simp add: cmds_clear_def mirror_commands)

lemma one_write_clears:
  assumes "length (holding (mg_core (g_mb s))) = 51" "cmds_clear s"
  shows "cmds_clear (app_modbus_apply_writes now link (put_reg a v (mirror_live e s)))"
  using assms by (intro write_clears) (simp_all add: mirror_clears)

text \<open>The table keeps its size and the stage its form.\<close>

definition staged_ok :: "sys \<times> bool \<Rightarrow> bool" where
  "staged_ok r \<longleftrightarrow> stage_inv (mg_stg (g_mb (fst r)))"

lemma staged_ok_if: "staged_ok a \<Longrightarrow> staged_ok b \<Longrightarrow> staged_ok (if c then a else b)"
  by simp

lemma staged_ok_edit:
  "stage_inv (mg_stg (g_mb s)) \<Longrightarrow> (\<And>t. g_mb (echo t) = g_mb t) \<Longrightarrow> staged_ok (edit f echo s)"
  by (simp add: staged_ok_def edit_def)

lemma stage_timings: "stage_inv (mg_stg (g_mb s)) \<Longrightarrow> staged_ok (apply_timings now s)"
proof -
  assume s: "stage_inv (mg_stg (g_mb s))"
  have scan: "staged_ok (apply_staged now s, False)"
    using s by (auto simp: staged_ok_def apply_staged_def find_Some_iff intro: stage_inv_ops split: option.split)
  show ?thesis
    unfolding apply_timings_def apply_outputs_def apply_modes_def apply_model_def Let_def
    by (intro staged_ok_if staged_ok_edit s scan) (use s in \<open>simp_all add: staged_ok_def\<close>)
qed

lemma stage_cfg_ctrl:
  "stage_inv (mg_stg (g_mb s)) \<Longrightarrow> stage_inv (mg_stg (g_mb (fst (apply_cfg_ctrl link ctrl s))))"
  by (simp add: apply_cfg_ctrl_def cfg_ctrl_commit_body_def stage_inv_ops Let_def case_prod_unfold)

lemma tables_set: "mb_tables_ok (mg_core (g_mb s)) \<Longrightarrow> mb_tables_ok (mg_core (g_mb (mb_set r v s)))"
  by (simp add: mb_tables_ok_def mb_set_def)

lemma mirror_core [simp]:
  "coils (mg_core (g_mb (mirror_live e s))) = coils (mg_core (g_mb s))"
  "device_addr (mg_core (g_mb (mirror_live e s))) = device_addr (mg_core (g_mb s))"
  by (simp_all add: mirror_live_def)

lemma mirror_tables: "mb_inv s \<Longrightarrow> mb_inv (mirror_live e s)"
  by (simp add: mb_inv_def mb_tables_ok_def)

lemma stage_start: "mg_stg (g_mb (start_cmd_body now sv s)) = mg_stg (g_mb s)"
  by (simp add: start_cmd_body_def)

lemma writes_tables:
  assumes "mb_inv s" shows "mb_inv (app_modbus_apply_writes now link s)"
proof -
  have t: "mb_tables_ok (mg_core (g_mb s))" and g: "stage_inv (mg_stg (g_mb s))"
    using assms by (simp_all add: mb_inv_def)
  have gate: "mb_inv (gate_reject_body now s)"
    using t g by (simp add: gate_reject_body_def mb_inv_def tables_set Let_def)
  have chain: "mb_inv (fst (apply_chain now link s))"
    using t g stage_timings [OF g, of now]
    by (simp add: apply_chain_def mb_inv_def tables_set writes_keep_core stage_cfg_ctrl timings_keep
        staged_ok_def stage_start)
  show ?thesis
    using gate chain by (simp add: app_modbus_apply_writes_def mb_inv_def Let_def case_prod_unfold)
qed

text \<open>The horn mode and the stage: only their own registers touch them.\<close>

definition aside :: "sys \<Rightarrow> horn_glue \<times> outputs \<times> cfg_stage" where
  "aside s = (g_horn s, g_out s, mg_stg (g_mb s))"

lemma aside_if: "(c \<Longrightarrow> aside (fst x) = r) \<Longrightarrow> (\<not> c \<Longrightarrow> aside (fst y) = r) \<Longrightarrow> aside (fst (if c then x else y)) = r"
  by simp

lemma aside_edit: "(\<And>t. aside (echo t) = aside t) \<Longrightarrow> aside s = r \<Longrightarrow> aside (fst (edit f echo s)) = r"
  by (simp add: edit_def) (simp add: aside_def)

lemma aside_sends [simp]:
  "aside (g_dgus_update f s) = aside s" "aside (app_lcd_send_model_str m t s) = aside s"
  "aside (app_lcd_set_work_cnt c s) = aside s" "aside (g_cfg_update g s) = aside s"
  by (simp_all add: aside_def app_lcd_set_work_cnt_def app_lcd_send_model_str_def)

lemma stage_write_other: "a \<notin> set k_stg_reg \<Longrightarrow> stage_write a v now stg = stg"
proof -
  assume a: "a \<notin> set k_stg_reg"
  have "k_stg_reg ! i \<in> set k_stg_reg" if "i < 9" for i
    using that by (intro nth_mem) (simp add: k_stg_reg_def)
  then have "find (\<lambda>i. k_stg_reg ! i = a) [0..<9] = None" using a by (auto simp: find_None_iff)
  then show ?thesis by (simp add: stage_write_def)
qed

lemma staged_here:
  assumes "a < 51" "a < length (holding (mg_core (g_mb s)))"
  shows "aside (apply_staged now (put_reg a v s)) = (g_horn s, g_out s, stage_write a v now (mg_stg (g_mb s)))"
proof -
  have u: "unat (of_nat k :: u16) = k" if "k < 51" for k using that by (simp add: unat_of_nat)
  have "k_stg_reg ! i < 51" if "i < 9" for i
    using nth_mem [of i k_stg_reg] that by (auto simp: k_stg_reg_def simp del: nth_mem)
  then have "(of_nat (k_stg_reg ! i) = (of_nat a :: u16)) = (k_stg_reg ! i = a)" if "i < 9" for i
    using that u assms(1) by metis
  then have "find (\<lambda>i. of_nat (k_stg_reg ! i) = (of_nat a :: u16)) [0..<9] = find (\<lambda>i. k_stg_reg ! i = a) [0..<9]"
    by (intro find_cong) simp_all
  then have stg: "apply_staged now (put_reg a v s) = (case find (\<lambda>i. k_stg_reg ! i = a) [0..<9] of
      None \<Rightarrow> put_reg a v s
    | Some i \<Rightarrow> mb_stage (cfg_stage_write i (mb_reg (k_stg_reg ! i) (put_reg a v s)) now) (put_reg a v s))"
    by (simp only: apply_staged_def put_reg_keeps)
  show ?thesis
  proof (cases "find (\<lambda>i. k_stg_reg ! i = a) [0..<9]")
    case None
    then show ?thesis by (simp add: stg aside_def stage_write_def)
  next
    case (Some i)
    then have "k_stg_reg ! i = a" by (auto simp: find_Some_iff)
    then show ?thesis
      using Some by (simp add: stg aside_def stage_write_def put_reg_reg [OF assms(2)])
  qed
qed

lemma chain_aside:
  fixes e :: env and v :: u16
  assumes "length (holding (mg_core (g_mb s))) = 51" "a < 51"
  defines "t \<equiv> put_reg a v (mirror_live e s)"
  shows "aside (fst (apply_timings now t)) =
    (if a = 0x30 \<and> v \<noteq> mb_reg 0x30 (mirror_live e s)
     then let u = app_horn_set_mode (v \<noteq> 0) s in (g_horn u, g_out u, mg_stg (g_mb s))
     else (g_horn s, g_out s, stage_write a v now (mg_stg (g_mb s))))"
proof -
  have len: "length (holding (mg_core (g_mb (mirror_live e s)))) = 51" using assms(1) by simp
  note reg = put_reg_reg [of a "mirror_live e s" _ v, unfolded len, OF assms(2), folded t_def]
  note val = mirror_values [OF assms(1)]
  have t: "aside t = aside s" "g_cfg t = g_cfg s" "g_horn t = g_horn s" "g_out t = g_out s"
    "mg_stg (g_mb t) = mg_stg (g_mb s)" "app_horn_mode_active t = app_horn_mode_active s"
    by (simp_all add: t_def aside_def)
  have st: "aside (apply_staged now t) = (g_horn s, g_out s, stage_write a v now (mg_stg (g_mb s)))"
    using staged_here [OF assms(2), of "mirror_live e s" now v] len assms(2) by (simp add: t_def)
  have req: "mb_work_cnt_reset_req (mg_core (g_mb t)) w = b2u (a = 1 \<and> v = 0 \<and> w \<noteq> 0)" for w
    using work_cnt_req [of a "mirror_live e s" v w, unfolded len] assms(2) by (simp add: t_def)
  have horn: "(mb_reg 0x30 t \<noteq> ucast (app_horn_mode_active t)) = (a = 0x30 \<and> v \<noteq> mb_reg 0x30 (mirror_live e s))"
    by (auto simp: reg val t)
  have through: "apply_timings now t =
      (if a = 0x30 \<and> v \<noteq> mb_reg 0x30 (mirror_live e s)
       then (let u = app_horn_set_mode (v \<noteq> 0) t in (tx_u16 DISP_HORNDOWN (ucast (app_horn_mode_active u)) u, False))
       else (apply_staged now t, False))"
    if "a \<notin> {0x01, 0x06, 0x07, 0x08, 0x09, 0x0A, 0x0B, 0x0C, 0x0D, 0x0E, 0x0F, 0x10, 0x11,
      0x12, 0x13, 0x14, 0x15, 0x16, 0x17, 0x18, 0x2E, 0x2F}"
    using that
    by (simp add: apply_timings_def apply_outputs_def apply_modes_def apply_model_def reg val t req Let_def)
  show ?thesis
  proof (cases "a = 0x30 \<or> a \<in> set k_stg_reg")
    case True
    then have "a \<notin> {0x01, 0x06, 0x07, 0x08, 0x09, 0x0A, 0x0B, 0x0C, 0x0D, 0x0E, 0x0F, 0x10, 0x11,
      0x12, 0x13, 0x14, 0x15, 0x16, 0x17, 0x18, 0x2E, 0x2F}"
      by (auto simp: k_stg_reg_def)
    from through [OF this] show ?thesis
      using st by (simp add: Let_def) (simp add: aside_def app_horn_set_mode_def io_sol_dn_def t Let_def)
  next
    case False
    then have "stage_write a v now stg = stg" for stg by (simp add: stage_write_other)
    then have st: "aside (apply_staged now t) = (g_horn s, g_out s, mg_stg (g_mb s))" using st by simp
    have "aside (fst (apply_timings now t)) = (g_horn s, g_out s, mg_stg (g_mb s))"
      unfolding apply_timings_def apply_outputs_def apply_modes_def apply_model_def Let_def
      by (intro aside_if aside_edit) (use horn False st t(1) in \<open>simp_all add: aside_def\<close>)
    then show ?thesis using False \<open>stage_write a v now (mg_stg (g_mb s)) = mg_stg (g_mb s)\<close> by simp
  qed
qed

lemma horn_set_mode_effect:
  "app_horn_mode_active (app_horn_set_mode on s) = b2u on"
  "g_out (app_horn_set_mode on s) =
     (if b2u on \<noteq> app_horn_mode_active s then (g_out s)\<lparr>out_sol_dn := False\<rparr> else g_out s)"
  by (simp_all add: app_horn_set_mode_def query_defs io_sol_dn_def Let_def)

lemma one_write_effect:
  assumes "mb_inv s" "cmds_clear s" "mg_ren_state (g_mb s) = REN_ENABLED"
    and "a < 51" "a \<notin> {0x19, 0x1A, 0x1B, 0x1C, 0x28}"
  shows "let t = mirror_live e s; s' = app_modbus_apply_writes now link (put_reg a v t) in
    (v \<noteq> mb_reg a t \<or> reg_fits a (g_cfg s) \<longrightarrow> g_cfg s' = reg_promise a v (g_cfg s)) \<and>
    (v = mb_reg a t \<and> a \<noteq> 1 \<longrightarrow> g_cfg s' = g_cfg s) \<and>
    (g_cfg s' \<noteq> g_cfg s \<longrightarrow> g_i2c s' = app_config_save_all (g_cfg s') (g_i2c s)) \<and>
    (app_horn_mode_active s' \<noteq> 0) = (if a = 0x30 then v \<noteq> 0 else app_horn_mode_active s \<noteq> 0) \<and>
    g_out s' = (if a = 0x30 \<and> v \<noteq> mb_reg 0x30 t \<and> b2u (v \<noteq> 0) \<noteq> app_horn_mode_active s
                then (g_out s)\<lparr>out_sol_dn := False\<rparr> else g_out s) \<and>
    mg_stg (g_mb s') = stage_write a v now (mg_stg (g_mb s)) \<and>
    rg_us_run_status (g_reg s') = rg_us_run_status (g_reg s) \<and> cmds_clear s'"
proof -
  let ?s = "put_reg a v (mirror_live e s)"
  let ?r = "apply_chain now link ?s"
  have len: "length (holding (mg_core (g_mb s))) = 51" using assms(1) by (simp add: mb_inv_def mb_tables_ok_def)
  have cfg: "g_cfg (fst ?r) = (if a \<noteq> 1 \<and> v = mb_reg a (mirror_live e s) then g_cfg s else reg_promise a v (g_cfg s))"
    by (rule chain_meets_spec [OF len assms(2,4,5)])
  have clear: "cmds_clear (app_modbus_apply_writes now link ?s)" by (rule one_write_clears [OF len assms(2)])
  have chain: "?r = apply_timings now ?s"
    by (rule chain_without_command [OF len assms(2,4,5)])
  have save: "snd ?r \<or> g_cfg (fst ?r) = g_cfg s"
    using saved_timings [of ?s now] by (simp add: saved_or_same_def chain)
  have keep: "g_i2c (fst ?r) = g_i2c s" "g_reg (fst ?r) = g_reg s"
    using timings_keep [of now ?s] by (simp_all add: chain)
  have side: "aside (fst ?r) =
    (if a = 0x30 \<and> v \<noteq> mb_reg 0x30 (mirror_live e s)
     then let u = app_horn_set_mode (v \<noteq> 0) s in (g_horn u, g_out u, mg_stg (g_mb s))
     else (g_horn s, g_out s, stage_write a v now (mg_stg (g_mb s))))"
    using chain_aside [OF len assms(4)] by (simp add: chain)
  have "stage_write 0x30 v now (mg_stg (g_mb s)) = mg_stg (g_mb s)"
    by (rule stage_write_other) (simp add: k_stg_reg_def)
  then have stg: "mg_stg (g_mb (fst ?r)) = stage_write a v now (mg_stg (g_mb s))"
    using side by (auto simp: aside_def Let_def split: if_splits)
  have out: "g_out (fst ?r) = (if a = 0x30 \<and> v \<noteq> mb_reg 0x30 (mirror_live e s) \<and> b2u (v \<noteq> 0) \<noteq> app_horn_mode_active s
                then (g_out s)\<lparr>out_sol_dn := False\<rparr> else g_out s)"
    using side by (auto simp: aside_def Let_def horn_set_mode_effect split: if_splits)
  have "hg_mode (g_horn (fst ?r)) = (if a = 0x30 \<and> v \<noteq> mb_reg 0x30 (mirror_live e s) then b2u (v \<noteq> 0) else hg_mode (g_horn s))"
    using side by (auto simp: aside_def Let_def split: if_splits)
  moreover have "(ucast (hg_mode (g_horn s)) = (0 :: u16)) = (hg_mode (g_horn s) = 0)"
    by (metis ucast_u8_u16_inj unsigned_0)
  ultimately have horn: "(app_horn_mode_active (fst ?r) \<noteq> 0) = (if a = 0x30 then v \<noteq> 0 else app_horn_mode_active s \<noteq> 0)"
    by (auto simp: query_defs mirror_values [OF len] b2u_def)
  have tail: "app_modbus_apply_writes now link ?s =
      (if snd ?r then app_lcd_run_std_refresh (g_i2c_update (app_config_save_all (g_cfg (fst ?r))) (fst ?r))
       else fst ?r)"
    using assms(3) by (simp add: app_modbus_apply_writes_def Let_def case_prod_unfold)
  define u where "u = app_modbus_apply_writes now link ?s"
  have u: "g_cfg u = g_cfg (fst ?r)" "g_out u = g_out (fst ?r)" "mg_stg (g_mb u) = mg_stg (g_mb (fst ?r))"
    "g_reg u = g_reg s" "app_horn_mode_active u = app_horn_mode_active (fst ?r)"
    "g_cfg u \<noteq> g_cfg s \<longrightarrow> g_i2c u = app_config_save_all (g_cfg u) (g_i2c s)"
    using save keep by (auto simp: u_def tail query_defs)
  have promise: "v \<noteq> mb_reg a (mirror_live e s) \<or> reg_fits a (g_cfg s) \<longrightarrow> g_cfg u = reg_promise a v (g_cfg s)"
    "v = mb_reg a (mirror_live e s) \<and> a \<noteq> 1 \<longrightarrow> g_cfg u = g_cfg s"
    using cfg promise_of_shown [OF len, of a e] by (auto simp: u(1))
  show ?thesis
    unfolding Let_def u_def [symmetric] using promise u clear [folded u_def] stg out horn by simp
qed

section \<open>Properties\<close>


definition wit_write :: sys where
  "wit_write = (sys_zero MODEL_STD)\<lparr>g_mb := mb_glue_zero\<lparr>mg_ren_state := REN_ENABLED\<rparr>\<rparr>"


text \<open>
  The energy limit of the factory cannot be set to 34464 over the bus. A read shows the low 16
  bits of the factory limit 100000, which are 34464; a write of that value is taken for no change.
\<close>

theorem energy_write_ignored:
  assumes "mb_inv s" "cmds_clear s" "mg_ren_state (g_mb s) = REN_ENABLED" "limit_energy (g_cfg s) = 100000"
  shows "g_cfg (app_modbus_apply_writes now link (put_reg 0x08 34464 (mirror_live e s))) = g_cfg s \<and>
    reg_promise 0x08 34464 (g_cfg s) \<noteq> g_cfg s"
proof -
  have "length (holding (mg_core (g_mb s))) = 51" using assms(1) by (simp add: mb_inv_def mb_tables_ok_def)
  then have "mb_reg 0x08 (mirror_live e s) = 34464" by (simp add: mirror_values assms(4))
  then have "g_cfg (app_modbus_apply_writes now link (put_reg 0x08 34464 (mirror_live e s))) = g_cfg s"
    using one_write_effect [OF assms(1-3), where a = "0x08" and e = e and v = 34464 and now = now and link = link]
    by (simp add: Let_def)
  moreover have "limit_energy (reg_promise 0x08 34464 (g_cfg s)) \<noteq> limit_energy (g_cfg s)"
    by (simp add: promises assms(4))
  ultimately show ?thesis by metis
qed

text \<open>
  C5: A closed gate lets nothing through but STOP. While the remote enable is not granted a
  message changes neither the configuration, its FRAM image, the staged settings nor the hold
  session, starts no run, seek or reset, moves no pin and clears no fault; STOP still ends the
  run; and all five command registers are erased, so that nothing waits for the gate to open.
\<close>

theorem closed_gate_blocks:
  assumes "mb_inv s" "mg_ren_state (g_mb s) \<noteq> REN_ENABLED"
  shows "let s' = app_modbus_apply_writes now link s in
    g_cfg s' = g_cfg s \<and> g_i2c s' = g_i2c s \<and> g_horn s' = g_horn s \<and> g_out s' = g_out s \<and>
    g_sr s' = g_sr s \<and> mg_stg (g_mb s') = mg_stg (g_mb s) \<and> mg_hwd (g_mb s') = mg_hwd (g_mb s) \<and>
    rg_error_status (g_reg s') = rg_error_status (g_reg s) \<and>
    rg_us_run_status (g_reg s') = (if mb_reg MB_REG_STOP s = 1 then US_IDLE else rg_us_run_status (g_reg s)) \<and>
    (\<forall>r \<in> {MB_REG_RESET, MB_REG_SEEK, MB_REG_START, MB_REG_STOP, MB_REG_CFG_CTRL}. mb_reg r s' = 0)"
  using assms
  by (simp add: app_modbus_apply_writes_def gate_reject_body_def mb_inv_def mb_tables_ok_def Let_def)

definition wit_gate :: sys where
  "wit_gate = (sys_zero MODEL_REMOTE)\<lparr>g_mb := mb_glue_zero\<lparr>
     mg_core := (mb_core_init 1)\<lparr>holding := (replicate 51 0)[0x1B := 1, 0x1C := 1, 0x0A := 77]\<rparr>\<rparr>,
     g_reg := reg_state_zero\<lparr>rg_us_run_status := US_COMM\<rparr>\<rparr>"

theorem closed_gate_blocks_witness:
  "let s' = app_modbus_apply_writes 5 MB_LINK_RTU wit_gate in
   rg_us_run_status (g_reg s') = US_IDLE \<and> mb_reg MB_REG_START s' = 0 \<and>
   limit_delay_time1 (g_cfg s') = 50"
proof -
  have "mb_inv wit_gate" "mg_ren_state (g_mb wit_gate) \<noteq> REN_ENABLED"
    by (simp_all add: mb_inv_def mb_tables_ok_def wit_gate_def mb_core_init_def mb_glue_zero_def
        stage_inv_def cfg_stage_init_def)
  from closed_gate_blocks [OF this, of 5 MB_LINK_RTU] show ?thesis
    by (simp add: Let_def) (simp add: wit_gate_def mb_reg_def sys_zero_def app_config_factory_defaults_def)
qed

lemma start_comm:
  "app_reg_start_allowed s \<Longrightarrow>
   rg_us_run_status (g_reg (app_reg_command now US_CMD_START US_COMM s)) = US_COMM"
  "\<not> app_reg_start_allowed s \<Longrightarrow> app_reg_command now US_CMD_START US_COMM s = s"
  by (simp_all add: app_reg_command_def reg_cmd_start_def app_reg_start_allowed_def Let_def)

lemma allowed_mb [simp]: "app_reg_start_allowed (mb_set r v s) = app_reg_start_allowed s"
  by (simp add: app_reg_start_allowed_def query_defs)

lemma set_pot_parts [simp]:
  "g_reg (app_lcd_hook_set_pot p s) = g_reg s" "g_mb (app_lcd_hook_set_pot p s) = g_mb s"
  by (simp_all add: app_lcd_hook_set_pot_def)

lemma start_body_run:
  "rg_us_run_status (g_reg (start_cmd_body now sv s)) =
     (if sv \<in> {MB_START_TAP, MB_START_HOLD} \<and> app_reg_start_allowed s then US_COMM
      else rg_us_run_status (g_reg s))"
  "hw_armed (mg_hwd (g_mb (start_cmd_body now sv s))) =
     (if sv = MB_START_HOLD \<and> app_reg_start_allowed s then 1 else hw_armed (mg_hwd (g_mb s)))"
  using start_comm [of s now]
  by (auto simp: start_cmd_body_def hold_wdt_arm_def hold_wdt_keep_def)

lemma cfg_ctrl_keeps [simp]:
  "g_reg (fst (apply_cfg_ctrl link ctrl s)) = g_reg s"
  "mg_hwd (g_mb (fst (apply_cfg_ctrl link ctrl s))) = mg_hwd (g_mb s)"
  by (simp_all add: apply_cfg_ctrl_def cfg_ctrl_commit_body_def Let_def case_prod_unfold)

lemma command_parts [simp]:
  "rg_us_run_status (g_reg (app_reg_command now US_CMD_RESET src s)) = rg_us_run_status (g_reg s)"
  "rg_us_run_status (g_reg (app_reg_command now US_CMD_SEEK src s)) = rg_us_run_status (g_reg s)"
  by (simp_all add: command_run_status)

text \<open>
  C6: A remote message starts a run in one way only. If the run source differs after a
  message, either the run ended and the table held STOP, or the gate is open, the table held
  START with value 1 or 2, the machine was allowed to start at that moment and the run now
  belongs to the bus. The hold session is armed by START with value 2 in such a moment and by
  nothing else; a keep renews a session and never creates one.
\<close>

theorem remote_start_conditions:
  assumes "mb_inv s"
  shows "let s' = app_modbus_apply_writes now link s;
             started = (mg_ren_state (g_mb s) = REN_ENABLED \<and> app_reg_start_allowed s \<and>
                        rg_us_run_status (g_reg s') = US_COMM)
    in (rg_us_run_status (g_reg s') = rg_us_run_status (g_reg s) \<or>
        rg_us_run_status (g_reg s') = US_IDLE \<and> mb_reg MB_REG_STOP s = 1 \<or>
        started \<and> mb_reg MB_REG_START s \<in> {MB_START_TAP, MB_START_HOLD}) \<and>
       (hw_armed (mg_hwd (g_mb s')) = hw_armed (mg_hwd (g_mb s)) \<or>
        started \<and> mb_reg MB_REG_START s = MB_START_HOLD \<and> hw_armed (mg_hwd (g_mb s')) = 1)"
proof -
  let ?r = "apply_chain now link s"
  have chain: "(rg_us_run_status (g_reg (fst ?r)) = rg_us_run_status (g_reg s) \<or>
        rg_us_run_status (g_reg (fst ?r)) = US_IDLE \<and> mb_reg MB_REG_STOP s = 1 \<or>
        app_reg_start_allowed s \<and> rg_us_run_status (g_reg (fst ?r)) = US_COMM \<and>
        mb_reg MB_REG_START s \<in> {MB_START_TAP, MB_START_HOLD}) \<and>
       (hw_armed (mg_hwd (g_mb (fst ?r))) = hw_armed (mg_hwd (g_mb s)) \<or>
        app_reg_start_allowed s \<and> rg_us_run_status (g_reg (fst ?r)) = US_COMM \<and>
        mb_reg MB_REG_START s = MB_START_HOLD \<and> hw_armed (mg_hwd (g_mb (fst ?r))) = 1)"
    by (simp add: apply_chain_def start_body_run timings_keep) auto
  have tail: "g_reg (app_modbus_apply_writes now link s) = g_reg (fst ?r)"
    "mg_hwd (g_mb (app_modbus_apply_writes now link s)) = mg_hwd (g_mb (fst ?r))"
    if "mg_ren_state (g_mb s) = REN_ENABLED"
    using that by (simp_all add: app_modbus_apply_writes_def Let_def case_prod_unfold)
  show ?thesis
  proof (cases "mg_ren_state (g_mb s) = REN_ENABLED")
    case True
    then show ?thesis using chain by (simp add: Let_def tail)
  next
    case False
    then show ?thesis
      using assms
      by (simp add: app_modbus_apply_writes_def gate_reject_body_def mb_inv_def mb_tables_ok_def Let_def)
  qed
qed

theorem remote_start_conditions_witness:
  "hw_armed (mg_hwd (g_mb (app_modbus_apply_writes 5 MB_LINK_RTU wit_gate))) = 0"
proof -
  have "mb_inv wit_gate"
    by (simp add: mb_inv_def mb_tables_ok_def wit_gate_def mb_core_init_def mb_glue_zero_def
        stage_inv_def cfg_stage_init_def)
  from remote_start_conditions [OF this, of 5 MB_LINK_RTU] show ?thesis
    by (auto simp: Let_def wit_gate_def mb_glue_zero_def remote_en_fsm_init_def)
qed

end
