(* ===== verification/Modbus_Tcp.thy ===== *)
theory Modbus_Tcp
  imports Modbus_Writes Modbus_Tcp_Frame "HOL-Library.Sublist"
begin

text \<open>
  The Modbus TCP server, \<open>fw/src/app_modbus_tcp.c\<close>: one socket of the W5500, its life cycle,
  the receive accumulator and the walk over its frames. The vendored socket library is not
  modelled: what it reports is the record \<open>sock_in\<close>, what the code asks of it is logged in
  \<open>tc_log\<close>. The library's one property the code relies on is that a receive of at most n bytes
  returns at most n bytes.
\<close>

section \<open>State\<close>

abbreviation (input) MB_TCP_ACC_LEN :: nat where "MB_TCP_ACC_LEN \<equiv> 262"
abbreviation (input) MB_TCP_FRAMES_PER_POLL :: nat where "MB_TCP_FRAMES_PER_POLL \<equiv> 4"
abbreviation (input) MB_TCP_TXACC_LEN :: nat where "MB_TCP_TXACC_LEN \<equiv> 516"
abbreviation (input) MB_TCP_CLOSEWAIT_MAX_MS :: u32 where "MB_TCP_CLOSEWAIT_MAX_MS \<equiv> 500"
abbreviation (input) MB_TCP_IDLE_MAX_MS :: u32 where "MB_TCP_IDLE_MAX_MS \<equiv> 12000"

datatype sock_status = SOCK_CLOSED | SOCK_INIT | SOCK_ESTABLISHED | SOCK_CLOSE_WAIT | SOCK_OTHER

datatype sock_cmd = SC_CLOSE | SC_DISCONNECT | SC_LISTEN | SC_SOCKET u16 | SC_KEEPALIVE u8
  | SC_CLEAR_CON | SC_SEND "u8 list"

text \<open>The accumulator is the valid prefix of the code's array.\<close>

record tcp_st =
  tc_acc :: "u8 list"
  tc_cw_since_ms :: u32
  tc_last_rx_ms :: u32
  tc_cw_active :: u8
  tc_log :: "sock_cmd list"

definition tcp_st_zero :: tcp_st where
  "tcp_st_zero = \<lparr>tc_acc = [], tc_cw_since_ms = 0, tc_last_rx_ms = 0, tc_cw_active = 0, tc_log = []\<rparr>"

text \<open>
  What the library reports in one poll: the status and the connect flag at its head, whether a
  socket opens, the status afterwards, the bytes waiting, what a receive of n bytes delivers.
\<close>

record sock_in =
  si_status :: sock_status
  si_con :: bool
  si_opens :: bool
  si_status_after :: sock_status
  si_avail :: nat
  si_recv :: "nat \<Rightarrow> u8 list"

section \<open>Operations\<close>

definition sock_do :: "sock_cmd \<Rightarrow> tcp_st \<Rightarrow> tcp_st" where
  "sock_do c t = t\<lparr>tc_log := tc_log t @ [c]\<rparr>"

definition app_modbus_tcp_reset :: "tcp_st \<Rightarrow> tcp_st" where
  "app_modbus_tcp_reset t = (sock_do SC_CLOSE t)\<lparr>tc_acc := [], tc_cw_active := 0\<rparr>"

definition control_tcp :: "u32 \<Rightarrow> sock_in \<Rightarrow> tcp_st \<Rightarrow> tcp_st" where
  "control_tcp now i t =
     (case si_status i of
        SOCK_ESTABLISHED \<Rightarrow>
          (let t = t\<lparr>tc_cw_active := 0\<rparr>;
               t = (if si_con i then (sock_do SC_CLEAR_CON t)\<lparr>tc_acc := [], tc_last_rx_ms := now\<rparr> else t)
           in if MB_TCP_IDLE_MAX_MS < elapsed now (tc_last_rx_ms t) then sock_do SC_DISCONNECT t else t)
      | SOCK_CLOSE_WAIT \<Rightarrow>
          if tc_cw_active t = 0
          then sock_do SC_DISCONNECT (t\<lparr>tc_cw_active := 1, tc_cw_since_ms := now\<rparr>)
          else if MB_TCP_CLOSEWAIT_MAX_MS < elapsed now (tc_cw_since_ms t)
          then (sock_do SC_CLOSE t)\<lparr>tc_cw_active := 0\<rparr>
          else t
      | SOCK_INIT \<Rightarrow> sock_do SC_LISTEN (t\<lparr>tc_cw_active := 0\<rparr>)
      | SOCK_CLOSED \<Rightarrow>
          (let t = sock_do (SC_SOCKET 502) (t\<lparr>tc_cw_active := 0\<rparr>)
           in if si_opens i then sock_do (SC_KEEPALIVE 2) t else t)
      | SOCK_OTHER \<Rightarrow> t)"

text \<open>The receive, into what room is left.\<close>

definition tcp_receive :: "sock_in \<Rightarrow> tcp_st \<Rightarrow> tcp_st" where
  "tcp_receive i t =
     (let space = MB_TCP_ACC_LEN - length (tc_acc t); avail = si_avail i
      in if avail \<noteq> 0 \<and> space \<noteq> 0
         then t\<lparr>tc_acc := tc_acc t @ si_recv i (if space < avail then space else avail)\<rparr>
         else t)"

text \<open>
  The walk: at most \<open>frames\<close> more frames, answered in order; after an applied write it stops.
  It carries the rest of the accumulator, the answers and the time of the last valid request.
\<close>

fun tcp_walk :: "nat \<Rightarrow> u32 \<Rightarrow> u8 list \<Rightarrow> u8 list \<Rightarrow> u32 \<Rightarrow> sys \<Rightarrow> u8 list \<times> u8 list \<times> u32 \<times> sys" where
  "tcp_walk 0 now acc tx rx_ms s = (acc, tx, rx_ms, s)"
| "tcp_walk (Suc frames) now acc tx rx_ms s =
     (case mb_tcp_frame_peek acc of
        MB_TCP_FR_DESYNC \<Rightarrow> ([], tx, rx_ms, s)
      | MB_TCP_FR_NEED_MORE \<Rightarrow> (acc, tx, rx_ms, s)
      | MB_TCP_FR_OK n \<Rightarrow>
          (let (core, answer, fc) = mb_tcp_build_response (mg_core (g_mb s)) (take n acc);
               s = mb_core_upd (\<lambda>_. core) s
           in case answer of
                None \<Rightarrow> tcp_walk frames now (drop n acc) tx rx_ms s
              | Some out \<Rightarrow>
                  (let s = app_modbus_note_remote now s
                   in if fc = 6
                      then (drop n acc, tx @ out, now, app_modbus_apply_writes now MB_LINK_TCP s)
                      else tcp_walk frames now (drop n acc) (tx @ out) now s)))"

definition app_modbus_tcp_poll :: "u32 \<Rightarrow> sock_in \<Rightarrow> tcp_st \<times> sys \<Rightarrow> tcp_st \<times> sys" where
  "app_modbus_tcp_poll now i ts =
     (let (t, s) = ts; t = control_tcp now i t
      in if si_status_after i \<noteq> SOCK_ESTABLISHED then (t, s)
         else
           (let t = tcp_receive i t
            in if tc_acc t = [] then (t, s)
               else
                 (let (acc, tx, rx_ms, s) = tcp_walk MB_TCP_FRAMES_PER_POLL now (tc_acc t) [] (tc_last_rx_ms t) s;
                      t = t\<lparr>tc_acc := acc, tc_last_rx_ms := rx_ms\<rparr>
                  in (if tx \<noteq> [] then sock_do (SC_SEND tx) t else t, s))))"

section \<open>Bounds\<close>

text \<open>The documented bound of the receive.\<close>

definition recv_bounded :: "sock_in \<Rightarrow> bool" where
  "recv_bounded i \<longleftrightarrow> (\<forall>n. length (si_recv i n) \<le> n)"

definition tcp_ok :: "tcp_st \<Rightarrow> bool" where
  "tcp_ok t \<longleftrightarrow> length (tc_acc t) \<le> MB_TCP_ACC_LEN \<and>
     (\<forall>bs. SC_SEND bs \<in> set (tc_log t) \<longrightarrow> 0 < length bs \<and> length bs \<le> MB_TCP_TXACC_LEN)"

lemma sock_do_ok [simp]:
  "tcp_ok (sock_do c t) \<longleftrightarrow> tcp_ok t \<and> (\<forall>bs. c = SC_SEND bs \<longrightarrow> 0 < length bs \<and> length bs \<le> 516)"
  by (auto simp: tcp_ok_def sock_do_def)

lemma tcp_ok_updates [simp]:
  "tcp_ok (t\<lparr>tc_cw_active := a\<rparr>) = tcp_ok t" "tcp_ok (t\<lparr>tc_cw_since_ms := b\<rparr>) = tcp_ok t"
  "tcp_ok (t\<lparr>tc_last_rx_ms := b\<rparr>) = tcp_ok t"
  by (simp_all add: tcp_ok_def)

lemma tcp_ok_acc: "tcp_ok t \<Longrightarrow> length bs \<le> 262 \<Longrightarrow> tcp_ok (t\<lparr>tc_acc := bs\<rparr>)"
  by (simp add: tcp_ok_def)

lemma control_ok: "tcp_ok t \<Longrightarrow> tcp_ok (control_tcp now i t)"
  by (simp add: control_tcp_def tcp_ok_acc Let_def split: sock_status.split)

lemma reset_ok: "tcp_ok t \<Longrightarrow> tcp_ok (app_modbus_tcp_reset t)"
  by (simp add: app_modbus_tcp_reset_def tcp_ok_acc)

lemma receive_ok: "tcp_ok t \<Longrightarrow> recv_bounded i \<Longrightarrow> tcp_ok (tcp_receive i t)"
proof -
  assume t: "tcp_ok t" and r: "recv_bounded i"
  let ?room = "262 - length (tc_acc t)"
  have room: "length (tc_acc t) \<le> 262" using t by (simp add: tcp_ok_def)
  have len: "length (si_recv i n) \<le> n" for n using r by (simp add: recv_bounded_def)
  have "length (tc_acc t @ si_recv i n) \<le> 262" if "n \<le> ?room" for n
    using len [of n] that room by simp
  then have "tcp_ok (t\<lparr>tc_acc := tc_acc t @ si_recv i n\<rparr>)" if "n \<le> ?room" for n
    using tcp_ok_acc [OF t] that by blast
  then show ?thesis using t by (simp add: tcp_receive_def Let_def)
qed

lemma response_length:
  assumes "mb_tcp_build_response mb req = (mb', Some out, fc)"
  shows "0 < length out \<and> length out \<le> 129"
proof -
  let ?len = "unat (be16 (req ! 4) (req ! 5))"
  obtain mb1 resp fc1 where d: "mb_core_decode mb (take ?len (drop 6 req)) MB_MODE_TCP = (mb1, resp, fc1)"
    by (cases "mb_core_decode mb (take ?len (drop 6 req)) MB_MODE_TCP") auto
  have l: "\<not> length resp < 4" "length out = 6 + (length resp - 2)"
    using assms by (auto simp: mb_tcp_build_response_def Let_def d split: if_splits)
  then have "resp \<noteq> []" by auto
  from decode_resp_shape [OF d this] have "length resp \<le> 107" by (auto simp: rtu_frame_def)
  then show ?thesis using l by simp
qed

lemma walk_bounds:
  assumes "tcp_walk k now acc tx ms s = (acc', tx', ms', s')"
  shows "length acc' \<le> length acc \<and> length tx' \<le> length tx + k * 129"
  using assms
proof (induction k arbitrary: acc tx ms s)
  case 0
  then show ?case by simp
next
  case (Suc k)
  show ?case
  proof (cases "mb_tcp_frame_peek acc")
    case (MB_TCP_FR_OK n)
    obtain core ans fc where b: "mb_tcp_build_response (mg_core (g_mb s)) (take n acc) = (core, ans, fc)"
      by (cases "mb_tcp_build_response (mg_core (g_mb s)) (take n acc)") auto
    show ?thesis
    proof (cases ans)
      case None
      then have "tcp_walk k now (drop n acc) tx ms (mb_core_upd (\<lambda>_. core) s) = (acc', tx', ms', s')"
        using Suc.prems by (simp add: MB_TCP_FR_OK b Let_def)
      from Suc.IH [OF this] show ?thesis by simp arith
    next
      case (Some out)
      have out: "length out \<le> 129" using response_length b Some by blast
      let ?s = "app_modbus_note_remote now (mb_core_upd (\<lambda>_. core) s)"
      show ?thesis
      proof (cases "fc = 6")
        case True
        then show ?thesis using Suc.prems out by (auto simp: MB_TCP_FR_OK b Some Let_def)
      next
        case False
        then have "tcp_walk k now (drop n acc) (tx @ out) now ?s = (acc', tx', ms', s')"
          using Suc.prems by (simp add: MB_TCP_FR_OK b Some Let_def)
        from Suc.IH [OF this] show ?thesis using out by simp arith
      qed
    qed
  qed (use Suc.prems in auto)
qed

lemma poll_ok:
  assumes "tcp_ok t" "recv_bounded i"
  shows "tcp_ok (fst (app_modbus_tcp_poll now i (t, s)))"
proof -
  let ?c = "control_tcp now i t"
  let ?t = "tcp_receive i ?c"
  have c: "tcp_ok ?c" by (rule control_ok [OF assms(1)])
  have t: "tcp_ok ?t" by (rule receive_ok [OF c assms(2)])
  obtain acc tx ms s' where w: "tcp_walk 4 now (tc_acc ?t) [] (tc_last_rx_ms ?t) s = (acc, tx, ms, s')"
    by (rule prod_cases4)
  from walk_bounds [OF w] t have "length acc \<le> 262" "length tx \<le> 516" by (simp_all add: tcp_ok_def)
  moreover from this t have "tcp_ok (?t\<lparr>tc_acc := acc, tc_last_rx_ms := ms\<rparr>)" by (simp add: tcp_ok_def)
  ultimately show ?thesis
    using c t by (simp add: app_modbus_tcp_poll_def w Let_def del: One_nat_def)
qed

section \<open>The stream as messages\<close>

text \<open>
  The reference: a queue of requests, each an id and its data, served in order, at most
  \<open>k\<close> of them and none behind an answered write. No bytes, no lengths.
\<close>

fun serve :: "nat \<Rightarrow> u32 \<Rightarrow> (u16 \<times> u8 list) list \<Rightarrow> u32 \<Rightarrow> sys \<Rightarrow>
    (u16 \<times> u8 list) list \<times> (u16 \<times> u8 list) list \<times> u32 \<times> sys" where
  "serve 0 now reqs ms s = (reqs, [], ms, s)"
| "serve (Suc k) now [] ms s = ([], [], ms, s)"
| "serve (Suc k) now ((txn, pdu) # reqs) ms s =
     (let (core, resp, fc) = mb_core_decode (mg_core (g_mb s)) pdu MB_MODE_TCP;
          s = mb_core_upd (\<lambda>_. core) s
      in if resp = [] then serve k now reqs ms s
         else
           (let answer = (txn, (take (length resp - 2) resp)[0 := pdu ! 0]);
                s = app_modbus_note_remote now s
            in if fc = 6 then (reqs, [answer], now, app_modbus_apply_writes now MB_LINK_TCP s)
               else (let (rest, answers, ms, s) = serve k now reqs now s
                     in (rest, answer # answers, ms, s))))"

definition wire :: "(u16 \<times> u8 list) list \<Rightarrow> u8 list" where
  "wire reqs = concat (map (\<lambda>(txn, pdu). mbap txn pdu) reqs)"

definition requests_ok :: "(u16 \<times> u8 list) list \<Rightarrow> bool" where
  "requests_ok reqs \<longleftrightarrow> (\<forall>(txn, pdu) \<in> set reqs. 2 \<le> length pdu \<and> length pdu \<le> 125)"

lemma wire_simps [simp]:
  "wire [] = []" "wire ((txn, pdu) # reqs) = mbap txn pdu @ wire reqs"
  "requests_ok []"
  "requests_ok ((txn, pdu) # reqs) \<longleftrightarrow> 2 \<le> length pdu \<and> length pdu \<le> 125 \<and> requests_ok reqs"
  by (simp_all add: wire_def requests_ok_def)

lemma walk_serves:
  assumes "requests_ok reqs" "mb_tcp_frame_peek partial = MB_TCP_FR_NEED_MORE"
  shows "tcp_walk k now (wire reqs @ partial) tx ms s =
    (let (rest, answers, ms', s') = serve k now reqs ms s
     in (wire rest @ partial, tx @ wire answers, ms', s'))"
  using assms(1)
proof (induction k now reqs ms s arbitrary: tx rule: serve.induct)
  case (1 now reqs ms s)
  then show ?case by simp
next
  case (2 k now ms s)
  then show ?case using assms(2) by simp
next
  case (3 k now txn pdu reqs ms s)
  have len: "2 \<le> length pdu" "length pdu \<le> 125" and reqs: "requests_ok reqs" using "3.prems" by simp_all
  obtain core resp fc where d: "mb_core_decode (mg_core (g_mb s)) pdu MB_MODE_TCP = (core, resp, fc)"
    by (cases "mb_core_decode (mg_core (g_mb s)) pdu MB_MODE_TCP") auto
  have peek: "mb_tcp_frame_peek (mbap txn pdu @ wire reqs @ partial) = MB_TCP_FR_OK (length (mbap txn pdu))"
    using peek_frame [OF len] by (simp add: mbap_fields)
  have build: "mb_tcp_build_response (mg_core (g_mb s)) (mbap txn pdu) =
      (core, if resp = [] then None else Some (mbap txn ((take (length resp - 2) resp)[0 := pdu ! 0])), fc)"
    using tcp_answer [OF len d, of txn "[]"] by simp
  note IH = "3.IH" [OF d [symmetric] refl refl refl]
  let ?s1 = "mb_core_upd (\<lambda>_. core) s"
  let ?s2 = "app_modbus_note_remote now ?s1"
  show ?case
  proof (cases "resp = []")
    case True
    then show ?thesis
      using IH(1) [OF True reqs] by (simp add: peek build d Let_def)
  next
    case False
    show ?thesis
    proof (cases "fc = 6")
      case True
      then show ?thesis using False by (simp add: peek build d Let_def)
    next
      case other: False
      then show ?thesis
        using IH(2) [OF False refl refl other reqs] False
        by (simp add: peek build d Let_def case_prod_unfold)
    qed
  qed
qed

lemma serve_none [simp]: "serve k now [] ms s = ([], [], ms, s)"
  by (cases k) simp_all

lemma serve_progress:
  assumes "serve k now reqs ms s = (rest, answers, ms', s')"
  shows "\<exists>n \<le> k. rest = drop n reqs \<and> subseq (map fst answers) (map fst (take n reqs)) \<and>
    (0 < k \<and> reqs \<noteq> [] \<longrightarrow> 0 < n)"
  using assms
proof (induction k now reqs ms s arbitrary: rest answers ms' s' rule: serve.induct)
  case (1 now reqs ms s)
  then show ?case by simp
next
  case (2 k now ms s)
  then show ?case by auto
next
  case (3 k now txn pdu reqs ms s)
  obtain core resp fc where d: "mb_core_decode (mg_core (g_mb s)) pdu MB_MODE_TCP = (core, resp, fc)"
    by (cases "mb_core_decode (mg_core (g_mb s)) pdu MB_MODE_TCP") auto
  note IH = "3.IH" [OF d [symmetric] refl refl refl]
  show ?case
  proof (cases "resp = []")
    case True
    then have "serve k now reqs ms (mb_core_upd (\<lambda>_. core) s) = (rest, answers, ms', s')"
      using "3.prems" by (simp add: d Let_def)
    from IH(1) [OF True this] obtain n where "n \<le> k" "rest = drop n reqs"
      "subseq (map fst answers) (map fst (take n reqs))" by auto
    then show ?thesis by (intro exI [of _ "Suc n"]) auto
  next
    case False
    let ?s = "app_modbus_note_remote now (mb_core_upd (\<lambda>_. core) s)"
    show ?thesis
    proof (cases "fc = 6")
      case True
      then show ?thesis using False "3.prems" by (intro exI [of _ 1]) (auto simp: d Let_def)
    next
      case other: False
      obtain r a m t where v: "serve k now reqs now ?s = (r, a, m, t)"
        by (cases "serve k now reqs now ?s") auto
      from IH(2) [OF False refl refl other v] obtain n where "n \<le> k" "r = drop n reqs"
        "subseq (map fst a) (map fst (take n reqs))" by auto
      then show ?thesis
        using False other "3.prems" by (intro exI [of _ "Suc n"]) (auto simp: d v Let_def)
    qed
  qed
qed

section \<open>Properties\<close>

text \<open>
  C8: The byte accumulator implements a queue of requests. However the network cut the stream,
  when the bytes held after a receive are whole requests and the beginning of another, a poll of
  an established connection does what the reference queue does: it serves the first n requests
  in order, at most four and at least one if any is there, stops behind an answered write, sends
  all answers, with ids in the order of the requests, in one send, and keeps exactly the bytes of
  the requests not served and of the unfinished one.
\<close>

theorem tcp_stream_served_in_order:
  assumes "si_status_after i = SOCK_ESTABLISHED" "requests_ok reqs"
    and "mb_tcp_frame_peek partial = MB_TCP_FR_NEED_MORE"
    and "tc_acc (tcp_receive i (control_tcp now i t)) = wire reqs @ partial"
  shows "let t0 = tcp_receive i (control_tcp now i t);
             (rest, answers, ms, s') = serve 4 now reqs (tc_last_rx_ms t0) s;
             (t1, s1) = app_modbus_tcp_poll now i (t, s)
    in s1 = s' \<and> tc_acc t1 = wire rest @ partial \<and>
       tc_log t1 = tc_log t0 @ (if answers = [] then [] else [SC_SEND (wire answers)]) \<and>
       (\<exists>n \<le> 4. rest = drop n reqs \<and> subseq (map fst answers) (map fst (take n reqs)) \<and>
          (reqs \<noteq> [] \<longrightarrow> 0 < n))"
proof -
  let ?t = "tcp_receive i (control_tcp now i t)"
  obtain rest answers ms s' where v: "serve 4 now reqs (tc_last_rx_ms ?t) s = (rest, answers, ms, s')"
    by (rule prod_cases4)
  have w: "tcp_walk 4 now (wire reqs @ partial) [] (tc_last_rx_ms ?t) s = (wire rest @ partial, wire answers, ms, s')"
    using walk_serves [OF assms(2,3), of 4 now "[]" "tc_last_rx_ms ?t" s] by (simp add: v)
  have ne: "wire answers = [] \<longleftrightarrow> answers = []" by (cases answers) (auto simp: mbap_def)
  have idle: "rest = [] \<and> answers = [] \<and> s' = s" if "reqs = []"
    using v that by simp
  have empty: "reqs = []" if "wire reqs @ partial = []"
    using that by (cases reqs) (auto simp: mbap_def)
  let ?u = "?t\<lparr>tc_acc := wire rest @ partial, tc_last_rx_ms := ms\<rparr>"
  have poll: "app_modbus_tcp_poll now i (t, s) =
      (if wire reqs @ partial = [] then (?t, s)
       else (if answers = [] then ?u else sock_do (SC_SEND (wire answers)) ?u, s'))"
    using assms(1,4) by (simp add: app_modbus_tcp_poll_def w ne Let_def)
  have "s' = s" "answers = []" "wire rest @ partial = []" if "wire reqs @ partial = []"
    using idle [OF empty [OF that]] that by simp_all
  then have "snd (app_modbus_tcp_poll now i (t, s)) = s'"
    and "tc_acc (fst (app_modbus_tcp_poll now i (t, s))) = wire rest @ partial"
    and "tc_log (fst (app_modbus_tcp_poll now i (t, s))) =
        tc_log ?t @ (if answers = [] then [] else [SC_SEND (wire answers)])"
    using assms(4) by (simp_all add: poll sock_do_def)
  then show ?thesis
    using serve_progress [OF v] by (simp add: v Let_def case_prod_unfold del: append_is_Nil_conv)
qed

definition wit_sock :: sock_in where
  "wit_sock = \<lparr>si_status = SOCK_ESTABLISHED, si_con = False, si_opens = False,
     si_status_after = SOCK_ESTABLISHED, si_avail = 15,
     si_recv = (\<lambda>n. take n (mbap 9 [1, 3, 0, 49, 0, 1] @ [0, 10, 0]))\<rparr>"

theorem tcp_stream_served_in_order_witness:
  "tc_acc (fst (app_modbus_tcp_poll 7 wit_sock (tcp_st_zero, wit_write))) = [0, 10, 0]"
proof -
  let ?reqs = "[(9, [1, 3, 0, 49, 0, 1])] :: (u16 \<times> u8 list) list"
  let ?t = "tcp_receive wit_sock (control_tcp 7 wit_sock tcp_st_zero)"
  have acc: "tc_acc ?t = wire ?reqs @ [0, 10, 0]"
    by (simp add: wit_sock_def control_tcp_def tcp_receive_def tcp_st_zero_def elapsed_def Let_def mbap_def)
  have "si_status_after wit_sock = SOCK_ESTABLISHED" "requests_ok ?reqs"
    "mb_tcp_frame_peek [0, 10, 0] = MB_TCP_FR_NEED_MORE"
    by (simp_all add: wit_sock_def mb_tcp_frame_peek_def)
  note app = tcp_stream_served_in_order [OF this acc, of wit_write]
  obtain rest answers ms s' where v: "serve 4 7 ?reqs (tc_last_rx_ms ?t) wit_write = (rest, answers, ms, s')"
    by (rule prod_cases4)
  from app obtain n where "rest = drop n ?reqs" "0 < n"
    "tc_acc (fst (app_modbus_tcp_poll 7 wit_sock (tcp_st_zero, wit_write))) = wire rest @ [0, 10, 0]"
    by (auto simp: v Let_def case_prod_unfold)
  then show ?thesis by simp
qed

text \<open>
  C24: Neither buffer overflows. Whatever the peer sends, and in whatever pieces, the accumulator
  never holds more than its 262 bytes and a send never more than the 516 of the answer buffer:
  both survive every poll, given that a receive delivers at most what it was asked for.
\<close>

theorem tcp_buffers_bounded:
  assumes "tcp_ok t" "\<And>n. length (si_recv i n) \<le> n"
  shows "let t' = fst (app_modbus_tcp_poll now i (t, s)) in
    length (tc_acc t') \<le> MB_TCP_ACC_LEN \<and>
    (\<forall>bs. SC_SEND bs \<in> set (tc_log t') \<longrightarrow> 0 < length bs \<and> length bs \<le> MB_TCP_TXACC_LEN) \<and> tcp_ok t'"
  using poll_ok [OF assms(1), of i now s] assms(2) by (simp add: recv_bounded_def tcp_ok_def Let_def)

theorem tcp_buffers_bounded_witness:
  "length (tc_acc (fst (app_modbus_tcp_poll 7 wit_sock (tcp_st_zero, wit_write)))) \<le> MB_TCP_ACC_LEN"
proof -
  have "tcp_ok tcp_st_zero" "\<And>n. length (si_recv wit_sock n) \<le> n"
    by (simp_all add: tcp_ok_def tcp_st_zero_def wit_sock_def)
  from tcp_buffers_bounded [OF this, of 7 wit_write] show ?thesis by (simp add: Let_def)
qed

end
