(* ===== verification/Eth.thy ===== *)
theory Eth
  imports Modbus_Tcp
begin

text \<open>
  The Ethernet bring-up, \<open>fw/src/app_eth.c\<close>: the phases from chip reset to a served address,
  static or leased. The vendored chip and DHCP libraries are not modelled: what they report is
  the record \<open>eth_in\<close>, among it the callbacks \<open>DHCP_run\<close> makes. \<open>et_log\<close> is the conversation with
  them: what the code asks of them, and the conflicts \<open>DHCP_run\<close> reports.
\<close>

section \<open>State\<close>

datatype eth_phase = ETH_DOWN | ETH_LINKWAIT | ETH_STATIC_UP | ETH_DHCP_RUN

abbreviation (input) COMM_ETH_DHCP :: u8 where "COMM_ETH_DHCP \<equiv> 2"
abbreviation (input) LINK_POLL_MS :: u32 where "LINK_POLL_MS \<equiv> 100"
abbreviation (input) DHCP_TICK_MS :: u32 where "DHCP_TICK_MS \<equiv> 1000"

datatype netinfo_mode = NETINFO_STATIC | NETINFO_DHCP

record netinfo =
  ni_mac :: "u8 list"
  ni_ip :: "u8 list"
  ni_sn :: "u8 list"
  ni_gw :: "u8 list"
  ni_dns :: "u8 list"
  ni_dhcp :: netinfo_mode

datatype eth_cmd = EC_SPI_INIT | EC_CALLBACKS | EC_CHIP_RESET | EC_WIZCHIP_INIT "u8 list" "u8 list"
  | EC_SETNETINFO netinfo | EC_DHCP_INIT | EC_DHCP_STOP | EC_DHCP_SECOND | EC_CONFLICT

record eth_st =
  et_phase :: eth_phase
  et_available :: bool
  et_link_ms :: u32
  et_dhcp_ms :: u32
  et_log :: "eth_cmd list"

definition eth_st_zero :: eth_st where
  "eth_st_zero = \<lparr>et_phase = ETH_DOWN, et_available = False, et_link_ms = 0, et_dhcp_ms = 0, et_log = []\<rparr>"

text \<open>A leased address, and what one turn of the DHCP client calls back and returns.\<close>

record lease =
  ls_ip :: "u8 list"
  ls_gw :: "u8 list"
  ls_sn :: "u8 list"
  ls_dns :: "u8 list"

datatype dhcp_event = DE_ASSIGN lease | DE_CONFLICT

record eth_in =
  ei_link_on :: bool
  ei_dhcp_events :: "dhcp_event list"
  ei_dhcp_failed :: bool

section \<open>Operations\<close>

definition kEthMac :: "u8 list" where
  "kEthMac = [0x00, 0x08, 0xdc, 0x78, 0x91, 0x71]"

definition eth_do :: "eth_cmd \<Rightarrow> eth_st \<Rightarrow> eth_st" where
  "eth_do c e = e\<lparr>et_log := et_log e @ [c]\<rparr>"

definition app_eth_available :: "eth_st \<Rightarrow> bool" where
  "app_eth_available e = et_available e"

text \<open>The copy of a four-byte address.\<close>

definition copy4 :: "u8 list \<Rightarrow> u8 list" where
  "copy4 a = map (\<lambda>i. a ! i) [0..<4]"

definition dhcp_ip_assign :: "lease \<Rightarrow> eth_st \<times> sys \<Rightarrow> eth_st \<times> sys" where
  "dhcp_ip_assign l es =
     (let (e, s) = es;
          ni = \<lparr>ni_mac = kEthMac, ni_ip = ls_ip l, ni_sn = ls_sn l, ni_gw = ls_gw l,
                ni_dns = ls_dns l, ni_dhcp = NETINFO_DHCP\<rparr>;
          e = eth_do (EC_SETNETINFO ni) e;
          s = g_cfg_update (\<lambda>c. c\<lparr>ether_ip := copy4 (ni_ip ni), ether_nm := copy4 (ni_sn ni),
                ether_gw := copy4 (ni_gw ni)\<rparr>) s
      in (e\<lparr>et_available := True\<rparr>, s))"

definition dhcp_ip_conflict :: "eth_st \<Rightarrow> eth_st" where
  "dhcp_ip_conflict e = e\<lparr>et_available := False\<rparr>"

definition eth_apply_on_link :: "app_config \<Rightarrow> eth_st \<Rightarrow> eth_st" where
  "eth_apply_on_link cfg e =
     (if comm_mode cfg = COMM_ETH_DHCP
      then
        (let e = e\<lparr>et_available := False\<rparr>;
             dni = \<lparr>ni_mac = kEthMac, ni_ip = replicate 4 0, ni_sn = replicate 4 0,
                    ni_gw = replicate 4 0, ni_dns = replicate 4 0, ni_dhcp = NETINFO_DHCP\<rparr>
         in (eth_do EC_DHCP_INIT (eth_do (EC_SETNETINFO dni) e))\<lparr>et_phase := ETH_DHCP_RUN\<rparr>)
      else
        (let ni = \<lparr>ni_mac = kEthMac, ni_ip = copy4 (ether_ip cfg), ni_sn = copy4 (ether_nm cfg),
                   ni_gw = copy4 (ether_gw cfg), ni_dns = replicate 4 0, ni_dhcp = NETINFO_STATIC\<rparr>
         in (eth_do (EC_SETNETINFO ni) e)\<lparr>et_available := True, et_phase := ETH_STATIC_UP\<rparr>))"

definition eth_reapply :: "app_config \<Rightarrow> eth_st \<times> tcp_st \<Rightarrow> eth_st \<times> tcp_st" where
  "eth_reapply cfg et =
     (let (e, t) = et in
      case et_phase e of
        ETH_STATIC_UP \<Rightarrow> (eth_apply_on_link cfg e, app_modbus_tcp_reset t)
      | ETH_DHCP_RUN \<Rightarrow>
          if comm_mode cfg = COMM_ETH_DHCP then (e, t)
          else (eth_apply_on_link cfg (eth_do EC_DHCP_STOP e), app_modbus_tcp_reset t)
      | ETH_DOWN \<Rightarrow> (e, t)
      | ETH_LINKWAIT \<Rightarrow> (e, t))"

text \<open>\<open>answers\<close> is the chip's reply to its initialisation.\<close>

definition app_eth_init :: "bool \<Rightarrow> eth_st \<Rightarrow> bool \<times> eth_st" where
  "app_eth_init answers e =
     (let e = e\<lparr>et_available := False, et_phase := ETH_DOWN\<rparr>;
          e = eth_do EC_CHIP_RESET (eth_do EC_CALLBACKS (eth_do EC_SPI_INIT e));
          e = eth_do (EC_WIZCHIP_INIT (replicate 8 2) (replicate 8 2)) e
      in if \<not> answers then (False, e) else (True, e\<lparr>et_phase := ETH_LINKWAIT\<rparr>))"

definition dhcp_callback :: "dhcp_event \<Rightarrow> eth_st \<times> sys \<Rightarrow> eth_st \<times> sys" where
  "dhcp_callback ev es =
     (case ev of DE_ASSIGN l \<Rightarrow> dhcp_ip_assign l es | DE_CONFLICT \<Rightarrow>
        (dhcp_ip_conflict (eth_do EC_CONFLICT (fst es)), snd es))"

definition eth_poll_link :: "u32 \<Rightarrow> eth_in \<Rightarrow> app_config \<Rightarrow> eth_st \<Rightarrow> eth_st" where
  "eth_poll_link now i cfg e =
     (if LINK_POLL_MS \<le> elapsed now (et_link_ms e)
      then (let e = e\<lparr>et_link_ms := now\<rparr>
            in if ei_link_on i then eth_apply_on_link cfg e else e)
      else e)"

definition eth_drive_dhcp :: "u32 \<Rightarrow> eth_in \<Rightarrow> eth_st \<times> sys \<Rightarrow> eth_st \<times> sys" where
  "eth_drive_dhcp now i es =
     (let (e, s) = es;
          e = (if DHCP_TICK_MS \<le> elapsed now (et_dhcp_ms e)
               then eth_do EC_DHCP_SECOND (e\<lparr>et_dhcp_ms := now\<rparr>) else e);
          (e, s) = fold dhcp_callback (ei_dhcp_events i) (e, s)
      in if ei_dhcp_failed i
         then ((eth_do EC_DHCP_INIT (e\<lparr>et_available := False\<rparr>))\<lparr>et_dhcp_ms := now\<rparr>, s)
         else (e, s))"

definition app_eth_tick :: "u32 \<Rightarrow> eth_in \<Rightarrow> eth_st \<times> tcp_st \<times> sys \<Rightarrow> eth_st \<times> tcp_st \<times> sys" where
  "app_eth_tick now i ets =
     (let (e, t, s) = ets;
          (dirty, s) = app_lcd_ether_dirty_take s;
          (e, t) = (if dirty then eth_reapply (g_cfg s) (e, t) else (e, t))
      in case et_phase e of
           ETH_LINKWAIT \<Rightarrow> (eth_poll_link now i (g_cfg s) e, t, s)
         | ETH_DHCP_RUN \<Rightarrow> (let (e, s) = eth_drive_dhcp now i (e, s) in (e, t, s))
         | ETH_STATIC_UP \<Rightarrow> (e, t, s)
         | ETH_DOWN \<Rightarrow> (e, t, s))"

section \<open>Lemmas\<close>

lemma eth_do_keeps [simp]:
  "et_phase (eth_do c e) = et_phase e" "et_available (eth_do c e) = et_available e"
  "et_link_ms (eth_do c e) = et_link_ms e" "et_dhcp_ms (eth_do c e) = et_dhcp_ms e"
  "et_log (eth_do c e) = et_log e @ [c]"
  by (simp_all add: eth_do_def)

lemma copy4_length [simp]: "length (copy4 a) = 4"
  by (simp add: copy4_def)

lemma copy4_id: "length a = 4 \<Longrightarrow> copy4 a = a"
  by (rule nth_equalityI) (simp_all add: copy4_def)

text \<open>The address the chip holds: the last one it was given.\<close>

definition chip_net :: "eth_cmd list \<Rightarrow> netinfo option" where
  "chip_net log = fold (\<lambda>c n. case c of EC_SETNETINFO ni \<Rightarrow> Some ni | _ \<Rightarrow> n) log None"

lemma chip_net_do [simp]:
  "chip_net (log @ [c]) = (case c of EC_SETNETINFO ni \<Rightarrow> Some ni | _ \<Rightarrow> chip_net log)"
  by (simp add: chip_net_def split: eth_cmd.split)

text \<open>
  An address is in force from the moment the chip is given one until the chip is reset, the DHCP
  client is stopped or started (again), or reports a conflict. The empty address that precedes a
  start of the client is never in force: the start comes right after it.
\<close>

definition force_step :: "eth_cmd \<Rightarrow> bool \<Rightarrow> bool" where
  "force_step c b = (case c of EC_SETNETINFO ni \<Rightarrow> True | EC_CHIP_RESET \<Rightarrow> False | EC_DHCP_INIT \<Rightarrow> False
     | EC_DHCP_STOP \<Rightarrow> False | EC_CONFLICT \<Rightarrow> False | _ \<Rightarrow> b)"

definition in_force :: "eth_cmd list \<Rightarrow> bool" where
  "in_force log = fold force_step log False"

lemma in_force_more [simp]:
  "in_force (log @ [c]) = force_step c (in_force log)"
  "in_force (log @ c # cs) = fold force_step cs (force_step c (in_force log))"
  by (simp_all add: in_force_def)

text \<open>
  The server is available exactly while an address is in force; the chip carries this machine's
  MAC address whenever it has one; a static address is served at once, nothing before the link
  came up.
\<close>

definition mac_ok :: "netinfo_mode \<Rightarrow> eth_st \<Rightarrow> bool" where
  "mac_ok m e \<longleftrightarrow> (case chip_net (et_log e) of None \<Rightarrow> False
     | Some ni \<Rightarrow> ni_mac ni = kEthMac \<and> ni_dhcp ni = m)"

definition eth_ok :: "eth_st \<Rightarrow> bool" where
  "eth_ok e \<longleftrightarrow> et_available e = in_force (et_log e) \<and> (case et_phase e of
       ETH_STATIC_UP \<Rightarrow> et_available e \<and> mac_ok NETINFO_STATIC e
     | ETH_DHCP_RUN \<Rightarrow> mac_ok NETINFO_DHCP e
     | ETH_DOWN \<Rightarrow> \<not> et_available e
     | ETH_LINKWAIT \<Rightarrow> \<not> et_available e)"

lemma mac_ok_updates [simp]:
  "mac_ok m (e\<lparr>et_available := a\<rparr>) = mac_ok m e" "mac_ok m (e\<lparr>et_phase := p\<rparr>) = mac_ok m e"
  "mac_ok m (e\<lparr>et_link_ms := n\<rparr>) = mac_ok m e" "mac_ok m (e\<lparr>et_dhcp_ms := n\<rparr>) = mac_ok m e"
  "mac_ok m (eth_do c e) = (case c of EC_SETNETINFO ni \<Rightarrow> ni_mac ni = kEthMac \<and> ni_dhcp ni = m
     | _ \<Rightarrow> mac_ok m e)"
  by (simp_all add: mac_ok_def split: eth_cmd.split)

lemma eth_ok_link_ms [simp]: "eth_ok (e\<lparr>et_link_ms := n\<rparr>) = eth_ok e"
  by (simp add: eth_ok_def split: eth_phase.split)

lemma apply_ok: "eth_ok (eth_apply_on_link cfg e)"
  by (simp add: eth_ok_def eth_apply_on_link_def force_step_def Let_def)

text \<open>
  What the client leaves while it runs, for a set of leases that contains those it was given:
  the address in force is one of them.
\<close>

definition lease_net :: "lease \<Rightarrow> netinfo" where
  "lease_net l = \<lparr>ni_mac = kEthMac, ni_ip = ls_ip l, ni_sn = ls_sn l, ni_gw = ls_gw l,
     ni_dns = ls_dns l, ni_dhcp = NETINFO_DHCP\<rparr>"

definition dhcp_ok :: "lease set \<Rightarrow> eth_st \<Rightarrow> bool" where
  "dhcp_ok L e \<longleftrightarrow> et_available e = in_force (et_log e) \<and> mac_ok NETINFO_DHCP e \<and>
     (et_available e \<longrightarrow> chip_net (et_log e) \<in> Some ` lease_net ` L)"

definition leased :: "lease set \<Rightarrow> eth_st \<Rightarrow> bool" where
  "leased L e \<longleftrightarrow> eth_ok e \<and> (et_phase e = ETH_DHCP_RUN \<longrightarrow> dhcp_ok L e)"

abbreviation granted :: "eth_in \<Rightarrow> lease set" where
  "granted i \<equiv> {l. DE_ASSIGN l \<in> set (ei_dhcp_events i)}"

lemma leased_link_ms [simp]: "leased L (e\<lparr>et_link_ms := n\<rparr>) = leased L e"
  by (simp add: leased_def dhcp_ok_def)

lemma apply_leased: "leased L (eth_apply_on_link cfg e)"
  by (simp add: leased_def dhcp_ok_def apply_ok) (simp add: eth_apply_on_link_def force_step_def Let_def)

lemma callback_keeps:
  assumes "dhcp_ok L (fst es)" "\<And>l. ev = DE_ASSIGN l \<Longrightarrow> l \<in> L"
  shows "et_phase (fst (dhcp_callback ev es)) = et_phase (fst es) \<and> dhcp_ok L (fst (dhcp_callback ev es))"
proof (cases ev)
  case (DE_ASSIGN l)
  then have "lease_net l \<in> lease_net ` L" using assms(2) by blast
  then show ?thesis
    using assms(1) DE_ASSIGN
    by (cases es) (simp add: dhcp_callback_def dhcp_ip_assign_def dhcp_ok_def lease_net_def
        force_step_def Let_def)
next
  case DE_CONFLICT
  then show ?thesis
    using assms(1) by (cases es) (simp add: dhcp_callback_def dhcp_ip_conflict_def dhcp_ok_def force_step_def)
qed

lemma callbacks_keep:
  assumes "dhcp_ok L (fst es)" "{l. DE_ASSIGN l \<in> set evs} \<subseteq> L"
  shows "et_phase (fst (fold dhcp_callback evs es)) = et_phase (fst es) \<and>
    dhcp_ok L (fst (fold dhcp_callback evs es))"
  using assms
proof (induction evs arbitrary: es)
  case (Cons ev evs)
  have "et_phase (fst (dhcp_callback ev es)) = et_phase (fst es) \<and> dhcp_ok L (fst (dhcp_callback ev es))"
    by (rule callback_keeps) (use Cons.prems in auto)
  then show ?case using Cons.prems(2) by (simp add: Cons.IH subset_iff)
qed simp

lemma drive_leased:
  assumes "et_phase e = ETH_DHCP_RUN" "leased L e" "granted i \<subseteq> L"
  shows "et_phase (fst (eth_drive_dhcp now i (e, s))) = ETH_DHCP_RUN \<and> leased L (fst (eth_drive_dhcp now i (e, s)))"
proof -
  define e1 where "e1 = (if DHCP_TICK_MS \<le> elapsed now (et_dhcp_ms e)
    then eth_do EC_DHCP_SECOND (e\<lparr>et_dhcp_ms := now\<rparr>) else e)"
  define e2 where "e2 = fst (fold dhcp_callback (ei_dhcp_events i) (e1, s))"
  have "et_phase e1 = ETH_DHCP_RUN" "dhcp_ok L e1"
    using assms(1,2) by (simp_all add: e1_def leased_def dhcp_ok_def force_step_def)
  then have "et_phase e2 = ETH_DHCP_RUN" "dhcp_ok L e2"
    using callbacks_keep [of L "(e1, s)" "ei_dhcp_events i"] assms(3) by (simp_all add: e2_def)
  moreover have "fst (eth_drive_dhcp now i (e, s)) =
      (if ei_dhcp_failed i then (eth_do EC_DHCP_INIT (e2\<lparr>et_available := False\<rparr>))\<lparr>et_dhcp_ms := now\<rparr> else e2)"
    by (simp add: eth_drive_dhcp_def e1_def e2_def Let_def case_prod_unfold)
  ultimately show ?thesis by (simp add: leased_def eth_ok_def dhcp_ok_def force_step_def)
qed

lemma leased_ok: "leased L e \<Longrightarrow> eth_ok e"
  by (simp add: leased_def)

lemma leased_mono: "leased L e \<Longrightarrow> L \<subseteq> M \<Longrightarrow> leased M e"
  by (auto simp: leased_def dhcp_ok_def)

text \<open>Every address could be a lease: the invariant without a history.\<close>

lemma leased_univ: "leased UNIV e = eth_ok e"
proof -
  have "chip_net (et_log e) \<in> Some ` lease_net ` UNIV" if mac: "mac_ok NETINFO_DHCP e"
  proof -
    obtain ni where ni: "chip_net (et_log e) = Some ni" "ni_mac ni = kEthMac" "ni_dhcp ni = NETINFO_DHCP"
      using mac by (cases "chip_net (et_log e)") (simp_all add: mac_ok_def)
    then have "ni = lease_net \<lparr>ls_ip = ni_ip ni, ls_gw = ni_gw ni, ls_sn = ni_sn ni, ls_dns = ni_dns ni\<rparr>"
      by (simp add: lease_net_def)
    then show ?thesis using ni(1) by blast
  qed
  then show ?thesis by (auto simp: leased_def dhcp_ok_def eth_ok_def split: eth_phase.splits)
qed

lemma reapply_leased: "leased L e \<Longrightarrow> leased L (fst (eth_reapply cfg (e, t)))"
  by (simp add: eth_reapply_def apply_leased split: eth_phase.split)

lemma init_leased: "leased L (snd (app_eth_init answers e))"
  by (simp add: leased_def eth_ok_def app_eth_init_def force_step_def Let_def)

lemma tick_leased:
  assumes "leased L (fst ets)" "granted i \<subseteq> L"
  shows "leased L (fst (app_eth_tick now i ets))"
proof -
  obtain e t s where ets: "ets = (e, t, s)" by (cases ets) auto
  obtain d s1 where d: "app_lcd_ether_dirty_take s = (d, s1)" by (cases "app_lcd_ether_dirty_take s") auto
  define r where "r = (if d then eth_reapply (g_cfg s1) (e, t) else (e, t))"
  have r: "leased L (fst r)" using assms(1) reapply_leased by (simp add: r_def ets)
  have tick: "app_eth_tick now i ets = (case et_phase (fst r) of
      ETH_LINKWAIT \<Rightarrow> (eth_poll_link now i (g_cfg s1) (fst r), snd r, s1)
    | ETH_DHCP_RUN \<Rightarrow> (fst (eth_drive_dhcp now i (fst r, s1)), snd r, snd (eth_drive_dhcp now i (fst r, s1)))
    | _ \<Rightarrow> (fst r, snd r, s1))"
    by (cases d; cases "et_phase (fst r)"; simp add: app_eth_tick_def ets d r_def Let_def case_prod_unfold)
  have "leased L (eth_poll_link now i c (fst r))" for c
    using r by (simp add: eth_poll_link_def apply_leased Let_def)
  then show ?thesis
    using r drive_leased [OF _ r assms(2), of now s1] by (simp add: tick split: eth_phase.split)
qed

lemmas tick_ok = tick_leased [where L = UNIV, unfolded leased_univ, OF _ subset_UNIV]
lemmas init_ok = init_leased [where L = UNIV, unfolded leased_univ]

text \<open>What the ticks keep of the system: only addresses of the live configuration and the flag move.\<close>

lemma dirty_take_eq:
  "app_lcd_ether_dirty_take s = (ls_ether_dirty (g_lcd s), g_lcd_update (\<lambda>l. l\<lparr>ls_ether_dirty := False\<rparr>) s)"
  by (simp add: app_lcd_ether_dirty_take_def)

lemma eth_tick_sys:
  assumes "P s"
    and take: "\<And>s. P s \<Longrightarrow> P (g_lcd_update (\<lambda>l. l\<lparr>ls_ether_dirty := False\<rparr>) s)"
    and cfg: "\<And>s f. P s \<Longrightarrow> (\<And>c. cfg_ok c \<Longrightarrow> cfg_ok (f c)) \<Longrightarrow> P (g_cfg_update f s)"
  shows "P (snd (snd (app_eth_tick now i (e, t, s))))"
proof -
  have events: "P (snd (fold dhcp_callback evs es))" if "P (snd es)" for evs es
    using that
  proof (induction evs arbitrary: es)
    case (Cons ev evs)
    have "P (snd (dhcp_callback ev es))"
      using Cons.prems by (cases es) (auto simp: dhcp_callback_def dhcp_ip_assign_def cfg_ok_def Let_def
          intro!: cfg split: dhcp_event.split)
    then show ?case by (simp add: Cons.IH)
  qed simp
  have "P (snd (eth_drive_dhcp now i (e', s')))" if "P s'" for e' s'
    using that events [of _ "ei_dhcp_events i"]
    by (simp add: eth_drive_dhcp_def Let_def case_prod_unfold)
  then show ?thesis
    using take [OF assms(1)]
    by (simp add: app_eth_tick_def dirty_take_eq Let_def case_prod_unfold split: eth_phase.split)
qed

section \<open>Properties\<close>

text \<open>
  C25: Nothing is served before it is configured. From power-up, whatever the chip, the link and
  the DHCP server answer and however the configuration is edited in between, the server is
  available exactly while an address is in force: a static one from the moment the chip is
  given it, a leased one from its assignment until the client is stopped or restarted or reports
  a conflict. Then the phase is the one of that mode, the chip carries this machine's own MAC
  address, and in the DHCP phase its address, mask and gateway are those of a lease the server
  granted since power-up, never the empty address the client starts with.
\<close>

theorem eth_serves_only_configured:
  "let (e, t, s) = fold (\<lambda>(now, i, edit) (e, t, s). app_eth_tick now i (e, t, edit s)) ticks
                     (snd (app_eth_init answers e0), t0, s0);
       leases = (\<Union>(now, i, edit) \<in> set ticks. {l. DE_ASSIGN l \<in> set (ei_dhcp_events i)})
   in app_eth_available e = in_force (et_log e) \<and>
      (app_eth_available e \<longrightarrow>
        et_phase e = ETH_STATIC_UP \<and> mac_ok NETINFO_STATIC e \<or>
        et_phase e = ETH_DHCP_RUN \<and> (\<exists>l \<in> leases. chip_net (et_log e) = Some \<lparr>ni_mac = kEthMac,
          ni_ip = ls_ip l, ni_sn = ls_sn l, ni_gw = ls_gw l, ni_dns = ls_dns l, ni_dhcp = NETINFO_DHCP\<rparr>))"
proof -
  let ?L = "\<Union>(now, i, edit) \<in> set ticks. granted i"
  have run: "leased L (fst ets) \<Longrightarrow> (\<Union>(now, i, edit) \<in> set ts. granted i) \<subseteq> L \<Longrightarrow>
      leased L (fst (fold (\<lambda>(now, i, edit) (e, t, s). app_eth_tick now i (e, t, edit s)) ts ets))" for L ts ets
    by (induction ts arbitrary: ets) (auto simp: tick_leased case_prod_unfold)
  define e where "e = fst (fold (\<lambda>(now, i, edit) (e, t, s). app_eth_tick now i (e, t, edit s)) ticks
      (snd (app_eth_init answers e0), t0, s0))"
  have "leased ?L e" unfolding e_def by (rule run) (simp_all add: init_leased)
  then have "app_eth_available e = in_force (et_log e) \<and> (app_eth_available e \<longrightarrow>
        et_phase e = ETH_STATIC_UP \<and> mac_ok NETINFO_STATIC e \<or>
        et_phase e = ETH_DHCP_RUN \<and> (\<exists>l \<in> ?L. chip_net (et_log e) = Some (lease_net l)))"
    unfolding leased_def eth_ok_def dhcp_ok_def app_eth_available_def
    by (cases "et_phase e") (auto simp only: eth_phase.simps image_iff)
  then show ?thesis unfolding Let_def case_prod_unfold lease_net_def e_def .
qed

theorem eth_serves_only_configured_witness:
  "let l = \<lparr>ls_ip = [10, 0, 0, 9], ls_gw = [10, 0, 0, 1], ls_sn = [255, 0, 0, 0], ls_dns = [10, 0, 0, 1]\<rparr>;
       i = \<lparr>ei_link_on = True, ei_dhcp_events = [DE_ASSIGN l, DE_CONFLICT], ei_dhcp_failed = False\<rparr>;
       s = wit_write\<lparr>g_cfg := app_config_factory_defaults\<lparr>comm_mode := 2\<rparr>\<rparr>;
       (e, t, s') = app_eth_tick 1100 i (app_eth_tick 100 i (snd (app_eth_init True eth_st_zero), tcp_st_zero, s))
   in et_phase e = ETH_DHCP_RUN \<and> \<not> app_eth_available e"
proof -
  define l where "l = \<lparr>ls_ip = [10, 0, 0, 9], ls_gw = [10, 0, 0, 1], ls_sn = [255, 0, 0, 0], ls_dns = [10, 0, 0, 1]\<rparr>"
  define i where "i = \<lparr>ei_link_on = True, ei_dhcp_events = [DE_ASSIGN l, DE_CONFLICT], ei_dhcp_failed = False\<rparr>"
  define s where "s = wit_write\<lparr>g_cfg := app_config_factory_defaults\<lparr>comm_mode := 2\<rparr>\<rparr>"
  define r where "r = app_eth_tick 1100 i (app_eth_tick 100 i (snd (app_eth_init True eth_st_zero), tcp_st_zero, s))"
  have "app_eth_available (fst r) = in_force (et_log (fst r))"
    using eth_serves_only_configured [of "[(100, i, id), (1100, i, id)]" True eth_st_zero tcp_st_zero s]
    by (simp add: r_def Let_def case_prod_unfold)
  moreover have "et_phase (fst r) = ETH_DHCP_RUN \<and> \<not> in_force (et_log (fst r))"
    by (simp add: r_def i_def s_def app_eth_init_def app_eth_tick_def dirty_take_eq eth_poll_link_def
        eth_apply_on_link_def eth_drive_dhcp_def dhcp_callback_def dhcp_ip_assign_def dhcp_ip_conflict_def
        eth_st_zero_def elapsed_def wit_write_def sys_zero_def lcd_app_state_zero_def in_force_def
        force_step_def Let_def)
  ultimately show ?thesis unfolding Let_def case_prod_unfold l_def [symmetric] i_def [symmetric] s_def [symmetric] r_def [symmetric]
    by simp
qed

text \<open>
  A saved network setting takes effect at once. In the tick after a save that changed it,
  a machine with an address in service drops the TCP session and gives the chip the live
  configuration, or stops serving and starts the DHCP client if that is the new mode; a lease
  is kept when the mode is still DHCP; the request is consumed; before the link is up it
  changes nothing.
\<close>

theorem eth_reapply_live:
  assumes "eth_ok e" "ls_ether_dirty (g_lcd s)" "cfg_ok (g_cfg s)"
  shows "let c = g_cfg s; (e', t', s') = app_eth_tick now i (e, t, s);
             static = Some \<lparr>ni_mac = kEthMac, ni_ip = ether_ip c, ni_sn = ether_nm c, ni_gw = ether_gw c,
                            ni_dns = replicate 4 0, ni_dhcp = NETINFO_STATIC\<rparr>
    in \<not> ls_ether_dirty (g_lcd s') \<and>
       (case et_phase e of
          ETH_DOWN \<Rightarrow> e' = e \<and> t' = t
        | ETH_LINKWAIT \<Rightarrow> t' = t
        | ETH_STATIC_UP \<Rightarrow> t' = app_modbus_tcp_reset t \<and>
            (if comm_mode c = COMM_ETH_DHCP then et_phase e' = ETH_DHCP_RUN
             else et_phase e' = ETH_STATIC_UP \<and> et_available e' \<and> chip_net (et_log e') = static)
        | ETH_DHCP_RUN \<Rightarrow>
            (if comm_mode c = COMM_ETH_DHCP then et_phase e' = ETH_DHCP_RUN \<and> t' = t
             else t' = app_modbus_tcp_reset t \<and> et_phase e' = ETH_STATIC_UP \<and>
                  et_available e' \<and> chip_net (et_log e') = static))"
proof -
  have len: "copy4 (ether_ip (g_cfg s)) = ether_ip (g_cfg s)" "copy4 (ether_nm (g_cfg s)) = ether_nm (g_cfg s)"
    "copy4 (ether_gw (g_cfg s)) = ether_gw (g_cfg s)"
    using assms(3) by (simp_all add: copy4_id cfg_ok_def)
  have flag: "\<not> ls_ether_dirty (g_lcd (snd (snd (app_eth_tick now i (e, t, s)))))"
  proof -
    let ?s = "g_lcd_update (\<lambda>l. l\<lparr>ls_ether_dirty := False\<rparr>) s"
    have ev: "g_lcd (snd (fold dhcp_callback evs es)) = g_lcd (snd es)" for evs es
      by (induction evs arbitrary: es)
        (auto simp: dhcp_callback_def dhcp_ip_assign_def Let_def split: dhcp_event.split)
    have "g_lcd (snd (eth_drive_dhcp now i (e', s'))) = g_lcd s'" for e' s'
      by (simp add: eth_drive_dhcp_def Let_def case_prod_unfold ev)
    then show ?thesis
      by (simp add: app_eth_tick_def dirty_take_eq Let_def case_prod_unfold split: eth_phase.split)
  qed
  have drive: "et_phase (fst (eth_drive_dhcp now i (e', s'))) = ETH_DHCP_RUN"
    if "et_phase e' = ETH_DHCP_RUN" "eth_ok e'" for e' s'
    using drive_leased [OF that(1), of UNIV i now s'] that(2) by (simp add: leased_univ)
  have up: "et_phase (eth_apply_on_link c e') = (if comm_mode c = COMM_ETH_DHCP then ETH_DHCP_RUN else ETH_STATIC_UP)"
    for c e' by (simp add: eth_apply_on_link_def Let_def)
  have net: "chip_net (et_log (eth_apply_on_link (g_cfg s) e')) = Some \<lparr>ni_mac = kEthMac,
        ni_ip = ether_ip (g_cfg s), ni_sn = ether_nm (g_cfg s), ni_gw = ether_gw (g_cfg s),
        ni_dns = replicate 4 0, ni_dhcp = NETINFO_STATIC\<rparr> \<and> et_available (eth_apply_on_link (g_cfg s) e')"
    if "comm_mode (g_cfg s) \<noteq> COMM_ETH_DHCP" for e'
    using that by (simp add: eth_apply_on_link_def len Let_def)
  note unf = app_eth_tick_def dirty_take_eq eth_reapply_def Let_def case_prod_unfold
  show ?thesis
    using flag assms(1,2) drive [OF _ apply_ok] drive [OF _ assms(1)] net
    by (cases "et_phase e"; cases "comm_mode (g_cfg s) = COMM_ETH_DHCP") (simp_all add: unf up)
qed

definition wit_static :: sys where
  "wit_static = wit_write\<lparr>g_cfg := app_config_factory_defaults\<lparr>comm_mode := 1, ether_ip := [10, 0, 0, 7]\<rparr>,
     g_lcd := lcd_app_state_zero\<lparr>ls_ether_dirty := True\<rparr>\<rparr>"

theorem eth_reapply_live_witness:
  "let (e', t', s') = app_eth_tick 5 \<lparr>ei_link_on = True, ei_dhcp_events = [], ei_dhcp_failed = False\<rparr>
      (eth_apply_on_link app_config_factory_defaults eth_st_zero, tcp_st_zero, wit_static)
   in et_available e' \<and> map_option ni_ip (chip_net (et_log e')) = Some [10, 0, 0, 7]"
proof -
  have up: "et_phase (eth_apply_on_link app_config_factory_defaults eth_st_zero) = ETH_STATIC_UP"
    by (simp add: eth_apply_on_link_def app_config_factory_defaults_def Let_def)
  have "ls_ether_dirty (g_lcd wit_static)" "cfg_ok (g_cfg wit_static)"
    by (simp_all add: wit_static_def cfg_ok_def app_config_factory_defaults_def)
  from eth_reapply_live [OF apply_ok this, of 5
      "\<lparr>ei_link_on = True, ei_dhcp_events = [], ei_dhcp_failed = False\<rparr>"
      app_config_factory_defaults eth_st_zero tcp_st_zero]
  show ?thesis
    by (simp add: up Let_def case_prod_unfold) (simp add: wit_static_def app_config_factory_defaults_def)
qed

text \<open>
  C27: A leased address does not stay in RAM. It is copied into the live configuration, and the
  next remote write of any setting saves the whole configuration: after a lease and one write
  of the press delay, the FRAM holds, and the next boot loads, the leased address, mask and
  gateway in place of the static ones the user set.
\<close>

theorem lease_reaches_fram:
  assumes "mb_inv s" "cmds_clear s" "mg_ren_state (g_mb s) = REN_ENABLED" "cfg_storable (g_cfg s)"
    and "healthy (g_i2c s)" "ic_mem (g_i2c s) 0 = FRAM_INIT_FLAG_MAGIC"
    and "length (ls_ip l) = 4" "length (ls_sn l) = 4" "length (ls_gw l) = 4"
    and "unat v \<le> 500" "v \<noteq> limit_delay_time1 (g_cfg s)"
  shows "let s1 = snd (dhcp_ip_assign l (e, s));
             s2 = app_modbus_apply_writes now link (put_reg 0x0A v (mirror_live env s1))
    in fst (snd (app_config_load (g_i2c s2))) = (g_cfg s)\<lparr>ether_ip := ls_ip l, ether_nm := ls_sn l,
         ether_gw := ls_gw l, limit_delay_time1 := v\<rparr>"
proof -
  define s1 where "s1 = snd (dhcp_ip_assign l (e, s))"
  let ?s2 = "app_modbus_apply_writes now link (put_reg 0x0A v (mirror_live env s1))"
  let ?c = "(g_cfg s)\<lparr>ether_ip := ls_ip l, ether_nm := ls_sn l, ether_gw := ls_gw l, limit_delay_time1 := v\<rparr>"
  have s1: "g_cfg s1 = (g_cfg s)\<lparr>ether_ip := ls_ip l, ether_nm := ls_sn l, ether_gw := ls_gw l\<rparr>"
    "g_mb s1 = g_mb s" "g_i2c s1 = g_i2c s"
    using assms by (simp_all add: s1_def dhcp_ip_assign_def copy4_id Let_def)
  have "mb_inv s1" "cmds_clear s1" "mg_ren_state (g_mb s1) = REN_ENABLED"
    using assms by (simp_all add: mb_inv_def s1 cmds_clear_same [of s1 s])
  note w = one_write_effect [OF this, where a = "0x0A" and now = now and link = link and v = v and e = env]
  have "length (holding (mg_core (g_mb s1))) = 51" using \<open>mb_inv s1\<close> by (simp add: mb_inv_def mb_tables_ok_def)
  then have "v \<noteq> mb_reg 0x0A (mirror_live env s1)" using assms(11) by (simp add: mirror_values s1)
  then have "g_cfg ?s2 = reg_promise 0x0A v (g_cfg s1)"
    "g_cfg ?s2 \<noteq> g_cfg s1 \<longrightarrow> g_i2c ?s2 = app_config_save_all (g_cfg ?s2) (g_i2c s1)" using w by (simp_all add: Let_def)
  moreover have "reg_promise 0x0A v (g_cfg s1) = ?c"
    using assms(10,11) by (simp add: promises s1 cfg_clamp_max_def word_less_nat_alt)
  moreover have "?c \<noteq> g_cfg s1"
    using assms(11) by (auto simp: s1 dest: arg_cong [of _ _ limit_delay_time1])
  ultimately have "g_i2c ?s2 = app_config_save_all ?c (g_i2c s)" by (simp add: s1)
  moreover have "cfg_storable ?c" using assms by (simp add: cfg_storable_def cfg_ok_def)
  ultimately show ?thesis
    using load_saved [of "g_i2c s" ?c] assms(5,6) by (simp add: Let_def flip: s1_def)
qed

theorem lease_reaches_fram_witness:
  "let l = \<lparr>ls_ip = [192, 168, 1, 70], ls_gw = [192, 168, 1, 1], ls_sn = [255, 255, 255, 0], ls_dns = []\<rparr>;
       s = wit_write\<lparr>g_i2c := (g_i2c wit_write)\<lparr>ic_mem := (\<lambda>_. 0xAA)\<rparr>\<rparr>;
       s2 = app_modbus_apply_writes 5 MB_LINK_TCP
              (put_reg 0x0A 120 (mirror_live (wit_env 5) (snd (dhcp_ip_assign l (eth_st_zero, s)))))
   in ether_ip (fst (snd (app_config_load (g_i2c s2)))) = [192, 168, 1, 70]"
proof -
  let ?s = "wit_write\<lparr>g_i2c := (g_i2c wit_write)\<lparr>ic_mem := (\<lambda>_. 0xAA)\<rparr>\<rparr>"
  let ?l = "\<lparr>ls_ip = [192, 168, 1, 70], ls_gw = [192, 168, 1, 1], ls_sn = [255, 255, 255, 0], ls_dns = []\<rparr>"
  have "mb_inv ?s" "cmds_clear ?s" "mg_ren_state (g_mb ?s) = REN_ENABLED"
    by (simp_all add: mb_inv_def mb_tables_ok_def wit_write_def mb_core_init_def mb_glue_zero_def
        stage_inv_def cfg_stage_init_def cmds_clear_def mb_reg_def)
  moreover have "cfg_storable (g_cfg ?s)"
    by (simp add: wit_write_def sys_zero_def cfg_storable_def cfg_ok_def app_config_factory_defaults_def)
  moreover have "healthy (g_i2c ?s)" "ic_mem (g_i2c ?s) 0 = FRAM_INIT_FLAG_MAGIC"
    by (simp_all add: wit_write_def sys_zero_def healthy_def)
  moreover have "unat (120 :: u16) \<le> 500" "120 \<noteq> limit_delay_time1 (g_cfg ?s)"
    by (simp_all add: wit_write_def sys_zero_def app_config_factory_defaults_def)
  ultimately show ?thesis
    using lease_reaches_fram [of ?s ?l 120 eth_st_zero 5 MB_LINK_TCP "wit_env 5"] by (simp add: Let_def)
qed

end
