(* ===== verification/Comm_Tick.thy ===== *)
theory Comm_Tick
  imports Eth
begin

text \<open>
  The communication tick, the second half of \<open>fw/src/app_modbus.c\<close>: one iteration steps the
  gate, the hold watchdog and the staging timeout, re-evaluates who owns the serial line, mirrors
  the live values and then serves one message of the line that is in use.
\<close>

section \<open>The machine with its ports\<close>

record node =
  nd_sys :: sys
  nd_port :: rtu_port
  nd_tcp :: tcp_st
  nd_eth :: eth_st

text \<open>What one iteration reads: the pins and clock, the socket, the Ethernet chip, the line's echo.\<close>

record io =
  io_env :: env
  io_sock :: sock_in
  io_eth :: eth_in
  io_echo :: "u8 list"

section \<open>Operations\<close>

definition tcp_leave :: "tcp_st \<times> sys \<Rightarrow> tcp_st \<times> sys" where
  "tcp_leave ts =
     (let (t, s) = ts
      in if mg_tcp_active (g_mb s) \<noteq> 0
         then (app_modbus_tcp_reset t, s\<lparr>g_mb := (g_mb s)\<lparr>mg_tcp_active := 0\<rparr>\<rparr>)
         else (t, s))"

definition hold_step :: "u32 \<Rightarrow> sys \<Rightarrow> sys" where
  "hold_step now s =
     (let run_is_comm = b2u (app_reg_run_src s = US_COMM);
          (w, trip) = hold_wdt_step now run_is_comm (mg_hwd (g_mb s));
          s = mb_hold (\<lambda>_. w) s
      in if trip \<noteq> 0 then app_reg_command now US_CMD_RUN_RELEASE US_COMM s else s)"

definition rtu_serve :: "io \<Rightarrow> rtu_port \<times> sys \<Rightarrow> rtu_port \<times> sys" where
  "rtu_serve i ps =
     (let (p, s) = ps; now = e_now (io_env i);
          (frame, p) = usart6_mb_rx_frame now MB_FRAME_MAX p
      in if frame = [] then (p, s)
         else
           (let (core, resp, fc) = mb_core_decode (mg_core (g_mb s)) frame MB_MODE_RTU;
                s = mb_core_upd (\<lambda>_. core) s;
                (p, s) = (if resp \<noteq> []
                          then (usart6_mb_send now (io_echo i) resp p, app_modbus_note_remote now s)
                          else (p, s))
            in if fc = 6 then (p, app_modbus_apply_writes now MB_LINK_RTU s) else (p, s)))"

definition app_modbus_tick :: "io \<Rightarrow> node \<Rightarrow> node" where
  "app_modbus_tick i n =
     (let e = io_env i; now = e_now e;
          s = mb_stage (cfg_stage_tick now) (hold_step now (remote_en_step e (nd_sys n)));
          (p, s) = apply_config e (nd_port n, s)
      in if mg_owned (g_mb s) \<noteq> 0
         then
           (let (t, s) = tcp_leave (nd_tcp n, s);
                (p, s) = rtu_serve i (p, mirror_live e s)
            in n\<lparr>nd_sys := s, nd_port := p, nd_tcp := t\<rparr>)
         else if comm_mode (g_cfg s) \<noteq> MB_COMM_MODE_SERIAL \<and> app_eth_available (nd_eth n)
         then
           (let s = (if mg_tcp_active (g_mb s) = 0
                     then s\<lparr>g_mb := (g_mb s)\<lparr>mg_stg := cfg_stage_discard (mg_stg (g_mb s)),
                            mg_core := mb_core_init (comm_address (g_cfg s)), mg_tcp_active := 1\<rparr>\<rparr>
                     else s);
                (t, s) = app_modbus_tcp_poll now (io_sock i) (nd_tcp n, mirror_live e s)
            in n\<lparr>nd_sys := s, nd_port := p, nd_tcp := t\<rparr>)
         else
           (let (t, s) = tcp_leave (nd_tcp n, s)
            in n\<lparr>nd_sys := s, nd_port := p, nd_tcp := t\<rparr>))"

section \<open>Every invariant of the writes survives the tick\<close>

context write_ops
begin

lemma walk: "P s \<Longrightarrow> P (snd (snd (snd (tcp_walk k now acc tx ms s))))"
proof (induction k arbitrary: acc tx ms s)
  case (Suc k)
  then show ?case
    by (simp add: mb_ops writes Let_def case_prod_unfold split: mb_tcp_fr.split option.split)
qed simp

lemma poll: "P (snd ts) \<Longrightarrow> P (snd (app_modbus_tcp_poll now i ts))"
  using walk by (simp add: app_modbus_tcp_poll_def Let_def case_prod_unfold)

lemma leave: "P (snd ts) \<Longrightarrow> P (snd (tcp_leave ts))"
  using mb [of "snd ts" "\<lambda>_. x" for x] by (simp add: tcp_leave_def Let_def case_prod_unfold)

lemma hold: "P s \<Longrightarrow> P (hold_step now s)"
  by (simp add: hold_step_def mb_ops command Let_def case_prod_unfold)

lemma serve_rtu: "P (snd ps) \<Longrightarrow> P (snd (rtu_serve i ps))"
  by (simp add: rtu_serve_def mb_ops writes Let_def case_prod_unfold)

lemma tick: "P (nd_sys n) \<Longrightarrow> P (nd_sys (app_modbus_tick i n))"
proof -
  assume n: "P (nd_sys n)"
  let ?e = "io_env i"
  define r where "r = apply_config ?e (nd_port n,
    mb_stage (cfg_stage_tick (e_now ?e)) (hold_step (e_now ?e) (remote_en_step ?e (nd_sys n))))"
  have r: "P (snd r)" unfolding r_def by (rule config) (simp add: mb_ops hold n)
  have "P (snd r\<lparr>g_mb := x\<rparr>)" for x using mb [OF r, of "\<lambda>_. x"] by simp
  then show ?thesis
    using r by (simp add: app_modbus_tick_def r_def [symmetric] Let_def case_prod_unfold
        poll leave serve_rtu mb_ops)
qed

end

section \<open>The table after a message\<close>

definition comm_inv :: "sys \<Rightarrow> bool" where
  "comm_inv s \<longleftrightarrow> mb_inv s \<and> cmds_clear s"

lemma comm_inv_same:
  "mg_core (g_mb t) = mg_core (g_mb s) \<Longrightarrow> stage_inv (mg_stg (g_mb t)) = stage_inv (mg_stg (g_mb s)) \<Longrightarrow>
   comm_inv t = comm_inv s"
  using cmds_clear_same [of t s] by (simp add: comm_inv_def mb_inv_def)

lemma note_keeps [simp]:
  "g_cfg (app_modbus_note_remote now s) = g_cfg s" "g_i2c (app_modbus_note_remote now s) = g_i2c s"
  "g_reg (app_modbus_note_remote now s) = g_reg s"
  "mg_core (g_mb (app_modbus_note_remote now s)) = mg_core (g_mb s)"
  "mg_stg (g_mb (app_modbus_note_remote now s)) = mg_stg (g_mb s)"
  "mg_ren_state (g_mb (app_modbus_note_remote now s)) = mg_ren_state (g_mb s)"
  by (simp_all add: app_modbus_note_remote_def)

lemma comm_note: "comm_inv (app_modbus_note_remote now s) = comm_inv s"
  by (rule comm_inv_same) simp_all

lemma len_holding: "comm_inv s \<Longrightarrow> length (holding (mg_core (g_mb s))) = 51"
  by (simp add: comm_inv_def mb_inv_def mb_tables_ok_def)

lemma comm_mirror: "comm_inv s \<Longrightarrow> comm_inv (mirror_live e s)"
  by (simp add: comm_inv_def mirror_tables mirror_clears mb_inv_def mb_tables_ok_def)

lemma decode_write:
  assumes "mb_core_decode core frame mode = (core', resp, fc)" "fc = 6"
  shows "\<exists>a v. a < 51 \<and> core' = core\<lparr>holding := (holding core)[a := v], last_write_addr := of_nat a\<rparr>"
proof -
  have "snd (mb_dispatch core frame) \<noteq> []" "frame ! 1 = 6" "core' = fst (mb_dispatch core frame)"
    using assms decode_cases [of core frame mode] by (auto split: if_splits)
  then show ?thesis
    by (intro exI [of _ "unat (be16 (frame ! 2) (frame ! 3))"] exI [of _ "be16 (frame ! 4) (frame ! 5)"])
      (auto simp: mb_dispatch_def mb_write_reg_def Let_def split: if_splits)
qed

lemma decode_other:
  assumes "mb_core_decode core frame mode = (core', resp, fc)" "fc \<noteq> 6"
  shows "holding core' = holding core"
proof (rule ccontr)
  assume "holding core' \<noteq> holding core"
  then have "core' = fst (mb_dispatch core frame)" "frame ! 1 = 6" "snd (mb_dispatch core frame) = []"
    using assms decode_cases [of core frame mode] dispatch_holding [of core frame] by (auto split: if_splits)
  then show False using dispatch_silent \<open>holding core' \<noteq> holding core\<close> by metis
qed

lemma decode_tables:
  "mb_core_decode core frame mode = (core', resp, fc) \<Longrightarrow> mb_tables_ok core \<Longrightarrow> mb_tables_ok core'"
  using decode_cases [of core frame mode] dispatch_tables [of core frame] by auto

lemma comm_read:
  assumes "comm_inv s" "mb_core_decode (mg_core (g_mb s)) frame mode = (core, resp, fc)" "fc \<noteq> 6"
  shows "comm_inv (mb_core_upd (\<lambda>_. core) s)"
  using assms decode_other [OF assms(2,3)] decode_tables [OF assms(2)]
  by (simp add: comm_inv_def mb_inv_def cmds_clear_def mb_reg_def)

lemma comm_write:
  assumes "comm_inv s" "mb_core_decode (mg_core (g_mb s)) frame mode = (core, resp, fc)" "fc = 6"
  shows "comm_inv (app_modbus_apply_writes now link (app_modbus_note_remote now (mb_core_upd (\<lambda>_. core) s)))"
    "comm_inv (app_modbus_apply_writes now link (mb_core_upd (\<lambda>_. core) s))"
proof -
  obtain a v where w: "a < 51"
    "core = (mg_core (g_mb s))\<lparr>holding := (holding (mg_core (g_mb s)))[a := v], last_write_addr := of_nat a\<rparr>"
    using decode_write [OF assms(2,3)] by blast
  have put: "mb_core_upd (\<lambda>_. core) s = put_reg a v s" by (simp add: w put_reg_def mb_core_upd_def)
  have noted: "app_modbus_note_remote now (put_reg a v s) = put_reg a v (app_modbus_note_remote now s)"
    by (simp add: app_modbus_note_remote_def put_reg_def mb_core_upd_def)
  have inv: "mb_inv (put_reg a v t)" if "comm_inv t" for t
    using that by (simp add: comm_inv_def mb_inv_def mb_tables_ok_def put_reg_def)
  have "comm_inv (app_modbus_apply_writes now link (put_reg a v t))" if "comm_inv t" for t
    using that inv [OF that] writes_tables write_clears [OF len_holding [OF that]]
    by (simp add: comm_inv_def)
  then show "comm_inv (app_modbus_apply_writes now link (app_modbus_note_remote now (mb_core_upd (\<lambda>_. core) s)))"
    "comm_inv (app_modbus_apply_writes now link (mb_core_upd (\<lambda>_. core) s))"
    using assms(1) by (simp_all add: put noted comm_note)
qed

lemma response_core:
  assumes "mb_tcp_build_response mb req = (core, ans, fc)"
  shows "core = mb \<and> ans = None \<or>
    (\<exists>pdu resp. mb_core_decode mb pdu MB_MODE_TCP = (core, resp, fc) \<and> ans \<noteq> None)"
proof -
  let ?pdu = "take (unat (be16 (req ! 4) (req ! 5))) (drop 6 req)"
  obtain core1 resp fc1 where d: "mb_core_decode mb ?pdu MB_MODE_TCP = (core1, resp, fc1)"
    by (rule prod_cases3)
  have long: "4 \<le> length resp" if "resp \<noteq> []"
    using decode_resp_shape [OF d that] by (auto simp: rtu_frame_def)
  have "core1 = mb" if "resp = []"
    using d that decode_cases [of mb ?pdu MB_MODE_TCP] dispatch_silent by auto
  then have "core = mb \<and> ans = None \<or> core = core1 \<and> fc = fc1 \<and> ans \<noteq> None"
    using assms long by (auto simp: mb_tcp_build_response_def d Let_def split: if_splits)
  then show ?thesis using d by blast
qed

lemma comm_walk: "comm_inv s \<Longrightarrow> comm_inv (snd (snd (snd (tcp_walk k now acc tx ms s))))"
proof (induction k arbitrary: acc tx ms s)
  case (Suc k)
  show ?case
  proof (cases "mb_tcp_frame_peek acc")
    case (MB_TCP_FR_OK n)
    obtain core ans fc where b: "mb_tcp_build_response (mg_core (g_mb s)) (take n acc) = (core, ans, fc)"
      by (rule prod_cases3)
    from response_core [OF b] have core: "core = mg_core (g_mb s) \<and> ans = None \<or>
      (\<exists>pdu resp. mb_core_decode (mg_core (g_mb s)) pdu MB_MODE_TCP = (core, resp, fc) \<and> ans \<noteq> None)" .
    have nop: "mb_core_upd (\<lambda>_. mg_core (g_mb s)) s = s" by (simp add: mb_core_upd_def)
    show ?thesis
    proof (cases ans)
      case None
      then show ?thesis using core Suc by (simp add: MB_TCP_FR_OK b nop Let_def)
    next
      case (Some out)
      then obtain pdu resp where d: "mb_core_decode (mg_core (g_mb s)) pdu MB_MODE_TCP = (core, resp, fc)"
        using core by auto
      show ?thesis
        using Some comm_write(1) [OF Suc.prems d] comm_read [OF Suc.prems d] Suc.IH
        by (cases "fc = 6") (simp_all add: MB_TCP_FR_OK b comm_note Let_def)
    qed
  qed (use Suc.prems in auto)
qed simp

lemma comm_poll: "comm_inv (snd ts) \<Longrightarrow> comm_inv (snd (app_modbus_tcp_poll now i ts))"
  using comm_walk by (simp add: app_modbus_tcp_poll_def Let_def case_prod_unfold)

lemma comm_rtu: "comm_inv (snd ps) \<Longrightarrow> comm_inv (snd (rtu_serve i ps))"
proof -
  assume inv: "comm_inv (snd ps)"
  let ?f = "usart6_mb_rx_frame (e_now (io_env i)) 125 (fst ps)"
  obtain core resp fc where d: "mb_core_decode (mg_core (g_mb (snd ps))) (fst ?f) MB_MODE_RTU = (core, resp, fc)"
    by (rule prod_cases3)
  show ?thesis
    using inv comm_write [OF inv d] comm_read [OF inv d]
    by (cases "fc = 6") (simp_all add: rtu_serve_def d comm_note Let_def case_prod_unfold)
qed

lemma comm_fresh:
  "mg_core (g_mb t) = mb_core_init a \<Longrightarrow> stage_inv (mg_stg (g_mb t)) \<Longrightarrow> comm_inv t"
  by (simp add: comm_inv_def mb_inv_def mb_tables_ok_def mb_core_init_def cmds_clear_def mb_reg_def)

lemma mb_fields [simp]:
  "mg_core (g_mb (remote_en_step e s)) = mg_core (g_mb s)" "mg_stg (g_mb (remote_en_step e s)) = mg_stg (g_mb s)"
  "mg_core (g_mb (hold_step now s)) = mg_core (g_mb s)" "mg_stg (g_mb (hold_step now s)) = mg_stg (g_mb s)"
  "mg_core (g_mb (snd (tcp_leave (t, s)))) = mg_core (g_mb s)"
  "mg_stg (g_mb (snd (tcp_leave (t, s)))) = mg_stg (g_mb s)"
  by (simp_all add: remote_en_step_def hold_step_def mb_hold_def tcp_leave_def Let_def case_prod_unfold
      split: product_model.split)

lemma comm_config: "comm_inv (snd ps) \<Longrightarrow> comm_inv (snd (apply_config e ps))"
proof -
  assume inv: "comm_inv (snd ps)"
  obtain p s where ps: "ps = (p, s)" by (cases ps)
  have same: "comm_inv (s\<lparr>g_mb := (g_mb s)\<lparr>mg_owned := x\<rparr>\<rparr>)"
    "comm_inv (s\<lparr>g_mb := (g_mb s)\<lparr>mg_addr := y, mg_core := (mg_core (g_mb s))\<lparr>device_addr := z\<rparr>\<rparr>\<rparr>)" for x y z
    using inv by (simp_all add: ps comm_inv_def mb_inv_def mb_tables_ok_def cmds_clear_def mb_reg_def)
  have fresh: "mg_core (g_mb t) = mb_core_init (comm_address (g_cfg s)) \<Longrightarrow>
      mg_stg (g_mb t) = cfg_stage_discard (mg_stg (g_mb s)) \<Longrightarrow> comm_inv (mirror_live e t)" for t
    using inv by (intro comm_mirror comm_fresh) (simp_all add: ps comm_inv_def mb_inv_def stage_inv_ops)
  show ?thesis
    using inv same by (simp add: apply_config_def ps fresh Let_def)
qed

lemma comm_tick: "comm_inv (nd_sys n) \<Longrightarrow> comm_inv (nd_sys (app_modbus_tick i n))"
proof -
  assume n: "comm_inv (nd_sys n)"
  let ?e = "io_env i"
  define r where "r = apply_config ?e (nd_port n,
    mb_stage (cfg_stage_tick (e_now ?e)) (hold_step (e_now ?e) (remote_en_step ?e (nd_sys n))))"
  have "comm_inv (mb_stage (cfg_stage_tick (e_now ?e)) (hold_step (e_now ?e) (remote_en_step ?e (nd_sys n))))"
    using n cmds_clear_same [of "mb_stage (cfg_stage_tick (e_now ?e)) (hold_step (e_now ?e) (remote_en_step ?e (nd_sys n)))" "nd_sys n"]
    by (simp add: comm_inv_def mb_inv_def stage_inv_ops)
  then have r: "comm_inv (snd r)" unfolding r_def by (intro comm_config) simp
  have leave: "comm_inv (snd (tcp_leave (nd_tcp n, snd r)))"
    using r comm_inv_same [of "snd (tcp_leave (nd_tcp n, snd r))" "snd r"] by simp
  have fresh: "comm_inv (snd r\<lparr>g_mb := (g_mb (snd r))\<lparr>mg_stg := cfg_stage_discard (mg_stg (g_mb (snd r))),
      mg_core := mb_core_init a, mg_tcp_active := x\<rparr>\<rparr>)" for a x
    using r by (intro comm_fresh [of _ a]) (simp_all add: comm_inv_def mb_inv_def stage_inv_ops)
  show ?thesis
    using r leave fresh by (simp add: app_modbus_tick_def r_def [symmetric] Let_def case_prod_unfold
        comm_poll comm_rtu comm_mirror)
qed

section \<open>The ports\<close>

lemma drain_tail: "unat tail < 256 \<Longrightarrow> unat (fst (rtu_drain k buf maxlen head tail acc n)) < 256"
  by (induction k arbitrary: tail acc n) (auto simp: unat_next Let_def)

lemma port_ops:
  assumes "port_ok p"
  shows "port_ok (snd (usart6_mb_rx_frame now maxlen p))" "port_ok (usart6_mb_send now echo buf p)"
    "port_ok (usart6_mb_close p)" "port_ok (usart6_mb_open now a b p)"
proof -
  have tail: "unat (rp_tail p) < 256" using assms by (simp add: port_ok_def)
  show "port_ok (snd (usart6_mb_rx_frame now maxlen p))"
    using assms drain_tail [OF tail]
    by (simp add: usart6_mb_rx_frame_def port_ok_def Let_def case_prod_unfold)
  have "port_ok (p\<lparr>rp_sent := x\<rparr>)" for x using assms by (simp add: port_ok_def)
  then have "port_ok (fold dma_rx echo (p\<lparr>rp_sent := x\<rparr>))" for x by (rule dma_burst_ok)
  then show "port_ok (usart6_mb_send now echo buf p)"
    using assms head_pos by (simp add: usart6_mb_send_def Let_def) (simp add: port_ok_def rx_head_def and_FF)
  show "port_ok (usart6_mb_close p)" using assms by (simp add: usart6_mb_close_def port_ok_def)
  show "port_ok (usart6_mb_open now a b p)"
    using assms by (simp add: usart6_mb_open_def mb_uart_reinit_def port_ok_def Let_def)
qed

lemma port_rtu: "port_ok (fst ps) \<Longrightarrow> port_ok (fst (rtu_serve i ps))"
  by (simp add: rtu_serve_def port_ops Let_def case_prod_unfold)

lemma port_config: "port_ok (fst ps) \<Longrightarrow> port_ok (fst (apply_config e ps))"
  by (cases ps) (simp add: apply_config_def port_ops Let_def)

lemma port_tick: "port_ok (nd_port n) \<Longrightarrow> port_ok (nd_port (app_modbus_tick i n))"
  using port_config [of "(nd_port n, s)" for s]
  by (simp add: app_modbus_tick_def port_rtu Let_def case_prod_unfold)

lemma leave_tcp: "tcp_ok (fst ts) \<Longrightarrow> tcp_ok (fst (tcp_leave ts))"
  by (simp add: tcp_leave_def reset_ok Let_def case_prod_unfold)

lemma tcp_tick:
  "tcp_ok (nd_tcp n) \<Longrightarrow> recv_bounded (io_sock i) \<Longrightarrow> tcp_ok (nd_tcp (app_modbus_tick i n))"
  using leave_tcp [of "(nd_tcp n, s)" for s] poll_ok [of "nd_tcp n" "io_sock i"]
  by (simp add: app_modbus_tick_def Let_def case_prod_unfold)

lemma eth_tick [simp]: "nd_eth (app_modbus_tick i n) = nd_eth n"
  by (simp add: app_modbus_tick_def Let_def case_prod_unfold)

section \<open>One serial message\<close>

lemma rx_frame_open:
  "fst (usart6_mb_rx_frame now maxlen p) \<noteq> [] \<Longrightarrow> rp_open p"
  "rp_open (snd (usart6_mb_rx_frame now maxlen p)) = rp_open p"
  "rp_sent (snd (usart6_mb_rx_frame now maxlen p)) = rp_sent p"
  by (auto simp: usart6_mb_rx_frame_def Let_def case_prod_unfold split: if_splits)

lemma send_sent: "rp_open p \<Longrightarrow> rp_sent (usart6_mb_send now echo buf p) = rp_sent p @ [buf]"
  by (simp add: usart6_mb_send_def Let_def)

text \<open>The line is in use with the settings of the configuration.\<close>

definition line_steady :: "sys \<Rightarrow> bool" where
  "line_steady s \<longleftrightarrow> mg_owned (g_mb s) \<noteq> 0 \<and> comm_mode (g_cfg s) = MB_COMM_MODE_SERIAL \<and>
     comm_address (g_cfg s) \<noteq> 0 \<and> comm_address (g_cfg s) = mg_addr (g_mb s) \<and>
     comm_speed_idx (g_cfg s) = mg_speed_idx (g_mb s) \<and> comm_parity_idx (g_cfg s) = mg_parity_idx (g_mb s)"

lemma steady_config: "line_steady s \<Longrightarrow> apply_config e (p, s) = (p, s)"
  by (auto simp: line_steady_def apply_config_def Let_def)

text \<open>The steps before the message leave all a write depends on.\<close>

definition before_message :: "io \<Rightarrow> sys \<Rightarrow> sys" where
  "before_message i s = mb_stage (cfg_stage_tick (e_now (io_env i)))
     (hold_step (e_now (io_env i)) (remote_en_step (io_env i) s))"

lemma before_keeps [simp]:
  "g_cfg (before_message i s) = g_cfg s" "g_i2c (before_message i s) = g_i2c s"
  "mg_core (g_mb (before_message i s)) = mg_core (g_mb s)"
  "mg_owned (g_mb (before_message i s)) = mg_owned (g_mb s)"
  "mg_addr (g_mb (before_message i s)) = mg_addr (g_mb s)"
  "mg_speed_idx (g_mb (before_message i s)) = mg_speed_idx (g_mb s)"
  "mg_parity_idx (g_mb (before_message i s)) = mg_parity_idx (g_mb s)"
  "mg_stg (g_mb (before_message i s)) = cfg_stage_tick (e_now (io_env i)) (mg_stg (g_mb s))"
  "mg_ren_state (g_mb (before_message i s)) = mg_ren_state (g_mb (remote_en_step (io_env i) s))"
  by (simp_all add: before_message_def mb_stage_def hold_step_def mb_hold_def remote_en_step_def
      Let_def case_prod_unfold split: product_model.split)

lemma before_pins [simp]:
  "g_horn (before_message i s) = g_horn s" "g_out (before_message i s) = g_out s"
  "g_horn (snd (tcp_leave (t, s))) = g_horn s" "g_out (snd (tcp_leave (t, s))) = g_out s"
  "g_horn (app_modbus_note_remote now s) = g_horn s" "g_out (app_modbus_note_remote now s) = g_out s"
  by (simp_all add: app_modbus_note_remote_def before_message_def hold_step_def remote_en_step_def tcp_leave_def
      Let_def case_prod_unfold split: product_model.split)

lemma comm_before: "comm_inv s \<Longrightarrow> comm_inv (before_message i s)"
  using cmds_clear_same [of "before_message i s" s]
  by (simp add: comm_inv_def mb_inv_def stage_inv_ops)

lemma steady_before [simp]: "line_steady (before_message i s) = line_steady s"
  by (simp add: line_steady_def)

lemma leave_keeps [simp]:
  "g_cfg (snd (tcp_leave (t, s))) = g_cfg s" "g_i2c (snd (tcp_leave (t, s))) = g_i2c s"
  "g_reg (snd (tcp_leave (t, s))) = g_reg s"
  "mg_ren_state (g_mb (snd (tcp_leave (t, s)))) = mg_ren_state (g_mb s)"
  "mg_hwd (g_mb (snd (tcp_leave (t, s)))) = mg_hwd (g_mb s)"
  by (simp_all add: tcp_leave_def Let_def)

lemma tick_on_line:
  assumes "line_steady (nd_sys n)"
  shows "app_modbus_tick i n =
    (let (t, s) = tcp_leave (nd_tcp n, before_message i (nd_sys n));
         (p, s) = rtu_serve i (nd_port n, mirror_live (io_env i) s)
     in n\<lparr>nd_sys := s, nd_port := p, nd_tcp := t\<rparr>)"
proof -
  have "line_steady (before_message i (nd_sys n))" using assms by simp
  from steady_config [OF this] assms show ?thesis
    by (simp add: app_modbus_tick_def line_steady_def flip: before_message_def)
qed

lemma note_mirror:
  "app_modbus_note_remote now (put_reg a v (mirror_live e s)) =
   put_reg a v (mirror_live e (app_modbus_note_remote now s))"
proof -
  have q: "status_in e (s\<lparr>g_mb := m\<rparr>) = status_in e s" for m
    by (simp add: status_in_def query_defs app_weld_sensor_active_def)
  then have d: "mirror_disp_status e (s\<lparr>g_mb := m\<rparr>) = mirror_disp_status e s" for m
    by (simp add: mirror_disp_status_def query_defs fun_eq_iff)
  have g: "mirror_stage_and_gate (s\<lparr>g_mb := (g_mb s)\<lparr>mg_remote_ms := x, mg_remote_seen := y\<rparr>\<rparr>) =
      mirror_stage_and_gate s" for x y
    by (simp add: mirror_stage_and_gate_def query_defs fun_eq_iff cong: product_model.case_cong)
  show ?thesis
    by (simp add: app_modbus_note_remote_def put_reg_def mb_core_upd_def mirror_live_def d g)
qed

lemma decode_request:
  assumes "comm_inv s" "a < 51"
  shows "mb_core_decode (mg_core (g_mb s)) (rtu_frame (mb_request (device_addr (mg_core (g_mb s))) 6 (of_nat a) v))
      MB_MODE_RTU =
    (mg_core (g_mb (put_reg a v s)), rtu_frame (mb_request (device_addr (mg_core (g_mb s))) 6 (of_nat a) v), 6)"
proof -
  let ?c = "mg_core (g_mb s)" and ?r = "mb_request (device_addr (mg_core (g_mb s))) 6 (of_nat a) v"
  have a: "unat (of_nat a :: u16) = a" using assms(2) by (simp add: unat_of_nat)
  have f: "?r ! 2 = hi8 (of_nat a)" "?r ! 3 = lo8 (of_nat a)" "?r ! 4 = hi8 v" "?r ! 5 = lo8 v"
    by (simp_all add: mb_request_def)
  have "mb_write_reg ?c ?r = (mg_core (g_mb (put_reg a v s)), rtu_frame ?r)"
    unfolding mb_write_reg_def request_fields Let_def f
    using assms(2) by (simp add: a put_reg_def rtu_frame_def mb_request_def)
  then have "mb_core_decode ?c ?r MB_MODE_TCP = (mg_core (g_mb (put_reg a v s)), rtu_frame ?r, 6)"
    by (simp add: mb_core_decode_def mb_dispatch_def) (simp add: rtu_frame_def mb_request_def)
  then show ?thesis by (simp add: decode_rtu_accepts)
qed

section \<open>Properties\<close>

text \<open>The tick that receives a write mirrors, applies the written register and echoes the request.\<close>

lemma written_tick:
  assumes "comm_inv (nd_sys n)" "line_steady (nd_sys n)"
    and "device_addr (mg_core (g_mb (nd_sys n))) = comm_address (g_cfg (nd_sys n))"
    and "mg_ren_state (g_mb (remote_en_step (io_env i) (nd_sys n))) = REN_ENABLED"
    and "a < 51"
    and "fst (usart6_mb_rx_frame (e_now (io_env i)) 125 (nd_port n)) =
      rtu_frame (mb_request (comm_address (g_cfg (nd_sys n))) 6 (of_nat a) v)"
  obtains u where "nd_sys (app_modbus_tick i n) =
      app_modbus_apply_writes (e_now (io_env i)) MB_LINK_RTU (put_reg a v (mirror_live (io_env i) u))"
    "rp_sent (nd_port (app_modbus_tick i n)) = rp_sent (nd_port n) @
      [rtu_frame (mb_request (comm_address (g_cfg (nd_sys n))) 6 (of_nat a) v)]"
    "mb_inv u" "cmds_clear u" "mg_ren_state (g_mb u) = REN_ENABLED" "g_cfg u = g_cfg (nd_sys n)"
    "g_i2c u = g_i2c (nd_sys n)" "g_out u = g_out (nd_sys n)"
    "app_horn_mode_active u = app_horn_mode_active (nd_sys n)"
    "mg_stg (g_mb u) = cfg_stage_tick (e_now (io_env i)) (mg_stg (g_mb (nd_sys n)))"
    "mg_core (g_mb u) = mg_core (g_mb (nd_sys n))"
proof -
  let ?s = "nd_sys n" and ?e = "io_env i" and ?now = "e_now (io_env i)"
  let ?req = "rtu_frame (mb_request (comm_address (g_cfg ?s)) 6 (of_nat a) v)"
  define t where "t = snd (tcp_leave (nd_tcp n, before_message i ?s))"
  have t: "g_cfg t = g_cfg ?s" "g_i2c t = g_i2c ?s" "mg_core (g_mb t) = mg_core (g_mb ?s)"
    "mg_ren_state (g_mb t) = REN_ENABLED" "g_horn t = g_horn ?s" "g_out t = g_out ?s"
    "mg_stg (g_mb t) = cfg_stage_tick ?now (mg_stg (g_mb ?s))"
    using assms(4) by (simp_all add: t_def)
  have inv: "comm_inv t"
    using comm_before [OF assms(1), of i] comm_inv_same [of t "before_message i ?s"] by (simp add: t_def)
  have dec: "mb_core_decode (mg_core (g_mb (mirror_live ?e t))) ?req MB_MODE_RTU =
      (mg_core (g_mb (put_reg a v (mirror_live ?e t))), ?req, 6)"
    using decode_request [OF comm_mirror [OF inv] assms(5), of ?e v] assms(3) by (simp add: t)
  have upd: "mb_core_upd (\<lambda>_. mg_core (g_mb (put_reg a v u))) u = put_reg a v u" for u
    by (simp add: put_reg_def mb_core_upd_def)
  have ne: "?req \<noteq> []" by (simp add: rtu_frame_def mb_request_def)
  have "rp_open (nd_port n)" using rx_frame_open(1) [of ?now 125 "nd_port n"] assms(6) ne by simp
  note sent = send_sent [OF rx_frame_open(2) [of ?now 125 "nd_port n", THEN iffD2, OF this]]
  define u where "u = app_modbus_note_remote ?now t"
  let ?w = "app_modbus_apply_writes ?now MB_LINK_RTU (put_reg a v (mirror_live ?e u))"
  have serve: "rtu_serve i (nd_port n, mirror_live ?e t) =
      (usart6_mb_send ?now (io_echo i) ?req (snd (usart6_mb_rx_frame ?now 125 (nd_port n))), ?w)"
    using assms(6) ne by (simp add: rtu_serve_def dec upd note_mirror u_def Let_def case_prod_unfold)
  have tick: "nd_sys (app_modbus_tick i n) = ?w"
    "rp_sent (nd_port (app_modbus_tick i n)) = rp_sent (nd_port n) @ [?req]"
    using tick_on_line [OF assms(2), of i] serve
    by (simp_all add: Let_def case_prod_unfold t_def sent rx_frame_open(3))
  have u: "mb_inv u" "cmds_clear u" "mg_ren_state (g_mb u) = REN_ENABLED" "g_cfg u = g_cfg ?s"
    "g_i2c u = g_i2c ?s" "g_out u = g_out ?s" "app_horn_mode_active u = app_horn_mode_active ?s"
    "mg_stg (g_mb u) = cfg_stage_tick ?now (mg_stg (g_mb ?s))" "mg_core (g_mb u) = mg_core (g_mb ?s)"
    using inv comm_note [of ?now t] t by (simp_all add: u_def comm_inv_def query_defs)
  show thesis by (rule that [of u]) (simp_all only: tick u)
qed


definition wit_line :: node where
  "wit_line =
     (let p = fold dma_rx (rtu_frame (mb_request 1 6 (of_nat 0x06) 200)) (rtu_port_zero\<lparr>rp_open := True\<rparr>)
      in \<lparr>nd_sys = wit_write\<lparr>g_cfg := app_config_factory_defaults\<lparr>comm_address := 1, comm_speed_idx := 3, comm_parity_idx := 2\<rparr>,
            g_mb := (g_mb wit_write)\<lparr>mg_core := mb_core_init 1, mg_owned := 1, mg_addr := 1,
              mg_speed_idx := 3, mg_parity_idx := 2\<rparr>\<rparr>,
          nd_port = p\<lparr>rp_prev_head := rp_dma_pos p, rp_last_rx_ms := 90\<rparr>,
          nd_tcp = tcp_st_zero, nd_eth = eth_st_zero\<rparr>)"

definition wit_io :: "u32 \<Rightarrow> io" where
  "wit_io now = \<lparr>io_env = wit_env now, io_sock = wit_sock,
     io_eth = \<lparr>ei_link_on = False, ei_dhcp_events = [], ei_dhcp_failed = False\<rparr>, io_echo = []\<rparr>"

lemma wit_line_parts:
  "nd_sys wit_line = wit_write\<lparr>g_cfg := app_config_factory_defaults\<lparr>comm_address := 1, comm_speed_idx := 3, comm_parity_idx := 2\<rparr>,
     g_mb := (g_mb wit_write)\<lparr>mg_core := mb_core_init 1, mg_owned := 1, mg_addr := 1,
       mg_speed_idx := 3, mg_parity_idx := 2\<rparr>\<rparr>"
  "g_model (nd_sys wit_line) = MODEL_STD"
  by (simp_all add: wit_line_def Let_def wit_write_def sys_zero_def)


text \<open>No message is complete: the line delivers no frame, the socket no request.\<close>

definition link_quiet :: "io \<Rightarrow> node \<Rightarrow> bool" where
  "link_quiet i n \<longleftrightarrow> fst (usart6_mb_rx_frame (e_now (io_env i)) 125 (nd_port n)) = [] \<and>
     (si_status_after (io_sock i) = SOCK_ESTABLISHED \<longrightarrow>
        mb_tcp_frame_peek (tc_acc (tcp_receive (io_sock i) (control_tcp (e_now (io_env i)) (io_sock i) (nd_tcp n))))
          \<in> {MB_TCP_FR_NEED_MORE, MB_TCP_FR_DESYNC})"

lemma fresh_line_quiet:
  "fst (usart6_mb_rx_frame now maxlen p) = [] \<Longrightarrow>
   fst (usart6_mb_rx_frame now maxlen (fst (apply_config e (p, s)))) = []"
proof -
  assume q: "fst (usart6_mb_rx_frame now maxlen p) = []"
  have closed: "fst (usart6_mb_rx_frame now maxlen (usart6_mb_close p)) = []"
    using q by (simp add: usart6_mb_close_def usart6_mb_rx_frame_def)
  have opened: "fst (usart6_mb_rx_frame now maxlen (usart6_mb_open t a b r)) = []"
    if "fst (usart6_mb_rx_frame now maxlen r) = []" for t a b r
  proof (cases "rp_open r")
    case True
    then show ?thesis using that by (simp add: usart6_mb_open_def)
  next
    case False
    then show ?thesis
      by (simp add: usart6_mb_open_def mb_uart_reinit_def usart6_mb_rx_frame_def rx_head_def Let_def)
  qed
  show ?thesis using q closed opened by (simp add: apply_config_def Let_def)
qed

lemma config_run [simp]:
  "g_reg (snd (apply_config e ps)) = g_reg (snd ps)"
  "mg_hwd (g_mb (snd (apply_config e ps))) = mg_hwd (g_mb (snd ps))"
  by (cases ps; simp add: apply_config_def Let_def)+

lemma quiet_poll:
  assumes "si_status_after i = SOCK_ESTABLISHED \<Longrightarrow>
      mb_tcp_frame_peek (tc_acc (tcp_receive i (control_tcp now i t))) \<in> {MB_TCP_FR_NEED_MORE, MB_TCP_FR_DESYNC}"
  shows "snd (app_modbus_tcp_poll now i (t, s)) = s"
  using assms by (auto simp: app_modbus_tcp_poll_def numeral_eq_Suc Let_def case_prod_unfold)

lemma quiet_tick:
  assumes "link_quiet i n"
  shows "g_reg (nd_sys (app_modbus_tick i n)) = g_reg (before_message i (nd_sys n)) \<and>
    mg_hwd (g_mb (nd_sys (app_modbus_tick i n))) = mg_hwd (g_mb (before_message i (nd_sys n)))"
proof -
  define r where "r = apply_config (io_env i) (nd_port n, before_message i (nd_sys n))"
  have r: "fst (usart6_mb_rx_frame (e_now (io_env i)) 125 (fst r)) = []"
    using assms fresh_line_quiet unfolding r_def link_quiet_def by blast
  have rtu: "snd (rtu_serve i (fst r, s)) = s" for s
    using r by (simp add: rtu_serve_def Let_def case_prod_unfold)
  have poll: "snd (app_modbus_tcp_poll (e_now (io_env i)) (io_sock i) (nd_tcp n, s)) = s" for s
    using assms by (intro quiet_poll) (simp add: link_quiet_def)
  have keep: "g_reg (snd r) = g_reg (before_message i (nd_sys n))"
    "mg_hwd (g_mb (snd r)) = mg_hwd (g_mb (before_message i (nd_sys n)))"
    by (simp_all add: r_def)
  show ?thesis
    by (simp add: app_modbus_tick_def rtu poll keep Let_def case_prod_unfold flip: before_message_def r_def)
qed

text \<open>
  C7: A held run cannot outlive its master. Whatever has become of the link (line silent, cable
  pulled, socket idle, settings changed, line released), in the first tick at least 600 ms after
  the last keep in which no message completes, a run the bus holds is stopped and the session
  closed, in that tick; up to then the watchdog leaves the run alone.
\<close>

theorem hold_run_stops_on_silence:
  assumes "link_quiet i n" "hw_armed (mg_hwd (g_mb (nd_sys n))) \<noteq> 0"
    and "rg_us_run_status (g_reg (nd_sys n)) = US_COMM"
  shows "let w = mg_hwd (g_mb (nd_sys n)); s' = nd_sys (app_modbus_tick i n)
    in if 600 \<le> elapsed (e_now (io_env i)) (hw_last_keep_ms w)
       then rg_us_run_status (g_reg s') = US_IDLE \<and> hw_armed (mg_hwd (g_mb s')) = 0
       else g_reg s' = g_reg (nd_sys n) \<and> mg_hwd (g_mb s') = w"
proof -
  let ?s = "nd_sys n" and ?e = "io_env i"
  have "g_reg (remote_en_step ?e ?s) = g_reg ?s" "mg_hwd (g_mb (remote_en_step ?e ?s)) = mg_hwd (g_mb ?s)"
    by (simp_all add: remote_en_step_def Let_def case_prod_unfold split: product_model.split)
  then show ?thesis
    using quiet_tick [OF assms(1)] assms(2,3)
    by (simp add: before_message_def hold_step_def hold_wdt_step_def app_reg_run_src_def Let_def)
qed

definition wit_held :: node where
  "wit_held = \<lparr>nd_sys = wit_write\<lparr>g_reg := reg_state_zero\<lparr>rg_us_run_status := US_COMM\<rparr>,
       g_mb := (g_mb wit_write)\<lparr>mg_hwd := \<lparr>hw_armed = 1, hw_last_keep_ms = 0xFFFFFFF0\<rparr>\<rparr>\<rparr>,
     nd_port = rtu_port_zero, nd_tcp = tcp_st_zero, nd_eth = eth_st_zero\<rparr>"

theorem hold_run_stops_on_silence_witness:
  "rg_us_run_status (g_reg (nd_sys (app_modbus_tick ((wit_io 700)\<lparr>io_sock := wit_sock\<lparr>si_avail := 0\<rparr>\<rparr>) wit_held))) = US_IDLE"
proof -
  have "link_quiet ((wit_io 700)\<lparr>io_sock := wit_sock\<lparr>si_avail := 0\<rparr>\<rparr>) wit_held"
    by (simp add: link_quiet_def wit_held_def rtu_port_zero_def usart6_mb_rx_frame_def tcp_receive_def
        control_tcp_def tcp_st_zero_def wit_sock_def wit_io_def wit_env_def elapsed_def mb_tcp_frame_peek_def Let_def)
  from hold_run_stops_on_silence [OF this] show ?thesis
    by (simp add: wit_held_def wit_io_def wit_env_def elapsed_def Let_def)
qed

end
