(* ===== verification/Lcd_Boot.thy ===== *)
theory Lcd_Boot
  imports Panel_Client
begin

text \<open>
  The boot handshake with the panel: the blocking reads of \<open>fw/drivers/dgus_lcd.c\<close>
  (\<open>dgus_read_word\<close>, \<open>dgus_wait_ready\<close>), the confirmation of the run page of
  \<open>fw/src/app_lcd.c\<close> (\<open>app_lcd_ensure_run_page\<close>), the delay of \<open>fw/src/sys_tick.c\<close> and
  \<open>app_init\<close> of \<open>fw/src/app.c\<close>.

  These loops read the millisecond counter until a time-out has passed. Each read of the counter
  takes one turn from a sequence: the milliseconds since power-up, of which the counter holds the
  low 32 bits, and the bytes that have reached the receive ring since the read before. A loop
  that has not ended when the sequence does yields \<open>None\<close>; the lemmas show how much time is
  enough for each loop to return.
\<close>

section \<open>The clock\<close>

type_synonym turn = "nat \<times> u8 list"

definition rx_arrive :: "u8 list \<Rightarrow> dgus_st \<Rightarrow> dgus_st" where
  "rx_arrive bs d = d\<lparr>dg_rx_ring := dg_rx_ring d @ bs\<rparr>"

fun delay_wait :: "u32 \<Rightarrow> u32 \<Rightarrow> turn list \<Rightarrow> dgus_st \<Rightarrow> (turn list \<times> dgus_st) option" where
  "delay_wait t0 ms [] d = None"
| "delay_wait t0 ms ((t, bs) # ts) d =
     (let d = rx_arrive bs d in
      if elapsed (of_nat t) t0 < ms then delay_wait t0 ms ts d else Some (ts, d))"

definition sys_tick_delay_ms :: "u32 \<Rightarrow> turn list \<Rightarrow> dgus_st \<Rightarrow> (turn list \<times> dgus_st) option" where
  "sys_tick_delay_ms ms ts d =
     (case ts of [] \<Rightarrow> None
      | (t0, bs) # ts \<Rightarrow> delay_wait (of_nat t0) ms ts (rx_arrive bs d))"

section \<open>Draining the ring\<close>

text \<open>
  A poll that delivers a frame has taken bytes from the ring. The caller's frame has no initial
  value in the code; the fields that are read have been filled by the poll.
\<close>

lemma rx_drain_ring:
  "rx_drain now bs d out = (got, d', out') \<Longrightarrow>
   (if got then length (dg_rx_ring d') < length bs else dg_rx_ring d' = [])"
proof (induction bs arbitrary: d out)
  case (Cons b bs)
  show ?case
  proof (cases "fst (parser_step now b d out)")
    case True
    then show ?thesis using Cons.prems by (auto simp: Let_def case_prod_unfold)
  next
    case False
    then have "rx_drain now bs (fst (snd (parser_step now b d out)))
        (snd (snd (parser_step now b d out))) = (got, d', out')"
      using Cons.prems by (simp add: Let_def case_prod_unfold)
    from Cons.IH [OF this] show ?thesis by (auto split: if_splits)
  qed
qed auto

lemma rx_poll_ring:
  "dgus_rx_poll now d out = (got, d', out') \<Longrightarrow>
   (if got then length (dg_rx_ring d') < length (dg_rx_ring d) else dg_rx_ring d' = [])"
  unfolding dgus_rx_poll_def by (rule rx_drain_ring)

function rx_discard :: "u32 \<Rightarrow> dgus_st \<Rightarrow> dgus_frame \<Rightarrow> dgus_st \<times> dgus_frame" where
  "rx_discard now d out =
     (let (got, d', out') = dgus_rx_poll now d out in
      if got then rx_discard now d' out' else (d', out'))"
  by auto
termination
  by (relation "measure (\<lambda>(now, d, out). length (dg_rx_ring d))") (auto dest: rx_poll_ring [OF sym])

function rx_reply :: "u32 \<Rightarrow> u16 \<Rightarrow> dgus_st \<Rightarrow> dgus_frame \<Rightarrow> u16 option \<times> dgus_st \<times> dgus_frame" where
  "rx_reply now addr d out =
     (let (got, d', f) = dgus_rx_poll now d out in
      if got
      then if fr_cmd f = DGUS_CMD_RD \<and> fr_vp_addr f = addr \<and> 3 \<le> fr_data_len f
           then (Some (be16 (fr_data f ! 1) (fr_data f ! 2)), d', f)
           else rx_reply now addr d' f
      else (None, d', f))"
  by auto
termination
  by (relation "measure (\<lambda>(now, addr, d, out). length (dg_rx_ring d))") (auto dest: rx_poll_ring [OF sym])

declare rx_discard.simps [simp del] rx_reply.simps [simp del]

section \<open>The blocking reads\<close>

fun wait_reply :: "u16 \<Rightarrow> u32 \<Rightarrow> u32 \<Rightarrow> turn list \<Rightarrow> dgus_st \<Rightarrow> dgus_frame \<Rightarrow>
    (u16 option \<times> turn list \<times> dgus_st) option" where
  "wait_reply addr t0 timeout [] d f = None"
| "wait_reply addr t0 timeout ((t, bs) # ts) d f =
     (let d = rx_arrive bs d in
      if elapsed (of_nat t) t0 < timeout
      then (case rx_reply (of_nat t) addr d f of
              (Some w, d, f) \<Rightarrow> Some (Some w, ts, d)
            | (None, d, f) \<Rightarrow> wait_reply addr t0 timeout ts d f)
      else Some (None, ts, d))"

definition dgus_read_word :: "u16 \<Rightarrow> u32 \<Rightarrow> turn list \<Rightarrow> dgus_st \<Rightarrow>
    (u16 option \<times> turn list \<times> dgus_st) option" where
  "dgus_read_word addr timeout ts d =
     (case ts of [] \<Rightarrow> None
      | (t0, bs) # ts \<Rightarrow>
          let (d, f) = rx_discard (of_nat t0) (rx_arrive bs d) dgus_frame_zero;
              d = dgus_read_var (ucast addr) d
          in wait_reply addr (of_nat t0) timeout ts d f)"

lemma wait_reply_length:
  "wait_reply addr t0 tmo ts d f = Some (w, ts', d') \<Longrightarrow> length ts' < length ts"
  by (induction ts arbitrary: d f)
    (fastforce simp: Let_def split: prod.splits option.splits if_splits)+

lemma read_word_length:
  "dgus_read_word addr tmo ts d = Some (w, ts', d') \<Longrightarrow> length ts' < length ts"
  by (auto simp: dgus_read_word_def Let_def split: list.splits prod.splits dest!: wait_reply_length)

function ready_loop :: "u32 \<Rightarrow> u32 \<Rightarrow> turn list \<Rightarrow> dgus_st \<Rightarrow> (bool \<times> turn list \<times> dgus_st) option" where
  "ready_loop t0 timeout ts d =
     (case dgus_read_word SYS_PIC_NOW DGUS_READ_REPLY_TIMEOUT_MS ts d of
        None \<Rightarrow> None
      | Some (Some pg, ts, d) \<Rightarrow> Some (True, ts, d)
      | Some (None, [], d) \<Rightarrow> None
      | Some (None, (t, bs) # ts, d) \<Rightarrow>
          let d = rx_arrive bs d in
          if elapsed (of_nat t) t0 < timeout then ready_loop t0 timeout ts d else Some (False, ts, d))"
  by auto
termination
  by (relation "measure (\<lambda>(t0, tmo, ts, d). length ts)") (auto dest: read_word_length)

declare ready_loop.simps [simp del]

definition dgus_wait_ready :: "u32 \<Rightarrow> turn list \<Rightarrow> dgus_st \<Rightarrow> (bool \<times> turn list \<times> dgus_st) option" where
  "dgus_wait_ready timeout ts d =
     (case ts of [] \<Rightarrow> None
      | (t0, bs) # ts \<Rightarrow> ready_loop (of_nat t0) timeout ts (rx_arrive bs d))"

section \<open>The run page\<close>

abbreviation (input) LCD_LOGO :: u8 where "LCD_LOGO \<equiv> 0"
abbreviation (input) DGUS_BOOT_READY_TIMEOUT_MS :: u32 where "DGUS_BOOT_READY_TIMEOUT_MS \<equiv> 4000"
abbreviation (input) DGUS_LOGO_DWELL_MS :: u32 where "DGUS_LOGO_DWELL_MS \<equiv> 1000"
abbreviation (input) DGUS_PAGE_CONFIRM_RETRIES :: nat where "DGUS_PAGE_CONFIRM_RETRIES \<equiv> 8"
abbreviation (input) DGUS_PAGE_CONFIRM_SPACING_MS :: u32 where "DGUS_PAGE_CONFIRM_SPACING_MS \<equiv> 150"

text \<open>The loop over the retries, then the last read. The page is compared in its low byte.\<close>

fun confirm_page :: "nat \<Rightarrow> u8 \<Rightarrow> turn list \<Rightarrow> dgus_st \<Rightarrow> (bool \<times> turn list \<times> dgus_st) option" where
  "confirm_page 0 run_page ts d =
     (case dgus_read_word SYS_PIC_NOW DGUS_READ_REPLY_TIMEOUT_MS ts d of
        None \<Rightarrow> None
      | Some (Some now_pg, ts, d) \<Rightarrow> Some (ucast now_pg = run_page, ts, d)
      | Some (None, ts, d) \<Rightarrow> Some (False, ts, d))"
| "confirm_page (Suc i) run_page ts d =
     (case dgus_read_word SYS_PIC_NOW DGUS_READ_REPLY_TIMEOUT_MS ts d of
        None \<Rightarrow> None
      | Some (now_pg, ts, d) \<Rightarrow>
          if (case now_pg of Some w \<Rightarrow> ucast w = run_page | None \<Rightarrow> False) then Some (True, ts, d)
          else (case sys_tick_delay_ms DGUS_PAGE_CONFIRM_SPACING_MS ts (dgus_set_page run_page d) of
                  None \<Rightarrow> None
                | Some (ts, d) \<Rightarrow> confirm_page i run_page ts d))"

definition app_lcd_ensure_run_page :: "app_config \<Rightarrow> turn list \<Rightarrow> dgus_st \<Rightarrow>
    (bool \<times> turn list \<times> dgus_st) option" where
  "app_lcd_ensure_run_page cfg = confirm_page DGUS_PAGE_CONFIRM_RETRIES (app_lcd_run_page cfg)"

text \<open>
  \<open>app_init\<close>, without the lines it prints on the monitor port. The clock read of the page change
  inside \<open>app_lcd_init_mode\<close> takes a turn of its own.
\<close>

definition boot_load :: "u32 \<Rightarrow> sys \<Rightarrow> sys" where
  "boot_load now s =
     (let (cfg_fail, cfg, i2c) = app_config_load (g_i2c s);
          s = s\<lparr>g_cfg := cfg, g_i2c := i2c\<rparr>;
          s = app_lcd_hook_set_pot (output_power cfg) s
      in app_lcd_init_mode now s)"

definition app_init :: "turn list \<Rightarrow> sys \<Rightarrow> (bool \<times> bool \<times> turn list \<times> sys) option" where
  "app_init ts s =
     (case dgus_wait_ready DGUS_BOOT_READY_TIMEOUT_MS ts (g_dgus s) of
        None \<Rightarrow> None
      | Some (lcd_up, ts, d) \<Rightarrow>
     (case sys_tick_delay_ms DGUS_LOGO_DWELL_MS ts (dgus_set_page LCD_LOGO d) of
        None \<Rightarrow> None
      | Some ([], d) \<Rightarrow> None
      | Some ((t, bs) # ts, d) \<Rightarrow>
     (let s = boot_load (of_nat t) (s\<lparr>g_dgus := rx_arrive bs d\<rparr>) in
      case app_lcd_ensure_run_page (g_cfg s) ts (g_dgus s) of
        None \<Rightarrow> None
      | Some (page_ok, ts, d) \<Rightarrow>
          Some (lcd_up, page_ok, ts,
            s\<lparr>g_dgus := d, g_lcd := (g_lcd s)\<lparr>ls_boot_complete := True\<rparr>\<rparr>))))"

section \<open>How long the handshake takes\<close>

text \<open>
  A clock that starts at \<open>m\<close> and is read at most \<open>G\<close> milliseconds after the read before, and the
  time of the last read.
\<close>

fun gaps :: "nat \<Rightarrow> nat \<Rightarrow> turn list \<Rightarrow> bool" where
  "gaps G m [] = True"
| "gaps G m ((t, bs) # ts) = (m \<le> t \<and> t \<le> m + G \<and> gaps G t ts)"

fun ends :: "nat \<Rightarrow> turn list \<Rightarrow> nat" where
  "ends m [] = m"
| "ends m ((t, bs) # ts) = ends t ts"

lemma elapsed_less:
  assumes "n \<le> m" "m - n < 2 ^ 32" "k < 2 ^ 32"
  shows "elapsed (of_nat m) (of_nat n) < of_nat k \<longleftrightarrow> m - n < k"
proof -
  have "elapsed (of_nat m) (of_nat n) = of_nat (m - n)"
    using assms(1) by (simp add: elapsed_def of_nat_diff)
  moreover have "unat (of_nat (m - n) :: u32) = m - n" "unat (of_nat k :: u32) = k"
    using assms(2,3) by (simp_all add: unat_of_nat)
  ultimately show ?thesis by (simp only: word_less_nat_alt)
qed

text \<open>What each loop promises: it returns, at most \<open>b\<close> milliseconds after the time \<open>n\<close>.\<close>

definition within :: "nat \<Rightarrow> nat \<Rightarrow> nat \<Rightarrow> turn list \<Rightarrow> nat \<Rightarrow> turn list \<Rightarrow> bool" where
  "within G m b ts m' ts' \<longleftrightarrow> gaps G m' ts' \<and> m \<le> m' \<and> m' \<le> m + b \<and> ends m' ts' = ends m ts"

lemma within_trans:
  "within G m b ts m1 ts1 \<Longrightarrow> within G m1 c ts1 m2 ts2 \<Longrightarrow> within G m (b + c) ts m2 ts2"
  by (simp add: within_def)

lemma within_turn: "gaps G m ((t, bs) # ts) \<Longrightarrow> within G m G ((t, bs) # ts) t ts"
  by (simp add: within_def)

lemma gaps_turn:
  assumes "gaps G m ts" "m < ends m ts"
  obtains t bs ts' where "ts = (t, bs) # ts'" "within G m G ts t ts'"
  using assms by (cases ts) (auto simp: within_def)

lemma delay_wait_returns:
  assumes "gaps G m ts" "n \<le> m" "m < n + tmo" "n + tmo \<le> ends m ts" "tmo + G < 2 ^ 32"
  shows "\<exists>ts' d' m'. delay_wait (of_nat n) (of_nat tmo) ts d = Some (ts', d') \<and>
    gaps G m' ts' \<and> n \<le> m' \<and> m' \<le> n + tmo + G \<and> ends m' ts' = ends m ts"
  using assms
proof (induction ts arbitrary: m d)
  case (Cons tb ts)
  obtain t bs where tb: "tb = (t, bs)" by (cases tb)
  have t: "m \<le> t" "t \<le> m + G" "gaps G t ts" using Cons.prems(1) by (simp_all add: tb)
  have le: "elapsed (of_nat t) (of_nat n) < of_nat tmo \<longleftrightarrow> t - n < tmo"
    using t Cons.prems by (intro elapsed_less) auto
  show ?case
  proof (cases "t - n < tmo")
    case True
    have "t < n + tmo" using True t(1) Cons.prems(2) by arith
    with Cons.IH [of t "rx_arrive bs d"] t Cons.prems le True show ?thesis
      by (auto simp: tb Let_def)
  next
    case False
    then show ?thesis using t Cons.prems le by (auto simp: tb Let_def)
  qed
qed simp

lemma wait_reply_returns:
  assumes "gaps G m ts" "n \<le> m" "m < n + tmo" "n + tmo \<le> ends m ts" "tmo + G < 2 ^ 32"
  shows "\<exists>w ts' d' m'. wait_reply addr (of_nat n) (of_nat tmo) ts d f = Some (w, ts', d') \<and>
    gaps G m' ts' \<and> n \<le> m' \<and> m' \<le> n + tmo + G \<and> ends m' ts' = ends m ts"
  using assms
proof (induction ts arbitrary: m d f)
  case (Cons tb ts)
  obtain t bs where tb: "tb = (t, bs)" by (cases tb)
  have t: "m \<le> t" "t \<le> m + G" "gaps G t ts" using Cons.prems(1) by (simp_all add: tb)
  have le: "elapsed (of_nat t) (of_nat n) < of_nat tmo \<longleftrightarrow> t - n < tmo"
    using t Cons.prems by (intro elapsed_less) auto
  show ?case
  proof (cases "t - n < tmo")
    case False
    then show ?thesis using t Cons.prems le by (auto simp: tb Let_def)
  next
    case True
    obtain r d1 f1 where r: "rx_reply (of_nat t) addr (rx_arrive bs d) f = (r, d1, f1)"
      by (rule prod_cases3)
    have "t < n + tmo" using True t(1) Cons.prems(2) by arith
    with Cons.IH [of t d1 f1] t Cons.prems le True r show ?thesis
      by (cases r) (auto simp: tb Let_def)
  qed
qed simp

lemma delay_returns:
  assumes "gaps G m ts" "m + ms + G \<le> ends m ts" "0 < ms" "ms + G < 2 ^ 32"
  shows "\<exists>ts' d' m'. sys_tick_delay_ms (of_nat ms) ts d = Some (ts', d') \<and>
    within G m (ms + 2 * G) ts m' ts'"
proof -
  obtain t bs ts1 where t: "ts = (t, bs) # ts1" "within G m G ts t ts1"
    using gaps_turn [OF assms(1)] assms(2,3) by (metis add_gr_0 less_add_same_cancel1 less_le_trans add.assoc)
  then show ?thesis
    using delay_wait_returns [of G t ts1 t ms "rx_arrive bs d"] assms
    by (fastforce simp: sys_tick_delay_ms_def within_def)
qed

lemma read_word_returns:
  assumes "gaps G m ts" "m + tmo + G \<le> ends m ts" "0 < tmo" "tmo + G < 2 ^ 32"
  shows "\<exists>w ts' d' m'. dgus_read_word addr (of_nat tmo) ts d = Some (w, ts', d') \<and>
    within G m (tmo + 2 * G) ts m' ts'"
proof -
  obtain t bs ts1 where t: "ts = (t, bs) # ts1" "within G m G ts t ts1"
    using gaps_turn [OF assms(1)] assms(2,3) by (metis add_gr_0 less_add_same_cancel1 less_le_trans add.assoc)
  obtain d1 f1 where d: "rx_discard (of_nat t) (rx_arrive bs d) dgus_frame_zero = (d1, f1)"
    by (rule prod.exhaust)
  show ?thesis
    using wait_reply_returns [of G t ts1 t tmo addr "dgus_read_var (ucast addr) d1" f1] t d assms
    by (fastforce simp: dgus_read_word_def within_def)
qed

lemma ready_loop_returns:
  assumes "gaps G m ts" "n \<le> m" "m < n + tmo" "n + tmo + 120 + 3 * G \<le> ends m ts"
    "tmo + 120 + 3 * G < 2 ^ 32"
  shows "\<exists>up ts' d' m'. ready_loop (of_nat n) (of_nat tmo) ts d = Some (up, ts', d') \<and>
    gaps G m' ts' \<and> n \<le> m' \<and> m' \<le> n + tmo + 120 + 3 * G \<and> ends m' ts' = ends m ts"
  using assms
proof (induction "length ts" arbitrary: ts m d rule: less_induct)
  case less
  obtain w ts1 d1 m1 where w: "dgus_read_word SYS_PIC_NOW 120 ts d = Some (w, ts1, d1)"
    "within G m (120 + 2 * G) ts m1 ts1"
    using read_word_returns [of G m ts 120 SYS_PIC_NOW d] less.prems by auto
  show ?case
  proof (cases w)
    case (Some pg)
    then show ?thesis
      using w less.prems by (auto simp: ready_loop.simps [of _ _ ts] within_def)
  next
    case None
    have "gaps G m1 ts1" "m1 < ends m1 ts1" using w(2) less.prems by (simp_all add: within_def)
    then obtain t bs ts2 where t: "ts1 = (t, bs) # ts2" "within G m1 G ts1 t ts2"
      by (rule gaps_turn)
    have le: "elapsed (of_nat t) (of_nat n) < of_nat tmo \<longleftrightarrow> t - n < tmo"
      using t(2) w(2) less.prems by (intro elapsed_less) (auto simp: within_def)
    have step: "ready_loop (of_nat n) (of_nat tmo) ts d =
        (if t - n < tmo then ready_loop (of_nat n) (of_nat tmo) ts2 (rx_arrive bs d1)
         else Some (False, ts2, rx_arrive bs d1))"
      by (simp add: ready_loop.simps [of _ _ ts] w(1) None t(1) Let_def le)
    have b: "gaps G t ts2" "n \<le> t" "t \<le> n + tmo + 120 + 3 * G" "ends t ts2 = ends m ts"
      using t(2) w(2) less.prems by (auto simp: within_def)
    show ?thesis
    proof (cases "t - n < tmo")
      case False
      then show ?thesis using step b by auto
    next
      case True
      have "length ts2 < length ts" using read_word_length [OF w(1)] t(1) by simp
      moreover have "t < n + tmo" using True b(2) by arith
      ultimately show ?thesis
        using less.hyps [of ts2 t "rx_arrive bs d1"] b less.prems(4,5) step True by simp
    qed
  qed
qed

lemma wait_ready_returns:
  assumes "gaps G m ts" "m + tmo + 120 + 4 * G \<le> ends m ts" "0 < tmo" "tmo + 120 + 3 * G < 2 ^ 32"
  shows "\<exists>up ts' d' m'. dgus_wait_ready (of_nat tmo) ts d = Some (up, ts', d') \<and>
    within G m (tmo + 120 + 4 * G) ts m' ts'"
proof -
  have "m < ends m ts" using assms(2,3) by simp
  then obtain t bs ts1 where t: "ts = (t, bs) # ts1" "within G m G ts t ts1"
    using gaps_turn [OF assms(1)] by blast
  show ?thesis
    using ready_loop_returns [of G t ts1 t tmo "rx_arrive bs d"] t assms
    by (fastforce simp: dgus_wait_ready_def within_def)
qed

lemma confirm_page_returns:
  assumes "gaps G m ts" "m + i * (270 + 4 * G) + 120 + 2 * G \<le> ends m ts" "150 + G < 2 ^ 32"
  shows "\<exists>ok ts' d' m'. confirm_page i p ts d = Some (ok, ts', d') \<and>
    within G m (i * (270 + 4 * G) + 120 + 2 * G) ts m' ts'"
  using assms(1,2)
proof (induction i arbitrary: m ts d)
  case 0
  then obtain w ts1 d1 m1 where "dgus_read_word SYS_PIC_NOW 120 ts d = Some (w, ts1, d1)"
    "within G m (120 + 2 * G) ts m1 ts1"
    using read_word_returns [of G m ts 120 SYS_PIC_NOW d] assms(3) by auto
  then show ?case by (cases w) auto
next
  case (Suc i)
  obtain w ts1 d1 m1 where w: "dgus_read_word SYS_PIC_NOW 120 ts d = Some (w, ts1, d1)"
    "within G m (120 + 2 * G) ts m1 ts1"
    using read_word_returns [of G m ts 120 SYS_PIC_NOW d] Suc.prems assms(3) by auto
  show ?case
  proof (cases "case w of Some w \<Rightarrow> ucast w = p | None \<Rightarrow> False")
    case True
    then show ?thesis using w by (auto simp: within_def)
  next
    case False
    obtain ts2 d2 m2 where d: "sys_tick_delay_ms 150 ts1 (dgus_set_page p d1) = Some (ts2, d2)"
      "within G m1 (150 + 2 * G) ts1 m2 ts2"
      using delay_returns [of G m1 ts1 150 "dgus_set_page p d1"] w(2) Suc.prems assms(3)
      by (auto simp: within_def)
    have "gaps G m2 ts2" "m2 + i * (270 + 4 * G) + 120 + 2 * G \<le> ends m2 ts2"
      using w(2) d(2) Suc.prems by (auto simp: within_def)
    from Suc.IH [OF this] obtain ok ts' d' m' where
      "confirm_page i p ts2 d2 = Some (ok, ts', d')"
      "within G m2 (i * (270 + 4 * G) + 120 + 2 * G) ts2 m' ts'" by blast
    then show ?thesis using w d False by (auto simp: within_def)
  qed
qed

lemma app_init_returns:
  assumes "gaps G m ts" "m + 7400 + 41 * G \<le> ends m ts" "5000 + 3 * G < 2 ^ 32"
  shows "\<exists>up ok ts' s' m'. app_init ts s = Some (up, ok, ts', s') \<and> within G m (7400 + 41 * G) ts m' ts'"
proof -
  obtain up ts1 d1 m1 where 1: "dgus_wait_ready 4000 ts (g_dgus s) = Some (up, ts1, d1)"
    "within G m (4120 + 4 * G) ts m1 ts1"
    using wait_ready_returns [of G m ts 4000 "g_dgus s"] assms by auto
  obtain ts2 d2 m2 where 2: "sys_tick_delay_ms 1000 ts1 (dgus_set_page LCD_LOGO d1) = Some (ts2, d2)"
    "within G m1 (1000 + 2 * G) ts1 m2 ts2"
    using delay_returns [of G m1 ts1 1000 "dgus_set_page LCD_LOGO d1"] 1(2) assms
    by (auto simp: within_def)
  have "gaps G m2 ts2" "m2 < ends m2 ts2" using 1(2) 2(2) assms(2) by (auto simp: within_def)
  then obtain t bs ts3 where 3: "ts2 = (t, bs) # ts3" "within G m2 G ts2 t ts3"
    by (rule gaps_turn)
  let ?s = "boot_load (of_nat t) (s\<lparr>g_dgus := rx_arrive bs d2\<rparr>)"
  have "gaps G t ts3" "t + 8 * (270 + 4 * G) + 120 + 2 * G \<le> ends t ts3"
    using 1(2) 2(2) 3(2) assms(2) by (auto simp: within_def)
  from confirm_page_returns [OF this] obtain ok ts4 d4 m4 where 4:
    "app_lcd_ensure_run_page (g_cfg ?s) ts3 (g_dgus ?s) = Some (ok, ts4, d4)"
    "within G t (8 * (270 + 4 * G) + 120 + 2 * G) ts3 m4 ts4"
    using assms(3) unfolding app_lcd_ensure_run_page_def by fastforce
  show ?thesis
    using 1 2 3 4 by (auto simp: app_init_def Let_def within_def)
qed

section \<open>What the handshake keeps\<close>

text \<open>The parser has room for what it expects and every frame sent is well formed.\<close>

definition link_ok :: "dgus_st \<Rightarrow> bool" where
  "link_ok d \<longleftrightarrow> parser_ok d \<and> wire_ok d"

lemma link_ok_send [simp]:
  "link_ok (dgus_set_page p d) = link_ok d" "link_ok (dgus_read_var v d) = link_ok d"
  using rx_part_fields(6) [of "dgus_set_page p d" d] rx_part_fields(6) [of "dgus_read_var v d" d]
  by (simp_all add: link_ok_def)

lemma link_ok_arrive [simp]: "link_ok (rx_arrive bs d) = link_ok d"
  by (simp add: link_ok_def rx_arrive_def parser_ok_def wire_ok_def)

lemma rx_drain_ok:
  "rx_drain now bs d out = (got, d', out') \<Longrightarrow> parser_ok d \<Longrightarrow> length (fr_data out) = 23 \<Longrightarrow>
   parser_ok d' \<and> length (fr_data out') = 23 \<and> dg_sent d' = dg_sent d"
proof (induction bs arbitrary: d out)
  case Nil
  then show ?case by (auto simp: parser_ok_def)
next
  case (Cons b bs)
  obtain g d1 out1 where 1: "parser_step now b d out = (g, d1, out1)" by (rule prod_cases3)
  have ok: "parser_ok d1 \<and> length (fr_data out1) = 23 \<and> dg_sent d1 = dg_sent d"
    using parser_step_ok [OF "Cons.prems"(2,3) 1] by simp
  have ring: "parser_ok (d1\<lparr>dg_rx_ring := bs\<rparr>) = parser_ok d1" by (simp add: parser_ok_def)
  show ?case
  proof (cases g)
    case True
    then show ?thesis using "Cons.prems"(1) 1 ok ring by auto
  next
    case False
    then have "rx_drain now bs d1 out1 = (got, d', out')" using "Cons.prems"(1) 1 by simp
    from Cons.IH [OF this] ok show ?thesis by simp
  qed
qed

lemma rx_poll_ok:
  "dgus_rx_poll now d out = (got, d', out') \<Longrightarrow> link_ok d \<Longrightarrow> length (fr_data out) = 23 \<Longrightarrow>
   link_ok d' \<and> length (fr_data out') = 23"
  using rx_drain_ok [of now "dg_rx_ring d" d out got d' out']
  by (auto simp: dgus_rx_poll_def link_ok_def wire_ok_def)

lemma rx_discard_ok:
  "link_ok d \<Longrightarrow> length (fr_data out) = 23 \<Longrightarrow> link_ok (fst (rx_discard now d out)) \<and>
   length (fr_data (snd (rx_discard now d out))) = 23"
proof (induction now d out rule: rx_discard.induct)
  case (1 now d out)
  obtain got d1 f1 where p: "dgus_rx_poll now d out = (got, d1, f1)" by (rule prod_cases3)
  from rx_poll_ok [OF p "1.prems"] "1.IH" [OF p [symmetric] refl] show ?case
    by (simp add: rx_discard.simps [of now d] p)
qed

lemma rx_reply_ok:
  "link_ok d \<Longrightarrow> length (fr_data out) = 23 \<Longrightarrow> rx_reply now addr d out = (w, d', f') \<Longrightarrow>
   link_ok d' \<and> length (fr_data f') = 23"
proof (induction now addr d out rule: rx_reply.induct)
  case (1 now addr d out)
  obtain got d1 f1 where p: "dgus_rx_poll now d out = (got, d1, f1)" by (rule prod_cases3)
  from rx_poll_ok [OF p "1.prems"(1,2)] "1.IH" [OF p [symmetric] refl] "1.prems"(3) show ?case
    by (auto simp: rx_reply.simps [of now addr d] p Let_def split: if_splits)
qed

lemma delay_wait_ok: "delay_wait t0 ms ts d = Some (ts', d') \<Longrightarrow> link_ok d \<Longrightarrow> link_ok d'"
  by (induction t0 ms ts d rule: delay_wait.induct) (auto simp: Let_def split: if_splits)

lemma delay_ok: "link_ok d \<Longrightarrow> sys_tick_delay_ms ms ts d = Some (ts', d') \<Longrightarrow> link_ok d'"
  by (auto simp: sys_tick_delay_ms_def split: list.splits dest: delay_wait_ok)

lemma wait_reply_ok:
  "link_ok d \<Longrightarrow> length (fr_data f) = 23 \<Longrightarrow> wait_reply addr t0 tmo ts d f = Some (w, ts', d') \<Longrightarrow> link_ok d'"
proof (induction ts arbitrary: d f)
  case (Cons tb ts)
  obtain t bs where tb: "tb = (t, bs)" by (cases tb)
  obtain r d1 f1 where r: "rx_reply (of_nat t) addr (rx_arrive bs d) f = (r, d1, f1)"
    by (rule prod_cases3)
  have "link_ok d1 \<and> length (fr_data f1) = 23"
    using rx_reply_ok [OF _ _ r] Cons.prems(1,2) by simp
  then show ?case
    using Cons.prems Cons.IH [of d1 f1] r by (cases r) (auto simp: tb Let_def split: if_splits)
qed simp

lemma read_word_ok: "link_ok d \<Longrightarrow> dgus_read_word addr tmo ts d = Some (w, ts', d') \<Longrightarrow> link_ok d'"
  using rx_discard_ok [of "rx_arrive bs d" dgus_frame_zero for bs]
  by (auto simp: dgus_read_word_def Let_def case_prod_unfold dgus_frame_zero_def split: list.splits
      intro: wait_reply_ok [rotated 2])

lemma ready_loop_ok: "link_ok d \<Longrightarrow> ready_loop t0 tmo ts d = Some (up, ts', d') \<Longrightarrow> link_ok d'"
proof (induction t0 tmo ts d rule: ready_loop.induct)
  case (1 t0 tmo ts d)
  show ?case
  proof (cases "dgus_read_word SYS_PIC_NOW 120 ts d")
    case None
    then show ?thesis using "1.prems"(2) by (simp add: ready_loop.simps [of _ _ ts])
  next
    case (Some r)
    obtain w ts1 d1 where r: "r = (w, ts1, d1)" by (rule prod_cases3)
    have ok: "link_ok d1" using read_word_ok [OF "1.prems"(1) Some [unfolded r]] .
    show ?thesis
      using "1.prems"(2) ok "1.IH" Some r
      by (cases w; cases ts1)
        (auto simp: ready_loop.simps [of _ _ ts] Let_def split: if_splits prod.splits)
  qed
qed

lemma wait_ready_ok: "link_ok d \<Longrightarrow> dgus_wait_ready tmo ts d = Some (up, ts', d') \<Longrightarrow> link_ok d'"
  by (auto simp: dgus_wait_ready_def split: list.splits intro: ready_loop_ok [rotated])

lemma confirm_page_ok: "link_ok d \<Longrightarrow> confirm_page i p ts d = Some (ok, ts', d') \<Longrightarrow> link_ok d'"
proof (induction i arbitrary: ts d)
  case 0
  then show ?case by (auto split: option.splits intro: read_word_ok)
next
  case (Suc i)
  obtain w ts1 d1 where w: "dgus_read_word SYS_PIC_NOW 120 ts d = Some (w, ts1, d1)"
    using Suc.prems(2) by (auto split: option.splits)
  have ok: "link_ok d1" using read_word_ok [OF Suc.prems(1) w] .
  then have page: "link_ok (dgus_set_page p d1)" by simp
  show ?case
  proof (cases "case w of Some w \<Rightarrow> ucast w = p | None \<Rightarrow> False")
    case True
    then show ?thesis using Suc.prems(2) w ok by simp
  next
    case False
    then obtain ts2 d2 where d: "sys_tick_delay_ms 150 ts1 (dgus_set_page p d1) = Some (ts2, d2)"
      "confirm_page i p ts2 d2 = Some (ok, ts', d')"
      using Suc.prems(2) w by (auto split: option.splits)
    show ?thesis using Suc.IH [OF delay_ok [OF page d(1)] d(2)] .
  qed
qed

section \<open>A reply is taken\<close>

lemma parser_step_ring:
  "parser_step t b (d\<lparr>dg_rx_ring := r\<rparr>) out =
     (fst (parser_step t b d out), (fst (snd (parser_step t b d out)))\<lparr>dg_rx_ring := r\<rparr>,
      snd (snd (parser_step t b d out)))"
  by (simp add: parser_step_def ps_collect_def ps_complete_def Let_def split: parse_state.split)

lemma feed_ring:
  "feed bs (d\<lparr>dg_rx_ring := r\<rparr>) out =
     (fst (feed bs d out), (fst (snd (feed bs d out)))\<lparr>dg_rx_ring := r\<rparr>, snd (snd (feed bs d out)))"
  by (induction bs arbitrary: d out) (auto simp: parser_step_ring Let_def case_prod_unfold)

lemma drain_none:
  "feed (map (Pair now) bs) d out = ([], d1, f1) \<Longrightarrow>
   rx_drain now bs (d\<lparr>dg_rx_ring := r\<rparr>) out = (False, d1\<lparr>dg_rx_ring := []\<rparr>, f1)"
proof (induction bs arbitrary: d out)
  case (Cons b bs)
  obtain g d2 f2 where p: "parser_step now b d out = (g, d2, f2)" by (rule prod_cases3)
  have "\<not> g" "feed (map (Pair now) bs) d2 f2 = ([], d1, f1)"
    using Cons.prems by (auto simp: p Let_def split: if_splits prod.splits)
  with Cons.IH [of d2 f2] show ?case by (simp add: parser_step_ring p)
qed simp

lemma drain_some:
  "feed (map (Pair now) bs) d out = (f # fs, d1, f1) \<Longrightarrow>
   \<exists>d2. rx_drain now bs (d\<lparr>dg_rx_ring := r\<rparr>) out = (True, d2, f)"
proof (induction bs arbitrary: d out fs)
  case (Cons b bs)
  obtain g d2 f2 where p: "parser_step now b d out = (g, d2, f2)" by (rule prod_cases3)
  show ?case
  proof (cases g)
    case True
    then have "f2 = f" using Cons.prems by (auto simp: p Let_def split: prod.splits)
    with True show ?thesis by (simp add: parser_step_ring p)
  next
    case False
    then have "feed (map (Pair now) bs) d2 f2 = (f # fs, d1, f1)"
      using Cons.prems by (auto simp: p Let_def split: prod.splits)
    with Cons.IH [of d2 f2 fs] False show ?thesis by (simp add: parser_step_ring p)
  qed
qed simp

definition timed :: "turn list \<Rightarrow> (u32 \<times> u8) list" where
  "timed ts = concat (map (\<lambda>(t, bs). map (Pair (of_nat t)) bs) ts)"

lemma wait_reply_takes:
  assumes "fst (feed (timed ts) d f0) = f # fs" "dg_rx_ring d = []"
    and "list_all (\<lambda>(t, bs). elapsed (of_nat t) t0 < tmo) ts"
    and "fr_cmd f = DGUS_CMD_RD" "fr_vp_addr f = addr" "3 \<le> fr_data_len f"
  shows "\<exists>ts' d'. wait_reply addr t0 tmo (ts @ rest) d f0 =
    Some (Some (be16 (fr_data f ! 1) (fr_data f ! 2)), ts', d')"
  using assms(1-3)
proof (induction ts arbitrary: d f0)
  case (Cons tb ts)
  obtain t bs where tb: "tb = (t, bs)" by (cases tb)
  let ?now = "of_nat t :: u32"
  obtain gs d1 f1 where g: "feed (map (Pair ?now) bs) d f0 = (gs, d1, f1)" by (rule prod_cases3)
  have all: "gs @ fst (feed (timed ts) d1 f1) = f # fs"
    using Cons.prems(1) by (simp add: tb timed_def feed_append g Let_def case_prod_unfold)
  have poll: "dgus_rx_poll ?now (rx_arrive bs d) f0 = rx_drain ?now bs (d\<lparr>dg_rx_ring := bs\<rparr>) f0"
    using Cons.prems(2) by (simp add: dgus_rx_poll_def rx_arrive_def)
  have time: "elapsed ?now t0 < tmo" using Cons.prems(3) by (simp add: tb)
  show ?case
  proof (cases gs)
    case Nil
    have "rx_reply ?now addr (rx_arrive bs d) f0 = (None, d1\<lparr>dg_rx_ring := []\<rparr>, f1)"
      using drain_none [of ?now bs d f0 d1 f1 bs] g
      by (simp add: rx_reply.simps [of ?now addr "rx_arrive bs d"] poll Nil)
    moreover have "fst (feed (timed ts) (d1\<lparr>dg_rx_ring := []\<rparr>) f1) = f # fs"
      using all Nil by (simp add: feed_ring)
    then have "\<exists>ts' d'. wait_reply addr t0 tmo (ts @ rest) (d1\<lparr>dg_rx_ring := []\<rparr>) f1 =
      Some (Some (be16 (fr_data f ! 1) (fr_data f ! 2)), ts', d')"
      using Cons.IH [of "d1\<lparr>dg_rx_ring := []\<rparr>" f1] Cons.prems(3) by (simp add: tb)
    ultimately show ?thesis using time by (simp add: tb Let_def)
  next
    case (Cons x xs)
    then have "feed (map (Pair ?now) bs) d f0 = (f # xs, d1, f1)" using all g by simp
    then obtain d2 where "rx_drain ?now bs (d\<lparr>dg_rx_ring := bs\<rparr>) f0 = (True, d2, f)"
      using drain_some by blast
    then have "rx_reply ?now addr (rx_arrive bs d) f0 = (Some (be16 (fr_data f ! 1) (fr_data f ! 2)), d2, f)"
      using assms(4-6) by (simp add: rx_reply.simps [of ?now addr "rx_arrive bs d"] poll)
    then show ?thesis using time by (simp add: tb Let_def)
  qed
qed (simp add: timed_def)

lemma discard_idle:
  "dg_rx_ring d = [] \<Longrightarrow> rx_discard now d out = (d\<lparr>dg_rx_ring := []\<rparr>, out)"
  by (simp add: rx_discard.simps [of now d] dgus_rx_poll_def)

lemma timed_snd: "map snd (timed ts) = concat (map snd ts)"
  by (induction ts) (auto simp: timed_def comp_def)

lemma zip_timed: "zip (map fst (timed ts)) (concat (map snd ts)) = timed ts"
  unfolding timed_snd [symmetric] by (rule zip_map_fst_snd)

lemma app_init_ok:
  assumes "app_init ts s = Some (up, page_ok, ts', s')"
    and "link_ok (g_dgus s)" "disp_ok (g_disp s)" "shadows_ok (g_lcd s)"
  shows "panel_inv s' \<and> parser_ok (g_dgus s') \<and> ls_boot_complete (g_lcd s') \<and>
    g_cfg s' = fst (snd (app_config_load (g_i2c s))) \<and> g_reg s' = g_reg s \<and> g_out s' = g_out s"
proof -
  obtain ts1 d1 ts2 d2 t bs ts3 d4 where i:
    "dgus_wait_ready 4000 ts (g_dgus s) = Some (up, ts1, d1)"
    "sys_tick_delay_ms 1000 ts1 (dgus_set_page LCD_LOGO d1) = Some (ts2, d2)" "ts2 = (t, bs) # ts3"
    "let s1 = boot_load (of_nat t) (s\<lparr>g_dgus := rx_arrive bs d2\<rparr>)
     in app_lcd_ensure_run_page (g_cfg s1) ts3 (g_dgus s1) = Some (page_ok, ts', d4) \<and>
        s' = s1\<lparr>g_dgus := d4, g_lcd := (g_lcd s1)\<lparr>ls_boot_complete := True\<rparr>\<rparr>"
    using assms(1) by (auto simp: app_init_def Let_def split: option.splits list.splits)
  define s0 where "s0 = s\<lparr>g_dgus := rx_arrive bs d2, g_cfg := fst (snd (app_config_load (g_i2c s))),
    g_i2c := i2c_pot_set_dac (pot_dac_from_power (output_power (fst (snd (app_config_load (g_i2c s))))))
      (snd (snd (app_config_load (g_i2c s))))\<rparr>"
  define s1 where "s1 = app_lcd_init_mode (of_nat t) s0"
  have load: "boot_load (of_nat t) (s\<lparr>g_dgus := rx_arrive bs d2\<rparr>) = s1"
    by (simp add: boot_load_def s0_def s1_def app_lcd_hook_set_pot_def Let_def case_prod_unfold comp_def)
  have "link_ok d1" using wait_ready_ok [OF assms(2) i(1)] .
  then have "link_ok d2" using delay_ok [OF _ i(2)] by simp
  then have "panel_inv s0" "parser_ok (g_dgus s0)"
    using assms(3,4) load_cfg_ok [of "g_i2c s"] link_ok_arrive [of bs d2]
    by (simp_all add: panel_inv_def s0_def link_ok_def)
  moreover have "rx_part (g_dgus s1) = rx_part (g_dgus s0)"
    unfolding s1_def by (simp add: rx_side.init_mode)
  ultimately have s1: "panel_inv s1" "link_ok (g_dgus s1)"
    using panel_init_mode [of s0 "of_nat t"] rx_part_fields(6) [of "g_dgus s1" "g_dgus s0"]
    by (simp_all add: s1_def link_ok_def panel_inv_def)
  have i4: "confirm_page 8 (app_lcd_run_page (g_cfg s1)) ts3 (g_dgus s1) = Some (page_ok, ts', d4)"
    "s' = s1\<lparr>g_dgus := d4, g_lcd := (g_lcd s1)\<lparr>ls_boot_complete := True\<rparr>\<rparr>"
    using i(4) by (simp_all add: load Let_def app_lcd_ensure_run_page_def)
  have "link_ok d4" using confirm_page_ok [OF s1(2) i4(1)] .
  moreover have "g_cfg s1 = fst (snd (app_config_load (g_i2c s)))" "g_reg s1 = g_reg s" "g_out s1 = g_out s"
    by (simp_all add: s1_def s0_def)
  ultimately show ?thesis using s1(1) by (simp add: i4(2) panel_inv_def link_ok_def)
qed

text \<open>A counter read every 100 ms, with nothing received.\<close>

lemma idle_reads:
  "gaps 100 (a * 100) (map (\<lambda>k. (k * 100, [])) [Suc a ..< n]) \<and>
   (a < n \<longrightarrow> ends (a * 100) (map (\<lambda>k. (k * 100, [])) [Suc a ..< n]) = (n - 1) * 100)"
proof (induction "n - a" arbitrary: a)
  case (Suc x)
  show ?case
  proof (cases "Suc a < n")
    case True
    then show ?thesis using Suc.hyps(1) [of "Suc a"] Suc.hyps(2) by (simp add: upt_conv_Cons)
  next
    case False
    then have "n = Suc a" using Suc.hyps(2) by arith
    then show ?thesis by simp
  qed
qed simp

lemma zero_link:
  "link_ok (g_dgus (sys_zero md))" "disp_ok (g_disp (sys_zero md))" "shadows_ok (g_lcd (sys_zero md))"
  by (simp_all add: link_ok_def parser_ok_def wire_ok_def sys_zero_def dgus_st_zero_def disp_ok_def
      disp_st_zero_def shadows_ok_def lcd_app_state_zero_def)

section \<open>Properties\<close>

text \<open>
  C9: The boot handshake always returns, and it leaves a panel in order. Whatever bytes arrive,
  and whether or not the panel answers at all, if the counter is read at least every \<open>G\<close>
  milliseconds then \<open>app_init\<close> returns within 7400 + 41 G milliseconds; from a panel link and a
  display state in range it leaves every panel index in range, every frame sent well formed and
  the parser inside its buffer, with the configuration that was loaded, and marks the boot
  complete.
\<close>

theorem boot_always_completes:
  assumes "gaps G m ts" "m + 7400 + 41 * G \<le> ends m ts" "5000 + 3 * G < 2 ^ 32"
    and "link_ok (g_dgus s)" "disp_ok (g_disp s)" "shadows_ok (g_lcd s)"
  shows "\<exists>up page_ok ts' s' m'. app_init ts s = Some (up, page_ok, ts', s') \<and>
    m' \<le> m + 7400 + 41 * G \<and> gaps G m' ts' \<and> panel_inv s' \<and> parser_ok (g_dgus s') \<and>
    ls_boot_complete (g_lcd s') \<and> g_cfg s' = fst (snd (app_config_load (g_i2c s)))"
proof -
  obtain up page_ok ts' s' m' where r: "app_init ts s = Some (up, page_ok, ts', s')"
    "within G m (7400 + 41 * G) ts m' ts'" using app_init_returns [OF assms(1-3)] by blast
  have "m' \<le> m + 7400 + 41 * G" "gaps G m' ts'" using r(2) by (simp_all add: within_def)
  then show ?thesis using r(1) app_init_ok [OF r(1) assms(4-6)] by blast
qed

text \<open>
  An answer that arrives in time is the answer that is read. On an idle parser with an empty
  ring, when the bytes of one reply to the address asked arrive before the time-out, in any
  number of pieces, the last no more than 50 ms after the second, \<open>dgus_read_word\<close> returns the
  word of the reply, in the turn that completes it.
\<close>

theorem boot_read_takes_reply:
  assumes "dg_parse_state d = PS_IDLE" "length (dg_frame_buf d) = 32" "dg_rx_ring d = []"
    and "concat (map snd ts) = frame_bytes DGUS_CMD_RD addr [1, hi, lo]"
    and "frame_times_ok (map fst (timed ts)) (frame_bytes DGUS_CMD_RD addr [1, hi, lo])"
    and "list_all (\<lambda>(t, bs). elapsed (of_nat t) (of_nat t0) < tmo) ts"
  shows "\<exists>ts' d'. dgus_read_word addr tmo ((t0, []) # ts @ rest) d = Some (Some (be16 hi lo), ts', d')"
proof -
  let ?d = "dgus_read_var (ucast addr) (d\<lparr>dg_rx_ring := []\<rparr>)"
  have d: "dg_parse_state ?d = PS_IDLE" "length (dg_frame_buf ?d) = 32" "dg_rx_ring ?d = []"
    using assms(1,2) by (simp_all add: dgus_read_var_def)
  obtain d' f where f: "feed (timed ts) ?d dgus_frame_zero = ([f], d', f)" "fr_cmd f = DGUS_CMD_RD"
    "fr_vp_addr f = addr" "unat (fr_data_len f) = 3" "fr_data f = [1, hi, lo] @ drop 3 (fr_data dgus_frame_zero)"
    using feed_frame [OF d(1,2), of dgus_frame_zero "[1, hi, lo]" "map fst (timed ts)" DGUS_CMD_RD addr]
      assms(4,5) zip_timed [of ts] by (auto simp: dgus_frame_zero_def)
  have "rx_discard (of_nat t0) (rx_arrive [] d) dgus_frame_zero = (d\<lparr>dg_rx_ring := []\<rparr>, dgus_frame_zero)"
    using assms(3) by (simp add: discard_idle rx_arrive_def)
  moreover have "\<exists>ts' d'. wait_reply addr (of_nat t0) tmo (ts @ rest) ?d dgus_frame_zero =
      Some (Some (be16 (fr_data f ! 1) (fr_data f ! 2)), ts', d')"
    using wait_reply_takes [of ts ?d dgus_frame_zero f "[]" "of_nat t0" tmo addr rest] f(1-4) d(3) assms(6)
    by (simp add: word_le_nat_alt)
  ultimately show ?thesis using f(5) by (simp add: dgus_read_word_def)
qed

theorem boot_always_completes_witness:
  "\<exists>up page_ok ts' s' m'. app_init (map (\<lambda>k. (k * 100, [])) [1 ..< 200]) (sys_zero MODEL_STD) =
       Some (up, page_ok, ts', s') \<and> m' \<le> (11500 :: nat) \<and> panel_inv s'"
proof -
  note boot_always_completes [of 100 0 "map (\<lambda>k. (k * 100, [])) [1 ..< 200]", OF _ _ _ zero_link [of MODEL_STD]]
  then obtain up page_ok ts' s' m' where "app_init (map (\<lambda>k. (k * 100, [])) [1 ..< 200]) (sys_zero MODEL_STD) =
      Some (up, page_ok, ts', s')" "m' \<le> (11500 :: nat)" "panel_inv s'"
    using idle_reads [of 0 200] by auto
  then show ?thesis by blast
qed

theorem boot_read_takes_reply_witness:
  "\<exists>ts' d'. dgus_read_word SYS_PIC_NOW 120
     ((5, []) # [(6, [0x5A, 0xA5, 0x06, 0x83]), (9, [0x00, 0x14, 1]), (40, [0, 7])] @ []) dgus_st_zero =
     Some (Some 7, ts', d')"
proof -
  have "be16 0 7 = 7" by (simp add: be16_def)
  then show ?thesis
    using boot_read_takes_reply [of dgus_st_zero
        "[(6, [0x5A, 0xA5, 0x06, 0x83]), (9, [0x00, 0x14, 1]), (40, [0, 7])]" SYS_PIC_NOW 0 7 5 120 "[]"]
    by (simp add: dgus_st_zero_def frame_bytes_def timed_def frame_times_ok_def elapsed_def hi8_def lo8_def)
qed

end
