(* ===== verification/Plant.thy ===== *)
theory Plant
  imports Comm_Tick Lcd_Boot
begin

text \<open>
  The invariants of the single files taken together, and every operation of the superloop and of
  the panel against each of them.
\<close>

section \<open>The invariant of the plant\<close>

definition plant_ok :: "sys \<Rightarrow> bool" where
  "plant_ok s \<longleftrightarrow> reg_inv s \<and> weld_glue_ok s \<and> sr_lines_ok s \<and> ovld_ok s \<and> estop_ok s \<and> press_pin_ok s"

section \<open>The panel\<close>

interpretation reg_p: panel_client reg_inv
proof unfold_locales
  show "reg_inv s \<Longrightarrow> reg_inv (app_reg_command now cmd US_TOUCH s)" for s now cmd
    by (rule reg_inv_command) simp_all
qed (simp_all cong: reg_inv_same)

interpretation weld_p: panel_client weld_glue_ok
proof unfold_locales
  show "weld_glue_ok s \<Longrightarrow> weld_glue_ok (app_reg_command now cmd US_TOUCH s)" for s now cmd
    by (rule weld_ok_command) simp_all
qed (simp_all add: weld_glue_ok_def)

interpretation sr_p: panel_client sr_lines_ok
  by unfold_locales (simp_all add: sr_lines_ok_def)

interpretation ovld_p: panel_client ovld_ok
  by unfold_locales (simp_all add: ovld_ok_def)

interpretation estop_p: panel_client estop_ok
  using horn_set_mode_pin by unfold_locales (auto simp: estop_ok_def)

interpretation pin_p: panel_client press_pin_ok
proof unfold_locales
  show "press_pin_ok s \<Longrightarrow> press_pin_ok (app_horn_set_mode on s)" for s on
    using horn_set_mode_pin [of on s] by (auto simp: press_pin_ok_def)
qed (simp_all add: press_pin_ok_def)

interpretation plant_p: panel_client plant_ok
  by unfold_locales
    (simp_all add: plant_ok_def reg_p.ops weld_p.ops sr_p.ops ovld_p.ops estop_p.ops pin_p.ops
      reg_p.command weld_p.command sr_p.command ovld_p.command estop_p.command pin_p.command
      reg_p.horn weld_p.horn sr_p.horn ovld_p.horn estop_p.horn pin_p.horn)

interpretation comm_p: panel_client comm_inv
proof unfold_locales
  show "comm_inv s \<Longrightarrow> comm_inv (app_reg_command now cmd US_TOUCH s)" for s now cmd
    using comm_inv_same [of "app_reg_command now cmd US_TOUCH s" s] by simp
  show "comm_inv s \<Longrightarrow> comm_inv (app_horn_set_mode on s)" for s on
    using comm_inv_same [of "app_horn_set_mode on s" s] by simp
qed (rule comm_inv_same; simp)+

section \<open>The writes of the bus\<close>

interpretation plant_w: write_ops plant_ok
proof unfold_locales
  fix s :: sys and f1 on f3 f4 f f2 now cmd
  assume p: "plant_ok s"
  show "plant_ok (mb_stage f1 s)"
    using p by (simp add: plant_ok_def reg_w.stage weld_w.stage sr_w.stage ovld_w.stage estop_w.stage pin_w.stage)
  show "plant_ok (app_horn_set_mode on s)" using p by (rule plant_p.horn)
  show "plant_ok (g_dgus_update f3 s)"
    using p by (simp add: plant_ok_def weld_glue_ok_def sr_lines_ok_def ovld_ok_def estop_ok_def press_pin_ok_def)
  show "plant_ok (g_cfg_update f4 s)" using p by (simp add: plant_p.cfg)
  show "plant_ok (g_mb_update f s)"
    using p by (simp add: plant_ok_def reg_w.mb weld_w.mb sr_w.mb ovld_w.mb estop_w.mb pin_w.mb)
  show "plant_ok (app_reg_command now cmd US_COMM s)"
    using p by (simp add: plant_ok_def reg_w.command weld_w.command sr_w.command ovld_w.command
        estop_w.command pin_w.command)
  show "plant_ok (g_i2c_update f2 s)" using p by (simp add: plant_p.i2c)
  show "plant_ok (app_lcd_hook_ether_apply s)" using p by (simp add: plant_p.pages)
qed

interpretation rx_w: write_ops "\<lambda>s. rx_part (g_dgus s) = r"
  by unfold_locales (simp_all add: app_lcd_hook_ether_apply_def)

section \<open>The ticks\<close>

lemma out_only:
  assumes "g_reg t = g_reg s" "g_weld t = g_weld s" "g_sr t = g_sr s" "g_ovld t = g_ovld s"
    "g_input t = g_input s" "g_horn t = g_horn s"
    "out_usout (g_out t) = out_usout (g_out s)" "out_osc4 (g_out t) = out_osc4 (g_out s)"
    "out_sol_dn (g_out t) = out_sol_dn (g_out s)" "out_ovld_relay (g_out t) = out_ovld_relay (g_out s)"
    "out_reset (g_out t) = out_reset (g_out s)" "out_seek (g_out t) = out_seek (g_out s)"
  shows "plant_ok t = plant_ok s"
  using assms
  by (simp add: plant_ok_def reg_inv_same [of t s] weld_glue_ok_def sr_lines_ok_def ovld_ok_def
      estop_ok_def press_pin_ok_def)

lemma pin_weld_tick: "press_pin_ok s \<Longrightarrow> press_pin_ok (app_weld_tick e s)"
  using weld_tick_pin [of e s] by (auto simp: press_pin_ok_def)

lemma weld_drive_pins [simp]:
  "out_usout (g_out (weld_drive_sol v s)) = out_usout (g_out s)"
  "out_osc4 (g_out (weld_drive_sol v s)) = out_osc4 (g_out s)"
  "out_ovld_relay (g_out (weld_drive_sol v s)) = out_ovld_relay (g_out s)"
  "out_reset (g_out (weld_drive_sol v s)) = out_reset (g_out s)"
  "out_seek (g_out (weld_drive_sol v s)) = out_seek (g_out s)"
  by (simp_all add: weld_drive_sol_def app_weld_hook_sol_dn_def io_sol_dn_def)

lemma weld_tick_pins [simp]:
  "out_usout (g_out (app_weld_tick e s)) = out_usout (g_out s)"
  "out_osc4 (g_out (app_weld_tick e s)) = out_osc4 (g_out s)"
  "out_ovld_relay (g_out (app_weld_tick e s)) = out_ovld_relay (g_out s)"
  "out_reset (g_out (app_weld_tick e s)) = out_reset (g_out s)"
  "out_seek (g_out (app_weld_tick e s)) = out_seek (g_out s)"
  by (simp_all add: app_weld_tick_def weld_cycle_step_def weld_effects_def app_weld_hook_fault_def
      Let_def case_prod_unfold)

lemma plant_weld: "plant_ok s \<Longrightarrow> plant_ok (app_weld_tick e s)"
  by (simp add: plant_ok_def reg_inv_weld_tick weld_tick_ok estop_ok_weld_tick pin_weld_tick)
    (simp add: sr_lines_ok_def ovld_ok_def)

lemma plant_overload: "plant_ok s \<Longrightarrow> plant_ok (app_overload_tick e s)"
  by (simp add: plant_ok_def reg_inv_overload_tick weld_ok_overload_tick ovld_ok_tick)
    (simp add: sr_lines_ok_def estop_ok_def press_pin_ok_def)

lemma input_tick_pin:
  assumes "weld_glue_ok s" "out_sol_dn (g_out (app_input_tick e s))"
  shows "g_weld (app_input_tick e s) = g_weld s \<and> out_sol_dn (g_out s)"
proof -
  have up: "\<not> out_sol_dn (g_out (estop_enter (e_now e) (snd (input_scan e s))))"
    by (rule estop_enter_parks(1)) (use assms(1) in simp)
  show ?thesis
    using assms(2) up by (auto simp: input_tick_eq Let_def case_prod_unfold split: if_splits)
qed

lemma plant_input: "plant_ok s \<Longrightarrow> plant_ok (app_input_tick e s)"
  using input_tick_pin [of s e]
  by (simp add: plant_ok_def reg_inv_input_tick weld_ok_input_tick estop_ok_input_tick)
    (auto simp: sr_lines_ok_def ovld_ok_def press_pin_ok_def)

lemma plant_seek_reset: "plant_ok s \<Longrightarrow> plant_ok (app_seek_reset_tick e s)"
  by (simp add: plant_ok_def sr_lines_tick reg_inv_same [of "app_seek_reset_tick e s" s])
    (simp add: weld_glue_ok_def ovld_ok_def estop_ok_def press_pin_ok_def)

lemma plant_alarm: "plant_ok (app_fault_alarm_tick e s) = plant_ok s"
  by (rule out_only) simp_all

lemma reg_inv_stop_src: "reg_inv s \<Longrightarrow> reg_inv (reg_force_stop now src s)"
  by (auto simp: reg_inv_def reg_force_stop_def app_reg_command_def reg_cmd_release_def)

lemma horn_tick_parts:
  obtains u where "app_horn_tick e s = u \<or> app_horn_tick e s = reg_force_stop (e_now e) (app_reg_run_src u) u"
    "g_reg u = g_reg s" "g_weld u = g_weld s" "g_sr u = g_sr s" "g_ovld u = g_ovld s" "g_mb u = g_mb s"
    "g_input u = g_input s" "g_dgus u = g_dgus s" "g_cfg u = g_cfg s" "g_lcd u = g_lcd s" "g_disp u = g_disp s"
    "out_usout (g_out u) = out_usout (g_out s)" "out_osc4 (g_out u) = out_osc4 (g_out s)"
    "out_ovld_relay (g_out u) = out_ovld_relay (g_out s)" "out_reset (g_out u) = out_reset (g_out s)"
    "out_seek (g_out u) = out_seek (g_out s)"
    "out_sol_dn (g_out u) \<longrightarrow> hg_sol_last (g_horn u) \<noteq> 0 \<or>
       out_sol_dn (g_out s) \<and> hg_sol_last (g_horn u) = hg_sol_last (g_horn s)"
proof -
  define s1 where "s1 = s\<lparr>g_horn := (g_horn s)\<lparr>hg_prev_ms := e_now e\<rparr>\<rparr>"
  define fo where "fo = horn_fsm_step (horn_read e s1) (hg_fsm (g_horn s1))"
  define s2 where "s2 = s1\<lparr>g_horn := (g_horn s1)\<lparr>hg_fsm := fst fo\<rparr>\<rparr>"
  define u where "u = (if snd fo \<noteq> hg_sol_last (g_horn s2)
    then io_sol_dn (snd fo \<noteq> 0) (s2\<lparr>g_horn := (g_horn s2)\<lparr>hg_sol_last := snd fo\<rparr>\<rparr>) else s2)"
  have eq: "app_horn_tick e s = (if elapsed (e_now e) (hg_prev_ms (g_horn s)) < HORN_TICK_MS then s
      else if hg_mode (g_horn u) \<noteq> 0 then reg_force_stop (e_now e) (app_reg_run_src u) u else u)"
    unfolding app_horn_tick_def Let_def case_prod_unfold s1_def [symmetric] fo_def [symmetric]
      s2_def [symmetric] u_def [symmetric] ..
  show thesis
  proof (cases "elapsed (e_now e) (hg_prev_ms (g_horn s)) < HORN_TICK_MS")
    case True
    then show thesis using eq by (intro that [of s]) simp_all
  next
    case False
    then have "app_horn_tick e s = u \<or> app_horn_tick e s = reg_force_stop (e_now e) (app_reg_run_src u) u"
      using eq by simp
    then show thesis
      by (rule that) (simp_all add: u_def s2_def s1_def io_sol_dn_def)
  qed
qed

lemma plant_stop: "plant_ok s \<Longrightarrow> plant_ok (reg_force_stop now src s)"
  by (simp add: plant_ok_def reg_inv_stop_src)
    (auto simp: weld_glue_ok_def sr_lines_ok_def ovld_ok_def estop_ok_def press_pin_ok_def
      reg_force_stop_def command_run_status)

lemma plant_horn: "plant_ok s \<Longrightarrow> plant_ok (app_horn_tick e s)"
proof -
  assume p: "plant_ok s"
  obtain u where u: "app_horn_tick e s = u \<or> app_horn_tick e s = reg_force_stop (e_now e) (app_reg_run_src u) u"
    "g_reg u = g_reg s" "g_weld u = g_weld s" "g_sr u = g_sr s" "g_ovld u = g_ovld s"
    "g_input u = g_input s"
    "out_usout (g_out u) = out_usout (g_out s)" "out_osc4 (g_out u) = out_osc4 (g_out s)"
    "out_ovld_relay (g_out u) = out_ovld_relay (g_out s)" "out_reset (g_out u) = out_reset (g_out s)"
    "out_seek (g_out u) = out_seek (g_out s)"
    "out_sol_dn (g_out u) \<longrightarrow> hg_sol_last (g_horn u) \<noteq> 0 \<or>
       out_sol_dn (g_out s) \<and> hg_sol_last (g_horn u) = hg_sol_last (g_horn s)"
    by (rule horn_tick_parts [of e s])
  have same: "g_input (app_horn_tick e s) = g_input s" "g_weld (app_horn_tick e s) = g_weld s"
    "g_out (app_horn_tick e s) = g_out u"
    using u(1) by auto
  have "estop_ok u"
    using estop_ok_horn_tick [of s e] p same u(3,6) by (simp add: plant_ok_def estop_ok_def)
  moreover have "reg_inv u = reg_inv s" by (rule reg_inv_same) (simp_all add: u)
  moreover have "weld_glue_ok u = weld_glue_ok s" "sr_lines_ok u = sr_lines_ok s" "ovld_ok u = ovld_ok s"
    by (simp_all add: u weld_glue_ok_def sr_lines_ok_def ovld_ok_def)
  moreover have "press_pin_ok s \<Longrightarrow> press_pin_ok u"
    using u(12) by (auto simp: press_pin_ok_def u(3))
  ultimately have "plant_ok u" using p by (simp add: plant_ok_def)
  then show ?thesis using u(1) plant_stop by auto
qed

lemma plant_buzzer: "plant_ok (app_buzzer_tick e s) = plant_ok s"
  by (rule out_only) (simp_all add: app_buzzer_tick_def io_buzzer_def Let_def case_prod_unfold)

lemma terminate_only: "\<exists>r. reg_terminate now lim s = s\<lparr>g_reg := r\<rparr> \<and>
    rg_us_run_status r \<in> {US_IDLE, rg_us_run_status (g_reg s)}"
proof -
  define t where "t = s\<lparr>g_reg := reg_warm_up now ((g_reg s)\<lparr>rg_cal_val := rl_cal_val lim\<rparr>)\<rparr>"
  have t: "rg_us_run_status (g_reg t) = rg_us_run_status (g_reg s)"
    by (simp add: t_def reg_warm_up_def Let_def)
  have step: "\<exists>r. u' = s\<lparr>g_reg := r\<rparr> \<and> rg_us_run_status r \<in> {US_IDLE, rg_us_run_status (g_reg s)}"
    if "u = s\<lparr>g_reg := r0\<rparr>" "rg_us_run_status r0 \<in> {US_IDLE, rg_us_run_status (g_reg s)}"
      and "u' = u \<or> u' = reg_stop_run rs u \<or> u' = app_reg_raise_ovtime (reg_stop_run rs u)"
    for u u' r0 rs
    using that(3)
  proof (elim disjE)
    assume "u' = u"
    then show ?thesis using that(1,2) by blast
  next
    assume "u' = reg_stop_run rs u"
    then show ?thesis using that(1) by (intro exI [of _ "g_reg u'"]) (simp add: reg_stop_run_def Let_def)
  next
    assume "u' = app_reg_raise_ovtime (reg_stop_run rs u)"
    then show ?thesis
      using that(1) by (intro exI [of _ "g_reg u'"]) (simp add: app_reg_raise_ovtime_def reg_stop_run_def Let_def)
  qed
  have "\<exists>r. reg_check_safety_ceiling now t = s\<lparr>g_reg := r\<rparr> \<and> rg_us_run_status r \<in> {US_IDLE, rg_us_run_status (g_reg s)}"
    by (rule step [where u = t and ?r0.0 = "g_reg t" and rs = "rg_us_run_status (g_reg t)"])
      (use t in \<open>simp_all add: t_def reg_check_safety_ceiling_def Let_def\<close>)
  then obtain r1 where r1: "reg_check_safety_ceiling now t = s\<lparr>g_reg := r1\<rparr>"
    "rg_us_run_status r1 \<in> {US_IDLE, rg_us_run_status (g_reg s)}" by blast
  have "\<exists>r. reg_check_auto_terminate now lim (s\<lparr>g_reg := r1\<rparr>) = s\<lparr>g_reg := r\<rparr> \<and>
      rg_us_run_status r \<in> {US_IDLE, rg_us_run_status (g_reg s)}"
    by (rule step [OF refl r1(2), where rs = "rg_us_run_status r1"])
      (simp add: reg_check_auto_terminate_def Let_def split: reg_energy_outcome.split)
  then show ?thesis unfolding reg_terminate_def t_def [symmetric] r1(1) .
qed

lemma reg_tick_shape:
  "\<exists>r m fq o'. app_reg_tick e lim s = s\<lparr>g_reg := r, g_measure := m, g_freq := fq, g_out := o'\<rparr> \<and>
     out_sol_dn o' = out_sol_dn (g_out s) \<and> out_ovld_relay o' = out_ovld_relay (g_out s) \<and>
     out_reset o' = out_reset (g_out s) \<and> out_seek o' = out_seek (g_out s) \<and>
     out_buzzer o' = out_buzzer (g_out s)"
proof -
  obtain r1 where r1: "reg_terminate (e_now e) lim s = s\<lparr>g_reg := r1\<rparr>" using terminate_only by blast
  have "\<exists>r. reg_acquire_gate e (s\<lparr>g_reg := r1\<rparr>) = s\<lparr>g_reg := r\<rparr>"
    by (auto simp: reg_acquire_gate_def reg_acquire_step_def)
  then obtain r2 where r2: "reg_acquire_gate e (s\<lparr>g_reg := r1\<rparr>) = s\<lparr>g_reg := r2\<rparr>" by blast
  let ?t = "s\<lparr>g_reg := reg_select (r2\<lparr>rg_prev_ms := e_now e\<rparr>)\<rparr>"
  obtain r m fq where p: "reg_publish_measure (e_now e) (rl_freq_cal_val lim) ?t =
       (let on = (rg_us_run_status (g_reg ?t) \<noteq> US_IDLE) in
        if b2u on \<noteq> rg_us_out_on (g_reg ?t)
        then ?t\<lparr>g_reg := r\<lparr>rg_us_out_on := b2u on\<rparr>, g_measure := m, g_freq := fq,
               g_out := (g_out ?t)\<lparr>out_usout := on, out_osc4 := on\<rparr>\<rparr>
        else ?t\<lparr>g_reg := r, g_measure := m, g_freq := fq\<rparr>)"
    by (rule publish_effect)
  define u where "u = app_reg_tick e lim s"
  have "u = s\<lparr>g_reg := r2\<rparr> \<or> u = reg_publish_measure (e_now e) (rl_freq_cal_val lim) ?t"
    by (simp add: u_def tick_eq r1 r2 Let_def)
  then have "u = s\<lparr>g_reg := g_reg u, g_measure := g_measure u, g_freq := g_freq u, g_out := g_out u\<rparr> \<and>
     out_sol_dn (g_out u) = out_sol_dn (g_out s) \<and> out_ovld_relay (g_out u) = out_ovld_relay (g_out s) \<and>
     out_reset (g_out u) = out_reset (g_out s) \<and> out_seek (g_out u) = out_seek (g_out s) \<and>
     out_buzzer (g_out u) = out_buzzer (g_out s)"
    unfolding p Let_def by (auto split: if_splits)
  then show ?thesis unfolding u_def by blast
qed

lemma reg_tick_others2 [simp]:
  "g_cfg (app_reg_tick e lim s) = g_cfg s" "g_lcd (app_reg_tick e lim s) = g_lcd s"
  "g_disp (app_reg_tick e lim s) = g_disp s" "g_dgus (app_reg_tick e lim s) = g_dgus s"
  "g_i2c (app_reg_tick e lim s) = g_i2c s" "g_weld (app_reg_tick e lim s) = g_weld s"
  "g_mb (app_reg_tick e lim s) = g_mb s" "g_buzzer (app_reg_tick e lim s) = g_buzzer s"
  "g_alarm (app_reg_tick e lim s) = g_alarm s" "g_model (app_reg_tick e lim s) = g_model s"
  "out_sol_dn (g_out (app_reg_tick e lim s)) = out_sol_dn (g_out s)"
  "out_ovld_relay (g_out (app_reg_tick e lim s)) = out_ovld_relay (g_out s)"
  "out_reset (g_out (app_reg_tick e lim s)) = out_reset (g_out s)"
  "out_seek (g_out (app_reg_tick e lim s)) = out_seek (g_out s)"
  "out_buzzer (g_out (app_reg_tick e lim s)) = out_buzzer (g_out s)"
  using reg_tick_shape [of e lim s] by (elim exE conjE; simp)+

lemma reg_tick_run:
  "rg_us_run_status (g_reg (app_reg_tick e lim s)) \<in> {US_IDLE, rg_us_run_status (g_reg s)}"
  using terminate_only [of "e_now e" lim s] by (auto simp: tick_keeps)

lemma plant_reg:
  assumes "plant_ok s" "unat (e_adc_sens_out e) < 4096" "unat (e_adc_osc e) < 4096"
  shows "plant_ok (app_reg_tick e lim s)"
proof -
  have "reg_inv (app_reg_tick e lim s)" using assms reg_inv_tick by (simp add: plant_ok_def)
  moreover have "weld_glue_ok (app_reg_tick e lim s)"
    using assms(1) reg_tick_run [of e lim s] by (auto simp: plant_ok_def weld_glue_ok_def)
  ultimately show ?thesis
    using assms(1) by (simp add: plant_ok_def) (simp add: sr_lines_ok_def ovld_ok_def estop_ok_def press_pin_ok_def)
qed

section \<open>The panel and the bus over the ticks\<close>

lemma comm_same: "g_mb t = g_mb s \<Longrightarrow> comm_inv t = comm_inv s"
  by (rule comm_inv_same) simp_all

lemma buzzer_tick_keeps [simp]:
  "g_cfg (app_buzzer_tick e s) = g_cfg s" "g_lcd (app_buzzer_tick e s) = g_lcd s"
  "g_disp (app_buzzer_tick e s) = g_disp s" "g_dgus (app_buzzer_tick e s) = g_dgus s"
  "g_mb (app_buzzer_tick e s) = g_mb s" "g_reg (app_buzzer_tick e s) = g_reg s"
  "g_measure (app_buzzer_tick e s) = g_measure s" "g_input (app_buzzer_tick e s) = g_input s"
  by (simp_all add: app_buzzer_tick_def io_buzzer_def Let_def case_prod_unfold)

lemma horn_tick_disp [simp]: "g_disp (app_horn_tick e s) = g_disp s"
  by (rule horn_tick_parts [of e s]) auto

lemma comm_ticks:
  "comm_inv (app_weld_tick e s) = comm_inv s" "comm_inv (app_overload_tick e s) = comm_inv s"
  "comm_inv (app_input_tick e s) = comm_inv s" "comm_inv (app_horn_tick e s) = comm_inv s"
  "comm_inv (app_seek_reset_tick e s) = comm_inv s" "comm_inv (app_reg_tick e lim s) = comm_inv s"
  "comm_inv (app_fault_alarm_tick e s) = comm_inv s" "comm_inv (app_buzzer_tick e s) = comm_inv s"
  by (rule comm_same; simp)+

lemma panel_sr_effects: "panel_inv s \<Longrightarrow> panel_inv (sr_effects out s)"
  by (simp add: sr_effects_def sr_edge_def app_seek_reset_hook_signal_def pin_defs Let_def panel_events)
    (simp add: panel_inv_def app_lcd_icon_def)

lemma panel_ticks:
  "panel_inv s \<Longrightarrow> panel_inv (app_seek_reset_tick e s)"
  "panel_inv (app_horn_tick e s) = panel_inv s" "panel_inv (app_reg_tick e lim s) = panel_inv s"
  "panel_inv (app_fault_alarm_tick e s) = panel_inv s" "panel_inv (app_buzzer_tick e s) = panel_inv s"
proof -
  show "panel_inv (app_seek_reset_tick e s)" if "panel_inv s"
    using that panel_sr_effects [of "s\<lparr>g_sr := x\<rparr>" for x]
    by (simp add: app_seek_reset_tick_def panel_inv_def Let_def case_prod_unfold)
qed (simp_all add: panel_inv_def)

lemma rx_ticks [simp]:
  "rx_part (g_dgus (app_weld_tick e s)) = rx_part (g_dgus s)"
  "rx_part (g_dgus (app_overload_tick e s)) = rx_part (g_dgus s)"
  "rx_part (g_dgus (app_input_tick e s)) = rx_part (g_dgus s)"
  "rx_part (g_dgus (app_seek_reset_tick e s)) = rx_part (g_dgus s)"
proof -
  show "rx_part (g_dgus (app_overload_tick e s)) = rx_part (g_dgus s)"
    by (simp add: app_overload_tick_def ovld_assert_def ovld_hold_def ovld_deassert_def io_ovld_relay_def
        rx_side.events Let_def case_prod_unfold)
  show "rx_part (g_dgus (app_input_tick e s)) = rx_part (g_dgus s)"
    by (simp add: app_input_tick_def estop_enter_def io_sol_dn_def rx_side.events Let_def case_prod_unfold)
  show "rx_part (g_dgus (app_seek_reset_tick e s)) = rx_part (g_dgus s)"
    by (simp add: app_seek_reset_tick_def sr_effects_def sr_edge_def app_seek_reset_hook_signal_def pin_defs
        rx_side.events Let_def case_prod_unfold)
  have eff: "rx_part (g_dgus (weld_effects now out t)) = rx_part (g_dgus t)" for now out t
    by (simp add: weld_effects_def app_weld_hook_fault_def rx_side.events Let_def)
  have "rx_part (g_dgus (snd (weld_scan e t))) = rx_part (g_dgus t)" for t
    by (simp add: weld_scan_def weld_sensor_mirror_def weld_gate_start_def rx_side.pages Let_def case_prod_unfold)
  then have "rx_part (g_dgus (weld_cycle_step e t)) = rx_part (g_dgus t)" for t
    by (simp add: weld_cycle_step_def eff Let_def case_prod_unfold)
  then show "rx_part (g_dgus (app_weld_tick e s)) = rx_part (g_dgus s)"
    by (simp add: app_weld_tick_def Let_def)
qed

end
