(* ===== verification/App_Loop.thy ===== *)
theory App_Loop
  imports Plant
begin

text \<open>
  The superloop: \<open>app_loop_iter\<close> of \<open>fw/src/app.c\<close>, the initialisations of \<open>main\<close> that precede
  it, and the machine they make together with the interrupts. One iteration reads one state of
  the pins, the converters and the millisecond counter.
\<close>

section \<open>The drain of the panel ring\<close>

lemma dispatch_ring: "dg_rx_ring (g_dgus (app_lcd_input_dispatch now f s)) = dg_rx_ring (g_dgus s)"
  using rx_side.dispatch [of s "rx_part (g_dgus s)" now f] by (intro rx_part_fields(1)) simp

text \<open>The variable that receives the frames is the same through the loop.\<close>

function lcd_rx_loop :: "u32 \<Rightarrow> dgus_frame \<Rightarrow> sys \<Rightarrow> sys" where
  "lcd_rx_loop now f s =
     (let (got, d, f) = dgus_rx_poll now (g_dgus s) f; s = s\<lparr>g_dgus := d\<rparr>
      in if got
         then lcd_rx_loop now f (if dgus_is_echo f then s else app_lcd_input_dispatch now f s)
         else s)"
  by auto

termination
  by (relation "measure (\<lambda>(now, f, s). length (dg_rx_ring (g_dgus s)))")
    (auto simp: dispatch_ring dest: rx_poll_ring [OF sym])

declare lcd_rx_loop.simps [simp del]

section \<open>One iteration\<close>

definition run_limits :: "app_config \<Rightarrow> reg_run_limits" where
  "run_limits rc = \<lparr>rl_limit_on_time = limit_on_time rc, rl_energy_ctrl = b2u (energy_ctrl rc),
     rl_limit_energy = limit_energy rc, rl_limit_out_time = limit_out_time rc,
     rl_freq_cal_val = freq_cal_val rc, rl_model_type = model_type rc, rl_cal_val = cal_val rc\<rparr>"

text \<open>
  The part before the network, the network and the part after it. The once-a-second look at the
  error counter of the bus only prints a line and is left out.
\<close>

definition loop_front :: "env \<Rightarrow> sys \<Rightarrow> sys" where
  "loop_front e s =
     (let s = lcd_rx_loop (e_now e) dgus_frame_zero s;
          s = app_lcd_tick e s;
          s = app_weld_tick e s;
          s = app_overload_tick e s;
          s = app_input_tick e s;
          s = app_horn_tick e s;
          s = app_seek_reset_tick e s
      in app_reg_tick e (run_limits (g_cfg s)) s)"

definition loop_eth :: "io \<Rightarrow> node \<Rightarrow> node" where
  "loop_eth i n =
     (let (et, t, s) = app_eth_tick (e_now (io_env i)) (io_eth i) (nd_eth n, nd_tcp n, nd_sys n)
      in n\<lparr>nd_sys := s, nd_tcp := t, nd_eth := et\<rparr>)"

definition loop_back :: "env \<Rightarrow> sys \<Rightarrow> sys" where
  "loop_back e s = app_buzzer_tick e (app_fault_alarm_tick e s)"

definition app_loop_iter :: "io \<Rightarrow> node \<Rightarrow> node" where
  "app_loop_iter i n =
     (let n = n\<lparr>nd_sys := loop_front (io_env i) (nd_sys n)\<rparr>;
          n = loop_eth i n;
          n = app_modbus_tick i n
      in n\<lparr>nd_sys := loop_back (io_env i) (nd_sys n)\<rparr>)"

section \<open>Before the loop\<close>

text \<open>
  \<open>main\<close> after the handshake with the oscillator board, which has released its lines by then:
  the parser, the panel, then one initialisation per file, each with its own reading of the
  clock and the pins.
\<close>

definition main_inits :: "(nat \<Rightarrow> env) \<Rightarrow> sys \<Rightarrow> sys" where
  "main_inits e s =
     (let s = app_reg_init (e 0) s;
          s = app_weld_init (e 1) s;
          s = app_seek_reset_init (e 2) s;
          s = app_buzzer_init (e 3) s;
          s = app_fault_alarm_init (e 4) s;
          s = app_overload_init (e 5) s;
          s = app_input_init (e 6) s
      in app_horn_init (e 7) s)"

definition main_boot :: "(nat \<Rightarrow> env) \<Rightarrow> bool \<Rightarrow> turn list \<Rightarrow> sys \<Rightarrow> node option" where
  "main_boot e chip_answers ts s =
     (case app_init ts (g_dgus_update dgus_init s) of
        None \<Rightarrow> None
      | Some (lcd_up, page_ok, ts, s) \<Rightarrow>
          (let (p, s) = app_modbus_init (e 8) (rtu_port_zero, main_inits e s);
               (ok, et) = app_eth_init chip_answers eth_st_zero
           in Some \<lparr>nd_sys = s, nd_port = p, nd_tcp = tcp_st_zero, nd_eth = et\<rparr>))"

section \<open>The machine\<close>

text \<open>
  Between two iterations bytes arrive from the panel and on the serial line, the frequency input
  is captured, and the buses decide how their next transfers end. The converters deliver 12 bits
  and the socket never more than it was asked for.
\<close>

definition inputs_ok :: "io \<Rightarrow> bool" where
  "inputs_ok i \<longleftrightarrow> recv_bounded (io_sock i) \<and> unat (e_adc_sens_out (io_env i)) < 4096 \<and>
     unat (e_adc_osc (io_env i)) < 4096"

inductive machine_step :: "node \<Rightarrow> node \<Rightarrow> bool" where
  lcd_bytes: "machine_step n (n\<lparr>nd_sys := g_dgus_update (rx_arrive bs) (nd_sys n)\<rparr>)"
| line_byte: "machine_step n (n\<lparr>nd_port := dma_rx b (nd_port n)\<rparr>)"
| capture: "machine_step n (n\<lparr>nd_sys := g_freq_update (freq_fsm_on_capture c) (nd_sys n)\<rparr>)"
| i2c_bus: "machine_step n (n\<lparr>nd_sys := g_i2c_update (\<lambda>b. b\<lparr>ic_bus := fate\<rparr>) (nd_sys n)\<rparr>)"
| lcd_link: "machine_step n (n\<lparr>nd_sys := g_dgus_update (\<lambda>d. d\<lparr>dg_tx_timeouts := fates\<rparr>) (nd_sys n)\<rparr>)"
| iterate: "inputs_ok i \<Longrightarrow> machine_step n (app_loop_iter i n)"

inductive_cases machine_stepE: "machine_step n n'"

definition machine_boot :: "node \<Rightarrow> bool" where
  "machine_boot n \<longleftrightarrow> (\<exists>e answers ts md i. main_boot e answers ts ((sys_zero md)\<lparr>g_i2c := i\<rparr>) = Some n)"

section \<open>The emergency stop latch\<close>

text \<open>While the stop is latched no run is in progress: entering it ends the run, and no source can start one.\<close>

definition halt_ok :: "sys \<Rightarrow> bool" where
  "halt_ok s \<longleftrightarrow> (ig_estop_active (g_input s) \<noteq> 0 \<longrightarrow> rg_us_run_status (g_reg s) = US_IDLE)"

lemma start_refused:
  "ig_estop_active (g_input s) \<noteq> 0 \<Longrightarrow> rg_us_run_status (g_reg s) = US_IDLE \<Longrightarrow>
   rg_us_run_status (g_reg (app_reg_command now cmd src s)) = US_IDLE"
  by (cases cmd)
    (simp_all add: app_reg_command_def reg_cmd_start_def reg_cmd_release_def app_reg_start_allowed_def
      app_estop_active_def app_seek_reset_request_def)

lemma halt_command: "halt_ok s \<Longrightarrow> halt_ok (app_reg_command now cmd src s)"
  using start_refused [of s now cmd src] by (simp add: halt_ok_def)

interpretation halt_p: panel_client halt_ok
  by unfold_locales (simp_all add: halt_command, simp_all add: halt_ok_def)

interpretation halt_w: write_ops halt_ok
  by unfold_locales (simp_all add: halt_command halt_p.pages, simp_all add: halt_ok_def)

lemma halt_weld: "halt_ok s \<Longrightarrow> halt_ok (app_weld_tick e s)"
proof -
  assume s: "halt_ok s"
  have eff: "halt_ok (weld_effects now out t)" if "halt_ok t" for now out t
    using that start_refused [of "app_weld_hook_set_amp (wo_amplitude out) (weld_drive_sol (wo_sol_dn out) t)"]
    by (auto simp: halt_ok_def weld_effects_run)
  have "halt_ok (weld_cycle_step e t)" if "halt_ok t" for t
    unfolding weld_cycle_step_def Let_def case_prod_unfold
    by (rule eff) (use that in \<open>simp add: halt_ok_def\<close>)
  then have "halt_ok (weld_cycle_step e (weld_rearm e s))"
    using s by (simp add: halt_ok_def weld_rearm_def)
  then show ?thesis using s by (rule_tac weld_tick_cases) (simp_all add: halt_ok_def weld_rearm_def)
qed

lemma halt_stop: "halt_ok s \<Longrightarrow> halt_ok (stop_published now s)"
  by (simp add: stop_published_def reg_force_stop_def halt_command)

lemma halt_same: "g_reg t = g_reg s \<Longrightarrow> g_input t = g_input s \<Longrightarrow> halt_ok t = halt_ok s"
  by (simp add: halt_ok_def)

lemma halt_glue [simp]:
  "halt_ok (app_buzzer_beep_ms ms s) = halt_ok s" "halt_ok (io_ovld_relay on s) = halt_ok s"
  "halt_ok (io_sol_dn on s) = halt_ok s" "halt_ok (g_ovld_update f s) = halt_ok s"
  "halt_ok (app_lcd_set_overload on s) = halt_ok s" "halt_ok (app_seek_reset_request cmd src s) = halt_ok s"
  "halt_ok (app_fault_alarm_tick e s) = halt_ok s" "halt_ok (app_buzzer_tick e s) = halt_ok s"
  "halt_ok (app_seek_reset_tick e s) = halt_ok s"
  by (rule halt_same; simp add: pin_defs)+

lemma halt_overload: "halt_ok s \<Longrightarrow> halt_ok (app_overload_tick e s)"
  by (simp add: app_overload_tick_def ovld_assert_def ovld_hold_def ovld_deassert_def halt_stop
      Let_def case_prod_unfold)

lemma halt_input:
  assumes s: "halt_ok s" and w: "weld_glue_ok s" and "estop_ok s"
  shows "halt_ok (app_input_tick e s)"
proof -
  define ev where "ev = snd (input_fsm_step (input_read e s) (ig_fsm (g_input s)))"
  define s1 where "s1 = snd (input_scan e s)"
  have s1: "ig_estop_active (g_input s1) = io_estop_active ev" "g_reg s1 = g_reg s" "weld_glue_ok s1"
    using w by (simp_all add: s1_def ev_def)
  have hold: "halt_ok (estop_hold now t)" if "halt_ok t" for now t
    using halt_stop [OF that] by (simp add: estop_hold_def Let_def) (simp add: halt_ok_def)
  show ?thesis
  proof (cases "elapsed (e_now e) (ig_prev_ms (g_input s)) < INPUT_TICK_MS")
    case True
    then show ?thesis using s by (simp add: input_tick_eq)
  next
    case False
    show ?thesis
    proof (cases "io_estop_active ev \<noteq> 0")
      case active: True
      have tick: "app_input_tick e s = estop_hold (e_now e)
          (if io_estop_enter ev \<noteq> 0 then estop_enter (e_now e) s1 else s1)"
        using False active by (simp add: input_tick_eq ev_def [symmetric] s1_def [symmetric] Let_def case_prod_unfold)
      have "halt_ok (if io_estop_enter ev \<noteq> 0 then estop_enter (e_now e) s1 else s1)"
      proof (cases "io_estop_enter ev \<noteq> 0")
        case True
        then show ?thesis using estop_enter_parks(3) [OF s1(3)] by (simp add: halt_ok_def)
      next
        case no: False
        then have "in_emsw_bak (ig_fsm (g_input s)) \<noteq> 0"
          using active input_estop_edges(2) [of "input_read e s" "ig_fsm (g_input s)"] by (simp add: ev_def)
        then have "ig_estop_active (g_input s) \<noteq> 0" using assms(3) by (simp add: estop_ok_def)
        then show ?thesis using s no s1(2) by (simp add: halt_ok_def)
      qed
      then show ?thesis unfolding tick by (rule hold)
    next
      case inactive: False
      then have "ig_estop_active (g_input (app_input_tick e s)) = 0"
        using False s1(1) by (simp add: input_tick_eq ev_def [symmetric] s1_def [symmetric] Let_def case_prod_unfold)
      then show ?thesis by (simp add: halt_ok_def)
    qed
  qed
qed

lemma halt_horn: "halt_ok s \<Longrightarrow> halt_ok (app_horn_tick e s)"
proof -
  assume s: "halt_ok s"
  obtain u where "app_horn_tick e s = u \<or> app_horn_tick e s = reg_force_stop (e_now e) (app_reg_run_src u) u"
    "g_reg u = g_reg s" "g_input u = g_input s"
    by (rule horn_tick_parts [of e s])
  then show ?thesis
    using s halt_same [of u s] halt_command [of u] by (auto simp: reg_force_stop_def)
qed

lemma halt_reg: "halt_ok s \<Longrightarrow> halt_ok (app_reg_tick e lim s)"
  using reg_tick_run [of e lim s] by (auto simp: halt_ok_def)

section \<open>The invariant of the machine\<close>

definition sys_ok :: "sys \<Rightarrow> bool" where
  "sys_ok s \<longleftrightarrow> panel_inv s \<and> parser_ok (g_dgus s) \<and> plant_ok s \<and> halt_ok s \<and> comm_inv s"

lemma parser_same: "rx_part (g_dgus t) = rx_part (g_dgus s) \<Longrightarrow> parser_ok (g_dgus t) = parser_ok (g_dgus s)"
  by (rule rx_part_fields(6))

lemma sys_dgus:
  assumes "sys_ok s" "link_ok (f (g_dgus s))"
  shows "sys_ok (g_dgus_update f s)"
proof -
  have "plant_ok (g_dgus_update f s) = plant_ok s" by (rule out_only) simp_all
  moreover have "comm_inv (g_dgus_update f s) = comm_inv s" by (rule comm_same) simp
  ultimately show ?thesis
    using assms by (simp add: sys_ok_def panel_inv_def link_ok_def halt_ok_def)
qed

lemma sys_link: "sys_ok s \<Longrightarrow> link_ok (g_dgus s)"
  by (simp add: sys_ok_def panel_inv_def link_ok_def)

lemma sys_dispatch: "sys_ok s \<Longrightarrow> sys_ok (app_lcd_input_dispatch now f s)"
  using parser_same [of "app_lcd_input_dispatch now f s" s] rx_side.dispatch [of s "rx_part (g_dgus s)" now f]
  by (simp add: sys_ok_def panel_dispatch plant_p.dispatch halt_p.dispatch comm_p.dispatch)

lemma sys_rx_loop: "sys_ok s \<Longrightarrow> length (fr_data f) = 23 \<Longrightarrow> sys_ok (lcd_rx_loop now f s)"
proof (induction now f s rule: lcd_rx_loop.induct)
  case (1 now f s)
  obtain got d f' where p: "dgus_rx_poll now (g_dgus s) f = (got, d, f')" by (rule prod_cases3)
  have d: "link_ok d" "length (fr_data f') = 23"
    using rx_poll_ok [OF p sys_link [OF "1.prems"(1)] "1.prems"(2)] by simp_all
  have s: "sys_ok (s\<lparr>g_dgus := d\<rparr>)" using sys_dgus [OF "1.prems"(1), of "\<lambda>_. d"] d(1) by simp
  show ?case
    using "1.IH" [OF p [symmetric] refl refl] s d(2) sys_dispatch [OF s]
    by (simp add: lcd_rx_loop.simps [of now f s] p Let_def)
qed

lemma sys_ticks:
  assumes "sys_ok s"
  shows "sys_ok (app_lcd_tick e s)" "sys_ok (app_weld_tick e s)" "sys_ok (app_overload_tick e s)"
    "sys_ok (app_input_tick e s)" "sys_ok (app_horn_tick e s)" "sys_ok (app_seek_reset_tick e s)"
    "unat (e_adc_sens_out e) < 4096 \<Longrightarrow> unat (e_adc_osc e) < 4096 \<Longrightarrow> sys_ok (app_reg_tick e lim s)"
    "sys_ok (app_fault_alarm_tick e s)" "sys_ok (app_buzzer_tick e s)"
proof -
  have s: "panel_inv s" "parser_ok (g_dgus s)" "plant_ok s" "halt_ok s" "comm_inv s"
    "weld_glue_ok s" "estop_ok s"
    using assms by (simp_all add: sys_ok_def plant_ok_def)
  note p = parser_same [of _ s]
  show "sys_ok (app_lcd_tick e s)"
    using s p [of "app_lcd_tick e s"] rx_side.tick [of s "rx_part (g_dgus s)" e]
    by (simp add: sys_ok_def panel_tick plant_p.tick halt_p.tick comm_p.tick)
  show "sys_ok (app_weld_tick e s)"
    using s p [of "app_weld_tick e s"] by (simp add: sys_ok_def panel_weld_tick plant_weld halt_weld comm_ticks)
  show "sys_ok (app_overload_tick e s)"
    using s p [of "app_overload_tick e s"]
    by (simp add: sys_ok_def panel_overload_tick plant_overload halt_overload comm_ticks)
  show "sys_ok (app_input_tick e s)"
    using s p [of "app_input_tick e s"]
    by (simp add: sys_ok_def panel_input_tick plant_input halt_input comm_ticks)
  show "sys_ok (app_horn_tick e s)"
    using s by (simp add: sys_ok_def panel_ticks plant_horn halt_horn comm_ticks)
  show "sys_ok (app_seek_reset_tick e s)"
    using s p [of "app_seek_reset_tick e s"] by (simp add: sys_ok_def panel_ticks plant_seek_reset comm_ticks)
  show "sys_ok (app_reg_tick e lim s)" if "unat (e_adc_sens_out e) < 4096" "unat (e_adc_osc e) < 4096"
    using s that by (simp add: sys_ok_def panel_ticks plant_reg halt_reg comm_ticks)
  show "sys_ok (app_fault_alarm_tick e s)"
    using s by (simp add: sys_ok_def panel_ticks plant_alarm comm_ticks)
  show "sys_ok (app_buzzer_tick e s)"
    using s by (simp add: sys_ok_def panel_ticks plant_buzzer comm_ticks)
qed

lemma sys_front: "sys_ok s \<Longrightarrow> inputs_ok i \<Longrightarrow> sys_ok (loop_front (io_env i) s)"
  by (simp add: loop_front_def inputs_ok_def sys_ticks sys_rx_loop dgus_frame_zero_def Let_def)

lemma sys_back: "sys_ok s \<Longrightarrow> sys_ok (loop_back e s)"
  by (simp add: loop_back_def sys_ticks)

lemma sys_cfg: "sys_ok s \<Longrightarrow> (\<And>c. cfg_ok c \<Longrightarrow> cfg_ok (f c)) \<Longrightarrow> sys_ok (g_cfg_update f s)"
  by (simp add: sys_ok_def panel_cfg plant_p.cfg halt_p.cfg comm_p.cfg)

lemma sys_eth: "sys_ok s \<Longrightarrow> sys_ok (snd (snd (app_eth_tick now i (e, t, s))))"
  by (rule eth_tick_sys)
    (simp_all add: sys_cfg, simp add: sys_ok_def panel_lcd plant_p.lcd halt_p.lcd comm_p.lcd)

lemma sys_modbus: "sys_ok (nd_sys n) \<Longrightarrow> sys_ok (nd_sys (app_modbus_tick i n))"
  using parser_same [of "nd_sys (app_modbus_tick i n)" "nd_sys n"]
    rx_w.tick [of n "rx_part (g_dgus (nd_sys n))" i]
  by (simp add: sys_ok_def panel_w.tick plant_w.tick halt_w.tick comm_tick)

definition machine_ok :: "node \<Rightarrow> bool" where
  "machine_ok n \<longleftrightarrow> sys_ok (nd_sys n) \<and> port_ok (nd_port n) \<and> tcp_ok (nd_tcp n) \<and> eth_ok (nd_eth n)"

lemma eth_port [simp]: "nd_port (loop_eth i n) = nd_port n"
  by (simp add: loop_eth_def Let_def case_prod_unfold)

lemma eth_tick_tcp: "tcp_ok t \<Longrightarrow> tcp_ok (fst (snd (app_eth_tick now i (e, t, s))))"
  by (simp add: app_eth_tick_def app_lcd_ether_dirty_take_def eth_reapply_def reset_ok Let_def
      case_prod_unfold split: eth_phase.split)

lemma machine_eth: "machine_ok n \<Longrightarrow> machine_ok (loop_eth i n)"
  using sys_eth [of "nd_sys n"] tick_ok [of "(nd_eth n, nd_tcp n, nd_sys n)"] eth_tick_tcp [of "nd_tcp n"]
  by (simp add: machine_ok_def loop_eth_def Let_def case_prod_unfold)

lemma machine_iter: "machine_ok n \<Longrightarrow> inputs_ok i \<Longrightarrow> machine_ok (app_loop_iter i n)"
proof -
  assume n: "machine_ok n" and i: "inputs_ok i"
  define n1 where "n1 = loop_eth i (n\<lparr>nd_sys := loop_front (io_env i) (nd_sys n)\<rparr>)"
  have "machine_ok n1"
    unfolding n1_def by (rule machine_eth) (use n i sys_front in \<open>simp add: machine_ok_def\<close>)
  moreover have "recv_bounded (io_sock i)" using i by (simp add: inputs_ok_def)
  ultimately show ?thesis
    by (simp add: machine_ok_def app_loop_iter_def n1_def [symmetric] Let_def sys_back sys_modbus
        port_tick tcp_tick)
qed

lemma inits_ok:
  assumes "panel_inv s" "parser_ok (g_dgus s)" "rg_ch1_filt_x16 (g_reg s) = 0"
    and "g_out s = g_out (sys_zero md)"
  shows "panel_inv (main_inits e s)" "parser_ok (g_dgus (main_inits e s))" "plant_ok (main_inits e s)"
    "halt_ok (main_inits e s)"
proof -
  have same: "g_cfg (main_inits e s) = g_cfg s" "g_lcd (main_inits e s) = g_lcd s"
    "g_disp (main_inits e s) = g_disp s" "g_dgus (main_inits e s) = g_dgus s"
    "g_out (main_inits e s) = g_out s"
    using assms(4)
    by (simp_all add: main_inits_def app_reg_init_def app_weld_init_def app_seek_reset_init_def
        app_buzzer_init_def app_fault_alarm_init_def app_overload_init_def app_input_init_def
        app_horn_init_def pin_defs Let_def sys_zero_def)
  have inits: "g_reg (main_inits e s) = g_reg (app_reg_init (e 0) s)"
    "g_weld (main_inits e s) = g_weld (app_weld_init (e 1) s)"
    "sg_fsm (g_sr (main_inits e s)) = seek_reset_fsm_init"
    "g_ovld (main_inits e s) = g_ovld (app_overload_init (e 5) s)"
    "g_input (main_inits e s) = g_input (app_input_init (e 6) s)"
    by (simp_all add: main_inits_def app_reg_init_def app_weld_init_def app_seek_reset_init_def
        app_buzzer_init_def app_fault_alarm_init_def app_overload_init_def app_input_init_def
        app_horn_init_def pin_defs Let_def)
  show "panel_inv (main_inits e s)" using assms(1) by (simp add: panel_inv_def same)
  show "parser_ok (g_dgus (main_inits e s))" using assms(2) by (simp add: same)
  have "reg_inv (main_inits e s) = reg_inv (app_reg_init (e 0) s)"
    by (rule reg_inv_same) (simp_all add: inits same app_reg_init_def)
  then have "reg_inv (main_inits e s)"
    using reg_inv_init [of s "e 0"] assms(3,4) by (simp add: sys_zero_def)
  moreover have "weld_inv weld_fsm_init" by (rule weld.inv_init)
  moreover have "sr_inv seek_reset_fsm_init" by (rule sr.inv_init)
  ultimately show "plant_ok (main_inits e s)"
    by (simp add: plant_ok_def weld_glue_ok_def sr_lines_ok_def ovld_ok_def estop_ok_def press_pin_ok_def
        inits same assms(4) app_weld_init_def app_overload_init_def app_input_init_def app_reg_init_def
        reg_state_zero_def io_ovld_relay_def sys_zero_def)
      (simp add: weld_fsm_init_def seek_reset_fsm_init_def overload_fsm_init_def input_fsm_init_def)
  show "halt_ok (main_inits e s)"
    by (simp add: halt_ok_def inits app_input_init_def)
qed

lemma modbus_init_ok:
  assumes "panel_inv s" "parser_ok (g_dgus s)" "plant_ok s" "halt_ok s"
  shows "sys_ok (snd (app_modbus_init e (rtu_port_zero, s)))" "port_ok (fst (app_modbus_init e (rtu_port_zero, s)))"
proof -
  define t where "t = s\<lparr>g_mb := (case g_model s of
        MODEL_REMOTE \<Rightarrow> (g_mb s)\<lparr>mg_owned := 0, mg_speed_idx := 0, mg_parity_idx := 0, mg_addr := 0,
          mg_ren_fsm := remote_en_fsm_init, mg_ren_state := REN_DISABLED\<rparr>
      | MODEL_STD \<Rightarrow> (g_mb s)\<lparr>mg_owned := 0, mg_speed_idx := 0, mg_parity_idx := 0, mg_addr := 0,
          mg_ren_state := REN_ENABLED\<rparr>)\<rparr>"
  define u where "u = t\<lparr>g_mb := (g_mb t)\<lparr>mg_hwd := hold_wdt_init (mg_hwd (g_mb t)), mg_stg := cfg_stage_init,
    mg_core := mb_core_init 0\<rparr>\<rparr>"
  have init: "app_modbus_init e (rtu_port_zero, s) = apply_config e (rtu_port_zero, u)"
    by (simp add: app_modbus_init_def u_def t_def Let_def split: product_model.split)
  have same: "g_cfg u = g_cfg s" "g_lcd u = g_lcd s" "g_disp u = g_disp s" "g_dgus u = g_dgus s"
    "g_reg u = g_reg s" "g_weld u = g_weld s" "g_sr u = g_sr s" "g_ovld u = g_ovld s"
    "g_input u = g_input s" "g_horn u = g_horn s" "g_out u = g_out s"
    by (simp_all add: u_def t_def)
  have "plant_ok u = plant_ok s" by (rule out_only) (simp_all add: same)
  moreover have "comm_inv u"
    by (rule comm_fresh [of _ 0]) (simp_all add: u_def stage_inv_def cfg_stage_init_def)
  ultimately have u: "panel_inv u" "parser_ok (g_dgus u)" "plant_ok u" "halt_ok u" "comm_inv u"
    using assms by (simp_all add: same panel_inv_def halt_ok_def)
  have "rx_part (g_dgus (snd (apply_config e (rtu_port_zero, u)))) = rx_part (g_dgus u)"
    by (rule rx_w.config) simp
  then show "sys_ok (snd (app_modbus_init e (rtu_port_zero, s)))"
    using u parser_same [of "snd (apply_config e (rtu_port_zero, u))" u]
      panel_w.config [of "(rtu_port_zero, u)" e] plant_w.config [of "(rtu_port_zero, u)" e]
      halt_w.config [of "(rtu_port_zero, u)" e] comm_config [of "(rtu_port_zero, u)" e]
    by (simp add: init sys_ok_def)
  show "port_ok (fst (app_modbus_init e (rtu_port_zero, s)))"
    unfolding init by (rule port_config) (simp add: port_ok_def rtu_port_zero_def)
qed

lemma boot_link: "link_ok (dgus_init d)" if "d = dgus_st_zero" for d
  using that by (simp add: link_ok_def parser_ok_def wire_ok_def dgus_init_def dgus_st_zero_def)

lemma machine_boot_ok: "machine_boot n \<Longrightarrow> machine_ok n"
proof -
  assume "machine_boot n"
  then obtain e answers ts md i where b: "main_boot e answers ts ((sys_zero md)\<lparr>g_i2c := i\<rparr>) = Some n"
    by (auto simp: machine_boot_def)
  let ?s0 = "g_dgus_update dgus_init ((sys_zero md)\<lparr>g_i2c := i\<rparr>)"
  obtain up ok ts' s where a: "app_init ts ?s0 = Some (up, ok, ts', s)"
    using b by (auto simp: main_boot_def split: option.splits)
  have "link_ok (g_dgus ?s0)" "disp_ok (g_disp ?s0)" "shadows_ok (g_lcd ?s0)"
    by (simp_all add: boot_link sys_zero_def) (simp_all add: disp_ok_def disp_st_zero_def shadows_ok_def lcd_app_state_zero_def)
  note s = app_init_ok [OF a this]
  have inits: "panel_inv (main_inits e s)" "parser_ok (g_dgus (main_inits e s))" "plant_ok (main_inits e s)"
    "halt_ok (main_inits e s)"
    using inits_ok [of s md e] s by (simp_all add: sys_zero_def reg_state_zero_def)
  have "n = \<lparr>nd_sys = snd (app_modbus_init (e 8) (rtu_port_zero, main_inits e s)),
      nd_port = fst (app_modbus_init (e 8) (rtu_port_zero, main_inits e s)),
      nd_tcp = tcp_st_zero, nd_eth = snd (app_eth_init answers eth_st_zero)\<rparr>"
    using b by (simp add: main_boot_def a Let_def case_prod_unfold)
  then show ?thesis
    using modbus_init_ok [OF inits] init_ok [of answers eth_st_zero]
    by (simp add: machine_ok_def tcp_ok_def tcp_st_zero_def)
qed

interpretation machine: step_system machine_boot machine_step machine_ok
proof
  show "machine_ok n" if "machine_boot n" for n using that by (rule machine_boot_ok)
  show "machine_ok n'" if "machine_ok n" "machine_step n n'" for n n'
    using that(2)
  proof cases
    case (lcd_bytes bs)
    have "sys_ok (g_dgus_update (rx_arrive bs) (nd_sys n))"
      using that(1) sys_dgus [of "nd_sys n" "rx_arrive bs"] sys_link [of "nd_sys n"]
      by (simp add: machine_ok_def)
    then show ?thesis using that(1) lcd_bytes by (simp add: machine_ok_def)
  next
    case (line_byte b)
    then show ?thesis using that(1) by (simp add: machine_ok_def dma_ok)
  next
    case (capture c)
    have "sys_ok (g_freq_update f s) = sys_ok s" for f s
      using out_only [of "g_freq_update f s" s] comm_same [of "g_freq_update f s" s]
      by (simp add: sys_ok_def panel_inv_def halt_ok_def)
    then show ?thesis using that(1) capture by (simp add: machine_ok_def)
  next
    case (i2c_bus fate)
    then show ?thesis
      using that(1) by (simp add: machine_ok_def sys_ok_def plant_p.i2c halt_p.i2c comm_p.i2c)
  next
    case (lcd_link fates)
    have "link_ok (d\<lparr>dg_tx_timeouts := x\<rparr>) = link_ok d" for d x
      by (simp add: link_ok_def parser_ok_def wire_ok_def)
    then have "sys_ok (g_dgus_update (\<lambda>d. d\<lparr>dg_tx_timeouts := fates\<rparr>) (nd_sys n))"
      using that(1) sys_dgus [of "nd_sys n" "\<lambda>d. d\<lparr>dg_tx_timeouts := fates\<rparr>"]
        sys_link [of "nd_sys n"] by (simp add: machine_ok_def)
    then show ?thesis using that(1) lcd_link by (simp add: machine_ok_def)
  next
    case (iterate i)
    then show ?thesis using machine_iter that(1) by simp
  qed
qed

section \<open>What the operations leave alone\<close>

lemma command_prev_ms [simp]: "rg_prev_ms (g_reg (app_reg_command now cmd src s)) = rg_prev_ms (g_reg s)"
  by (cases cmd; simp add: app_reg_command_def reg_cmd_start_def reg_cmd_release_def app_seek_reset_request_def)

interpretation prev_p: panel_client "\<lambda>s. rg_prev_ms (g_reg s) = t"
  by unfold_locales simp_all

interpretation input_p: panel_client "\<lambda>s. g_input s = x"
  by unfold_locales simp_all

interpretation input_w: write_ops "\<lambda>s. g_input s = x"
  by unfold_locales (simp_all add: input_p.pages)

interpretation quiet_w: write_ops "\<lambda>s. \<not> out_usout (g_out s) \<and> \<not> out_osc4 (g_out s)"
  by unfold_locales (simp_all add: app_lcd_hook_ether_apply_def mb_stage_def app_horn_set_mode_def pin_defs Let_def)

lemma lcd_events_cfg:
  "g_cfg (app_lcd_show_error now e s) = g_cfg s" "g_cfg (app_lcd_fault_cleared s) = g_cfg s"
  by (simp_all add: lcd_goto_def lcd_restore_run_page_def app_lcd_show_error_def
      app_lcd_fault_cleared_def Let_def)

lemma lcd_tick_cfg [simp]: "g_cfg (app_lcd_tick e s) = g_cfg s"
  by (simp add: app_lcd_tick_def lcd_events_cfg Let_def)

lemma lcd_tick_input [simp]: "g_input (app_lcd_tick e s) = g_input s"
  using input_p.tick [of s "g_input s" e] by simp

lemma lcd_tick_prev [simp]: "rg_prev_ms (g_reg (app_lcd_tick e s)) = rg_prev_ms (g_reg s)"
  using prev_p.tick [of s "rg_prev_ms (g_reg s)" e] by simp

lemma force_stop_prev [simp]: "rg_prev_ms (g_reg (reg_force_stop now src s)) = rg_prev_ms (g_reg s)"
  by (simp add: reg_force_stop_def)

lemma stop_published_prev [simp]: "rg_prev_ms (g_reg (stop_published now s)) = rg_prev_ms (g_reg s)"
  by (simp add: stop_published_def)

lemma weld_tick_prev [simp]:
  "rg_prev_ms (g_reg (app_weld_tick e s)) = rg_prev_ms (g_reg s)"
  "model_type (g_cfg (app_weld_tick e s)) = model_type (g_cfg s)"
proof -
  have eff: "rg_prev_ms (g_reg (weld_effects now out t)) = rg_prev_ms (g_reg t)"
    "model_type (g_cfg (weld_effects now out t)) = model_type (g_cfg t)" for now out t
    by (simp_all add: weld_effects_def app_weld_hook_fault_def app_reg_raise_ovtime_def app_lcd_set_work_cnt_def Let_def)
  have "rg_prev_ms (g_reg (weld_cycle_step e t)) = rg_prev_ms (g_reg t)"
    "model_type (g_cfg (weld_cycle_step e t)) = model_type (g_cfg t)" for t
    by (simp_all add: weld_cycle_step_def eff Let_def case_prod_unfold)
  then show "rg_prev_ms (g_reg (app_weld_tick e s)) = rg_prev_ms (g_reg s)"
    "model_type (g_cfg (app_weld_tick e s)) = model_type (g_cfg s)"
    by (simp_all add: app_weld_tick_def Let_def)
qed

lemma overload_tick_prev [simp]: "rg_prev_ms (g_reg (app_overload_tick e s)) = rg_prev_ms (g_reg s)"
  by (simp add: app_overload_tick_def ovld_assert_def ovld_hold_def ovld_deassert_def io_ovld_relay_def
      Let_def case_prod_unfold)

lemma abort_now_prev [simp]: "rg_prev_ms (g_reg (app_weld_abort_now now s)) = rg_prev_ms (g_reg s)"
  by (simp add: app_weld_abort_now_def Let_def case_prod_unfold)

lemma set_estop_prev [simp]: "rg_prev_ms (g_reg (app_lcd_set_estop now on s)) = rg_prev_ms (g_reg s)"
  using prev_p.events(7) [of s "rg_prev_ms (g_reg s)" now on] by simp

lemma input_tick_prev [simp]: "rg_prev_ms (g_reg (app_input_tick e s)) = rg_prev_ms (g_reg s)"
  by (simp add: app_input_tick_def estop_enter_def estop_hold_def input_commands_def io_sol_dn_def
      Let_def case_prod_unfold)

lemma horn_tick_prev [simp]: "rg_prev_ms (g_reg (app_horn_tick e s)) = rg_prev_ms (g_reg s)"
  by (rule horn_tick_parts [of e s]) auto

lemma eth_tick_input: "g_input (nd_sys (loop_eth i n)) = g_input (nd_sys n)"
  using eth_tick_sys [of "\<lambda>s. g_input s = g_input (nd_sys n)" "nd_sys n" "e_now (io_env i)" "io_eth i" "nd_eth n" "nd_tcp n"]
  by (simp add: loop_eth_def Let_def case_prod_unfold)

lemma eth_tick_out: "g_out (nd_sys (loop_eth i n)) = g_out (nd_sys n)"
  using eth_tick_sys [of "\<lambda>s. g_out s = g_out (nd_sys n)" "nd_sys n" "e_now (io_env i)" "io_eth i" "nd_eth n" "nd_tcp n"]
  by (simp add: loop_eth_def Let_def case_prod_unfold)

lemma modbus_tick_input: "g_input (nd_sys (app_modbus_tick i n)) = g_input (nd_sys n)"
  using input_w.tick [of n "g_input (nd_sys n)" i] by simp

lemma back_keeps [simp]:
  "g_input (loop_back e s) = g_input s" "g_reg (loop_back e s) = g_reg s"
  "out_usout (g_out (loop_back e s)) = out_usout (g_out s)" "out_osc4 (g_out (loop_back e s)) = out_osc4 (g_out s)"
  by (simp_all add: loop_back_def app_buzzer_tick_def io_buzzer_def Let_def case_prod_unfold)

lemma rx_loop_idle: "dg_rx_ring (g_dgus s) = [] \<Longrightarrow> lcd_rx_loop now f s = s"
  by (simp add: lcd_rx_loop.simps [of now f s] dgus_rx_poll_def)

text \<open>A publication sets both generator pins to what runs.\<close>

lemma publish_pins:
  assumes "reg_inv s" "unat (e_adc_sens_out e) < 4096" "unat (e_adc_osc e) < 4096"
    and "REG_TICK_MS \<le> elapsed (e_now e) (rg_prev_ms (g_reg s))"
    and "rg_us_run_status (g_reg (app_reg_tick e lim s)) = US_IDLE"
  shows "\<not> out_usout (g_out (app_reg_tick e lim s)) \<and> \<not> out_osc4 (g_out (app_reg_tick e lim s))"
proof -
  define t where "t = (reg_acquire_gate e (reg_terminate (e_now e) lim s))\<lparr>g_reg :=
    reg_select ((g_reg (reg_acquire_gate e (reg_terminate (e_now e) lim s)))\<lparr>rg_prev_ms := e_now e\<rparr>)\<rparr>"
  have eq: "app_reg_tick e lim s = reg_publish_measure (e_now e) (rl_freq_cal_val lim) t"
    using assms(4) by (simp add: tick_eq t_def Let_def)
  obtain r m fq where "same_ctl r (g_reg t)" and p: "reg_publish_measure (e_now e) (rl_freq_cal_val lim) t =
       (let on = (rg_us_run_status (g_reg t) \<noteq> US_IDLE) in
        if b2u on \<noteq> rg_us_out_on (g_reg t)
        then t\<lparr>g_reg := r\<lparr>rg_us_out_on := b2u on\<rparr>, g_measure := m, g_freq := fq,
               g_out := (g_out t)\<lparr>out_usout := on, out_osc4 := on\<rparr>\<rparr>
        else t\<lparr>g_reg := r, g_measure := m, g_freq := fq\<rparr>)"
    by (rule publish_effect)
  then have r: "rg_us_out_on r = rg_us_out_on (g_reg t)" by (simp add: same_ctl_def)
  have "rg_us_run_status (g_reg t) = US_IDLE" using assms(5) by (simp add: eq)
  moreover have "reg_inv (app_reg_tick e lim s)" using reg_inv_tick [OF assms(1-3)] .
  ultimately have "rg_us_out_on (g_reg (app_reg_tick e lim s)) = 0"
    using r by (auto simp: eq p)
  then show ?thesis using \<open>reg_inv (app_reg_tick e lim s)\<close> by (simp add: reg_inv_def)
qed


section \<open>The drain leaves the pins and the periods alone\<close>

lemma rx_loop_keeps:
  "g_input (lcd_rx_loop now f s) = g_input s \<and> rg_prev_ms (g_reg (lcd_rx_loop now f s)) = rg_prev_ms (g_reg s) \<and>
   dg_rx_ring (g_dgus (lcd_rx_loop now f s)) = []"
proof (induction now f s rule: lcd_rx_loop.induct)
  case (1 now f s)
  obtain got d f' where p: "dgus_rx_poll now (g_dgus s) f = (got, d, f')" by (rule prod_cases3)
  have "\<not> got \<Longrightarrow> dg_rx_ring d = []" using rx_poll_ring [OF p] by simp
  then show ?case
    using "1.IH" [OF p [symmetric] refl refl] input_p.dispatch [of "s\<lparr>g_dgus := d\<rparr>" "g_input s" now f']
      prev_p.dispatch [of "s\<lparr>g_dgus := d\<rparr>" "rg_prev_ms (g_reg s)" now f']
    by (simp add: lcd_rx_loop.simps [of now f s] p Let_def)
qed


section \<open>Some boot exists\<close>

lemma boot_exists: "\<exists>n. machine_boot n"
proof -
  let ?ts = "map (\<lambda>k. (k * 100, [])) [1 ..< 200]"
  have "gaps 100 0 ?ts" "ends 0 ?ts = 19900"
    using idle_reads [of 0 200] by simp_all
  then obtain up ok ts' s m' where "app_init ?ts (g_dgus_update dgus_init (sys_zero MODEL_STD)) = Some (up, ok, ts', s)"
    using app_init_returns [of 100 0 ?ts "g_dgus_update dgus_init (sys_zero MODEL_STD)"] by auto
  then have "\<exists>n. main_boot e c ?ts ((sys_zero MODEL_STD)\<lparr>g_i2c := g_i2c (sys_zero MODEL_STD)\<rparr>) = Some n" for e c
    by (simp add: main_boot_def Let_def case_prod_unfold)
  then show ?thesis unfolding machine_boot_def by blast
qed

section \<open>One iteration against the emergency stop\<close>

lemma input_tick_latches:
  assumes "INPUT_TICK_MS \<le> elapsed (e_now e) (ig_prev_ms (g_input s))"
    and "1 < model_type (g_cfg s)" "e_estop_seek e \<noteq> 0"
  shows "ig_estop_active (g_input (app_input_tick e s)) \<noteq> 0"
proof -
  have "io_estop_active (snd (input_fsm_step (input_read e s) (ig_fsm (g_input s)))) \<noteq> 0"
    using assms(2,3) input_estop_edges(3) [of "input_read e s" "ig_fsm (g_input s)"] by (simp add: input_read_def)
  then show ?thesis
    using assms(1) by (simp add: input_tick_eq Let_def case_prod_unfold not_less [symmetric])
qed

lemma front_halts:
  assumes s: "sys_ok s" and i: "inputs_ok i" and due: "INPUT_TICK_MS \<le> elapsed (e_now (io_env i)) (ig_prev_ms (g_input s))"
    "REG_TICK_MS \<le> elapsed (e_now (io_env i)) (rg_prev_ms (g_reg s))"
    and stop: "1 < model_type (g_cfg (lcd_rx_loop (e_now (io_env i)) dgus_frame_zero s))" "e_estop_seek (io_env i) \<noteq> 0"
  shows "ig_estop_active (g_input (loop_front (io_env i) s)) \<noteq> 0 \<and>
    \<not> out_usout (g_out (loop_front (io_env i) s)) \<and> \<not> out_osc4 (g_out (loop_front (io_env i) s))"
proof -
  let ?e = "io_env i"
  define s1 where "s1 = lcd_rx_loop (e_now ?e) dgus_frame_zero s"
  define s3 where "s3 = app_overload_tick ?e (app_weld_tick ?e (app_lcd_tick ?e s1))"
  define s6 where "s6 = app_seek_reset_tick ?e (app_horn_tick ?e (app_input_tick ?e s3))"
  have front: "loop_front ?e s = app_reg_tick ?e (run_limits (g_cfg s6)) s6"
    by (simp add: loop_front_def s6_def s3_def s1_def Let_def)
  have adc: "unat (e_adc_sens_out ?e) < 4096" "unat (e_adc_osc ?e) < 4096"
    using i by (simp_all add: inputs_ok_def)
  have ok: "sys_ok s6"
    using sys_rx_loop [OF s, of dgus_frame_zero "e_now ?e"]
    by (simp add: s6_def s3_def s1_def sys_ticks dgus_frame_zero_def)
  have "g_input s3 = g_input s" "rg_prev_ms (g_reg s6) = rg_prev_ms (g_reg s)"
    "model_type (g_cfg s3) = model_type (g_cfg s1)"
    using rx_loop_keeps [of "e_now ?e" dgus_frame_zero s] by (simp_all add: s6_def s3_def s1_def)
  note same = this
  have "ig_estop_active (g_input (app_input_tick ?e s3)) \<noteq> 0"
    by (rule input_tick_latches) (use due stop same s1_def in simp_all)
  then have latched: "ig_estop_active (g_input s6) \<noteq> 0" by (simp add: s6_def)
  moreover have "rg_us_run_status (g_reg s6) = US_IDLE"
    using ok latched by (simp add: sys_ok_def halt_ok_def)
  then have "rg_us_run_status (g_reg (app_reg_tick ?e lim s6)) = US_IDLE" for lim
    using reg_tick_run [of ?e lim s6] by simp
  moreover have "reg_inv s6" using ok by (simp add: sys_ok_def plant_ok_def)
  ultimately show ?thesis
    using publish_pins [of s6 ?e] adc due(2) same(2) by (simp add: front)
qed

lemma iter_input: "g_input (nd_sys (app_loop_iter i n)) = g_input (loop_front (io_env i) (nd_sys n))"
  by (simp add: app_loop_iter_def modbus_tick_input eth_tick_input Let_def)

lemma iter_quiet:
  assumes "\<not> out_usout (g_out (loop_front (io_env i) (nd_sys n))) \<and> \<not> out_osc4 (g_out (loop_front (io_env i) (nd_sys n)))"
  shows "\<not> out_usout (g_out (nd_sys (app_loop_iter i n))) \<and> \<not> out_osc4 (g_out (nd_sys (app_loop_iter i n)))"
  using quiet_w.tick [of "loop_eth i (n\<lparr>nd_sys := loop_front (io_env i) (nd_sys n)\<rparr>)" i] assms
  by (simp add: app_loop_iter_def eth_tick_out Let_def)

section \<open>The frame of a key\<close>

text \<open>A poll that delivers the first frame of a ring leaves a ring with the other frames.\<close>

lemma drain_first:
  "feed (map (Pair now) bs) d out = (f # fs, d1, f1) \<Longrightarrow>
   \<exists>d2 d3. rx_drain now bs d out = (True, d2, f) \<and>
     feed (map (Pair now) (dg_rx_ring d2)) d2 f = (fs, d3, f1)"
proof (induction bs arbitrary: d out fs)
  case (Cons b bs)
  obtain g d2 f2 where p: "parser_step now b d out = (g, d2, f2)" by (rule prod_cases3)
  show ?case
  proof (cases g)
    case True
    then have "f2 = f" "feed (map (Pair now) bs) d2 f = (fs, d1, f1)"
      using Cons.prems by (auto simp: p Let_def split: prod.splits)
    with True show ?thesis by (simp add: p feed_ring)
  next
    case False
    then have "feed (map (Pair now) bs) d2 f2 = (f # fs, d1, f1)"
      using Cons.prems by (auto simp: p Let_def split: prod.splits)
    from Cons.IH [OF this] False show ?thesis by (simp add: p)
  qed
qed simp

lemma key_frame:
  assumes "dg_rx_ring d = frame_bytes DGUS_CMD_RD vp [1, hi, lo]"
    and "dg_parse_state d = PS_IDLE" "length (dg_frame_buf d) = 32"
  obtains d' f d'' where "dgus_rx_poll now d dgus_frame_zero = (True, d', f)"
    "dgus_rx_poll now d' f = (False, d'', f)" "fr_cmd f = DGUS_CMD_RD" "fr_vp_addr f = vp"
    "unat (fr_data_len f) = 3" "fr_data f ! 1 = hi" "fr_data f ! 2 = lo"
proof -
  let ?bs = "frame_bytes DGUS_CMD_RD vp [1, hi, lo]"
  have zip: "zip (replicate 9 now) ?bs = map (Pair now) ?bs" by (simp add: frame_bytes_def numeral_eq_Suc)
  have "frame_times_ok (replicate 9 now) ?bs"
    by (simp add: frame_times_ok_def frame_bytes_def elapsed_def)
  then obtain d1 f where f: "feed (map (Pair now) ?bs) d dgus_frame_zero = ([f], d1, f)"
    "fr_cmd f = DGUS_CMD_RD" "fr_vp_addr f = vp" "unat (fr_data_len f) = 3"
    "fr_data f = [1, hi, lo] @ drop 3 (fr_data dgus_frame_zero)"
    using feed_frame [OF assms(2,3), of dgus_frame_zero "[1, hi, lo]" "replicate 9 now" DGUS_CMD_RD vp]
    by (auto simp: zip dgus_frame_zero_def)
  obtain d2 d3 where "rx_drain now ?bs d dgus_frame_zero = (True, d2, f)"
    "feed (map (Pair now) (dg_rx_ring d2)) d2 f = ([], d3, f)"
    using drain_first [OF f(1)] by blast
  then show thesis
    using that f assms(1) drain_none [of now "dg_rx_ring d2" d2 f d3 f "dg_rx_ring d2"]
    by (simp add: dgus_rx_poll_def)
qed

section \<open>Properties\<close>

text \<open>
  C1: What holds in every state the firmware can reach. From any boot and under any sequence of
  panel bytes, line bytes, captures, bus outcomes and iterations: the two generator pins agree; a run started by the weld cycle is in progress only while the weld machine
  is in a welding state; while the emergency stop is latched nothing runs, the cylinder is
  released and the weld machine is in READY; the cylinder is down only on behalf of the weld
  machine or of horn-down; RESET and SEEK are never driven together; the overload relay is the
  overload flag; the configuration is in range, every panel frame is well formed, no remote
  command is left in the register table, whose size is fixed; the TCP buffer is within its array;
  and the network is offered to Modbus exactly while an address is in force (given to the chip,
  with no chip reset, DHCP stop or start, or conflict since), in the phase of its mode and with
  the machine's own MAC address.
\<close>

theorem machine_invariant:
  assumes "machine_boot n0" "machine_step\<^sup>*\<^sup>* n0 n"
  shows "let s = nd_sys n in
    out_usout (g_out s) = out_osc4 (g_out s) \<and>
    (rg_us_run_status (g_reg s) = US_CYCLE \<longrightarrow> weld_us_on (wg_fsm (g_weld s))) \<and>
    (ig_estop_active (g_input s) \<noteq> 0 \<longrightarrow> rg_us_run_status (g_reg s) = US_IDLE \<and>
       \<not> out_sol_dn (g_out s) \<and> w_run_status (wg_fsm (g_weld s)) = WELD_READY) \<and>
    (out_sol_dn (g_out s) \<longrightarrow> wg_sol_last (g_weld s) \<noteq> 0 \<or> hg_sol_last (g_horn s) \<noteq> 0) \<and>
    \<not> (out_reset (g_out s) \<and> out_seek (g_out s)) \<and>
    out_ovld_relay (g_out s) = (og_ovld_active (g_ovld s) \<noteq> 0) \<and>
    cfg_ok (g_cfg s) \<and> wire_ok (g_dgus s) \<and> cmds_clear s \<and> length (holding (mg_core (g_mb s))) = 51 \<and>
    length (tc_acc (nd_tcp n)) \<le> MB_TCP_ACC_LEN \<and>
    et_available (nd_eth n) = in_force (et_log (nd_eth n)) \<and>
    (et_available (nd_eth n) \<longrightarrow>
       et_phase (nd_eth n) = ETH_STATIC_UP \<and> mac_ok NETINFO_STATIC (nd_eth n) \<or>
       et_phase (nd_eth n) = ETH_DHCP_RUN \<and> mac_ok NETINFO_DHCP (nd_eth n))"
proof -
  have n: "sys_ok (nd_sys n)" "tcp_ok (nd_tcp n)" "eth_ok (nd_eth n)"
    using machine.inv_reachable [OF assms] by (simp_all add: machine_ok_def)
  have p: "plant_ok (nd_sys n)" "comm_inv (nd_sys n)" "panel_inv (nd_sys n)" "halt_ok (nd_sys n)"
    using n(1) by (simp_all add: sys_ok_def)
  have "et_available (nd_eth n) = in_force (et_log (nd_eth n))"
    "et_available (nd_eth n) \<longrightarrow>
       et_phase (nd_eth n) = ETH_STATIC_UP \<and> mac_ok NETINFO_STATIC (nd_eth n) \<or>
       et_phase (nd_eth n) = ETH_DHCP_RUN \<and> mac_ok NETINFO_DHCP (nd_eth n)"
    using n(3) by (auto simp: eth_ok_def split: eth_phase.splits)
  then show ?thesis
    using p n(2) len_holding [OF p(2)]
    by (simp add: plant_ok_def reg_inv_def weld_glue_ok_def estop_ok_def press_pin_ok_def sr_lines_ok_def
        ovld_ok_def halt_ok_def panel_inv_def comm_inv_def tcp_ok_def Let_def)
qed

text \<open>
  C2: The emergency stop through a whole iteration. In a state within the invariant, on a model
  with the switch, an iteration that finds the switch pressed with its 10 ms input period and its
  2 ms regulator period elapsed ends with the stop latched, no run in progress, the cylinder
  released, the weld machine in READY and both generator pins off, whatever the panel, the serial
  line and the network ask for in that iteration.
\<close>

theorem estop_iteration_stops:
  assumes "machine_ok n" "inputs_ok i"
    and "INPUT_TICK_MS \<le> elapsed (e_now (io_env i)) (ig_prev_ms (g_input (nd_sys n)))"
    and "REG_TICK_MS \<le> elapsed (e_now (io_env i)) (rg_prev_ms (g_reg (nd_sys n)))"
    and "1 < model_type (g_cfg (lcd_rx_loop (e_now (io_env i)) dgus_frame_zero (nd_sys n)))"
    and "e_estop_seek (io_env i) \<noteq> 0"
  shows "let s = nd_sys (app_loop_iter i n) in
    ig_estop_active (g_input s) \<noteq> 0 \<and> rg_us_run_status (g_reg s) = US_IDLE \<and>
    \<not> out_sol_dn (g_out s) \<and> w_run_status (wg_fsm (g_weld s)) = WELD_READY \<and>
    \<not> out_usout (g_out s) \<and> \<not> out_osc4 (g_out s)"
proof -
  have s: "sys_ok (nd_sys n)" using assms(1) by (simp add: machine_ok_def)
  have "sys_ok (nd_sys (app_loop_iter i n))"
    using machine_iter [OF assms(1,2)] by (simp add: machine_ok_def)
  then have "halt_ok (nd_sys (app_loop_iter i n))" "estop_ok (nd_sys (app_loop_iter i n))"
    by (simp_all add: sys_ok_def plant_ok_def)
  then show ?thesis
    using front_halts [OF s assms(2-6)] iter_quiet [of i n]
    by (simp add: halt_ok_def estop_ok_def iter_input Let_def)
qed

text \<open>
  C12: The panel stays in bounds. In every state the firmware can reach, from any outcome of the
  boot and under any sequence of panel bytes, line bytes, captures, bus outcomes and iterations,
  the ones that serve Modbus writes included: every frame sent to the panel is complete and fits
  the 32-byte transmit buffer; the indices into the two comm tables, stored and being edited, are
  within them; the cursor and the octet counter of the address entry are within their buffers,
  and the number being entered is at most 255; and the output power stays between 50 and 100.
\<close>

theorem panel_reachable_invariant:
  assumes "machine_boot n0" "machine_step\<^sup>*\<^sup>* n0 n"
  shows "let s = nd_sys n in
    list_all wire_frame (dg_sent (g_dgus s)) \<and>
    unat (comm_speed_idx (g_cfg s)) < length comm_speed_txt \<and>
    unat (comm_parity_idx (g_cfg s)) < length comm_parity_txt \<and>
    unat (ls_temp_speed_idx (g_lcd s)) < length comm_speed_txt \<and>
    unat (ls_temp_parity_idx (g_lcd s)) < length comm_parity_txt \<and>
    unat (ls_ether_buffer_pos (g_lcd s)) < length (ls_ether_input_buffer (g_lcd s)) \<and>
    unat (ls_ether_current_octet (g_lcd s)) < length (ls_ether_temp_ip (g_lcd s)) \<and>
    unat (ls_ether_current_number (g_lcd s)) \<le> 255 \<and>
    50 \<le> output_power (g_cfg s) \<and> output_power (g_cfg s) \<le> 100"
proof -
  have "panel_inv (nd_sys n)"
    using machine.inv_reachable [OF assms] by (simp add: machine_ok_def sys_ok_def)
  then show ?thesis
    by (auto simp: panel_inv_def wire_ok_def cfg_ok_def shadows_ok_def comm_speed_txt_def comm_parity_txt_def
        word_le_nat_alt Let_def)
qed

text \<open>
  Every iteration empties the ring of the panel. Whatever has arrived, at the end of an
  iteration no byte is left in the ring: bytes are either taken into a frame or dropped, and no
  operation of the iteration puts one back.
\<close>

theorem iteration_drains_panel: "dg_rx_ring (g_dgus (nd_sys (app_loop_iter i n))) = []"
proof -
  let ?e = "io_env i"
  define s1 where "s1 = lcd_rx_loop (e_now ?e) dgus_frame_zero (nd_sys n)"
  have ticks: "g_dgus (loop_back e s) = g_dgus s" for e s by (simp add: loop_back_def)
  have eth: "g_dgus (nd_sys (loop_eth i m)) = g_dgus (nd_sys m)" for m
    using eth_tick_sys [of "\<lambda>s. g_dgus s = g_dgus (nd_sys m)" "nd_sys m" "e_now ?e" "io_eth i" "nd_eth m" "nd_tcp m"]
    by (simp add: loop_eth_def Let_def case_prod_unfold)
  have "rx_part (g_dgus (loop_front ?e (nd_sys n))) = rx_part (g_dgus s1)"
    using rx_side.tick [of s1 "rx_part (g_dgus s1)" ?e] by (simp add: loop_front_def s1_def Let_def)
  moreover have "dg_rx_ring (g_dgus s1) = []" by (simp add: s1_def rx_loop_keeps)
  moreover have "rx_part (g_dgus (nd_sys (app_modbus_tick i m))) = rx_part (g_dgus (nd_sys m))" for m
    using rx_w.tick [of m "rx_part (g_dgus (nd_sys m))" i] by simp
  ultimately have "rx_part (g_dgus (nd_sys (app_loop_iter i n))) = rx_part (g_dgus s1)"
    by (simp add: app_loop_iter_def ticks eth Let_def)
  from rx_part_fields(1) [OF this] show ?thesis using \<open>dg_rx_ring (g_dgus s1) = []\<close> by simp
qed

text \<open>
  C39: The START key of the panel, from the wire to the run. When the ring holds the frame of the
  run key (data word 3) and the parser is idle, the drain of that iteration starts a run with
  source TOUCH at the present time, provided a start is allowed and no orphan release is pending,
  and leaves the ring empty.
\<close>

theorem touch_start_key:
  assumes "dg_rx_ring (g_dgus s) = frame_bytes DGUS_CMD_RD KEY_MULTI [1, 0, 3]"
    and "dg_parse_state (g_dgus s) = PS_IDLE" "length (dg_frame_buf (g_dgus s)) = 32"
    and "app_reg_start_allowed s" "rg_swallow_start (g_reg s) = 0"
  shows "let s' = lcd_rx_loop now dgus_frame_zero s in
    rg_us_run_status (g_reg s') = US_TOUCH \<and> rg_run_start_ms (g_reg s') = now \<and>
    rg_acc_energy (g_reg s') = 0 \<and> dg_rx_ring (g_dgus s') = []"
proof -
  obtain d f d' where poll: "dgus_rx_poll now (g_dgus s) dgus_frame_zero = (True, d, f)"
    "dgus_rx_poll now d f = (False, d', f)"
    and f: "fr_cmd f = DGUS_CMD_RD" "fr_vp_addr f = KEY_MULTI" "unat (fr_data_len f) = 3"
      "fr_data f ! 1 = 0" "fr_data f ! 2 = 3"
    by (rule key_frame [OF assms(1-3)])
  define s1 where "s1 = s\<lparr>g_dgus := d\<rparr>"
  define s2 where "s2 = app_lcd_input_dispatch now f s1"
  have "app_reg_start_allowed s1" "rg_swallow_start (g_reg s1) = 0"
    using assms(4,5) by (simp_all add: s1_def app_reg_start_allowed_def query_defs)
  moreover have key: "s2 = run_key_start now s1"
    using f by (simp add: s2_def app_lcd_input_dispatch_def edit_limits_def dispatch_key_def
        handle_key_multi_def be16_def word_less_nat_alt)
  ultimately have run: "rg_us_run_status (g_reg s2) = US_TOUCH" "rg_run_start_ms (g_reg s2) = now"
    "rg_acc_energy (g_reg s2) = 0"
    by (simp_all add: run_key_start_def app_lcd_hook_us_command_def app_lcd_hook_set_pot_def
        app_reg_command_def reg_cmd_start_def app_reg_start_allowed_def)
  have d: "g_dgus s2 = d"
    by (simp add: key s1_def run_key_start_def app_lcd_hook_us_command_def app_lcd_hook_set_pot_def)
  have "lcd_rx_loop now dgus_frame_zero s = lcd_rx_loop now f s2"
    using f(1) by (simp add: lcd_rx_loop.simps [of now dgus_frame_zero s] poll dgus_is_echo_def s2_def s1_def)
  then have "lcd_rx_loop now dgus_frame_zero s = s2\<lparr>g_dgus := d'\<rparr>"
    by (simp add: lcd_rx_loop.simps [of now f s2] poll d)
  then show ?thesis using run rx_loop_keeps [of now dgus_frame_zero s] by (simp add: Let_def)
qed

section \<open>Witnesses\<close>

definition wit_turn :: "u32 \<Rightarrow> io" where
  "wit_turn now = \<lparr>io_env = (wit_env now)\<lparr>e_estop_seek := 1\<rparr>, io_sock = wit_sock\<lparr>si_avail := 0, si_recv := \<lambda>_. []\<rparr>,
     io_eth = \<lparr>ei_link_on = False, ei_dhcp_events = [], ei_dhcp_failed = False\<rparr>, io_echo = []\<rparr>"

lemma wit_turn_ok: "inputs_ok (wit_turn now)"
  by (simp add: inputs_ok_def wit_turn_def wit_env_def recv_bounded_def)

theorem machine_invariant_witness:
  "\<exists>n0. machine_boot n0 \<and> (let s = nd_sys (app_loop_iter (wit_turn 10) n0) in
     out_usout (g_out s) = out_osc4 (g_out s) \<and> length (holding (mg_core (g_mb s))) = 51)"
proof -
  obtain n0 where n0: "machine_boot n0" using boot_exists by blast
  have "machine_step\<^sup>*\<^sup>* n0 (app_loop_iter (wit_turn 10) n0)"
    using wit_turn_ok iterate by blast
  from machine_invariant [OF n0 this] n0 show ?thesis unfolding Let_def by blast
qed

text \<open>The frame of a touch on the speed button arrives and an iteration serves it.\<close>

theorem panel_reachable_invariant_witness:
  "\<exists>n0. machine_boot n0 \<and> (let s = nd_sys (app_loop_iter (wit_turn 10)
       (n0\<lparr>nd_sys := g_dgus_update (rx_arrive (frame_bytes DGUS_CMD_RD 0x1072 [1, 0, 4])) (nd_sys n0)\<rparr>)) in
     unat (ls_temp_speed_idx (g_lcd s)) < length comm_speed_txt \<and> output_power (g_cfg s) \<le> 100)"
proof -
  obtain n0 where n0: "machine_boot n0" using boot_exists by blast
  let ?n1 = "n0\<lparr>nd_sys := g_dgus_update (rx_arrive (frame_bytes DGUS_CMD_RD 0x1072 [1, 0, 4])) (nd_sys n0)\<rparr>"
  have "machine_step\<^sup>*\<^sup>* n0 ?n1" by (rule r_into_rtranclp, rule lcd_bytes)
  then have "machine_step\<^sup>*\<^sup>* n0 (app_loop_iter (wit_turn 10) ?n1)"
    using iterate [OF wit_turn_ok] by (rule rtranclp.rtrancl_into_rtrancl)
  from panel_reachable_invariant [OF n0 this] n0 show ?thesis unfolding Let_def by blast
qed

text \<open>A press of type 2 after its initialisations, at time 0.\<close>

definition wit_press :: sys where
  "wit_press = main_inits (\<lambda>_. wit_env 0) ((sys_zero MODEL_STD)\<lparr>g_cfg := app_config_factory_defaults\<lparr>model_type := 2, comm_address := 0\<rparr>\<rparr>)"

definition wit_machine :: node where
  "wit_machine = \<lparr>nd_sys = snd (app_modbus_init (wit_env 0) (rtu_port_zero, wit_press)),
     nd_port = fst (app_modbus_init (wit_env 0) (rtu_port_zero, wit_press)),
     nd_tcp = tcp_st_zero, nd_eth = snd (app_eth_init True eth_st_zero)\<rparr>"

lemma wit_machine_ok: "machine_ok wit_machine"
proof -
  let ?s = "(sys_zero MODEL_STD)\<lparr>g_cfg := app_config_factory_defaults\<lparr>model_type := 2, comm_address := 0\<rparr>\<rparr>"
  have "panel_inv ?s" "parser_ok (g_dgus ?s)" "rg_ch1_filt_x16 (g_reg ?s) = 0" "g_out ?s = g_out (sys_zero MODEL_STD)"
    using zero_link [of MODEL_STD]
    by (simp_all add: panel_inv_def link_ok_def cfg_ok_def app_config_factory_defaults_def)
      (simp_all add: sys_zero_def reg_state_zero_def)
  from modbus_init_ok [OF inits_ok [OF this]] init_ok [of True eth_st_zero] show ?thesis
    by (simp add: machine_ok_def wit_machine_def wit_press_def tcp_ok_def tcp_st_zero_def)
qed

theorem estop_iteration_stops_witness:
  "let s = nd_sys (app_loop_iter (wit_turn 10) wit_machine) in
     ig_estop_active (g_input s) \<noteq> 0 \<and> \<not> out_usout (g_out s)"
proof -
  define p where "p = wit_press\<lparr>g_mb := (case g_model wit_press of
        MODEL_REMOTE \<Rightarrow> (g_mb wit_press)\<lparr>mg_owned := 0, mg_speed_idx := 0, mg_parity_idx := 0, mg_addr := 0,
          mg_ren_fsm := remote_en_fsm_init, mg_ren_state := REN_DISABLED,
          mg_hwd := hold_wdt_init (mg_hwd (g_mb wit_press)), mg_stg := cfg_stage_init, mg_core := mb_core_init 0\<rparr>
      | MODEL_STD \<Rightarrow> (g_mb wit_press)\<lparr>mg_owned := 0, mg_speed_idx := 0, mg_parity_idx := 0, mg_addr := 0,
          mg_ren_state := REN_ENABLED, mg_hwd := hold_wdt_init (mg_hwd (g_mb wit_press)),
          mg_stg := cfg_stage_init, mg_core := mb_core_init 0\<rparr>)\<rparr>"
  have init: "nd_sys wit_machine = snd (apply_config (wit_env 0) (rtu_port_zero, p))"
    by (simp add: wit_machine_def app_modbus_init_def p_def Let_def split: product_model.split)
  have "g_cfg p = app_config_factory_defaults\<lparr>model_type := 2, comm_address := 0\<rparr>" "mg_owned (g_mb p) = 0"
    by (simp_all add: p_def wit_press_def main_inits_def app_reg_init_def app_weld_init_def app_seek_reset_init_def
        app_buzzer_init_def app_fault_alarm_init_def app_overload_init_def app_input_init_def
        app_horn_init_def pin_defs Let_def split: product_model.split)
  then have cfg: "snd (apply_config (wit_env 0) (rtu_port_zero, p)) = p"
    by (simp add: apply_config_def)
  have same: "g_input (nd_sys wit_machine) = g_input wit_press" "g_reg (nd_sys wit_machine) = g_reg wit_press"
    "g_cfg (nd_sys wit_machine) = g_cfg wit_press" "g_dgus (nd_sys wit_machine) = g_dgus wit_press"
    by (simp_all add: init cfg) (simp_all add: p_def)
  have "ig_prev_ms (g_input wit_press) = 0" "rg_prev_ms (g_reg wit_press) = 0"
    "model_type (g_cfg wit_press) = 2" "dg_rx_ring (g_dgus wit_press) = []"
    by (simp_all add: wit_press_def main_inits_def app_reg_init_def app_weld_init_def app_seek_reset_init_def
        app_buzzer_init_def app_fault_alarm_init_def app_overload_init_def app_input_init_def
        app_horn_init_def pin_defs Let_def wit_env_def sys_zero_def dgus_st_zero_def)
  then show ?thesis
    using estop_iteration_stops [OF wit_machine_ok wit_turn_ok [of 10]] same
    by (simp add: wit_turn_def wit_env_def elapsed_def rx_loop_idle Let_def)
qed

theorem touch_start_key_witness:
  "rg_us_run_status (g_reg (lcd_rx_loop 7 dgus_frame_zero ((sys_zero MODEL_STD)\<lparr>g_dgus :=
     dgus_st_zero\<lparr>dg_rx_ring := [0x5A, 0xA5, 6, 0x83, 0x10, 0x80, 1, 0, 3]\<rparr>\<rparr>))) = US_TOUCH"
  using touch_start_key [of "(sys_zero MODEL_STD)\<lparr>g_dgus :=
      dgus_st_zero\<lparr>dg_rx_ring := [0x5A, 0xA5, 6, 0x83, 0x10, 0x80, 1, 0, 3]\<rparr>\<rparr>" 7]
  by (simp add: frame_bytes_def hi8_def lo8_def dgus_st_zero_def app_reg_start_allowed_def query_defs
      sys_zero_def reg_state_zero_def seek_reset_fsm_state_def seek_reset_fsm_init_def Let_def)

end
