(* ===== verification/Usart1_Rx.thy ===== *)
theory Usart1_Rx
  imports Dgus_Lcd Mb_Rtu
begin

text \<open>
  The receive ring of the panel line, \<open>fw/drivers/usart1.c\<close>: 256 bytes that the DMA fills without
  end and the parser reads one at a time. The rest of the development takes the bytes that wait
  as a list (\<open>dg_rx_ring\<close>); here that list is refined by the ring, its write position and its
  read index.
\<close>

section \<open>The queue interface\<close>

text \<open>Arrivals and reads of a queue of bytes, in the order they happen, and what the reads return.\<close>

datatype queue_op = Arrive u8 | Read

fun queue_run :: "(u8 \<Rightarrow> 'p \<Rightarrow> 'p) \<Rightarrow> ('p \<Rightarrow> u8 option \<times> 'p) \<Rightarrow> queue_op list \<Rightarrow> 'p \<Rightarrow> u8 option list \<times> 'p" where
  "queue_run put get [] p = ([], p)"
| "queue_run put get (Arrive b # ops) p = queue_run put get ops (put b p)"
| "queue_run put get (Read # ops) p =
     (let (r, p) = get p; (rs, p) = queue_run put get ops p in (r # rs, p))"

definition list_put :: "u8 \<Rightarrow> u8 list \<Rightarrow> u8 list" where
  "list_put b q = q @ [b]"

definition list_get :: "u8 list \<Rightarrow> u8 option \<times> u8 list" where
  "list_get q = (case q of [] \<Rightarrow> (None, []) | b # q \<Rightarrow> (Some b, q))"

text \<open>At no moment do more bytes wait than the ring can tell from none.\<close>

fun never_over :: "nat \<Rightarrow> queue_op list \<Rightarrow> u8 list \<Rightarrow> bool" where
  "never_over n [] q = True"
| "never_over n (Arrive b # ops) q = (length q < n \<and> never_over n ops (q @ [b]))"
| "never_over n (Read # ops) q = never_over n ops (tl q)"

locale byte_queue =
  fixes holds :: "'p \<Rightarrow> u8 list \<Rightarrow> bool"
    and put :: "u8 \<Rightarrow> 'p \<Rightarrow> 'p"
    and get :: "'p \<Rightarrow> u8 option \<times> 'p"
    and room :: nat
  assumes arrives: "holds p q \<Longrightarrow> length q < room \<Longrightarrow> holds (put b p) (q @ [b])"
    and empty: "holds p [] \<Longrightarrow> get p = (None, p)"
    and taken: "holds p (b # q) \<Longrightarrow> fst (get p) = Some b \<and> holds (snd (get p)) q"
begin

lemma refines:
  "holds p q \<Longrightarrow> never_over room ops q \<Longrightarrow>
   fst (queue_run put get ops p) = fst (queue_run list_put list_get ops q) \<and>
   holds (snd (queue_run put get ops p)) (snd (queue_run list_put list_get ops q))"
proof (induction ops arbitrary: p q)
  case (Cons x ops)
  show ?case
  proof (cases x)
    case (Arrive b)
    then show ?thesis using Cons arrives [of p q b] by (simp add: list_put_def)
  next
    case Read
    show ?thesis
    proof (cases q)
      case Nil
      then show ?thesis using Cons Read empty [of p] by (simp add: list_get_def Let_def case_prod_unfold)
    next
      case (Cons b q')
      then show ?thesis
        using Cons.IH [of "snd (get p)" q'] Cons.prems Read taken [of p b q']
        by (simp add: list_get_def Let_def case_prod_unfold)
    qed
  qed
qed simp

end

section \<open>State\<close>

text \<open>
  The DMA counter runs down from 256 and is loaded again when it reaches 0. In that moment a read
  can still see the 0; \<open>reload\<close> says that it does.
\<close>

abbreviation (input) RX_DMA_SIZE :: u16 where "RX_DMA_SIZE \<equiv> 256"

record lcd_port =
  lp_dma_buf :: "u8 list"
  lp_dma_left :: u16
  lp_tail :: u16

definition lcd_dma :: "u8 \<Rightarrow> lcd_port \<Rightarrow> lcd_port" where
  "lcd_dma b p = p\<lparr>lp_dma_buf := (lp_dma_buf p)[256 - unat (lp_dma_left p) := b],
     lp_dma_left := (if lp_dma_left p = 1 then RX_DMA_SIZE else lp_dma_left p - 1)\<rparr>"

definition dma_counter :: "bool \<Rightarrow> lcd_port \<Rightarrow> u16" where
  "dma_counter reload p = (if reload \<and> lp_dma_left p = RX_DMA_SIZE then 0 else lp_dma_left p)"

section \<open>Operations\<close>

definition usart1_init :: "lcd_port \<Rightarrow> lcd_port" where
  "usart1_init p = p\<lparr>lp_tail := 0, lp_dma_left := RX_DMA_SIZE\<rparr>"

definition usart1_rx_pop :: "bool \<Rightarrow> lcd_port \<Rightarrow> u8 option \<times> lcd_port" where
  "usart1_rx_pop reload p =
     (let head = RX_DMA_SIZE - dma_counter reload p
      in if lp_tail p = head then (None, p)
         else (Some (lp_dma_buf p ! unat (lp_tail p)),
               p\<lparr>lp_tail := (lp_tail p + 1) AND (RX_DMA_SIZE - 1)\<rparr>))"

text \<open>
  The poll of the panel over the ring itself. A turn is one read: the bytes the DMA has brought
  since the read before, and whether the read meets the reload. A poll that needs more turns than
  given has no result; otherwise the turns it left over are returned. The clock reads the same
  throughout a poll.
\<close>

type_synonym lcd_turn = "u8 list \<times> bool"

fun lcd_poll :: "lcd_turn list \<Rightarrow> u32 \<Rightarrow> lcd_port \<Rightarrow> dgus_st \<Rightarrow> dgus_frame \<Rightarrow>
    (bool \<times> lcd_port \<times> dgus_st \<times> dgus_frame \<times> lcd_turn list) option" where
  "lcd_poll [] now p d out = None"
| "lcd_poll ((bs, reload) # turns) now p d out =
     (case usart1_rx_pop reload (fold lcd_dma bs p) of
        (None, p) \<Rightarrow> Some (False, p, d, out, turns)
      | (Some b, p) \<Rightarrow>
          (let (got, d, out) = parser_step now b d out
           in if got then Some (True, p, d, out, turns) else lcd_poll turns now p d out))"

definition arrivals :: "lcd_turn list \<Rightarrow> u8 list" where
  "arrivals turns = concat (map fst turns)"

text \<open>
  From the list q of waiting bytes: no read finds more than 255 waiting, and a read that meets
  the reload finds one at least.
\<close>

fun calm :: "lcd_turn list \<Rightarrow> u8 list \<Rightarrow> bool" where
  "calm [] q = True"
| "calm ((bs, reload) # turns) q =
     (length q + length bs \<le> 255 \<and> (reload \<longrightarrow> q @ bs \<noteq> []) \<and> calm turns (tl (q @ bs)))"

section \<open>The ring holds a list\<close>

definition lcd_pos :: "lcd_port \<Rightarrow> nat" where
  "lcd_pos p = 256 - unat (lp_dma_left p)"

definition holds :: "lcd_port \<Rightarrow> u8 list \<Rightarrow> bool" where
  "holds p q \<longleftrightarrow> length (lp_dma_buf p) = 256 \<and> 0 < unat (lp_dma_left p) \<and> unat (lp_dma_left p) \<le> 256 \<and>
     unat (lp_tail p) < 256 \<and> length q < 256 \<and> lcd_pos p = (unat (lp_tail p) + length q) mod 256 \<and>
     (\<forall>i < length q. lp_dma_buf p ! ((unat (lp_tail p) + i) mod 256) = q ! i)"

lemma head_word: "holds p q \<Longrightarrow> unat (RX_DMA_SIZE - dma_counter False p) = lcd_pos p"
  by (subst unat_sub) (simp_all add: holds_def lcd_pos_def dma_counter_def word_le_nat_alt)

lemma holds_init: "length (lp_dma_buf p) = 256 \<Longrightarrow> holds (usart1_init p) []"
  by (simp add: holds_def usart1_init_def lcd_pos_def)

lemma left_next:
  assumes "0 < unat (l :: u16)" "unat l \<le> 256"
  shows "256 - unat (if l = 1 then 256 else l - 1) = Suc (256 - unat l) mod 256"
    "0 < unat (if l = 1 then 256 else l - 1 :: u16)" "unat (if l = 1 then 256 else l - 1) \<le> 256"
proof -
  have one: "l = 1 \<longleftrightarrow> unat l = 1" by (metis unat_1 word_unat_eq_iff)
  have "unat (l - 1) = unat l - 1" using assms(1) by (simp add: unat_minus_one word_neq_0_conv word_less_nat_alt)
  then show "256 - unat (if l = 1 then 256 else l - 1) = Suc (256 - unat l) mod 256"
    "0 < unat (if l = 1 then 256 else l - 1 :: u16)" "unat (if l = 1 then 256 else l - 1) \<le> 256"
    using assms one by auto
qed

lemma holds_arrival:
  assumes "holds p q" "length q < 255" shows "holds (lcd_dma b p) (q @ [b])"
proof -
  let ?l = "lp_dma_left p" and ?t = "unat (lp_tail p)"
  have p: "length (lp_dma_buf p) = 256" "0 < unat ?l" "unat ?l \<le> 256" "?t < 256"
    "256 - unat ?l = (?t + length q) mod 256" "\<forall>i < length q. lp_dma_buf p ! ((?t + i) mod 256) = q ! i"
    using assms(1) by (simp_all add: holds_def lcd_pos_def)
  have "lp_dma_buf (lcd_dma b p) ! ((?t + i) mod 256) = (q @ [b]) ! i" if "i < Suc (length q)" for i
  proof (cases "i = length q")
    case True
    then show ?thesis using p(1) by (simp add: lcd_dma_def p(5))
  next
    case False
    then have "i < length q" using that by simp
    moreover from this have "(?t + i) mod 256 \<noteq> (?t + length q) mod 256"
      using assms(2) by (intro ring_index_inj) simp_all
    ultimately show ?thesis using p(6) by (simp add: lcd_dma_def p(5) nth_append)
  qed
  moreover have "256 - unat (lp_dma_left (lcd_dma b p)) = (?t + length (q @ [b])) mod 256"
    using left_next(1) [OF p(2,3)] by (simp add: lcd_dma_def p(5) mod_Suc_eq)
  ultimately show ?thesis
    using p(1,4) assms(2) left_next(2,3) [OF p(2,3)]
    by (simp add: holds_def lcd_pos_def) (simp add: lcd_dma_def)
qed

lemma holds_pop:
  assumes "holds p (b # q)"
  shows "fst (usart1_rx_pop False p) = Some b \<and> holds (snd (usart1_rx_pop False p)) q"
proof -
  let ?t = "unat (lp_tail p)"
  have p: "length (lp_dma_buf p) = 256" "0 < unat (lp_dma_left p)" "unat (lp_dma_left p) \<le> 256" "?t < 256"
    "lcd_pos p = (?t + Suc (length q)) mod 256" "Suc (length q) < 256"
    and buf: "\<And>i. i < Suc (length q) \<Longrightarrow> lp_dma_buf p ! ((?t + i) mod 256) = (b # q) ! i"
    using assms by (simp_all add: holds_def)
  have "?t \<noteq> lcd_pos p"
    using ring_index_inj [of 0 "Suc (length q)" ?t] p(4-6) by simp
  then have ne: "lp_tail p \<noteq> RX_DMA_SIZE - dma_counter False p" using head_word [OF assms] by metis
  have pop: "usart1_rx_pop False p = (Some (lp_dma_buf p ! ?t), p\<lparr>lp_tail := (lp_tail p + 1) AND (RX_DMA_SIZE - 1)\<rparr>)"
    unfolding usart1_rx_pop_def Let_def by (rule if_not_P [OF ne])
  have shift: "(Suc ?t mod 256 + i) mod 256 = (?t + Suc i) mod 256" for i by (simp add: mod_add_left_eq)
  have "lp_dma_buf p ! ((Suc ?t mod 256 + i) mod 256) = q ! i" if "i < length q" for i
    unfolding shift using buf [of "Suc i"] that by simp
  moreover have "lcd_pos p = (Suc ?t mod 256 + length q) mod 256" by (simp only: shift p(5))
  ultimately show ?thesis
    unfolding pop using p(1-4,6) buf [of 0] by (simp add: holds_def unat_next lcd_pos_def)
qed

lemma holds_empty: "holds p [] \<Longrightarrow> usart1_rx_pop False p = (None, p)"
proof -
  assume p: "holds p []"
  then have "unat (lp_tail p) = lcd_pos p" by (simp add: holds_def)
  then have "lp_tail p = RX_DMA_SIZE - dma_counter False p" using head_word [OF p] by (metis word_unat_eq_iff)
  then show ?thesis unfolding usart1_rx_pop_def Let_def by (rule if_P)
qed

interpretation lcd_queue: byte_queue holds lcd_dma "usart1_rx_pop False" 255
  by unfold_locales (simp_all only: holds_arrival holds_empty holds_pop)

section \<open>The poll over the ring\<close>

lemma holds_arrivals:
  "holds p q \<Longrightarrow> length q + length bs \<le> 255 \<Longrightarrow> holds (fold lcd_dma bs p) (q @ bs)"
proof (induction bs arbitrary: p q)
  case (Cons b bs)
  then show ?case using Cons.IH [of "lcd_dma b p" "q @ [b]"] holds_arrival [of p q b] by simp
qed simp

text \<open>A read that meets the reload is harmless as long as a byte waits.\<close>

lemma reload_pop:
  assumes "holds p (b # q)"
  shows "usart1_rx_pop reload p = usart1_rx_pop False p"
proof (cases "reload \<and> lp_dma_left p = RX_DMA_SIZE")
  case True
  have t: "unat (lp_tail p) < 256" using assms by (simp add: holds_def)
  have "lp_tail p \<noteq> RX_DMA_SIZE" using t by auto
  moreover have "lp_tail p \<noteq> 0"
  proof
    assume "lp_tail p = 0"
    then have "Suc (length q) mod 256 = 0" "Suc (length q) < 256"
      using assms True by (simp_all add: holds_def lcd_pos_def)
    then show False by (metis mod_less nat.distinct(1))
  qed
  ultimately show ?thesis using True by (simp add: usart1_rx_pop_def dma_counter_def)
next
  case False
  then show ?thesis by (auto simp: usart1_rx_pop_def dma_counter_def)
qed

lemma step_ring:
  "parser_step t b (d\<lparr>dg_rx_ring := r\<rparr>) out =
   (let (got, d, out) = parser_step t b d out in (got, d\<lparr>dg_rx_ring := r\<rparr>, out))"
  by (simp add: parser_step_def ps_collect_def ps_complete_def Let_def split: parse_state.split)

lemma drain_ring: "rx_drain t bs (d\<lparr>dg_rx_ring := r\<rparr>) out = rx_drain t bs d out"
proof (induction bs arbitrary: d out)
  case (Cons b bs)
  show ?case
    by (cases "parser_step t b d out") (simp add: step_ring Cons)
qed simp

lemma poll_drains:
  assumes "holds p q" "calm turns q"
  shows "case lcd_poll turns now p d out of
      None \<Rightarrow> length turns \<le> length q + length (arrivals turns)
    | Some (got, p', d', out', left) \<Rightarrow>
        \<exists>used rest. turns = used @ left \<and>
          rx_drain now (q @ arrivals used) d out = (got, d'\<lparr>dg_rx_ring := rest\<rparr>, out') \<and> holds p' rest"
  using assms
proof (induction turns arbitrary: p q d out)
  case (Cons x turns)
  obtain bs reload where x: "x = (bs, reload)" by (cases x)
  let ?p = "fold lcd_dma bs p"
  have here: "holds ?p (q @ bs)" and after: "calm turns (tl (q @ bs))" and edge: "reload \<longrightarrow> q @ bs \<noteq> []"
    using Cons.prems holds_arrivals [of p q bs] by (simp_all add: x)
  show ?case
  proof (cases "q @ bs")
    case Nil
    then have "usart1_rx_pop reload ?p = (None, ?p)" using here edge holds_empty [of ?p] by auto
    then show ?thesis using here Nil by (auto simp: x arrivals_def intro!: exI [of _ "[(bs, reload)]"])
  next
    case (Cons b q')
    obtain p1 where pop: "usart1_rx_pop reload ?p = (Some b, p1)" "holds p1 q'"
      using holds_pop [of ?p b q'] reload_pop [of ?p b q' reload] here Cons
      by (cases "usart1_rx_pop False ?p") auto
    have all: "q @ arrivals ((bs, reload) # ts) = b # q' @ arrivals ts" for ts
      using Cons by (simp add: arrivals_def flip: append_assoc)
    then have size: "length q + length (arrivals ((bs, reload) # ts)) = Suc (length q' + length (arrivals ts))" for ts
      by (metis length_append length_Cons)
    obtain g d1 out1 where step: "parser_step now b d out = (g, d1, out1)" by (rule prod_cases3)
    show ?thesis
    proof (cases g)
      case True
      then show ?thesis
        using pop step all [of "[]"] by (auto simp: x arrivals_def intro!: exI [of _ "[(bs, reload)]"])
    next
      case False
      then have run: "lcd_poll (x # turns) now p d out = lcd_poll turns now p1 d1 out1"
        using pop(1) step by (simp add: x)
      have IH: "case lcd_poll turns now p1 d1 out1 of
          None \<Rightarrow> length turns \<le> length q' + length (arrivals turns)
        | Some (got, p', d', out', left) \<Rightarrow>
            \<exists>used rest. turns = used @ left \<and>
              rx_drain now (q' @ arrivals used) d1 out1 = (got, d'\<lparr>dg_rx_ring := rest\<rparr>, out') \<and> holds p' rest"
        using after Cons by (intro Cons.IH pop) simp
      show ?thesis
      proof (cases "lcd_poll turns now p1 d1 out1")
        case None
        then show ?thesis using IH size [of turns] unfolding run by (simp add: x)
      next
        case (Some r)
        obtain got p' d' out' left where r: "r = (got, p', d', out', left)" by (rule prod_cases5)
        from IH obtain used rest where u: "turns = used @ left" "holds p' rest"
          "rx_drain now (q' @ arrivals used) d1 out1 = (got, d'\<lparr>dg_rx_ring := rest\<rparr>, out')"
          by (auto simp: Some r)
        have "rx_drain now (q @ arrivals (x # used)) d out = (got, d'\<lparr>dg_rx_ring := rest\<rparr>, out')"
          using u(3) step False by (simp add: x all)
        moreover have "x # turns = (x # used) @ left" using u(1) by simp
        ultimately show ?thesis unfolding run Some r option.case prod.case using u(2) by blast
      qed
    qed
  qed
qed simp

section \<open>Properties\<close>

text \<open>
  The receive ring is a queue. However arrivals and reads are interleaved, as long as never
  more than 255 bytes wait, the reads return what the reads of a list would, byte for byte and
  empty exactly when it is, and the ring ends up holding what the list holds: nothing is lost,
  doubled or reordered across the end of the ring.
\<close>

theorem usart1_ring_is_queue:
  assumes "holds p q" "never_over 255 ops q"
  shows "fst (queue_run lcd_dma (usart1_rx_pop False) ops p) = fst (queue_run list_put list_get ops q) \<and>
    holds (snd (queue_run lcd_dma (usart1_rx_pop False) ops p)) (snd (queue_run list_put list_get ops q))"
  by (rule lcd_queue.refines [OF assms])

text \<open>
  C23: The poll of the panel may be read over a list. Bytes may arrive before each read of the
  poll, and a read may meet the reload of the DMA counter. On two conditions, that no read finds
  more than 255 bytes waiting and that a read meeting the reload finds one at least, the poll
  over the ring returns the frame that the poll over the list returns, started on the bytes that
  waited followed by those that arrived while it ran, with the same parser state, and leaves in
  the ring exactly the bytes the other leaves in the list; and it does return, within one read
  more than there are bytes. (Without the second condition it would not hold: see
  \<open>reload_edge_replays_ring\<close>.)
\<close>

theorem lcd_poll_refines_drain:
  assumes "holds p (dg_rx_ring d)" "calm turns (dg_rx_ring d)"
  shows "case lcd_poll turns now p d out of
      None \<Rightarrow> length turns \<le> length (dg_rx_ring d) + length (arrivals turns)
    | Some (got, p', d', out', left) \<Rightarrow>
        \<exists>used rest. turns = used @ left \<and>
          dgus_rx_poll now (d\<lparr>dg_rx_ring := dg_rx_ring d @ arrivals used\<rparr>) out =
            (got, d'\<lparr>dg_rx_ring := rest\<rparr>, out') \<and> holds p' rest"
  using poll_drains [OF assms, of now d out] by (auto simp: dgus_rx_poll_def drain_ring split: option.splits)

text \<open>
  Reading the counter in the moment of its reload is not harmless. With the byte at the end of
  the ring already taken and nothing waiting, a read that still sees the counter at 0 returns the
  byte of the previous turn, and after it the whole ring but that byte counts as waiting: the
  next 255 reads return old bytes. (The comment in the code takes the next read to set it right.)
\<close>

theorem reload_edge_replays_ring:
  assumes "holds p []" "lp_dma_left p = RX_DMA_SIZE"
  shows "fst (usart1_rx_pop True p) = Some (lp_dma_buf p ! 0) \<and>
    holds (snd (usart1_rx_pop True p)) (drop 1 (lp_dma_buf p))"
proof -
  have p: "length (lp_dma_buf p) = 256" "unat (lp_tail p) = 0"
    using assms by (auto simp: holds_def lcd_pos_def)
  then have "lp_tail p = 0" by (simp add: unat_eq_zero)
  note p = p(1) this
  have "usart1_rx_pop True p = (Some (lp_dma_buf p ! 0), p\<lparr>lp_tail := 1\<rparr>)"
    using assms(2) p(2) by (simp add: usart1_rx_pop_def dma_counter_def)
  then show ?thesis using p assms(2) by (simp add: holds_def lcd_pos_def)
qed

definition wit_ring :: lcd_port where
  "wit_ring = \<lparr>lp_dma_buf = replicate 256 7, lp_dma_left = 9, lp_tail = 0\<rparr>"

theorem usart1_ring_is_queue_witness:
  "fst (queue_run lcd_dma (usart1_rx_pop False) [Arrive 1, Arrive 2, Read, Arrive 3, Read, Read, Read]
     (usart1_init wit_ring)) = [Some 1, Some 2, Some 3, None]"
  using usart1_ring_is_queue [of "usart1_init wit_ring" "[]"
      "[Arrive 1, Arrive 2, Read, Arrive 3, Read, Read, Read]"] holds_init [of wit_ring]
  by (simp add: wit_ring_def list_put_def list_get_def)

theorem lcd_poll_refines_drain_witness:
  "\<exists>got p' d' out' used left rest.
     lcd_poll [([], False), ([0xA5, 3], True), ([], False), ([0x82], False), ([], False), ([], False)] 5
         (lcd_dma 0x5A (usart1_init wit_ring)) (dgus_st_zero\<lparr>dg_rx_ring := [0x5A]\<rparr>) dgus_frame_zero =
       Some (got, p', d', out', left) \<and>
     [([], False), ([0xA5, 3], True), ([], False), ([0x82], False), ([], False), ([], False)] = used @ left \<and>
     dgus_rx_poll 5 (dgus_st_zero\<lparr>dg_rx_ring := [0x5A] @ arrivals used\<rparr>) dgus_frame_zero =
       (got, d'\<lparr>dg_rx_ring := rest\<rparr>, out') \<and> holds p' rest"
proof -
  let ?turns = "[([], False), ([0xA5, 3], True), ([], False), ([0x82], False), ([], False), ([], False)] :: lcd_turn list"
  let ?p = "lcd_dma 0x5A (usart1_init wit_ring)" and ?d = "dgus_st_zero\<lparr>dg_rx_ring := [0x5A]\<rparr>"
  have "holds ?p [0x5A]"
    using holds_arrival [OF holds_init [of wit_ring], of "0x5A"] by (simp add: wit_ring_def)
  then have h: "holds ?p (dg_rx_ring ?d)" by simp
  have "calm ?turns (dg_rx_ring ?d)" by simp
  from lcd_poll_refines_drain [OF h this, of 5 dgus_frame_zero]
  show ?thesis by (auto simp: arrivals_def split: option.splits)
qed

theorem reload_edge_replays_ring_witness:
  "fst (usart1_rx_pop True (usart1_init wit_ring)) = Some 7 \<and>
   holds (snd (usart1_rx_pop True (usart1_init wit_ring))) (replicate 255 7)"
proof -
  have "holds (usart1_init wit_ring) []" by (rule holds_init) (simp add: wit_ring_def)
  from reload_edge_replays_ring [OF this] show ?thesis by (simp add: usart1_init_def wit_ring_def)
qed

end
