(* ===== verification/I2c_Unstick.thy ===== *)
theory I2c_Unstick
  imports Fram
begin

text \<open>
  The recovery of a stuck bus before the I2C peripheral is started, \<open>i2c1_bus_unstick\<close> and
  \<open>i2c1_init\<close> of \<open>fw/drivers/i2c1.c\<close>. A device that was cut off in the middle of a byte holds
  SDA low until it has been clocked through the rest; \<open>sda k\<close> is the level it gives the line after
  k pulses of SCL, the same however often the code reads it between two pulses. The short waits
  are left out, and so is the end in \<open>Error_Handler\<close> when the peripheral refuses its settings.
\<close>

section \<open>Operations\<close>

datatype line_cmd = SDA_INPUT | SCL_OUTPUT | SDA_OUTPUT | SCL_WRITE bool | SDA_WRITE bool
  | PINS_TO_I2C | I2C_INIT

text \<open>One pulse of SCL.\<close>

definition scl_pulse :: "line_cmd list" where
  "scl_pulse = [SCL_WRITE False, SCL_WRITE True]"

function unstick_clocks :: "(nat \<Rightarrow> bool) \<Rightarrow> u8 \<Rightarrow> line_cmd list \<Rightarrow> u8 \<times> line_cmd list" where
  "unstick_clocks sda clocks log =
     (if clocks < 9
      then (let clocks = clocks + 1; log = log @ scl_pulse
            in if sda (unat clocks) then (clocks, log) else unstick_clocks sda clocks log)
      else (clocks, log))"
  by auto

termination
  by (relation "measure (\<lambda>(sda, clocks, log). 9 - unat clocks)")
    (auto simp: word_less_nat_alt unat_word_ariths)

declare unstick_clocks.simps [simp del]

text \<open>It ends in a STOP condition: SDA rises while SCL is high.\<close>

definition stop_condition :: "line_cmd list" where
  "stop_condition = [SDA_WRITE False, SDA_OUTPUT, SDA_WRITE True]"

definition i2c1_bus_unstick :: "(nat \<Rightarrow> bool) \<Rightarrow> u8 \<times> line_cmd list" where
  "i2c1_bus_unstick sda =
     (let log = [SDA_INPUT, SCL_WRITE True, SCL_OUTPUT]
      in if sda 0 then (0, log)
         else
           (let (clocks, log) = unstick_clocks sda 0 log
            in if \<not> sda (unat clocks) then (0xFF, log) else (clocks, log @ stop_condition)))"

text \<open>The number of events, what was done to the pins, and the bus with its error counter.\<close>

definition i2c1_init :: "(nat \<Rightarrow> bool) \<Rightarrow> i2c_st \<Rightarrow> u8 \<times> line_cmd list \<times> i2c_st" where
  "i2c1_init sda s =
     (let (events, log) = i2c1_bus_unstick sda
      in (events, log @ [PINS_TO_I2C, I2C_INIT], s\<lparr>ic_err_count := 0\<rparr>))"

section \<open>The recovery\<close>

lemma unstick_clocks_value:
  "k \<le> 9 \<Longrightarrow> unstick_clocks sda (of_nat k) log =
     (let j = (if \<exists>j. k < j \<and> j \<le> 9 \<and> sda j then LEAST j. k < j \<and> sda j else 9)
      in (of_nat j, log @ concat (replicate (j - k) scl_pulse)))"
proof (induction "9 - k" arbitrary: k log)
  case 0
  then have k: "k = 9" and none: "\<not> (\<exists>j. k < j \<and> j \<le> 9 \<and> sda j)" using 0 by auto
  show ?case unfolding if_not_P [OF none] by (simp add: k unstick_clocks.simps [of sda])
next
  case (Suc x)
  have k: "k < 9" using Suc.hyps(2) by simp
  then have w: "(of_nat k :: u8) < 9" "unat (of_nat k + 1 :: u8) = Suc k" "of_nat k + 1 = (of_nat (Suc k) :: u8)"
    by (simp_all add: word_less_nat_alt unat_of_nat unat_word_ariths)
  have n: "unat (of_nat (Suc k) :: u8) = Suc k" using w(2) by (simp only: w(3))
  have turn: "unstick_clocks sda (of_nat k) log =
      (if sda (Suc k) then (of_nat (Suc k), log @ scl_pulse)
       else unstick_clocks sda (of_nat (Suc k)) (log @ scl_pulse))"
    by (subst unstick_clocks.simps) (simp only: Let_def w n if_True)
  show ?case
  proof (cases "sda (Suc k)")
    case True
    then have "(LEAST j. k < j \<and> sda j) = Suc k" by (intro Least_equality) auto
    moreover have "\<exists>j. k < j \<and> j \<le> 9 \<and> sda j" using True k by (intro exI [of _ "Suc k"]) simp
    ultimately show ?thesis
      using True turn by simp
  next
    case False
    have iff: "(k < j \<and> sda j) = (Suc k < j \<and> sda j)" for j
      using False by (cases "j = Suc k") auto
    then have ex: "(\<exists>j. k < j \<and> j \<le> 9 \<and> sda j) = (\<exists>j. Suc k < j \<and> j \<le> 9 \<and> sda j)" by blast
    have le: "Suc k \<le> (if \<exists>j. Suc k < j \<and> j \<le> 9 \<and> sda j then LEAST j. Suc k < j \<and> sda j else 9)"
      using k by (auto dest: LeastI [where P = "\<lambda>j. Suc k < j \<and> sda j", OF conjI])
    have rep: "scl_pulse @ concat (replicate (j - Suc k) scl_pulse) = concat (replicate (j - k) scl_pulse)"
      if "Suc k \<le> j" for j using that by (simp add: Suc_diff_Suc [symmetric] del: replicate_Suc) simp
    have "unstick_clocks sda (of_nat k) log = unstick_clocks sda (of_nat (Suc k)) (log @ scl_pulse)"
      using False by (simp only: turn if_False)
    also have "\<dots> = (let j = (if \<exists>j. Suc k < j \<and> j \<le> 9 \<and> sda j then LEAST j. Suc k < j \<and> sda j else 9)
        in (of_nat j, log @ concat (replicate (j - k) scl_pulse)))"
      using Suc.hyps(1) [of "Suc k" "log @ scl_pulse"] Suc.hyps(2) rep [OF le] by (simp add: Let_def)
    finally show ?thesis by (simp only: ex iff)
  qed
qed

text \<open>
  C26: The recovery clocks the bus exactly as often as the device needs, nine times at most. It
  records the number of pulses after which SDA was free and then makes a STOP, or records 0xFF
  after nine pulses if it never was; a free bus gets no pulse and no STOP.
\<close>

theorem bus_unstick_exact:
  "i2c1_bus_unstick sda =
     (let start = [SDA_INPUT, SCL_WRITE True, SCL_OUTPUT]
      in if \<exists>k \<le> 9. sda k
         then (let k = LEAST k. sda k
               in (of_nat k, start @ concat (replicate k scl_pulse) @ (if k = 0 then [] else stop_condition)))
         else (0xFF, start @ concat (replicate 9 scl_pulse)))"
proof (cases "sda 0")
  case True
  then have "(LEAST k. sda k) = 0" by (intro Least_equality) auto
  then show ?thesis using True by (auto simp: i2c1_bus_unstick_def Let_def)
next
  case False
  then have pos: "(0 < j \<and> sda j) = sda j" for j by (cases j) auto
  have ex: "(\<exists>j. 0 < j \<and> j \<le> 9 \<and> sda j) = (\<exists>k \<le> 9. sda k)" using pos by blast
  show ?thesis
  proof (cases "\<exists>k \<le> 9. sda k")
    case True
    then obtain k where k: "k \<le> 9" "sda k" by blast
    then have l: "sda (LEAST k. sda k)" "(LEAST k. sda k) \<le> 9"
      by (auto intro: LeastI Least_le order_trans)
    then have "(LEAST k. sda k) \<noteq> 0" using False by (cases "LEAST k. sda k") auto
    then show ?thesis
      using unstick_clocks_value [of 0 sda "[SDA_INPUT, SCL_WRITE True, SCL_OUTPUT]"] False True l
      by (simp add: i2c1_bus_unstick_def ex pos Let_def unat_of_nat)
  next
    case none: False
    then have "\<not> sda 9" by auto
    moreover have "unstick_clocks sda 0 [SDA_INPUT, SCL_WRITE True, SCL_OUTPUT] =
        (9, [SDA_INPUT, SCL_WRITE True, SCL_OUTPUT] @ concat (replicate 9 scl_pulse))"
      using unstick_clocks_value [of 0 sda "[SDA_INPUT, SCL_WRITE True, SCL_OUTPUT]"] none
      unfolding ex if_not_P [OF none] by simp
    ultimately show ?thesis
      unfolding Let_def if_not_P [OF none] by (simp add: i2c1_bus_unstick_def False)
  qed
qed

theorem bus_unstick_exact_witness:
  "i2c1_bus_unstick (\<lambda>k. 2 \<le> k) = (2, [SDA_INPUT, SCL_WRITE True, SCL_OUTPUT, SCL_WRITE False, SCL_WRITE True,
     SCL_WRITE False, SCL_WRITE True, SDA_WRITE False, SDA_OUTPUT, SDA_WRITE True])"
proof -
  have "(LEAST k. 2 \<le> k) = (2 :: nat)" by (intro Least_equality) auto
  moreover have "\<exists>k \<le> 9. 2 \<le> (k :: nat)" by (intro exI [of _ 2]) simp
  ultimately show ?thesis
    using bus_unstick_exact [of "\<lambda>k. 2 \<le> k"]
    by (simp add: Let_def scl_pulse_def stop_condition_def numeral_2_eq_2)
qed

end
