(* ===== verification/Modbus_Bounds.thy ===== *)
theory Modbus_Bounds
  imports Modbus_Core "HOL-Library.Monad_Syntax"
begin

text \<open>
  The decoder of \<open>fw/src/app_modbus_core.c\<close> over its arrays. The theory Modbus_Core gives each
  answer as a list; here every access of the C code to the received frame, the register and coil
  tables and the response buffer is checked against the size of the array, as in C it is not: an
  access outside has no result. The response buffer is written in place, byte by byte.
\<close>

section \<open>Array accesses\<close>

definition rd :: "'a list \<Rightarrow> nat \<Rightarrow> 'a option" where
  "rd xs i = (if i < length xs then Some (xs ! i) else None)"

definition wr :: "nat \<Rightarrow> 'a \<Rightarrow> 'a list \<Rightarrow> 'a list option" where
  "wr i v xs = (if i < length xs then Some (xs[i := v]) else None)"

fun fold_opt :: "('a \<Rightarrow> 's \<Rightarrow> 's option) \<Rightarrow> 'a list \<Rightarrow> 's \<Rightarrow> 's option" where
  "fold_opt f [] s = Some s"
| "fold_opt f (x # xs) s = f x s \<bind> fold_opt f xs"

section \<open>Operations\<close>

abbreviation (input) MB_RESP_MAX :: nat where "MB_RESP_MAX \<equiv> 125"

definition word_at :: "u8 list \<Rightarrow> nat \<Rightarrow> u16 option" where
  "word_at frame i = do { h \<leftarrow> rd frame i; l \<leftarrow> rd frame (i + 1); Some (be16 h l) }"

text \<open>The check bytes of the first n bytes, behind them; the result is the length.\<close>

definition end_crc :: "nat \<Rightarrow> u8 list \<Rightarrow> (nat \<times> u8 list) option" where
  "end_crc n resp = do {
     crc \<leftarrow> (if n \<le> length resp then Some (mb_crc16 (take n resp)) else None);
     resp \<leftarrow> wr n (ucast (drop_bit 8 crc)) resp;
     resp \<leftarrow> wr (n + 1) (ucast crc) resp;
     Some (n + 2, resp) }"

definition read_regs_run :: "mb_core \<Rightarrow> u8 list \<Rightarrow> u8 \<Rightarrow> u8 list \<Rightarrow> (nat \<times> u8 list) option" where
  "read_regs_run mb frame fc resp = do {
     addr \<leftarrow> word_at frame 2;
     num \<leftarrow> word_at frame 4;
     if num = 0 \<or> MB_REG_COUNT < unat num \<or> MB_REG_COUNT < unat addr + unat num then Some (0, resp)
     else do {
       resp \<leftarrow> wr 0 (device_addr mb) resp;
       resp \<leftarrow> wr 1 fc resp;
       resp \<leftarrow> wr 2 (ucast (num * 2)) resp;
       (j, resp) \<leftarrow> fold_opt (\<lambda>i (j, resp). do {
           v \<leftarrow> rd (holding mb) i;
           resp \<leftarrow> wr j (hi8 v) resp;
           resp \<leftarrow> wr (j + 1) (lo8 v) resp;
           Some (j + 2, resp) }) [unat addr ..< unat (addr + num)] (3, resp);
       end_crc j resp } }"

text \<open>The answer of a write repeats the request.\<close>

definition echo_run :: "mb_core \<Rightarrow> u8 \<Rightarrow> u8 list \<Rightarrow> u8 list \<Rightarrow> (nat \<times> u8 list) option" where
  "echo_run mb fc frame resp = do {
     resp \<leftarrow> wr 0 (device_addr mb) resp;
     resp \<leftarrow> wr 1 fc resp;
     resp \<leftarrow> fold_opt (\<lambda>k resp. do { b \<leftarrow> rd frame k; wr k b resp }) [2, 3, 4, 5] resp;
     end_crc 6 resp }"

definition write_reg_run :: "mb_core \<Rightarrow> u8 list \<Rightarrow> u8 list \<Rightarrow> (mb_core \<times> nat \<times> u8 list) option" where
  "write_reg_run mb frame resp = do {
     addr \<leftarrow> word_at frame 2;
     val \<leftarrow> word_at frame 4;
     if MB_REG_COUNT \<le> unat addr then Some (mb, 0, resp)
     else do {
       h \<leftarrow> wr (unat addr) val (holding mb);
       let mb = mb\<lparr>holding := h, last_write_addr := addr\<rparr>;
       (n, resp) \<leftarrow> echo_run mb 0x06 frame resp;
       Some (mb, n, resp) } }"

definition write_coil_run :: "mb_core \<Rightarrow> u8 list \<Rightarrow> u8 list \<Rightarrow> (mb_core \<times> nat \<times> u8 list) option" where
  "write_coil_run mb frame resp = do {
     addr \<leftarrow> word_at frame 2;
     val \<leftarrow> word_at frame 4;
     if MB_COIL_COUNT \<le> unat addr then Some (mb, 0, resp)
     else do {
       c \<leftarrow> wr (unat addr) (if val \<noteq> 0 then 0xFF else 0) (coils mb);
       let mb = mb\<lparr>coils := c\<rparr>;
       (n, resp) \<leftarrow> echo_run mb 0x05 frame resp;
       Some (mb, n, resp) } }"

text \<open>One data byte: nbits coils from l, xored into the byte k of the cleared buffer.\<close>

definition coil_byte_run :: "mb_core \<Rightarrow> nat \<Rightarrow> nat \<Rightarrow> nat \<times> u8 list \<Rightarrow> (nat \<times> u8 list) option" where
  "coil_byte_run mb nbits k =
     fold_opt (\<lambda>j (l, resp). do {
       c \<leftarrow> rd (coils mb) l;
       b \<leftarrow> rd resp k;
       resp \<leftarrow> wr k (b XOR push_bit j (if c \<noteq> 0 then 1 else 0)) resp;
       Some (l + 1, resp) }) [0 ..< nbits]"

definition read_coils_run :: "mb_core \<Rightarrow> u8 list \<Rightarrow> u8 \<Rightarrow> u8 list \<Rightarrow> (nat \<times> u8 list) option" where
  "read_coils_run mb frame fc resp = do {
     addr \<leftarrow> word_at frame 2;
     num \<leftarrow> word_at frame 4;
     if num = 0 \<or> MB_COIL_COUNT < unat addr + unat num then Some (0, resp)
     else do {
       let rem = unat num mod 8;
       let bytes = unat num div 8 + (if rem \<noteq> 0 then 1 else 0);
       resp \<leftarrow> wr 0 (device_addr mb) resp;
       resp \<leftarrow> wr 1 fc resp;
       resp \<leftarrow> wr 2 (of_nat bytes) resp;
       (k, l, resp) \<leftarrow> fold_opt (\<lambda>i (k, l, resp). do {
           let nbits = (if i = 1 \<and> rem \<noteq> 0 then rem else 8);
           (l, resp) \<leftarrow> coil_byte_run mb nbits k (l, resp);
           Some (k + 1, l, resp) }) (rev [1 ..< bytes + 1]) (3, unat addr, resp);
       end_crc k resp } }"

text \<open>Address and check bytes of a serial request, the least length of either.\<close>

definition accept_run :: "mb_core \<Rightarrow> u8 list \<Rightarrow> mb_mode \<Rightarrow> bool option" where
  "accept_run mb frame mode =
     (let len = length frame
      in case mode of
        MB_MODE_RTU \<Rightarrow>
          if len < 8 then Some False
          else do {
            a \<leftarrow> rd frame 0;
            if a \<noteq> device_addr mb then Some False
            else do {
              let crc = mb_crc16 (take (len - 2) frame);
              c1 \<leftarrow> rd frame (len - 2);
              c2 \<leftarrow> rd frame (len - 1);
              Some (c1 = ucast (drop_bit 8 crc) \<and> c2 = ucast crc) } }
      | MB_MODE_TCP \<Rightarrow> Some (6 \<le> len))"

text \<open>The function code 0 stands for none processed.\<close>

definition decode_run :: "mb_core \<Rightarrow> u8 list \<Rightarrow> mb_mode \<Rightarrow> u8 list \<Rightarrow> (mb_core \<times> nat \<times> u8 list \<times> u8) option" where
  "decode_run mb frame mode resp = do {
     accepted \<leftarrow> accept_run mb frame mode;
     if \<not> accepted then Some (mb, 0, resp, 0)
     else do {
       resp \<leftarrow> (if MB_RESP_MAX \<le> length resp then Some (replicate MB_RESP_MAX 0 @ drop MB_RESP_MAX resp) else None);
       fc \<leftarrow> rd frame 1;
       (mb, n, resp) \<leftarrow>
         (if fc = 0x01 \<or> fc = 0x02 then map_option (Pair mb) (read_coils_run mb frame fc resp)
          else if fc = 0x03 \<or> fc = 0x04 then map_option (Pair mb) (read_regs_run mb frame fc resp)
          else if fc = 0x05 then write_coil_run mb frame resp
          else if fc = 0x06 then write_reg_run mb frame resp
          else Some (mb, 0, resp));
       Some (mb, n, resp, if n \<noteq> 0 then fc else 0) } }"

section \<open>The buffer as a list\<close>

text \<open>The cleared buffer with xs written at its start.\<close>

definition pad :: "u8 list \<Rightarrow> u8 list" where
  "pad xs = xs @ replicate (MB_RESP_MAX - length xs) 0"

lemma pad_nil: "replicate MB_RESP_MAX 0 = pad []"
  by (simp add: pad_def)

lemma take_pad [simp]: "take (length xs) (pad xs) = xs"
  by (simp add: pad_def)

lemma length_pad: "length xs \<le> 125 \<Longrightarrow> length (pad xs) = 125"
  by (simp add: pad_def)

lemma pad_zero: "length xs < 125 \<Longrightarrow> pad (xs @ [0]) = pad xs"
  by (simp add: pad_def Suc_diff_Suc flip: replicate_Suc)

lemma wr_pad: "i = length xs \<Longrightarrow> i < 125 \<Longrightarrow> wr i b (pad xs) = Some (pad (xs @ [b]))"
proof -
  assume i: "i = length xs" "i < 125"
  then have "replicate (125 - length xs) (0 :: u8) = 0 # replicate (125 - Suc (length xs)) 0"
    by (simp add: Suc_diff_Suc flip: replicate_Suc)
  then show ?thesis using i by (simp add: wr_def length_pad) (simp add: pad_def)
qed

lemma last_pad:
  assumes "k = length xs" "k < 125"
  shows "rd (pad (xs @ [b])) k = Some b" "wr k v (pad (xs @ [b])) = Some (pad (xs @ [v]))"
  using assms by (simp_all add: rd_def wr_def length_pad) (simp_all add: pad_def nth_append)

lemma fold_opt_append: "fold_opt f (xs @ ys) s = fold_opt f xs s \<bind> fold_opt f ys"
proof (induction xs arbitrary: s)
  case (Cons x xs)
  then show ?case by (cases "f x s") simp_all
qed simp

lemma end_crc_pad:
  "n = length xs \<Longrightarrow> n + 2 \<le> 125 \<Longrightarrow> end_crc n (pad xs) = Some (length (xs @ crc_bytes xs), pad (xs @ crc_bytes xs))"
  by (simp add: end_crc_def length_pad wr_pad crc_bytes_def Let_def)

section \<open>Each operation on its list\<close>

lemma word_at_frame: "i + 1 < length frame \<Longrightarrow> word_at frame i = Some (be16 (frame ! i) (frame ! (i + 1)))"
  by (simp add: word_at_def rd_def)

lemma regs_loop:
  assumes "\<forall>i \<in> set is. i < length (holding mb)" "n + 2 * length is \<le> 125" "n = length xs"
  shows "fold_opt (\<lambda>i (j, resp). do {
           v \<leftarrow> rd (holding mb) i;
           resp \<leftarrow> wr j (hi8 v) resp;
           resp \<leftarrow> wr (j + 1) (lo8 v) resp;
           Some (j + 2, resp) }) is (n, pad xs) =
    (let ys = xs @ concat (map (\<lambda>i. [hi8 (holding mb ! i), lo8 (holding mb ! i)]) is)
     in Some (length ys, pad ys))"
  using assms
proof (induction "is" arbitrary: n xs)
  case (Cons i "is")
  then show ?case
    using Cons.IH [of "n + 2" "xs @ [hi8 (holding mb ! i), lo8 (holding mb ! i)]"]
    by (simp add: rd_def wr_pad Let_def)
qed (simp add: Let_def)

lemma read_regs_run_list:
  assumes "6 \<le> length frame" "mb_tables_ok mb"
  shows "read_regs_run mb frame fc (pad []) = Some (length (mb_read_regs mb frame fc), pad (mb_read_regs mb frame fc))"
proof -
  define addr where "addr = be16 (frame ! 2) (frame ! 3)"
  define num where "num = be16 (frame ! 4) (frame ! 5)"
  have at: "word_at frame 2 = Some addr" "word_at frame 4 = Some num"
    using assms(1) by (simp_all add: word_at_frame addr_def num_def)
  show ?thesis
  proof (cases "num = 0 \<or> 51 < unat num \<or> 51 < unat addr + unat num")
    case True
    then show ?thesis by (simp add: read_regs_run_def at mb_read_regs_def Let_def flip: addr_def num_def)
  next
    case False
    then have n: "unat (addr + num) = unat addr + unat num" by (subst unat_add_lem [symmetric]) simp_all
    have "\<forall>i \<in> set [unat addr ..< unat addr + unat num]. i < length (holding mb)"
      using False assms(2) by (auto simp: mb_tables_ok_def)
    from regs_loop [OF this, of 3 "[device_addr mb, fc, ucast (num * 2)]"] False
    show ?thesis
      by (simp add: read_regs_run_def at n wr_pad mb_read_regs_def length_pairs Let_def end_crc_pad
          flip: addr_def num_def)
  qed
qed

lemma echo_run_list:
  assumes "6 \<le> length frame"
  shows "echo_run mb fc frame (pad []) = (let r = [device_addr mb, fc, frame ! 2, frame ! 3, frame ! 4, frame ! 5]
    in Some (length (r @ crc_bytes r), pad (r @ crc_bytes r)))"
  using assms by (simp add: echo_run_def wr_pad rd_def end_crc_pad Let_def)

lemma write_reg_run_list:
  assumes "6 \<le> length frame" "mb_tables_ok mb"
  shows "write_reg_run mb frame (pad []) =
    (let (mb', r) = mb_write_reg mb frame in Some (mb', length r, pad r))"
  using assms by (simp add: write_reg_run_def word_at_frame echo_run_list mb_write_reg_def wr_def mb_tables_ok_def Let_def)

lemma write_coil_run_list:
  assumes "6 \<le> length frame" "mb_tables_ok mb"
  shows "write_coil_run mb frame (pad []) =
    (let (mb', r) = mb_write_coil mb frame in Some (mb', length r, pad r))"
  using assms by (simp add: write_coil_run_def word_at_frame echo_run_list mb_write_coil_def wr_def mb_tables_ok_def Let_def)

lemma coil_byte_run_list:
  assumes "l + n \<le> length (coils mb)" "k < 125" "k = length xs"
  shows "coil_byte_run mb n k (l, pad xs) = Some (l + n, pad (xs @ [coil_byte mb l n]))"
  using assms(1)
proof (induction n)
  case 0
  then show ?case using assms(2,3) by (simp add: coil_byte_run_def coil_byte_def pad_zero)
next
  case (Suc n)
  then show ?case
    using assms(2,3) by (simp add: coil_byte_run_def coil_byte_def fold_opt_append rd_def [of "coils mb"] last_pad)
qed

lemma rev_countdown: "rev [1 ..< n + 1] = map (\<lambda>k. n - k) [0 ..< n]"
proof (rule nth_equalityI)
  fix i
  assume "i < length (rev [1 ..< n + 1])"
  then show "rev [1 ..< n + 1] ! i = map (\<lambda>k. n - k) [0 ..< n] ! i"
    by (simp add: rev_nth nth_append del: upt_Suc)
qed simp

lemma coils_loop:
  assumes "m < bytes" "l + 8 * m \<le> length (coils mb)" "k + m \<le> 125" "k = length xs"
  shows "fold_opt (\<lambda>i (k, l, resp). do {
           let nbits = (if i = 1 \<and> rem \<noteq> 0 then rem else 8);
           (l, resp) \<leftarrow> coil_byte_run mb nbits k (l, resp);
           Some (k + 1, l, resp) }) (map (\<lambda>k. bytes - k) [0 ..< m]) (k, l, pad xs) =
    (let ys = xs @ map (\<lambda>k. coil_byte mb (l + 8 * k) 8) [0 ..< m] in Some (length ys, l + 8 * m, pad ys))"
  using assms
proof (induction m)
  case (Suc m)
  then have "bytes - m \<noteq> 1" by simp
  then show ?case
    using Suc coil_byte_run_list [of "l + 8 * m" 8 mb "k + m" "xs @ map (\<lambda>k. coil_byte mb (l + 8 * k) 8) [0 ..< m]"]
    by (simp add: fold_opt_append Let_def add.assoc)
qed (simp add: Let_def)

lemma read_coils_run_list:
  assumes "6 \<le> length frame" "mb_tables_ok mb"
  shows "read_coils_run mb frame fc (pad []) = Some (length (mb_read_coils mb frame fc), pad (mb_read_coils mb frame fc))"
proof -
  define addr where "addr = be16 (frame ! 2) (frame ! 3)"
  define num where "num = be16 (frame ! 4) (frame ! 5)"
  have at: "word_at frame 2 = Some addr" "word_at frame 4 = Some num"
    using assms(1) by (simp_all add: word_at_frame addr_def num_def)
  show ?thesis
  proof (cases "num = 0 \<or> 50 < unat addr + unat num")
    case True
    then show ?thesis by (simp add: read_coils_run_def at mb_read_coils_def Let_def flip: addr_def num_def)
  next
    case False
    define n where "n = unat num"
    define bytes where "bytes = n div 8 + (if n mod 8 \<noteq> 0 then 1 else 0)"
    define b where "b = bytes - 1"
    define w where "w = (if n mod 8 \<noteq> 0 then n mod 8 else 8)"
    have n: "0 < n" "unat addr + n \<le> 50" using False by (auto simp: n_def unat_gt_0)
    then have b: "bytes = Suc b" "8 * b + w = n"
      by (auto simp: b_def bytes_def w_def)
    let ?hd = "[device_addr mb, fc, of_nat bytes]"
    let ?data = "map (\<lambda>k. coil_byte mb (unat addr + 8 * k) 8) [0 ..< b]"
    have down: "rev [1 ..< bytes + 1] = map (\<lambda>k. bytes - k) [0 ..< b] @ [1]"
      unfolding rev_countdown by (simp add: b(1))
    let ?f = "\<lambda>i (k, l, resp). do {
           let nbits = (if i = 1 \<and> n mod 8 \<noteq> 0 then n mod 8 else 8);
           (l, resp) \<leftarrow> coil_byte_run mb nbits k (l, resp);
           Some (k + 1, l, resp) }"
    have coils: "length (coils mb) = 50" using assms(2) by (simp add: mb_tables_ok_def)
    have "fold_opt ?f (map (\<lambda>k. bytes - k) [0 ..< b]) (3, unat addr, pad ?hd) =
        Some (3 + b, unat addr + 8 * b, pad (?hd @ ?data))"
      using coils_loop [of b bytes "unat addr" mb 3 ?hd "n mod 8"] b n coils
      by (simp add: Let_def)
    moreover have "?f (1 :: nat) (3 + b, unat addr + 8 * b, pad (?hd @ ?data)) =
        Some (4 + b, unat addr + n, pad (?hd @ ?data @ [coil_byte mb (unat addr + 8 * b) w]))"
      using coil_byte_run_list [of "unat addr + 8 * b" w mb "3 + b" "?hd @ ?data"] b n coils
      by (simp add: w_def Let_def)
    ultimately have loop: "fold_opt ?f (rev [1 ..< bytes + 1]) (3, unat addr, pad ?hd) =
        Some (4 + b, unat addr + n, pad (?hd @ ?data @ [coil_byte mb (unat addr + 8 * b) w]))"
      unfolding down fold_opt_append by simp
    have same: "map (\<lambda>k. coil_byte mb (unat addr + 8 * k) (if k = bytes - 1 \<and> n mod 8 \<noteq> 0 then n mod 8 else 8)) [0 ..< bytes] =
        ?data @ [coil_byte mb (unat addr + 8 * b) w]"
      by (simp add: b(1) w_def)
    have "mb_read_coils mb frame fc = (?hd @ ?data @ [coil_byte mb (unat addr + 8 * b) w]) @
        crc_bytes (?hd @ ?data @ [coil_byte mb (unat addr + 8 * b) w])"
      unfolding mb_read_coils_def Let_def addr_def [symmetric] num_def [symmetric] n_def [symmetric]
        bytes_def [symmetric] same
      using False by (simp only: n_def if_False append_assoc)
    moreover have "end_crc (4 + b) (pad (?hd @ ?data @ [coil_byte mb (unat addr + 8 * b) w])) =
        Some (length ((?hd @ ?data @ [coil_byte mb (unat addr + 8 * b) w]) @
            crc_bytes (?hd @ ?data @ [coil_byte mb (unat addr + 8 * b) w])),
          pad ((?hd @ ?data @ [coil_byte mb (unat addr + 8 * b) w]) @
            crc_bytes (?hd @ ?data @ [coil_byte mb (unat addr + 8 * b) w])))"
      using n b by (intro end_crc_pad) simp_all
    moreover have "wr 0 (device_addr mb) (pad []) = Some (pad [device_addr mb])"
      "wr 1 fc (pad [device_addr mb]) = Some (pad [device_addr mb, fc])"
      "wr 2 (of_nat bytes) (pad [device_addr mb, fc]) = Some (pad ?hd)"
      by (simp_all add: wr_pad)
    ultimately show ?thesis
      unfolding read_coils_run_def at Option.bind.bind_lunit Let_def n_def [symmetric] bytes_def [symmetric]
      using False loop by (simp only: n_def if_False Option.bind.bind_lunit Let_def prod.case)
  qed
qed

section \<open>The whole decoder\<close>

lemma dispatch_run:
  assumes "6 \<le> length frame" "mb_tables_ok mb"
  shows "(if frame ! 1 = 0x01 \<or> frame ! 1 = 0x02
            then map_option (Pair mb) (read_coils_run mb frame (frame ! 1) (pad []))
          else if frame ! 1 = 0x03 \<or> frame ! 1 = 0x04
            then map_option (Pair mb) (read_regs_run mb frame (frame ! 1) (pad []))
          else if frame ! 1 = 0x05 then write_coil_run mb frame (pad [])
          else if frame ! 1 = 0x06 then write_reg_run mb frame (pad [])
          else Some (mb, 0, pad [])) =
    (let (mb', r) = mb_dispatch mb frame in Some (mb', length r, pad r))"
  by (simp add: mb_dispatch_def read_coils_run_list [OF assms] read_regs_run_list [OF assms]
      write_coil_run_list [OF assms] write_reg_run_list [OF assms] Let_def)

lemma accept_run_list:
  "accept_run mb frame mode = Some (case mode of
      MB_MODE_RTU \<Rightarrow> 8 \<le> length frame \<and> frame ! 0 = device_addr mb \<and>
        [frame ! (length frame - 2), frame ! (length frame - 1)] = crc_bytes (take (length frame - 2) frame)
    | MB_MODE_TCP \<Rightarrow> 6 \<le> length frame)"
  by (cases mode) (auto simp: accept_run_def rd_def crc_bytes_def Let_def)

lemma decode_on_arrays:
  assumes "mb_tables_ok mb" "length resp = 125"
  shows "let (mb', answer, fc) = mb_core_decode mb frame mode
    in \<exists>resp'. decode_run mb frame mode resp = Some (mb', length answer, resp', fc) \<and>
         length resp' = 125 \<and> take (length answer) resp' = answer"
proof -
  define ok where "ok \<longleftrightarrow> (case mode of
      MB_MODE_RTU \<Rightarrow> 8 \<le> length frame \<and> frame ! 0 = device_addr mb \<and>
        [frame ! (length frame - 2), frame ! (length frame - 1)] = crc_bytes (take (length frame - 2) frame)
    | MB_MODE_TCP \<Rightarrow> 6 \<le> length frame)"
  show ?thesis
  proof (cases ok)
    case False
    then show ?thesis
      using assms(2) by (simp add: mb_core_decode_def decode_run_def accept_run_list Let_def flip: ok_def)
  next
    case True
    then have len: "6 \<le> length frame" by (auto simp: ok_def split: mb_mode.splits)
    obtain mb' r where mr: "mb_dispatch mb frame = (mb', r)" by (cases "mb_dispatch mb frame")
    have "length r \<le> 107" using dispatch_length [of mb frame] by (simp add: mr)
    moreover have "decode_run mb frame mode resp = Some (mb', length r, pad r, if length r \<noteq> 0 then frame ! 1 else 0)"
      using True len assms(2) dispatch_run [OF len assms(1)]
      by (simp add: decode_run_def accept_run_list rd_def [of frame 1] pad_nil mr Let_def del: One_nat_def flip: ok_def)
    ultimately show ?thesis
      using True by (simp add: mb_core_decode_def mr length_pad Let_def flip: ok_def)
  qed
qed

section \<open>Properties\<close>

text \<open>
  C20: no request reaches outside an array. For every byte sequence and mode, the decoder run
  over its arrays, with every access to the frame, to the two tables and to the 125 bytes of the
  response buffer checked, has a result: no index it reads or writes is ever out of range. The
  result is the one of the decoder over lists: the same tables, function code and length, and the
  buffer starts with the same answer. The tables keep their sizes, a silent answer changes
  nothing, only function code 6 changes a register, the one in range that it names, and only
  function code 5 a coil.
\<close>

theorem decode_stays_in_bounds:
  assumes "mb_tables_ok mb" "length resp = 125"
  shows "let (mb', answer, fc) = mb_core_decode mb frame mode
    in \<exists>resp'. decode_run mb frame mode resp = Some (mb', length answer, resp', fc) \<and>
         length resp' = 125 \<and> length answer \<le> 125 \<and> take (length answer) resp' = answer \<and>
       mb_tables_ok mb' \<and> device_addr mb' = device_addr mb \<and>
       (answer = [] \<longrightarrow> mb' = mb \<and> fc = 0) \<and>
       (holding mb' \<noteq> holding mb \<longrightarrow> fc = 6 \<and>
          (\<exists>(a :: u16) v. unat a < 51 \<and> holding mb' = (holding mb)[unat a := v])) \<and>
       (coils mb' \<noteq> coils mb \<longrightarrow> fc = 5)"
proof -
  obtain mb' answer fc where d: "mb_core_decode mb frame mode = (mb', answer, fc)"
    by (cases "mb_core_decode mb frame mode") auto
  from decode_on_arrays [OF assms, of frame mode]
  obtain resp' where "decode_run mb frame mode resp = Some (mb', length answer, resp', fc)"
    "length resp' = 125" "take (length answer) resp' = answer" unfolding d by auto
  then show ?thesis using decode_effect [OF assms(1), of frame mode] unfolding d by auto
qed

theorem decode_stays_in_bounds_witness:
  "let (mb', answer, fc) = mb_core_decode (mb_core_init 1) [1, 6, 0, 60, 0, 1] MB_MODE_TCP
    in \<exists>resp'. decode_run (mb_core_init 1) [1, 6, 0, 60, 0, 1] MB_MODE_TCP (replicate 125 9) =
           Some (mb', length answer, resp', fc) \<and>
         length resp' = 125 \<and> length answer \<le> 125 \<and> take (length answer) resp' = answer \<and>
       mb_tables_ok mb' \<and> device_addr mb' = device_addr (mb_core_init 1) \<and>
       (answer = [] \<longrightarrow> mb' = mb_core_init 1 \<and> fc = 0) \<and>
       (holding mb' \<noteq> holding (mb_core_init 1) \<longrightarrow> fc = 6 \<and>
          (\<exists>(a :: u16) v. unat a < 51 \<and> holding mb' = (holding (mb_core_init 1))[unat a := v])) \<and>
       (coils mb' \<noteq> coils (mb_core_init 1) \<longrightarrow> fc = 5)"
  by (rule decode_stays_in_bounds) (simp_all add: mb_tables_ok_def mb_core_init_def)

end
