(* ===== verification/Spec2Isabelle.thy ===== *)
theory Spec2Isabelle
  imports Weld_Trigger_Fsm Seek_Reset_Fsm Osc_Init_Fsm Horn_Fsm Overload_Fsm Input_Fsm Freq_Fsm
    Hold_Wdt_Fsm Remote_En_Fsm Reg_Calc Cfg_Stage Modbus_Tcp_Frame Regulator_Runs App_Loop Usart1_Rx
    I2c_Unstick Modbus_Bounds
begin

text \<open>
  A verification library for the firmware under \<open>src/fw\<close>: the controller of an ultrasonic welder,
  one C program on an STM32F4 without an operating system.

  \<^bold>\<open>The program.\<close> \<open>main\<close> brings the board up, waits for the oscillator board, starts the touch panel
  and then repeats \<open>app_loop_iter\<close>. An iteration takes the panel's frames, then runs one tick of
  each subsystem in a fixed order: display, weld cycle, overload, connector inputs and emergency
  stop, horn-down, seek and reset, regulator, network, Modbus, fault alarm, buzzer. Each subsystem
  is a pure state machine (\<open>app_*_fsm.c\<close>) wrapped by glue that reads pins and clock, gates the
  machine and carries out what it asks. The subsystems meet in four places: the run command of the
  regulator (\<open>app_reg_command\<close>: panel, connector, weld cycle and bus start and stop the generator
  through it), the live configuration and its FRAM image, the register table that Modbus mirrors,
  and the output pins.

  \<^bold>\<open>Conventions.\<close> Every C integer is a word of its width, so wrap-around is as in the code; pins
  and flags of type \<open>uint8_t\<close> stay 8-bit words. The file statics of a file are one record; the
  records together are the state \<open>sys\<close> (theory Sys_State), the two network files and the serial
  port beside it make a \<open>node\<close> (Comm_Tick). A function of the code is a function of the same name on
  that state. What an iteration reads from outside is an argument: \<open>env\<close> (pins, converters, the
  millisecond counter, which is read once per iteration), \<open>io\<close> (socket, Ethernet chip, line echo).
  What the code sends is appended to a log in the state. \<open>elapsed\<close> is the code's unsigned
  subtraction of time stamps. A long C function is split at its comments or branches; the parts
  keep the names of what they do. The product model (\<open>MODEL_STD\<close> or \<open>MODEL_REMOTE\<close>, a macro in the
  code) is a field of the state, so both builds are covered; the brand is GDSONIC.

  \<^bold>\<open>Base.\<close> Prelude holds word, list and byte-order lemmas and the contracts of a ticked machine
  (\<open>tick_fsm\<close>, \<open>tick_fsm_out\<close>, \<open>edge_level\<close>, \<open>tick_phase\<close>), which every machine below interprets.
  Sys_Prelude holds the contract of a step relation with an invariant (\<open>step_system\<close>) and of the run
  command (\<open>run_control\<close>). Sys_State is the state, with the pin writers of \<open>io.c\<close> and \<open>board.c\<close>.

  \<^bold>\<open>The machines.\<close> Weld_Fsm (\<open>app_weld_fsm.c\<close>), Weld_Trigger_Fsm, Seek_Reset_Fsm, Osc_Init_Fsm (with
  the glue loop of \<open>app_osc_init.c\<close>), Horn_Fsm, Input_Fsm, Overload_Fsm (with the buzzer machine),
  Freq_Fsm, Hold_Wdt_Fsm, Remote_En_Fsm: each file whole, with an invariant from its initial
  state, its outputs as edges or levels of its state, and its timing (how many ticks each phase
  lasts, that it ends). Reg_Calc is the arithmetic of \<open>app_reg_calc.c\<close>.

  \<^bold>\<open>Storage.\<close> Fram (\<open>i2c1.c\<close>, \<open>fram.c\<close>, \<open>i2c_pot.c\<close> as addressed transfers that can fail, with the
  error counter) and Config (\<open>app_config.c\<close>): what is saved is what is loaded, a load ends in range
  whatever the memory holds and however the bus behaves. I2c_Unstick is the recovery of a stuck bus
  (\<open>i2c1_bus_unstick\<close>, \<open>i2c1_init\<close>): it pulses as often as the device needs, nine times at most. Cfg_Stage (\<open>app_cfg_stage.c\<close>): staged remote
  edits refine a finite map with a time-out, and a commit takes all of them or none.

  \<^bold>\<open>Regulator.\<close> Regulator and Regulator_Runs (\<open>app_reg.c\<close>): commands, acquisition, limits,
  publication; the generator pins follow the run, every run ends within its limits, a history of
  commands decides what runs, and the release of a touch that an automatic stop made an orphan is
  swallowed once.

  \<^bold>\<open>Panel.\<close> Dgus_Lcd (\<open>drivers/dgus_lcd.c\<close>): frames out, parser in, round trip and resynchronisation.
  Usart1_Rx (\<open>drivers/usart1.c\<close>): the DMA ring under it is a queue of bytes, so that the bytes that
  wait may be a list everywhere else, as long as at most 255 wait and no read on the empty ring
  meets the reload of the DMA counter; what such a read does is a theorem of its own.
  Lcd_Str, Lcd_Pages, Lcd_Disp, Lcd_Comm, Lcd_Input (\<open>app_lcd*.c\<close>): texts, pages, display steps,
  settings, keys. Panel: one invariant that every operation of the panel keeps. Panel_Client: the
  contract by which a predicate of another part survives every panel operation. Lcd_Boot
  (\<open>dgus_wait_ready\<close>, \<open>dgus_read_word\<close>, \<open>app_lcd_ensure_run_page\<close>, \<open>app_init\<close>): the blocking part of the
  boot, over any sequence of clock readings and arriving bytes.

  \<^bold>\<open>Glue.\<close> Horn_Buzzer_Glue, Seek_Reset_Glue, Weld_Glue, Fault_Glue: the ticks of \<open>app_horn.c\<close>,
  \<open>app_buzzer.c\<close>, \<open>app_seek_reset.c\<close>, \<open>app_weld.c\<close>, \<open>app_overload.c\<close>, \<open>app_input.c\<close> and
  \<open>app_fault_alarm.c\<close>, each with what it guarantees on the pins.

  \<^bold>\<open>Communication.\<close> Modbus_Core (\<open>app_modbus_core.c\<close>: CRC, decoder, tables) and Modbus_Bounds
  (the same decoder over its arrays, every access checked), Modbus_Tcp_Frame
  (framing), Mb_Rtu (\<open>drivers/usart6_mb.c\<close>: frames cut from the DMA ring by silence), Modbus_Glue and
  Modbus_Writes (\<open>app_modbus.c\<close>: mirror and write chain; \<open>reg_map\<close> is the register map, with what
  a read shows, what a write promises and which stored values fit the register; the chain keeps the
  promise except that a write of the value shown is taken for no change; \<open>edit_ops\<close>, \<open>write_ops\<close> are the contracts by which a predicate survives a
  write), Modbus_Tcp (\<open>app_modbus_tcp.c\<close>; \<open>serve\<close> is the queue of requests that the byte accumulator
  refines), Eth (\<open>app_eth.c\<close>; \<open>in_force\<close> says from the conversation with the chip and the DHCP client
  whether an address is in force, and the server is available exactly then), Comm_Tick (\<open>app_modbus_tick\<close>: one tick over either link).

  \<^bold>\<open>The whole.\<close> Plant joins the invariants of the parts. App_Loop is the iteration, the boot order of
  \<open>main\<close> and the machine they make with the interrupts (\<open>machine_step\<close>: bytes from the panel and the
  line, captures, bus outcomes, iterations); its invariant, the panel's included, holds in every reachable state, and
  properties of one iteration, such as the emergency stop, are stated over all its parts.

  \<^bold>\<open>Bounds and fuel.\<close> Loops recurse on their data where they can: the panel drain on the bytes left
  in the ring, the blocking waits on the sequence of clock readings (None when it runs out; the
  boot property shows that 7400 + 41 G milliseconds of readings at most G apart suffice), the TCP
  walk on the four frames of a poll. The copy loop of the serial port has 256 turns, the size of
  its ring. The loop that waits for the oscillator board has fuel, and a bound on it is proved.

  \<^bold>\<open>Not modelled.\<close> The drivers below the models (\<open>adc1.c\<close>, \<open>spi1.c\<close>, \<open>tim.c\<close>, \<open>usart.c\<close>,
  \<open>mon_usart6.c\<close>, \<open>freq_ic.c\<close>, the registers behind \<open>i2c1.c\<close> and \<open>io.c\<close>), clock and interrupt set-up,
  the vendored HAL, CMSIS and WIZnet code: peripheral access whose results are inputs here. The log
  line \<open>mon_printf\<close> and the once-a-second report of bus errors, which only print. The hardware
  watchdog. An interrupt acts between two iterations, never inside one, and the counter does not
  advance within an iteration; \<open>src/ref\<close> (an earlier firmware, not built), tests and tools are
  outside the program.
\<close>

end
